(* ===== verification/Prelude.thy ===== *)
theory Prelude
  imports Main "HOL-Library.Word" "HOL-Library.List_Lexorder" "HOL-Library.Char_ord"
begin

text \<open>
  Shared vocabulary of the development.

  \<^item> \<open>failure\<close> and \<open>'a result\<close>: how a call of the Rust code can fail to return a value.
    The model is that of a release build, where \<open>debug_assert!\<close> is compiled out and integer
    arithmetic wraps; a panic (index out of bounds, calendar overflow) and a loop that never
    ends are values.
  \<^item> \<open>host\<close>: everything the pure \<open>session\<close> crate takes from outside the repository
    (\<open>chrono\<close>, \<open>serde_json\<close> and the wall clock), as one record of functions which the
    handlers get as an argument. JSON values are a type variable.
  \<^item> the string functions of the Rust standard library that timer identifiers go through:
    decimal printing and parsing of \<open>usize\<close>, \<open>strip_prefix\<close>, \<open>rsplitn(2, ':')\<close>.
  \<^item> two locales for folds over a log that may fail: what one step keeps, a run keeps.
\<close>

named_theorems handler_defs "definitions of the handlers of the transition function"
named_theorems frame "which fields an operation leaves alone"

section \<open>Failure and results\<close>

datatype failure = Index_out_of_bounds | Date_out_of_range | Loops_forever | Deadlocked

type_synonym 'a result = "failure + 'a"

definition bind_result :: "'a result \<Rightarrow> ('a \<Rightarrow> 'b result) \<Rightarrow> 'b result" where
  "bind_result r f = (case r of Inl e \<Rightarrow> Inl e | Inr x \<Rightarrow> f x)"

lemma bind_result_simps [simp]:
  "bind_result (Inl e) f = Inl e"
  "bind_result (Inr x) f = f x"
  by (simp_all add: bind_result_def)

lemma bind_result_Inr:
  "bind_result r f = Inr y \<longleftrightarrow> (\<exists>x. r = Inr x \<and> f x = Inr y)"
  by (cases r) auto

lemma bind_result_Inl:
  "bind_result r f = Inl e \<longleftrightarrow> r = Inl e \<or> (\<exists>x. r = Inr x \<and> f x = Inl e)"
  by (cases r) auto

definition ok_result :: "('a \<Rightarrow> bool) \<Rightarrow> 'a result \<Rightarrow> bool" where
  "ok_result P r \<longleftrightarrow> (case r of Inl e \<Rightarrow> True | Inr x \<Rightarrow> P x)"

lemma ok_result_simps [simp]:
  "ok_result P (Inl e) = True"
  "ok_result P (Inr x) = P x"
  by (simp_all add: ok_result_def)

section \<open>Machine integers\<close>

type_synonym u64 = "64 word"

text \<open>
  \<open>usize\<close> values (step indices, counts) are naturals below \<open>2 ^ 64\<close>; the one addition the
  modelled code performs on them wraps as a release build does.
\<close>

definition usize_add :: "nat \<Rightarrow> nat \<Rightarrow> nat" where
  "usize_add a b = (a + b) mod 2 ^ 64"

lemma usize_add_small: "a + b < 2 ^ 64 \<Longrightarrow> usize_add a b = a + b"
  by (simp add: usize_add_def)

section \<open>What comes from outside the repository\<close>

text \<open>
  An instant of \<open>chrono\<close>; the model never looks inside it except through \<open>host\<close>.
  \<open>clock i\<close> is what the \<open>i\<close>-th call of \<open>Utc::now()\<close> made while one event is handled
  returns, so two readings in one handler may differ.
\<close>

type_synonym datetime = int

record 'j host =
  clock :: "nat \<Rightarrow> datetime"
  timestamp_millis :: "datetime \<Rightarrow> int"
  date_add_ms :: "datetime \<Rightarrow> int \<Rightarrow> datetime option"
  parse_rfc3339 :: "string \<Rightarrow> datetime option"
  j_null :: 'j
  j_str :: "string \<Rightarrow> 'j"
  j_int :: "int \<Rightarrow> 'j"
  j_obj :: "(string \<times> 'j) list \<Rightarrow> 'j"
  j_get :: "'j \<Rightarrow> string \<Rightarrow> 'j option"
  j_index :: "'j \<Rightarrow> string \<Rightarrow> 'j"
  j_as_str :: "'j \<Rightarrow> string option"
  j_as_i64 :: "'j \<Rightarrow> int option"
  j_as_u64 :: "'j \<Rightarrow> u64 option"

text \<open>The host as seen by a callee after the caller has read the clock once.\<close>

definition after_reading :: "'j host \<Rightarrow> 'j host" where
  "after_reading E = E\<lparr>clock := (\<lambda>i. clock E (Suc i))\<rparr>"

text \<open>\<open>Utc::now().timestamp_millis() as u64\<close>, for the \<open>i\<close>-th reading.\<close>

definition now_ms :: "'j host \<Rightarrow> nat \<Rightarrow> u64" where
  "now_ms E i = word_of_int (timestamp_millis E (clock E i))"

text \<open>
  The documented behaviour of \<open>serde_json\<close> objects and strings that the cross-session
  messages rely on: a field of an object just built is read back, and a string value is a string.
\<close>

definition json_laws :: "'j host \<Rightarrow> bool" where
  "json_laws E \<longleftrightarrow>
     (\<forall>kvs k. j_get E (j_obj E kvs) k = map_of (rev kvs) k) \<and>
     (\<forall>s. j_as_str E (j_str E s) = Some s)"

section \<open>Strings of the standard library\<close>

definition digit_char :: "nat \<Rightarrow> char" where
  "digit_char d = char_of (48 + d)"

fun nat_str :: "nat \<Rightarrow> string" where
  "nat_str n = (if n < 10 then [digit_char n] else nat_str (n div 10) @ [digit_char (n mod 10)])"

declare nat_str.simps [simp del]

definition char_digit :: "char \<Rightarrow> nat option" where
  "char_digit c = (let k = of_char c in if 48 \<le> k \<and> k \<le> (57 :: nat) then Some (k - 48) else None)"

text \<open>The digit loop of \<open>usize::from_str\<close>: every multiplication and addition is checked.\<close>

fun parse_digits :: "nat \<Rightarrow> string \<Rightarrow> nat option" where
  "parse_digits acc [] = Some acc"
| "parse_digits acc (c # cs) =
     (case char_digit c of
        None \<Rightarrow> None
      | Some d \<Rightarrow> if acc * 10 + d < 2 ^ 64 then parse_digits (acc * 10 + d) cs else None)"

definition parse_usize :: "string \<Rightarrow> nat option" where
  "parse_usize s =
     (case s of
        [] \<Rightarrow> None
      | c # cs \<Rightarrow>
          if c = CHR ''+'' then (if cs = [] then None else parse_digits 0 cs)
          else parse_digits 0 s)"

definition strip_prefix :: "string \<Rightarrow> string \<Rightarrow> string option" where
  "strip_prefix p s = (if take (length p) s = p then Some (drop (length p) s) else None)"

definition starts_with :: "string \<Rightarrow> string \<Rightarrow> bool" where
  "starts_with p s \<longleftrightarrow> take (length p) s = p"

text \<open>
  \<open>s.rsplitn(2, ':')\<close> with both parts required: what follows the last colon, and what
  precedes it.
\<close>

definition rsplit_colon :: "string \<Rightarrow> (string \<times> string) option" where
  "rsplit_colon s =
     (case dropWhile (\<lambda>c. c \<noteq> CHR '':'') (rev s) of
        [] \<Rightarrow> None
      | _ # pre \<Rightarrow> Some (rev (takeWhile (\<lambda>c. c \<noteq> CHR '':'') (rev s)), rev pre))"

subsection \<open>Printing and parsing are inverse\<close>

lemma of_char_digit_char: "d < 10 \<Longrightarrow> of_char (digit_char d) = (48 + d :: nat)"
  by (simp add: digit_char_def of_char_of)

lemma char_digit_digit_char: "d < 10 \<Longrightarrow> char_digit (digit_char d) = Some d"
  by (simp add: char_digit_def of_char_digit_char)

lemma digit_char_plain:
  assumes "d < 10"
  shows "digit_char d \<noteq> CHR '':''" and "digit_char d \<noteq> CHR ''+''"
  using of_char_digit_char [OF assms] assms by auto

lemma nat_str_nonempty [simp]: "nat_str n \<noteq> []"
  by (subst nat_str.simps) simp

lemma nat_str_plain: "c \<in> set (nat_str n) \<Longrightarrow> c \<noteq> CHR '':'' \<and> c \<noteq> CHR ''+''"
proof (induction n rule: nat_str.induct)
  case (1 n)
  then show ?case
    using digit_char_plain by (subst (asm) (2) nat_str.simps) (auto split: if_splits)
qed

lemma parse_digits_append:
  "parse_digits acc (xs @ ys) =
     (case parse_digits acc xs of None \<Rightarrow> None | Some a \<Rightarrow> parse_digits a ys)"
  by (induction xs arbitrary: acc) (auto split: option.splits)

lemma parse_digits_nat_str: "n < 2 ^ 64 \<Longrightarrow> parse_digits 0 (nat_str n) = Some n"
proof (induction n rule: nat_str.induct)
  case (1 n)
  show ?case
  proof (cases "n < 10")
    case True
    then show ?thesis
      by (subst nat_str.simps) (simp add: char_digit_digit_char)
  next
    case False
    have small: "n div 10 < 2 ^ 64" using "1.prems" by auto
    have "parse_digits 0 (nat_str (n div 10)) = Some (n div 10)"
      using "1.IH" [OF False small] .
    then show ?thesis
      using False "1.prems" by (subst nat_str.simps)
        (simp add: parse_digits_append char_digit_digit_char)
  qed
qed

lemma parse_usize_nat_str: "n < 2 ^ 64 \<Longrightarrow> parse_usize (nat_str n) = Some n"
  using parse_digits_nat_str [of n] nat_str_plain [of "hd (nat_str n)" n] nat_str_nonempty [of n]
  unfolding parse_usize_def by (cases "nat_str n") auto

lemma strip_prefix_append [simp]: "strip_prefix p (p @ s) = Some s"
  by (simp add: strip_prefix_def)

lemma starts_with_append [simp]: "starts_with p (p @ s)"
  by (simp add: starts_with_def)

lemma rsplit_colon_last:
  assumes "CHR '':'' \<notin> set suf"
  shows "rsplit_colon (pre @ CHR '':'' # suf) = Some (suf, pre)"
proof -
  have "\<forall>c \<in> set (rev suf). c \<noteq> CHR '':''" using assms by auto
  then have "dropWhile (\<lambda>c. c \<noteq> CHR '':'') (rev suf @ CHR '':'' # rev pre) = CHR '':'' # rev pre"
    and "takeWhile (\<lambda>c. c \<noteq> CHR '':'') (rev suf @ CHR '':'' # rev pre) = rev suf"
    by (subst dropWhile_append2 takeWhile_append2, use assms in auto)+
  then show ?thesis
    by (simp add: rsplit_colon_def)
qed

lemma rsplit_colon_nat: "rsplit_colon (pre @ CHR '':'' # nat_str n) = Some (nat_str n, pre)"
  by (rule rsplit_colon_last) (use nat_str_plain in blast)

section \<open>Folds over a log\<close>

text \<open>\<open>run_steps step s es\<close> applies \<open>step\<close> to the entries in order and stops at a failure.\<close>

fun run_steps :: "('s \<Rightarrow> 'e \<Rightarrow> 's result) \<Rightarrow> 's \<Rightarrow> 'e list \<Rightarrow> 's result" where
  "run_steps step s [] = Inr s"
| "run_steps step s (e # es) = bind_result (step s e) (\<lambda>t. run_steps step t es)"

lemma run_steps_append:
  "run_steps step s (xs @ ys) = bind_result (run_steps step s xs) (\<lambda>t. run_steps step t ys)"
proof (induction xs arbitrary: s)
  case Nil
  then show ?case by simp
next
  case (Cons x xs)
  then show ?case by (cases "step s x") simp_all
qed

text \<open>A machine whose steps, on the entries it accepts, keep an invariant.\<close>

locale invariant_machine =
  fixes step :: "'s \<Rightarrow> 'e \<Rightarrow> 's result"
    and accepts :: "'s \<Rightarrow> 'e \<Rightarrow> bool"
    and inv :: "'s \<Rightarrow> bool"
  assumes step_inv: "inv s \<Longrightarrow> accepts s e \<Longrightarrow> step s e = Inr t \<Longrightarrow> inv t"
begin

fun accepts_all :: "'s \<Rightarrow> 'e list \<Rightarrow> bool" where
  "accepts_all s [] = True"
| "accepts_all s (e # es) = (accepts s e \<and> (case step s e of Inl _ \<Rightarrow> True | Inr t \<Rightarrow> accepts_all t es))"

lemma run_inv: "inv s \<Longrightarrow> accepts_all s es \<Longrightarrow> run_steps step s es = Inr t \<Longrightarrow> inv t"
proof (induction es arbitrary: s)
  case Nil
  then show ?case by simp
next
  case (Cons e es)
  then obtain u where u: "step s e = Inr u" "run_steps step u es = Inr t"
    by (auto simp: bind_result_Inr)
  with Cons.prems have "inv u" "accepts_all u es"
    by (auto intro: step_inv)
  then show ?case using u(2) by (rule Cons.IH)
qed

lemma accepts_everything: "(\<And>s e. accepts s e) \<Longrightarrow> accepts_all s es"
  by (induction es arbitrary: s) (auto split: sum.splits)

end

text \<open>A machine whose steps only move up a preorder.\<close>

locale monotone_machine =
  fixes step :: "'s \<Rightarrow> 'e \<Rightarrow> 's result"
    and accepts :: "'e \<Rightarrow> bool"
    and below :: "'s \<Rightarrow> 's \<Rightarrow> bool"
  assumes below_refl: "below s s"
    and below_trans: "below s t \<Longrightarrow> below t u \<Longrightarrow> below s u"
    and step_below: "accepts e \<Longrightarrow> step s e = Inr t \<Longrightarrow> below s t"
begin

lemma run_below: "list_all accepts es \<Longrightarrow> run_steps step s es = Inr t \<Longrightarrow> below s t"
proof (induction es arbitrary: s)
  case Nil
  then show ?case by (simp add: below_refl)
next
  case (Cons e es)
  then obtain u where u: "step s e = Inr u" "run_steps step u es = Inr t"
    by (auto simp: bind_result_Inr)
  from Cons.prems have acc: "accepts e" "list_all accepts es" by simp_all
  have "below s u" using acc(1) u(1) by (rule step_below)
  moreover have "below u t" using acc(2) u(2) by (rule Cons.IH)
  ultimately show ?case by (rule below_trans)
qed

end

end
