(* ===== verification/Btree.thy ===== *)
theory Btree
  imports Prelude
begin

text \<open>
  The ordered maps of the program. \<open>std::collections::BTreeMap\<close> is a map whose iteration
  order is the order of its keys, and the transition function depends on that order (the deciding
  voter of a ballot, the order of effects). A map is the list of its entries in key order; the
  operations are those of the standard library that the \<open>session\<close> crate calls.

  The locale \<open>ordered_map\<close> states what a client may rely on (lookup after insertion and
  removal, iteration in strictly increasing key order); its lemmas are proved from those laws alone
  and are transferred to the entry lists by the interpretation \<open>bt\<close>.
\<close>

named_theorems btree "lookup and well-formedness of the ordered maps"

type_synonym ('k, 'v) btree = "('k \<times> 'v) list"

section \<open>Operations\<close>

definition bt_get :: "('k, 'v) btree \<Rightarrow> 'k \<Rightarrow> 'v option" where
  "bt_get m k = map_of m k"

fun bt_insert :: "'k::linorder \<Rightarrow> 'v \<Rightarrow> ('k, 'v) btree \<Rightarrow> ('k, 'v) btree" where
  "bt_insert k v [] = [(k, v)]"
| "bt_insert k v ((k', v') # m) =
     (if k < k' then (k, v) # (k', v') # m
      else if k = k' then (k, v) # m
      else (k', v') # bt_insert k v m)"

definition bt_remove :: "'k \<Rightarrow> ('k, 'v) btree \<Rightarrow> ('k, 'v) btree" where
  "bt_remove k m = filter (\<lambda>e. fst e \<noteq> k) m"

text \<open>\<open>if let Some(v) = m.get_mut(&k) { *v = f(v) }\<close>\<close>

definition bt_modify :: "'k \<Rightarrow> ('v \<Rightarrow> 'v) \<Rightarrow> ('k, 'v) btree \<Rightarrow> ('k, 'v) btree" where
  "bt_modify k f m = map (\<lambda>(k', v). (k', if k' = k then f v else v)) m"

text \<open>\<open>for v in m.values_mut() { *v = f(v) }\<close>\<close>

definition bt_map_values :: "('v \<Rightarrow> 'w) \<Rightarrow> ('k, 'v) btree \<Rightarrow> ('k, 'w) btree" where
  "bt_map_values f m = map (\<lambda>(k, v). (k, f v)) m"

text \<open>\<open>m.entry(k).or_insert_with(|| v)\<close>\<close>

definition bt_or_insert :: "'k::linorder \<Rightarrow> 'v \<Rightarrow> ('k, 'v) btree \<Rightarrow> ('k, 'v) btree" where
  "bt_or_insert k v m = (case bt_get m k of None \<Rightarrow> bt_insert k v m | Some _ \<Rightarrow> m)"

text \<open>\<open>m.entry(k).and_modify(f).or_insert_with(|| v)\<close>\<close>

definition bt_modify_or_insert ::
  "'k::linorder \<Rightarrow> ('v \<Rightarrow> 'v) \<Rightarrow> 'v \<Rightarrow> ('k, 'v) btree \<Rightarrow> ('k, 'v) btree" where
  "bt_modify_or_insert k f v m =
     (case bt_get m k of None \<Rightarrow> bt_insert k v m | Some _ \<Rightarrow> bt_modify k f m)"

definition bt_keys :: "('k, 'v) btree \<Rightarrow> 'k list" where
  "bt_keys m = map fst m"

definition bt_values :: "('k, 'v) btree \<Rightarrow> 'v list" where
  "bt_values m = map snd m"

text \<open>Keys strictly increasing: what the standard library's type guarantees.\<close>

definition bt_ok :: "('k::linorder, 'v) btree \<Rightarrow> bool" where
  "bt_ok m \<longleftrightarrow> sorted_wrt (<) (map fst m)"

section \<open>The interface\<close>

locale ordered_map =
  fixes emp :: "'m"
    and get :: "'m \<Rightarrow> 'k::linorder \<Rightarrow> 'v option"
    and ins :: "'k \<Rightarrow> 'v \<Rightarrow> 'm \<Rightarrow> 'm"
    and del :: "'k \<Rightarrow> 'm \<Rightarrow> 'm"
    and entries :: "'m \<Rightarrow> ('k \<times> 'v) list"
    and ok :: "'m \<Rightarrow> bool"
  assumes ok_emp: "ok emp"
    and ok_ins: "ok m \<Longrightarrow> ok (ins k v m)"
    and ok_del: "ok m \<Longrightarrow> ok (del k m)"
    and get_emp: "get emp k = None"
    and get_ins: "ok m \<Longrightarrow> get (ins k v m) k' = (if k' = k then Some v else get m k')"
    and get_del: "ok m \<Longrightarrow> get (del k m) k' = (if k' = k then None else get m k')"
    and entries_get: "ok m \<Longrightarrow> get m k = map_of (entries m) k"
    and entries_sorted: "ok m \<Longrightarrow> sorted_wrt (<) (map fst (entries m))"
    and entries_inject: "ok m \<Longrightarrow> ok m' \<Longrightarrow> entries m = entries m' \<Longrightarrow> m = m'"
begin

lemma keys_of_get: "ok m \<Longrightarrow> set (map fst (entries m)) = {k. get m k \<noteq> None}"
  by (auto simp: entries_get map_of_eq_None_iff)

lemma entries_canonical:
  assumes "ok m"
  shows "entries m = map (\<lambda>k. (k, the (get m k))) (map fst (entries m))"
proof -
  have "distinct (map fst (entries m))"
    using entries_sorted [OF assms] by (simp add: strict_sorted_iff)
  then have "map (\<lambda>e. (fst e, the (get m (fst e)))) (entries m) = entries m"
    using assms by (intro map_idI) (auto simp: entries_get)
  then show ?thesis by (simp add: comp_def)
qed

text \<open>A map is determined by its lookups: iteration order carries no further information.\<close>

lemma map_extensionality:
  assumes "ok m" and "ok m'" and same: "\<And>k. get m k = get m' k"
  shows "m = m'"
proof -
  have "map fst (entries m) = map fst (entries m')"
    using assms by (intro strict_sorted_equal) (simp_all add: entries_sorted keys_of_get del: set_map)
  then have "entries m = entries m'"
    using entries_canonical [OF assms(1)] entries_canonical [OF assms(2)] same by simp
  then show ?thesis
    using assms(1,2) by (blast intro: entries_inject)
qed

lemma ins_absorb: "ok m \<Longrightarrow> get m k = Some v \<Longrightarrow> ins k v m = m"
  by (rule map_extensionality) (auto simp: ok_ins get_ins)

lemma del_absorb: "ok m \<Longrightarrow> get m k = None \<Longrightarrow> del k m = m"
  by (rule map_extensionality) (auto simp: ok_del get_del)

lemma ins_overwrite: "ok m \<Longrightarrow> ins k v (ins k w m) = ins k v m"
  by (rule map_extensionality) (auto simp: ok_ins get_ins)

lemma ins_commute: "ok m \<Longrightarrow> k \<noteq> l \<Longrightarrow> ins k v (ins l w m) = ins l w (ins k v m)"
  by (rule map_extensionality) (auto simp: ok_ins get_ins)

lemma del_ins: "ok m \<Longrightarrow> del k (ins k v m) = del k m"
  by (rule map_extensionality) (auto simp: ok_ins ok_del get_ins get_del)

end

section \<open>The entry lists provide it\<close>

lemma map_of_bt_insert: "map_of (bt_insert k v m) = (map_of m)(k \<mapsto> v)"
  by (induction k v m rule: bt_insert.induct) (auto simp: fun_eq_iff)

lemma bt_get_insert [btree, simp]:
  "bt_get (bt_insert k v m) k' = (if k' = k then Some v else bt_get m k')"
  by (simp add: bt_get_def map_of_bt_insert)

lemma bt_get_remove [btree, simp]:
  "bt_get (bt_remove k m) k' = (if k' = k then None else bt_get m k')"
  unfolding bt_get_def bt_remove_def by (induction m) auto

lemma bt_get_modify [btree, simp]:
  "bt_get (bt_modify k f m) k' = (if k' = k then map_option f (bt_get m k) else bt_get m k')"
  unfolding bt_get_def bt_modify_def by (induction m) auto

lemma bt_get_map_values [btree, simp]:
  "bt_get (bt_map_values f m) k = map_option f (bt_get m k)"
  unfolding bt_get_def bt_map_values_def by (induction m) auto

lemma bt_get_or_insert [btree, simp]:
  "bt_get (bt_or_insert k v m) k' =
     (if k' = k \<and> bt_get m k = None then Some v else bt_get m k')"
  by (auto simp: bt_or_insert_def split: option.splits)

lemma bt_get_modify_or_insert [btree, simp]:
  "bt_get (bt_modify_or_insert k f v m) k' =
     (if k' = k then Some (case bt_get m k of None \<Rightarrow> v | Some w \<Rightarrow> f w) else bt_get m k')"
  by (auto simp: bt_modify_or_insert_def split: option.splits)

lemma bt_get_Nil [btree, simp]: "bt_get [] k = None"
  by (simp add: bt_get_def)

lemma set_keys_insert: "set (map fst (bt_insert k v m)) = insert k (set (map fst m))"
  by (induction k v m rule: bt_insert.induct) auto

lemma bt_ok_insert [btree, simp]: "bt_ok m \<Longrightarrow> bt_ok (bt_insert k v m)"
proof (induction k v m rule: bt_insert.induct)
  case (1 k v)
  then show ?case by (simp add: bt_ok_def)
next
  case (2 k v k' v' m)
  then have IH: "k \<noteq> k' \<Longrightarrow> \<not> k < k' \<Longrightarrow> bt_ok (bt_insert k v m)" by (auto simp: bt_ok_def)
  show ?case
    using "2.prems" IH set_keys_insert [of k v m] by (fastforce simp: bt_ok_def)
qed

lemma bt_ok_Nil [btree, simp]: "bt_ok []"
  by (simp add: bt_ok_def)

lemma bt_ok_remove [btree, simp]: "bt_ok m \<Longrightarrow> bt_ok (bt_remove k m)"
  unfolding bt_ok_def bt_remove_def by (induction m) auto

lemma bt_keys_modify [simp]: "map fst (bt_modify k f m) = map fst m"
  by (simp add: bt_modify_def split_def)

lemma bt_keys_map_values [simp]: "map fst (bt_map_values f m) = map fst m"
  by (simp add: bt_map_values_def split_def)

lemma bt_ok_modify [btree, simp]: "bt_ok (bt_modify k f m) = bt_ok m"
  by (simp add: bt_ok_def)

lemma bt_ok_map_values [btree, simp]: "bt_ok (bt_map_values f m) = bt_ok m"
  by (simp add: bt_ok_def)

lemma bt_ok_or_insert [btree, simp]: "bt_ok m \<Longrightarrow> bt_ok (bt_or_insert k v m)"
  by (simp add: bt_or_insert_def split: option.splits)

lemma bt_ok_modify_or_insert [btree, simp]: "bt_ok m \<Longrightarrow> bt_ok (bt_modify_or_insert k f v m)"
  by (simp add: bt_modify_or_insert_def split: option.splits)

interpretation bt: ordered_map "[]" bt_get bt_insert bt_remove "\<lambda>m. m" bt_ok
  by unfold_locales (simp_all, simp_all add: bt_get_def bt_ok_def)

lemma bt_values_get: "v \<in> set (bt_values m) \<Longrightarrow> bt_ok m \<Longrightarrow> \<exists>k. bt_get m k = Some v"
  by (fastforce simp: bt_values_def bt_get_def bt_ok_def strict_sorted_iff)

lemma bt_get_entry: "bt_get m k = Some v \<Longrightarrow> (k, v) \<in> set m"
  by (simp add: bt_get_def map_of_SomeD)

lemma bt_entry_get: "bt_ok m \<Longrightarrow> (k, v) \<in> set m \<Longrightarrow> bt_get m k = Some v"
  by (simp add: bt_get_def bt_ok_def strict_sorted_iff)

end
