(* ===== verification/Protocol_Types.thy ===== *)
theory Protocol_Types
  imports Btree
begin

text \<open>
  The wire types of \<open>crates/protocol/src/types.rs\<close> that the session machine reads and
  projects: roles and their authority ladder, the approval policies with their evaluation, the
  snapshot a client sees, and entity handles with their URI syntax. Field names carry a prefix
  where Rust reuses one name in several structs.
\<close>

section \<open>Context entries and summaries\<close>

datatype context_entry_kind = Fact | Hypothesis | Question | Constraint | Decision

record context_entry =
  ce_id :: string
  ce_kind :: context_entry_kind
  ce_content :: string
  ce_actor_id :: string
  ce_timestamp :: datetime
  ce_resolved :: bool
  ce_resolved_by :: "string option"
  ce_resolution_note :: "string option"
  ce_seq :: int

record artifact_summary =
  as_id :: string
  as_name :: string
  as_artifact_type :: string

datatype session_status = StatusActive | StatusSuspended | StatusArchived

section \<open>Roles\<close>

datatype member_role = Owner | Collaborator | Observer | Agent

fun role_can_approve :: "member_role \<Rightarrow> bool" where
  "role_can_approve Owner = True"
| "role_can_approve Collaborator = True"
| "role_can_approve _ = False"

fun can_transfer_ownership :: "member_role \<Rightarrow> bool" where
  "can_transfer_ownership Owner = True"
| "can_transfer_ownership _ = False"

definition can_delete_artifact :: "member_role \<Rightarrow> bool \<Rightarrow> bool" where
  "can_delete_artifact r is_creator \<longleftrightarrow> r = Owner \<or> (r = Collaborator \<and> is_creator)"

fun rank :: "member_role \<Rightarrow> nat" where
  "rank Owner = 3"
| "rank Collaborator = 2"
| "rank Observer = 1"
| "rank Agent = 0"

definition satisfies :: "member_role \<Rightarrow> member_role \<Rightarrow> bool" where
  "satisfies r min_role \<longleftrightarrow> rank min_role \<le> rank r"

definition can_invite_as :: "member_role \<Rightarrow> member_role \<Rightarrow> bool" where
  "can_invite_as r target_role \<longleftrightarrow> rank target_role \<le> rank r"

definition role_from_str :: "string \<Rightarrow> member_role option" where
  "role_from_str s =
     (if s = ''owner'' then Some Owner
      else if s = ''collaborator'' then Some Collaborator
      else if s = ''observer'' then Some Observer
      else if s = ''agent'' then Some Agent
      else None)"

text \<open>The authority ladder as the order of the type: \<open>satisfies r m\<close> is \<open>m \<le> r\<close>.\<close>

instantiation member_role :: linorder
begin

definition less_eq_member_role :: "member_role \<Rightarrow> member_role \<Rightarrow> bool" where
  "less_eq_member_role a b \<longleftrightarrow> rank a \<le> rank b"

definition less_member_role :: "member_role \<Rightarrow> member_role \<Rightarrow> bool" where
  "less_member_role a b \<longleftrightarrow> rank a < rank b"

instance
proof
  fix a b :: member_role
  show "a \<le> b \<Longrightarrow> b \<le> a \<Longrightarrow> a = b"
    by (cases a; cases b) (simp_all add: less_eq_member_role_def)
qed (auto simp: less_eq_member_role_def less_member_role_def)

end

lemma satisfies_order: "satisfies r m \<longleftrightarrow> m \<le> r"
  by (simp add: satisfies_def less_eq_member_role_def)

section \<open>Approval policies\<close>

datatype approval_state = ASPending | ASClaimed | ASApproved | ASDenied | ASContested | ASExpired

datatype vote = Approve | Deny

datatype approval_policy = SingleVote | Majority | Unanimous

text \<open>\<open>votes.values().filter(|v| **v == w).count()\<close>; the map is given by its entries.\<close>

definition count_votes :: "'v \<Rightarrow> ('k, 'v) btree \<Rightarrow> nat" where
  "count_votes w votes = length (filter (\<lambda>v. v = w) (bt_values votes))"

definition evaluate :: "approval_policy \<Rightarrow> (string, vote) btree \<Rightarrow> nat \<Rightarrow> approval_state" where
  "evaluate p votes eligible_count =
     (let approve = count_votes Approve votes;
          deny = count_votes Deny votes
      in case p of
           SingleVote \<Rightarrow>
             if deny = 0 \<and> approve > 0 then ASApproved
             else if approve = 0 \<and> deny > 0 then ASDenied
             else if approve > 0 \<and> deny > 0 then ASContested
             else ASPending
         | Majority \<Rightarrow>
             let threshold = eligible_count div 2 + 1
             in if threshold \<le> approve then ASApproved
                else if threshold \<le> deny then ASDenied
                else if approve > 0 \<and> deny > 0 then ASContested
                else ASPending
         | Unanimous \<Rightarrow>
             if approve = eligible_count then ASApproved
             else if deny > 0 then ASDenied
             else ASPending)"

section \<open>Snapshots\<close>

datatype agent_status = AgentRunning | AgentWaiting | AgentBlocked | AgentIdle | AgentError

record session_member =
  sm_actor_id :: string
  sm_name :: string
  sm_role :: member_role
  sm_attached :: bool
  sm_status :: "agent_status option"

record 'j pending_approval =
  pa_approval_id :: string
  pa_tool :: string
  pa_requested_by :: string
  pa_state :: approval_state
  pa_votes :: "(string, vote) btree"
  pa_claimed_by :: "string option"
  pa_expires_at :: "datetime option"
  pa_arguments :: 'j

record 'j session_snapshot =
  sn_owner :: string
  sn_owner_name :: string
  sn_status :: session_status
  sn_name :: string
  sn_approval_policy :: string
  sn_members :: "session_member list"
  sn_pending_approvals :: "'j pending_approval list"
  sn_artifacts :: "artifact_summary list"
  sn_context :: "context_entry list"

section \<open>Entity handles\<close>

datatype entity_handle =
    ESession string
  | EArtifact string
  | EActor string
  | EContext string
  | ECap string
  | EApproval string
  | EInvite string

text \<open>\<open>uri.split_once('/')\<close>: around the first slash.\<close>

definition split_once_slash :: "string \<Rightarrow> (string \<times> string) option" where
  "split_once_slash s =
     (case dropWhile (\<lambda>c. c \<noteq> CHR ''/'') s of
        [] \<Rightarrow> None
      | _ # rest \<Rightarrow> Some (takeWhile (\<lambda>c. c \<noteq> CHR ''/'') s, rest))"

definition from_uri :: "string \<Rightarrow> entity_handle option" where
  "from_uri uri =
     (case split_once_slash uri of
        None \<Rightarrow> None
      | Some (kind, i) \<Rightarrow>
          if i = [] then None
          else if kind = ''session'' then Some (ESession i)
          else if kind = ''artifact'' then Some (EArtifact i)
          else if kind = ''actor'' then Some (EActor i)
          else if kind = ''context'' then Some (EContext i)
          else if kind = ''cap'' then Some (ECap i)
          else if kind = ''approval'' then Some (EApproval i)
          else if kind = ''invite'' then Some (EInvite i)
          else None)"

fun entity_type :: "entity_handle \<Rightarrow> string" where
  "entity_type (ESession _) = ''session''"
| "entity_type (EArtifact _) = ''artifact''"
| "entity_type (EActor _) = ''actor''"
| "entity_type (EContext _) = ''context''"
| "entity_type (ECap _) = ''cap''"
| "entity_type (EApproval _) = ''approval''"
| "entity_type (EInvite _) = ''invite''"

fun entity_id :: "entity_handle \<Rightarrow> string" where
  "entity_id (ESession i) = i"
| "entity_id (EArtifact i) = i"
| "entity_id (EActor i) = i"
| "entity_id (EContext i) = i"
| "entity_id (ECap i) = i"
| "entity_id (EApproval i) = i"
| "entity_id (EInvite i) = i"

definition entity_uri :: "entity_handle \<Rightarrow> string" where
  "entity_uri h = entity_type h @ ''/'' @ entity_id h"

fun permits_untrusted_dispatch :: "entity_handle \<Rightarrow> bool" where
  "permits_untrusted_dispatch (ESession _) = True"
| "permits_untrusted_dispatch (EArtifact _) = True"
| "permits_untrusted_dispatch (EContext _) = True"
| "permits_untrusted_dispatch (EApproval _) = True"
| "permits_untrusted_dispatch (EActor _) = True"
| "permits_untrusted_dispatch (ECap _) = True"
| "permits_untrusted_dispatch (EInvite _) = True"

lemma split_once_slash_parts:
  assumes "split_once_slash u = Some (kind, i)"
  shows "u = kind @ CHR ''/'' # i"
proof (cases "dropWhile (\<lambda>c. c \<noteq> CHR ''/'') u")
  case Nil
  with assms show ?thesis by (simp add: split_once_slash_def)
next
  case (Cons c rest)
  moreover have "c = CHR ''/''"
    using Cons hd_dropWhile [of "\<lambda>c. c \<noteq> CHR ''/''" u] by simp
  ultimately show ?thesis
    using assms takeWhile_dropWhile_id [of "\<lambda>c. c \<noteq> CHR ''/''" u]
    by (simp add: split_once_slash_def)
qed

lemma from_uri_entity_uri:
  "from_uri (entity_uri h) = (if entity_id h = [] then None else Some h)"
  by (cases h) (simp_all add: from_uri_def entity_uri_def split_once_slash_def)

lemma entity_uri_from_uri:
  assumes "from_uri u = Some h"
  shows "entity_uri h = u"
proof -
  obtain kind i where split: "split_once_slash u = Some (kind, i)"
    using assms by (auto simp: from_uri_def split: option.splits)
  then have u: "u = kind @ CHR ''/'' # i"
    by (rule split_once_slash_parts)
  show ?thesis
    using assms split by (auto simp: from_uri_def entity_uri_def u split: if_splits)
qed

end
