(* ===== verification/Protocol_Properties.thy ===== *)
theory Protocol_Properties
  imports Protocol_Types
begin

text \<open>
  Properties of the wire types: entity handles and their URIs.
\<close>

text \<open>
  Entity handles: the URIs that parse to a handle are exactly the printed form of that handle, for
  every handle with a non-empty identifier, also one that contains slashes; so printing and parsing
  are inverse to each other and no two URIs name the same entity.
\<close>

theorem entity_uri_bijective:
  "from_uri u = Some h \<longleftrightarrow> u = entity_uri h \<and> entity_id h \<noteq> []"
  using entity_uri_from_uri [of u h] from_uri_entity_uri [of h] by auto

end
