(* ===== verification/Events.thy ===== *)
theory Events
  imports Protocol_Types
begin

text \<open>
  The loggable events of \<open>crates/session/src/events.rs\<close>: the enum \<open>SessionEvent\<close> with the
  types it carries, the sub-algebra of each event and its bit mask. Constructor arguments stand in
  the order of the Rust fields, which the comments name. \<open>'j\<close> is the type of JSON values.
\<close>

section \<open>Algebra masks\<close>

unbundle bit_operations_syntax

definition LIFECYCLE :: u64 where "LIFECYCLE = push_bit 0 1"
definition MEMBERSHIP :: u64 where "MEMBERSHIP = push_bit 1 1"
definition AUTHORITY :: u64 where "AUTHORITY = push_bit 2 1"
definition APPROVAL :: u64 where "APPROVAL = push_bit 3 1"
definition EFFECT :: u64 where "EFFECT = push_bit 4 1"
definition PROJECTION :: u64 where "PROJECTION = push_bit 5 1"
definition SAGA :: u64 where "SAGA = push_bit 6 1"
definition POLICY :: u64 where "POLICY = push_bit 7 1"

text \<open>\<open>AlgebraMask::all()\<close>: the union of the eight declared bits.\<close>

definition mask_all :: u64 where
  "mask_all = LIFECYCLE OR MEMBERSHIP OR AUTHORITY OR APPROVAL OR EFFECT OR PROJECTION OR SAGA OR POLICY"

definition SNAPSHOT_DEPENDS_ON :: u64 where
  "SNAPSHOT_DEPENDS_ON = LIFECYCLE OR MEMBERSHIP OR APPROVAL OR EFFECT"

text \<open>\<open>a.intersects(b)\<close>\<close>

definition intersects :: "u64 \<Rightarrow> u64 \<Rightarrow> bool" where
  "intersects a b \<longleftrightarrow> a AND b \<noteq> 0"

lemmas mask_defs = LIFECYCLE_def MEMBERSHIP_def AUTHORITY_def APPROVAL_def EFFECT_def
  PROJECTION_def SAGA_def POLICY_def

section \<open>Policies on inbound bundles\<close>

datatype policy_target = TargetAll | BundleStep | BundleCompensation | BundleAck

text \<open>The derived \<open>Ord\<close> of the enum: declaration order.\<close>

fun target_index :: "policy_target \<Rightarrow> nat" where
  "target_index TargetAll = 0"
| "target_index BundleStep = 1"
| "target_index BundleCompensation = 2"
| "target_index BundleAck = 3"

instantiation policy_target :: linorder
begin

definition less_eq_policy_target :: "policy_target \<Rightarrow> policy_target \<Rightarrow> bool" where
  "less_eq_policy_target a b \<longleftrightarrow> target_index a \<le> target_index b"

definition less_policy_target :: "policy_target \<Rightarrow> policy_target \<Rightarrow> bool" where
  "less_policy_target a b \<longleftrightarrow> target_index a < target_index b"

instance
proof
  fix a b :: policy_target
  show "a \<le> b \<Longrightarrow> b \<le> a \<Longrightarrow> a = b"
    by (cases a; cases b) (simp_all add: less_eq_policy_target_def)
qed (auto simp: less_eq_policy_target_def less_policy_target_def)

end

datatype 'j policy_constraint =
    ForwardConstraint
  | RequireApproval
  | DeferConstraint u64       \<comment> \<open>duration_ms\<close>
  | RejectConstraint string   \<comment> \<open>reason\<close>
  | AnnotateConstraint 'j     \<comment> \<open>metadata\<close>

record 'j bundle_transport =
  bt_to_session :: string
  bt_ttl_ms :: u64
  bt_annotations :: 'j

section \<open>Sagas\<close>

record 'j saga_step_spec =
  step_idx :: nat
  participant :: string
  step_message :: 'j
  step_compensation :: 'j
  timeout_ms :: u64

datatype saga_outcome = Committed | Rejected string

datatype saga_termination = SagaCompleted | SagaAborted string

section \<open>The event alphabet\<close>

datatype (plugins only:) 'j session_event =
  \<comment> \<open>lifecycle\<close>
    SessionCreated string string string string datetime
      \<comment> \<open>session_id, owner_id, name, policy, created_at\<close>
  | SessionPaused string "string option" datetime
      \<comment> \<open>paused_by, reason, paused_at\<close>
  | SessionResumed string datetime
      \<comment> \<open>resumed_by, resumed_at\<close>
  | SessionArchived string datetime
      \<comment> \<open>archived_by, archived_at\<close>
  \<comment> \<open>participation\<close>
  | ParticipantJoined string string datetime
      \<comment> \<open>actor_id, role, joined_at\<close>
  | ParticipantLeft string "string option" datetime
      \<comment> \<open>actor_id, reason, left_at\<close>
  | OwnershipTransferred string string datetime
      \<comment> \<open>from_actor, to_actor, transferred_at\<close>
  | AgentAttached string string datetime
      \<comment> \<open>actor_id, cap_id, attached_at\<close>
  | AgentDetached string "string option" datetime
      \<comment> \<open>actor_id, reason, detached_at\<close>
  \<comment> \<open>capabilities\<close>
  | CapDelegated string "string option" string "string list" int int datetime
      \<comment> \<open>cap_id, parent_cap, actor_id, permissions, epoch, stratum, issued_at\<close>
  | CapRevoked string string string datetime
      \<comment> \<open>cap_id, strategy, revoked_by, revoked_at\<close>
  | EpochAdvanced int int string u64 "string list" string datetime
      \<comment> \<open>old_epoch, new_epoch, strategy, drain_deadline_ms, fenced_actor_ids, advanced_by, advanced_at\<close>
  \<comment> \<open>approvals\<close>
  | ApprovalRequested string string string 'j "datetime option" datetime
      \<comment> \<open>approval_id, actor_id, tool, arguments, expires_at, requested_at\<close>
  | ApprovalClaimed string string datetime
      \<comment> \<open>approval_id, claimed_by, claimed_at\<close>
  | ApprovalVoted string string string datetime
      \<comment> \<open>approval_id, voter_id, decision, voted_at\<close>
  | ApprovalGranted string string datetime
      \<comment> \<open>approval_id, resolved_by, granted_at\<close>
  | ApprovalDenied string string "string option" datetime
      \<comment> \<open>approval_id, resolved_by, reason, denied_at\<close>
  | ApprovalExpired string datetime
      \<comment> \<open>approval_id, expired_at\<close>
  | ApprovalInterrupted string string datetime
      \<comment> \<open>approval_id, reason, interrupted_at\<close>
  | ApprovalCancelled string string datetime
      \<comment> \<open>approval_id, cancelled_by, cancelled_at\<close>
  | ApprovalDelegated string string string datetime
      \<comment> \<open>approval_id, from, to, delegated_at\<close>
  | ApprovalDisputed string string string datetime
      \<comment> \<open>approval_id, disputed_by, reason, disputed_at\<close>
  | CrossSessionDelegationRequested string string string string datetime
      \<comment> \<open>saga_id, approval_id, target_session_id, requested_by, requested_at\<close>
  | CrossSessionDelegationReceived string string string 'j "string option" datetime
      \<comment> \<open>saga_id, source_session_id, source_approval_id, arguments, target_approval_id, received_at\<close>
  | CrossSessionDelegationResolved string string string datetime
      \<comment> \<open>saga_id, approval_id, decision, resolved_at\<close>
  | CrossSessionArtifactImportReceived string string int string string string string string
      datetime string "string option" string string datetime
      \<comment> \<open>source_session_id, source_artifact_id, source_seq, name, artifact_type, storage_ref,
         content_hash, source_created_by, source_created_at, imported_by, link_id, source_name,
         target_name, received_at\<close>
  | CrossSessionContextReceived string string context_entry_kind string string datetime string
      "string option" string string datetime
      \<comment> \<open>source_session_id, source_entry_id, kind, content, source_authored_by,
         source_authored_at, imported_by, link_id, source_name, target_name, received_at\<close>
  | CrossSessionAnnotationReceived string string string string string string "string option"
      string datetime
      \<comment> \<open>source_session_id, object_type, object_id, object_name, note, authored_by, link_id,
         source_name, received_at\<close>
  \<comment> \<open>effects and session content\<close>
  | EffectProposed string "string option" string "string option" "string option" datetime
      \<comment> \<open>proposal_id, receipt_id, effect_type, expected_hash_before, claimed_hash_after, proposed_at\<close>
  | EffectScouted string 'j datetime
      \<comment> \<open>approval_id, scout_manifest, scouted_at\<close>
  | EffectAttested string string string string bool datetime
      \<comment> \<open>attestation_id, receipt_id, tool, path, hash_mismatch, attested_at\<close>
  | EffectCommitted string string string string datetime
      \<comment> \<open>proposal_id, event_id, h_before, h_after, committed_at\<close>
  | EffectDiverged string string 'j datetime
      \<comment> \<open>approval_id, divergence_type, details, detected_at\<close>
  | MessagePosted string string datetime
      \<comment> \<open>actor_id, content, posted_at\<close>
  | ContextEntryAdded string string context_entry_kind string datetime
      \<comment> \<open>entry_id, actor_id, kind, content, added_at\<close>
  | ContextEntryResolved string string "string option" datetime
      \<comment> \<open>entry_id, resolved_by, note, resolved_at\<close>
  | ArtifactCreated string string string "string option" datetime
      \<comment> \<open>artifact_id, actor_id, name, artifact_type, created_at\<close>
  | ArtifactUpdated string string string "string option" datetime
      \<comment> \<open>artifact_id, actor_id, name, artifact_type, updated_at\<close>
  | ArtifactDeleted string string string "string option" datetime
      \<comment> \<open>artifact_id, actor_id, name, artifact_type, deleted_at\<close>
  \<comment> \<open>projection\<close>
  | SnapshotCreated int datetime
      \<comment> \<open>snapshot_seq, created_at\<close>
  | SnapshotInvalidated string datetime
      \<comment> \<open>reason, invalidated_at\<close>
  \<comment> \<open>sagas\<close>
  | SagaBegun string string "'j saga_step_spec list" datetime 'j
      \<comment> \<open>saga_id, saga_type, steps, begun_at, metadata\<close>
  | SagaStepSent string nat string datetime
      \<comment> \<open>saga_id, step_idx, participant, sent_at\<close>
  | SagaStepAcked string nat saga_outcome datetime
      \<comment> \<open>saga_id, step_idx, outcome, acked_at\<close>
  | SagaCompensated string nat datetime
      \<comment> \<open>saga_id, step_idx, sent_at\<close>
  | SagaTerminated string saga_termination datetime
      \<comment> \<open>saga_id, outcome, terminated_at\<close>
  \<comment> \<open>policy\<close>
  | BundleAnnotated string 'j
      \<comment> \<open>bundle_id, metadata\<close>
  | BundleReshaped string "'j bundle_transport" string
      \<comment> \<open>bundle_id, transport, reason\<close>
  | BundleDeferred string u64 string
      \<comment> \<open>bundle_id, defer_until_ms, interceptor_cap_id\<close>
  | BundleRejected string string string
      \<comment> \<open>bundle_id, reason, interceptor_cap_id\<close>
  | BundleApprovalGated string string string
      \<comment> \<open>bundle_id, approval_id, interceptor_cap_id\<close>
  | PolicySet policy_target "'j policy_constraint" string datetime
      \<comment> \<open>target, constraint, set_by_cap, set_at\<close>

section \<open>Classification of events\<close>

primrec algebra :: "'j session_event \<Rightarrow> string" where
  "algebra (SessionCreated a b c d e) = ''lifecycle''"
| "algebra (SessionPaused a b c) = ''lifecycle''"
| "algebra (SessionResumed a b) = ''lifecycle''"
| "algebra (SessionArchived a b) = ''lifecycle''"
| "algebra (ParticipantJoined a b c) = ''participation''"
| "algebra (ParticipantLeft a b c) = ''participation''"
| "algebra (OwnershipTransferred a b c) = ''participation''"
| "algebra (AgentAttached a b c) = ''participation''"
| "algebra (AgentDetached a b c) = ''participation''"
| "algebra (CapDelegated a b c d e f g) = ''cap''"
| "algebra (CapRevoked a b c d) = ''cap''"
| "algebra (EpochAdvanced a b c d e f g) = ''cap''"
| "algebra (ApprovalRequested a b c d e f) = ''approval''"
| "algebra (ApprovalClaimed a b c) = ''approval''"
| "algebra (ApprovalVoted a b c d) = ''approval''"
| "algebra (ApprovalGranted a b c) = ''approval''"
| "algebra (ApprovalDenied a b c d) = ''approval''"
| "algebra (ApprovalExpired a b) = ''approval''"
| "algebra (ApprovalInterrupted a b c) = ''approval''"
| "algebra (ApprovalCancelled a b c) = ''approval''"
| "algebra (ApprovalDelegated a b c d) = ''approval''"
| "algebra (ApprovalDisputed a b c d) = ''approval''"
| "algebra (CrossSessionDelegationRequested a b c d e) = ''approval''"
| "algebra (CrossSessionDelegationReceived a b c d e f) = ''approval''"
| "algebra (CrossSessionDelegationResolved a b c d) = ''approval''"
| "algebra (CrossSessionArtifactImportReceived a b c d e f g h i k l m n p) = ''effect''"
| "algebra (CrossSessionContextReceived a b c d e f g h i k l) = ''effect''"
| "algebra (CrossSessionAnnotationReceived a b c d e f g h i) = ''effect''"
| "algebra (EffectProposed a b c d e f) = ''effect''"
| "algebra (EffectScouted a b c) = ''effect''"
| "algebra (EffectAttested a b c d e f) = ''effect''"
| "algebra (EffectCommitted a b c d e) = ''effect''"
| "algebra (EffectDiverged a b c d) = ''effect''"
| "algebra (MessagePosted a b c) = ''effect''"
| "algebra (ContextEntryAdded a b c d e) = ''effect''"
| "algebra (ContextEntryResolved a b c d) = ''effect''"
| "algebra (ArtifactCreated a b c d e) = ''effect''"
| "algebra (ArtifactUpdated a b c d e) = ''effect''"
| "algebra (ArtifactDeleted a b c d e) = ''effect''"
| "algebra (SnapshotCreated a b) = ''projection''"
| "algebra (SnapshotInvalidated a b) = ''projection''"
| "algebra (SagaBegun a b c d e) = ''saga''"
| "algebra (SagaStepSent a b c d) = ''saga''"
| "algebra (SagaStepAcked a b c d) = ''saga''"
| "algebra (SagaCompensated a b c) = ''saga''"
| "algebra (SagaTerminated a b c) = ''saga''"
| "algebra (BundleAnnotated a b) = ''policy''"
| "algebra (BundleReshaped a b c) = ''policy''"
| "algebra (BundleDeferred a b c) = ''policy''"
| "algebra (BundleRejected a b c) = ''policy''"
| "algebra (BundleApprovalGated a b c) = ''policy''"
| "algebra (PolicySet a b c d) = ''policy''"

definition algebra_mask :: "'j session_event \<Rightarrow> u64" where
  "algebra_mask ev =
     (if algebra ev = ''lifecycle'' then LIFECYCLE
      else if algebra ev = ''participation'' \<or> algebra ev = ''membership'' then MEMBERSHIP
      else if algebra ev = ''cap'' then AUTHORITY
      else if algebra ev = ''approval'' then APPROVAL
      else if algebra ev = ''effect'' then EFFECT
      else if algebra ev = ''projection'' then PROJECTION
      else if algebra ev = ''saga'' then SAGA
      else if algebra ev = ''policy'' then POLICY
      else mask_all)"

primrec type_name :: "'j session_event \<Rightarrow> string" where
  "type_name (SessionCreated a b c d e) = ''session_created''"
| "type_name (SessionPaused a b c) = ''session_paused''"
| "type_name (SessionResumed a b) = ''session_resumed''"
| "type_name (SessionArchived a b) = ''session_archived''"
| "type_name (ParticipantJoined a b c) = ''participant_joined''"
| "type_name (ParticipantLeft a b c) = ''participant_left''"
| "type_name (OwnershipTransferred a b c) = ''ownership_transferred''"
| "type_name (AgentAttached a b c) = ''agent_attached''"
| "type_name (AgentDetached a b c) = ''agent_detached''"
| "type_name (CapDelegated a b c d e f g) = ''cap_delegated''"
| "type_name (CapRevoked a b c d) = ''cap_revoked''"
| "type_name (EpochAdvanced a b c d e f g) = ''epoch_advanced''"
| "type_name (ApprovalRequested a b c d e f) = ''approval_requested''"
| "type_name (ApprovalClaimed a b c) = ''approval_claimed''"
| "type_name (ApprovalVoted a b c d) = ''approval_voted''"
| "type_name (ApprovalGranted a b c) = ''approval_granted''"
| "type_name (ApprovalDenied a b c d) = ''approval_denied''"
| "type_name (ApprovalExpired a b) = ''approval_expired''"
| "type_name (ApprovalInterrupted a b c) = ''approval_interrupted''"
| "type_name (ApprovalCancelled a b c) = ''approval_cancelled''"
| "type_name (ApprovalDelegated a b c d) = ''approval_delegated''"
| "type_name (ApprovalDisputed a b c d) = ''approval_disputed''"
| "type_name (CrossSessionDelegationRequested a b c d e) = ''cross_session_delegation_requested''"
| "type_name (CrossSessionDelegationReceived a b c d e f) = ''cross_session_delegation_received''"
| "type_name (CrossSessionDelegationResolved a b c d) = ''cross_session_delegation_resolved''"
| "type_name (CrossSessionArtifactImportReceived a b c d e f g h i k l m n p) = ''cross_session_artifact_import_received''"
| "type_name (CrossSessionContextReceived a b c d e f g h i k l) = ''cross_session_context_received''"
| "type_name (CrossSessionAnnotationReceived a b c d e f g h i) = ''cross_session_annotation_received''"
| "type_name (EffectProposed a b c d e f) = ''effect_proposed''"
| "type_name (EffectScouted a b c) = ''effect_scouted''"
| "type_name (EffectAttested a b c d e f) = ''effect_attested''"
| "type_name (EffectCommitted a b c d e) = ''effect_committed''"
| "type_name (EffectDiverged a b c d) = ''effect_diverged''"
| "type_name (MessagePosted a b c) = ''message_posted''"
| "type_name (ContextEntryAdded a b c d e) = ''context_entry_added''"
| "type_name (ContextEntryResolved a b c d) = ''context_entry_resolved''"
| "type_name (ArtifactCreated a b c d e) = ''artifact_created''"
| "type_name (ArtifactUpdated a b c d e) = ''artifact_updated''"
| "type_name (ArtifactDeleted a b c d e) = ''artifact_deleted''"
| "type_name (SnapshotCreated a b) = ''snapshot_created''"
| "type_name (SnapshotInvalidated a b) = ''snapshot_invalidated''"
| "type_name (SagaBegun a b c d e) = ''saga_begun''"
| "type_name (SagaStepSent a b c d) = ''saga_step_sent''"
| "type_name (SagaStepAcked a b c d) = ''saga_step_acked''"
| "type_name (SagaCompensated a b c) = ''saga_compensated''"
| "type_name (SagaTerminated a b c) = ''saga_terminated''"
| "type_name (BundleAnnotated a b) = ''bundle_annotated''"
| "type_name (BundleReshaped a b c) = ''bundle_reshaped''"
| "type_name (BundleDeferred a b c) = ''bundle_deferred''"
| "type_name (BundleRejected a b c) = ''bundle_rejected''"
| "type_name (BundleApprovalGated a b c) = ''bundle_approval_gated''"
| "type_name (PolicySet a b c d) = ''policy_set''"

primrec is_lifecycle_change :: "'j session_event \<Rightarrow> bool" where
  "is_lifecycle_change (SessionCreated a b c d e) = True"
| "is_lifecycle_change (SessionPaused a b c) = True"
| "is_lifecycle_change (SessionResumed a b) = True"
| "is_lifecycle_change (SessionArchived a b) = True"
| "is_lifecycle_change (ParticipantJoined a b c) = False"
| "is_lifecycle_change (ParticipantLeft a b c) = False"
| "is_lifecycle_change (OwnershipTransferred a b c) = False"
| "is_lifecycle_change (AgentAttached a b c) = False"
| "is_lifecycle_change (AgentDetached a b c) = False"
| "is_lifecycle_change (CapDelegated a b c d e f g) = False"
| "is_lifecycle_change (CapRevoked a b c d) = False"
| "is_lifecycle_change (EpochAdvanced a b c d e f g) = True"
| "is_lifecycle_change (ApprovalRequested a b c d e f) = False"
| "is_lifecycle_change (ApprovalClaimed a b c) = False"
| "is_lifecycle_change (ApprovalVoted a b c d) = False"
| "is_lifecycle_change (ApprovalGranted a b c) = False"
| "is_lifecycle_change (ApprovalDenied a b c d) = False"
| "is_lifecycle_change (ApprovalExpired a b) = False"
| "is_lifecycle_change (ApprovalInterrupted a b c) = False"
| "is_lifecycle_change (ApprovalCancelled a b c) = False"
| "is_lifecycle_change (ApprovalDelegated a b c d) = False"
| "is_lifecycle_change (ApprovalDisputed a b c d) = False"
| "is_lifecycle_change (CrossSessionDelegationRequested a b c d e) = False"
| "is_lifecycle_change (CrossSessionDelegationReceived a b c d e f) = False"
| "is_lifecycle_change (CrossSessionDelegationResolved a b c d) = False"
| "is_lifecycle_change (CrossSessionArtifactImportReceived a b c d e f g h i k l m n p) = False"
| "is_lifecycle_change (CrossSessionContextReceived a b c d e f g h i k l) = False"
| "is_lifecycle_change (CrossSessionAnnotationReceived a b c d e f g h i) = False"
| "is_lifecycle_change (EffectProposed a b c d e f) = False"
| "is_lifecycle_change (EffectScouted a b c) = False"
| "is_lifecycle_change (EffectAttested a b c d e f) = False"
| "is_lifecycle_change (EffectCommitted a b c d e) = False"
| "is_lifecycle_change (EffectDiverged a b c d) = False"
| "is_lifecycle_change (MessagePosted a b c) = False"
| "is_lifecycle_change (ContextEntryAdded a b c d e) = False"
| "is_lifecycle_change (ContextEntryResolved a b c d) = False"
| "is_lifecycle_change (ArtifactCreated a b c d e) = False"
| "is_lifecycle_change (ArtifactUpdated a b c d e) = False"
| "is_lifecycle_change (ArtifactDeleted a b c d e) = False"
| "is_lifecycle_change (SnapshotCreated a b) = False"
| "is_lifecycle_change (SnapshotInvalidated a b) = False"
| "is_lifecycle_change (SagaBegun a b c d e) = False"
| "is_lifecycle_change (SagaStepSent a b c d) = False"
| "is_lifecycle_change (SagaStepAcked a b c d) = False"
| "is_lifecycle_change (SagaCompensated a b c) = False"
| "is_lifecycle_change (SagaTerminated a b c) = False"
| "is_lifecycle_change (BundleAnnotated a b) = False"
| "is_lifecycle_change (BundleReshaped a b c) = False"
| "is_lifecycle_change (BundleDeferred a b c) = False"
| "is_lifecycle_change (BundleRejected a b c) = False"
| "is_lifecycle_change (BundleApprovalGated a b c) = False"
| "is_lifecycle_change (PolicySet a b c d) = False"

end
