(* ===== verification/Effects.thy ===== *)
theory Effects
  imports Events
begin

text \<open>
  The output alphabet of the transition function (\<open>crates/session/src/effects.rs\<close>), the
  cross-session relay packets, the input alphabet (\<open>inbound.rs\<close>) and the control state of a
  session (\<open>state.rs\<close>).
\<close>

section \<open>Bundles\<close>

datatype 'j bundle_kind =
    Step 'j 'j                 \<comment> \<open>message, compensation\<close>
  | Compensation 'j            \<comment> \<open>message\<close>
  | Ack saga_outcome string    \<comment> \<open>outcome, cap_id\<close>

record 'j saga_bundle =
  bundle_id :: string
  bundle_saga_id :: string
  bundle_step_idx :: nat
  from_session :: string
  to_session :: string
  bundle_kind :: "'j bundle_kind"
  ttl_ms :: u64

record reflector_cursor =
  rc_seq :: int
  rc_epoch :: "32 word"
  rc_view :: "32 word"

definition cursor_zero :: reflector_cursor where
  "cursor_zero = \<lparr>rc_seq = 0, rc_epoch = 0, rc_view = 0\<rparr>"

definition cursor_advance :: "reflector_cursor \<Rightarrow> int \<Rightarrow> reflector_cursor" where
  "cursor_advance c s = c\<lparr>rc_seq := s\<rparr>"

datatype 'j bundle_disposition =
    DispForward
  | DispDefer u64                       \<comment> \<open>until_ms\<close>
  | DispReject string                   \<comment> \<open>reason\<close>
  | DispReshape "'j bundle_transport"   \<comment> \<open>transport\<close>
  | DispApprovalPending string          \<comment> \<open>approval_id\<close>
  | DispAnnotate 'j                     \<comment> \<open>metadata\<close>

section \<open>Effects\<close>

datatype 'j effect =
    Persist "'j session_event"
  | Send string 'j                      \<comment> \<open>to, payload\<close>
  | Broadcast 'j                        \<comment> \<open>payload\<close>
  | Forward string 'j                   \<comment> \<open>to_session, payload\<close>
  | SetTimer string u64                 \<comment> \<open>id, duration_ms\<close>
  | CancelTimer string                  \<comment> \<open>id\<close>
  | CloseConnection string nat string   \<comment> \<open>actor_id, code, reason\<close>
  | PersistSnapshot
  | Bundle "'j saga_bundle"
  | BundleDeliver "'j saga_bundle"

fun is_persist :: "'j effect \<Rightarrow> bool" where
  "is_persist (Persist _) = True"
| "is_persist _ = False"

fun is_bundle :: "'j effect \<Rightarrow> bool" where
  "is_bundle (Bundle _) = True"
| "is_bundle _ = False"

fun is_bundle_deliver :: "'j effect \<Rightarrow> bool" where
  "is_bundle_deliver (BundleDeliver _) = True"
| "is_bundle_deliver _ = False"

section \<open>Control state\<close>

datatype session_state =
    Active
  | Suspended string "string option" datetime   \<comment> \<open>paused_by, reason, since\<close>
  | Draining datetime int                       \<comment> \<open>drain_deadline, drain_seq\<close>
  | Archived datetime                           \<comment> \<open>at\<close>

fun admits_connections :: "session_state \<Rightarrow> bool" where
  "admits_connections Active = True"
| "admits_connections (Suspended _ _ _) = True"
| "admits_connections _ = False"

fun is_terminal :: "session_state \<Rightarrow> bool" where
  "is_terminal (Archived _) = True"
| "is_terminal _ = False"

fun is_active :: "session_state \<Rightarrow> bool" where
  "is_active Active = True"
| "is_active _ = False"

fun is_draining :: "session_state \<Rightarrow> bool" where
  "is_draining (Draining _ _) = True"
| "is_draining _ = False"

section \<open>Inbound events\<close>

datatype disconnect_reason = ClientClose | NetworkError | ServerClose | Timeout | Fenced

datatype vote_decision = VoteApprove | VoteDeny

datatype (plugins only: code) 'j live_event =
    ActorConnected string string
      \<comment> \<open>actor_id, connection_id\<close>
  | ActorDisconnected string string disconnect_reason
      \<comment> \<open>actor_id, connection_id, reason\<close>
  | ActorReconnected string string
      \<comment> \<open>actor_id, new_connection_id\<close>
  | VoteCast string string vote_decision
      \<comment> \<open>approval_id, voter_id, decision\<close>
  | TimerFired string
      \<comment> \<open>id\<close>
  | OwnershipTransfer string string
      \<comment> \<open>from, to\<close>
  | ApprovalClaim string string
      \<comment> \<open>approval_id, actor_id\<close>
  | ApprovalCancel string string
      \<comment> \<open>approval_id, actor_id\<close>
  | ApprovalDelegate string string string
      \<comment> \<open>approval_id, from, to\<close>
  | ApprovalDispute string string string
      \<comment> \<open>approval_id, actor_id, reason\<close>
  | CrossSessionDelegate string string string string 'j
      \<comment> \<open>saga_id, approval_id, target_session_id, requested_by, arguments\<close>
  | MessagePost string string
      \<comment> \<open>actor_id, content\<close>
  | ContextAdd string string context_entry_kind string
      \<comment> \<open>entry_id, actor_id, kind, content\<close>
  | ContextResolve string string "string option"
      \<comment> \<open>entry_id, resolved_by, note\<close>
  | ArtifactCreate string string string "string option"
      \<comment> \<open>artifact_id, actor_id, name, artifact_type\<close>
  | ArtifactUpdate string string string "string option"
      \<comment> \<open>artifact_id, actor_id, name, artifact_type\<close>
  | ArtifactDelete string string string "string option"
      \<comment> \<open>artifact_id, actor_id, name, artifact_type\<close>
  | AdminPause string "string option"
      \<comment> \<open>by, reason\<close>
  | AdminResume string
      \<comment> \<open>by\<close>
  | AdminArchive string
      \<comment> \<open>by\<close>
  | SidecarAttach string string
      \<comment> \<open>actor_id, cap_id\<close>
  | SidecarDetach string "string option"
      \<comment> \<open>actor_id, reason\<close>
  | ApprovalCreate string string string 'j "u64 option"
      \<comment> \<open>approval_id, actor_id, tool, args, expires_ms\<close>
  | ForwardedMessage string 'j
      \<comment> \<open>from_session, payload\<close>
  | SagaBegin string string "'j saga_step_spec list" 'j
      \<comment> \<open>saga_id, saga_type, steps, metadata\<close>
  | SagaAck string nat saga_outcome
      \<comment> \<open>saga_id, step_idx, outcome\<close>
  | BundleIntercepted "'j saga_bundle" string reflector_cursor
      \<comment> \<open>bundle, interceptor_cap_id, reflector_cursor\<close>
  | BundleReceived "'j saga_bundle"
      \<comment> \<open>bundle\<close>

datatype 'j inbound_event =
    Replayed int "'j session_event"   \<comment> \<open>seq, event\<close>
  | Live "'j live_event"

end
