(* ===== verification/Memory.thy ===== *)
theory Memory
  imports Effects
begin

text \<open>
  The working memory of a session (\<open>crates/session/src/memory.rs\<close>): the member, capability,
  approval, proposal, timer, saga and gated-bundle records, the memory itself, its queries over the
  capability graph and its projection to a client snapshot.
\<close>

section \<open>Records\<close>

record member_record =
  mr_actor_id :: string
  role :: string
  mr_joined_at :: datetime
  detached :: bool
  connection :: "string option"

definition can_approve :: "member_record \<Rightarrow> bool" where
  "can_approve m \<longleftrightarrow> role m = ''owner'' \<or> role m = ''collaborator''"

record cap_record =
  cap_id :: string
  cap_actor_id :: string
  parent_cap :: "string option"
  permissions :: "string list"
  cap_epoch :: int
  stratum :: int
  issued_at :: datetime
  revoked :: bool

datatype approval_status = Pending | Claimed | Granted | Denied | Expired | Interrupted

fun approval_is_terminal :: "approval_status \<Rightarrow> bool" where
  "approval_is_terminal Granted = True"
| "approval_is_terminal Denied = True"
| "approval_is_terminal Expired = True"
| "approval_is_terminal Interrupted = True"
| "approval_is_terminal _ = False"

record approval_record =
  approval_id :: string
  ap_actor_id :: string
  tool :: string
  ap_status :: approval_status
  requested_at :: datetime
  expires_at :: "datetime option"
  votes :: "(string, string) btree"

record proposal_record =
  proposal_id :: string
  effect_type :: string
  receipt_id :: "string option"
  h_before :: "string option"
  h_after :: "string option"
  committed :: bool
  diverged :: bool

record timer_record =
  timer_id :: string
  armed_at :: datetime
  timer_duration_ms :: u64

datatype saga_status =
    Saga_Running
  | Saga_Waiting nat string        \<comment> \<open>step_idx, timer_id\<close>
  | Saga_Compensating nat string   \<comment> \<open>from_step, reason\<close>
  | Saga_Completed
  | Saga_Aborted string            \<comment> \<open>reason\<close>

fun saga_is_terminal :: "saga_status \<Rightarrow> bool" where
  "saga_is_terminal Saga_Completed = True"
| "saga_is_terminal (Saga_Aborted _) = True"
| "saga_is_terminal _ = False"

record 'j saga_record =
  saga_id :: string
  saga_type :: string
  steps :: "'j saga_step_spec list"
  saga_status :: saga_status
  begun_at :: datetime
  saga_metadata :: 'j

datatype gate_kind = Gate_Approval string | Gate_Deferred u64

record 'j gated_bundle =
  gate_kind :: gate_kind
  gated :: "'j saga_bundle option"
  gate_cursor :: "reflector_cursor option"

record 'j session_memory =
  session_id :: string
  session_name :: string
  cursor :: int
  epoch :: int
  owner_id :: string
  session_policy :: string
  eligible_approvers :: nat
  members :: "(string, member_record) btree"
  caps :: "(string, cap_record) btree"
  cap_children :: "(string, string list) btree"
  approvals :: "(string, approval_record) btree"
  proposals :: "(string, proposal_record) btree"
  artifacts :: "(string, artifact_summary) btree"
  context_entries :: "(string, context_entry) btree"
  timers :: "(string, timer_record) btree"
  sagas :: "(string, 'j saga_record) btree"
  gated_bundles :: "(string, 'j gated_bundle) btree"
  policies :: "(policy_target, 'j policy_constraint) btree"
  snapshot_seq :: int

section \<open>Operations\<close>

definition new_memory :: "string \<Rightarrow> string \<Rightarrow> 'j session_memory" where
  "new_memory sid owner =
     \<lparr>session_id = sid, session_name = '''', cursor = 0, epoch = 0, owner_id = owner,
      session_policy = ''single_vote'', eligible_approvers = 0, members = [], caps = [],
      cap_children = [], approvals = [], proposals = [], artifacts = [], context_entries = [],
      timers = [], sagas = [], gated_bundles = [], policies = [], snapshot_seq = 0\<rparr>"

definition advance_cursor :: "int \<Rightarrow> 'j session_memory \<Rightarrow> 'j session_memory" where
  "advance_cursor sq m = m\<lparr>cursor := sq\<rparr>"

definition cap_is_active :: "'j session_memory \<Rightarrow> string \<Rightarrow> bool" where
  "cap_is_active m c =
     (case bt_get (caps m) c of
        None \<Rightarrow> False
      | Some r \<Rightarrow> \<not> revoked r \<and> cap_epoch r = epoch m)"

text \<open>
  The loop of \<open>cap_subtree\<close>: \<open>queue\<close> is a \<open>Vec\<close>, popped at its end and extended there
  with the children of the capability popped. On a cyclic index it does not return, which is
  \<open>None\<close>.
\<close>

partial_function (option) subtree_loop ::
  "(string, string list) btree \<Rightarrow> string list \<Rightarrow> string list \<Rightarrow> string list option" where
  "subtree_loop children queue acc =
     (if queue = [] then Some acc
      else subtree_loop children
             (butlast queue @
                (case bt_get children (last queue) of None \<Rightarrow> [] | Some cs \<Rightarrow> cs))
             (acc @ [last queue]))"

definition cap_subtree :: "'j session_memory \<Rightarrow> string \<Rightarrow> string list result" where
  "cap_subtree m root_cap_id =
     (case subtree_loop (cap_children m) [root_cap_id] [] of
        None \<Rightarrow> Inl Loops_forever
      | Some ids \<Rightarrow> Inr ids)"

partial_function (option) lineage_loop ::
  "(string, cap_record) btree \<Rightarrow> string \<Rightarrow> string list \<Rightarrow> string list option" where
  "lineage_loop cs current chain =
     (case Option.bind (bt_get cs current) parent_cap of
        Some parent \<Rightarrow> lineage_loop cs parent (chain @ [current])
      | None \<Rightarrow> Some (chain @ [current]))"

definition cap_lineage :: "'j session_memory \<Rightarrow> string \<Rightarrow> string list result" where
  "cap_lineage m c =
     (case lineage_loop (caps m) c [] of None \<Rightarrow> Inl Loops_forever | Some ids \<Rightarrow> Inr ids)"

definition count_eligible :: "(string, member_record) btree \<Rightarrow> nat" where
  "count_eligible ms = length (filter (\<lambda>m. \<not> detached m \<and> can_approve m) (bt_values ms))"

definition recount_eligible :: "'j session_memory \<Rightarrow> 'j session_memory" where
  "recount_eligible m = m\<lparr>eligible_approvers := count_eligible (members m)\<rparr>"

section \<open>Snapshot projection\<close>

definition snapshot_status :: "session_state \<Rightarrow> session_status" where
  "snapshot_status st =
     (case st of
        Suspended _ _ _ \<Rightarrow> StatusSuspended
      | Archived _ \<Rightarrow> StatusArchived
      | _ \<Rightarrow> StatusActive)"

definition snapshot_member :: "member_record \<Rightarrow> session_member" where
  "snapshot_member m =
     (let r = (if role m = ''owner'' then Owner
               else if role m = ''collaborator'' then Collaborator
               else if role m = ''observer'' then Observer
               else Agent)
      in \<lparr>sm_actor_id = mr_actor_id m, sm_name = '''', sm_role = r,
          sm_attached = (if r = Agent then \<not> detached m else connection m \<noteq> None),
          sm_status = None\<rparr>)"

definition snapshot_approval :: "'j host \<Rightarrow> approval_record \<Rightarrow> 'j pending_approval" where
  "snapshot_approval E a =
     \<lparr>pa_approval_id = approval_id a, pa_tool = tool a, pa_requested_by = ap_actor_id a,
      pa_state = (if ap_status a = Claimed then ASClaimed else ASPending),
      pa_votes = bt_map_values (\<lambda>d. if d = ''approve'' then Approve else Deny) (votes a),
      pa_claimed_by = None, pa_expires_at = expires_at a, pa_arguments = j_null E\<rparr>"

definition is_open :: "approval_record \<Rightarrow> bool" where
  "is_open a \<longleftrightarrow> ap_status a = Pending \<or> ap_status a = Claimed"

definition build_snapshot :: "'j host \<Rightarrow> session_state \<Rightarrow> 'j session_memory \<Rightarrow> 'j session_snapshot" where
  "build_snapshot E st m =
     \<lparr>sn_owner = owner_id m, sn_owner_name = '''', sn_status = snapshot_status st,
      sn_name = session_name m, sn_approval_policy = session_policy m,
      sn_members = map snapshot_member (bt_values (members m)),
      sn_pending_approvals =
        map (snapshot_approval E) (filter is_open (bt_values (approvals m))),
      sn_artifacts = bt_values (artifacts m),
      sn_context = bt_values (context_entries m)\<rparr>"

end
