(* ===== verification/Saga.thy ===== *)
theory Saga
  imports Memory
begin

text \<open>
  The saga reducers of \<open>crates/session/src/saga.rs\<close>. The Rust trait \<open>SagaProtocol\<close> is the
  locale \<open>saga_protocol\<close>: its methods are the parameters, what every implementation promises
  about a reduction is assumed, and the consequences are proved once. The implementations
  \<open>ApprovalSaga\<close>, \<open>TransferSaga\<close> and \<open>SessionSaga\<close> interpret it.
\<close>

datatype protocol_outcome = Advance | Abort string | PendingAcks

section \<open>Reducers\<close>

record 'j approval_saga =
  as_approval_id :: string
  as_policy :: string
  as_eligible :: nat
  as_step :: "'j saga_step_spec"

definition committed_acks :: "saga_outcome list \<Rightarrow> nat" where
  "committed_acks acks = length (filter (\<lambda>a. a = Committed) acks)"

fun is_rejected :: "saga_outcome \<Rightarrow> bool" where
  "is_rejected (Rejected _) = True"
| "is_rejected Committed = False"

definition rejected_acks :: "saga_outcome list \<Rightarrow> nat" where
  "rejected_acks acks = length (filter is_rejected acks)"

fun deny_reason :: "saga_outcome list \<Rightarrow> string" where
  "deny_reason [] = ''denied''"
| "deny_reason (Rejected reason # _) = reason"
| "deny_reason (Committed # acks) = deny_reason acks"

definition approval_reduce :: "'j approval_saga \<Rightarrow> nat \<Rightarrow> saga_outcome list \<Rightarrow> protocol_outcome" where
  "approval_reduce s idx acks =
     (let ok = committed_acks acks; denials = rejected_acks acks
      in if as_policy s = ''single_vote'' then
           (if ok > 0 then Advance
            else if denials > 0 then Abort (deny_reason acks)
            else PendingAcks)
         else if as_policy s = ''majority'' then
           (let threshold = as_eligible s div 2 + 1
            in if threshold \<le> ok then Advance
               else if threshold \<le> denials then Abort ''denied by majority''
               else PendingAcks)
         else if as_policy s = ''unanimous'' then
           (if as_eligible s > 0 \<and> ok = as_eligible s then Advance
            else if denials > 0 then Abort (deny_reason acks)
            else PendingAcks)
         else
           (if ok > 0 then Advance
            else if denials > 0 then Abort (deny_reason acks)
            else PendingAcks))"

record 'j transfer_saga =
  tr_from_session :: string
  tr_to_session :: string
  tr_steps :: "'j saga_step_spec list"

fun transfer_reduce :: "'j transfer_saga \<Rightarrow> nat \<Rightarrow> saga_outcome list \<Rightarrow> protocol_outcome" where
  "transfer_reduce s idx [] = PendingAcks"
| "transfer_reduce s idx (Committed # _) = Advance"
| "transfer_reduce s idx (Rejected reason # _) = Abort reason"

fun first_ack_wins :: "saga_outcome list \<Rightarrow> protocol_outcome" where
  "first_ack_wins [] = PendingAcks"
| "first_ack_wins (Committed # _) = Advance"
| "first_ack_wins (Rejected reason # _) = Abort reason"

datatype 'j session_saga =
    SagaApproval "'j approval_saga"
  | SagaTransfer "'j transfer_saga"
  | SagaCustom "'j saga_step_spec list"

fun step_count :: "'j session_saga \<Rightarrow> nat" where
  "step_count (SagaApproval _) = 1"
| "step_count (SagaTransfer s) = length (tr_steps s)"
| "step_count (SagaCustom ss) = length ss"

definition nth_step :: "'j saga_step_spec list \<Rightarrow> nat \<Rightarrow> 'j saga_step_spec result" where
  "nth_step ss i = (if i < length ss then Inr (ss ! i) else Inl Index_out_of_bounds)"

fun saga_step :: "'j session_saga \<Rightarrow> nat \<Rightarrow> 'j saga_step_spec result" where
  "saga_step (SagaApproval s) _ = Inr (as_step s)"
| "saga_step (SagaTransfer s) i = nth_step (tr_steps s) i"
| "saga_step (SagaCustom ss) i = nth_step ss i"

fun saga_reduce :: "'j session_saga \<Rightarrow> nat \<Rightarrow> saga_outcome list \<Rightarrow> protocol_outcome" where
  "saga_reduce (SagaApproval s) i acks = approval_reduce s i acks"
| "saga_reduce (SagaTransfer s) i acks = transfer_reduce s i acks"
| "saga_reduce (SagaCustom _) i acks = first_ack_wins acks"

text \<open>The trait's default method \<open>timeout_ms\<close>.\<close>

definition saga_timeout_ms :: "'j session_saga \<Rightarrow> nat \<Rightarrow> u64 result" where
  "saga_timeout_ms s i = bind_result (saga_step s i) (\<lambda>sp. Inr (timeout_ms sp))"

section \<open>Reconstruction from a record\<close>

definition str_or :: "string \<Rightarrow> string option \<Rightarrow> string" where
  "str_or d o_s = (case o_s of None \<Rightarrow> d | Some s \<Rightarrow> s)"

definition default_step :: "'j host \<Rightarrow> 'j saga_step_spec" where
  "default_step E =
     \<lparr>step_idx = 0, participant = '''', step_message = j_null E, step_compensation = j_null E,
      timeout_ms = 30000\<rparr>"

definition build_session_saga :: "'j host \<Rightarrow> 'j saga_record \<Rightarrow> 'j session_saga" where
  "build_session_saga E r =
     (let md = saga_metadata r
      in if saga_type r = ''approval'' then
           SagaApproval
             \<lparr>as_approval_id = str_or '''' (j_as_str E (j_index E md ''approval_id'')),
              as_policy = str_or ''single_vote'' (j_as_str E (j_index E md ''policy'')),
              as_eligible =
                (case j_as_u64 E (j_index E md ''eligible'') of None \<Rightarrow> 1 | Some n \<Rightarrow> unat n),
              as_step = (case steps r of [] \<Rightarrow> default_step E | s # _ \<Rightarrow> s)\<rparr>
         else if saga_type r = ''ownership_transfer'' then
           SagaTransfer
             \<lparr>tr_from_session = str_or '''' (j_as_str E (j_index E md ''from_session'')),
              tr_to_session = str_or '''' (j_as_str E (j_index E md ''to_session'')),
              tr_steps = steps r\<rparr>
         else SagaCustom (steps r))"

section \<open>The trait as an interface\<close>

locale saga_protocol =
  fixes count :: "'s \<Rightarrow> nat"
    and step :: "'s \<Rightarrow> nat \<Rightarrow> 'j saga_step_spec result"
    and reduce :: "'s \<Rightarrow> nat \<Rightarrow> saga_outcome list \<Rightarrow> protocol_outcome"
  assumes step_in_range: "i < count s \<Longrightarrow> \<exists>sp. step s i = Inr sp"
    and no_acks: "reduce s i [] = PendingAcks"
    and advance_needs_commit: "reduce s i acks = Advance \<Longrightarrow> Committed \<in> set acks"
    and abort_needs_reject: "reduce s i acks = Abort r \<Longrightarrow> \<exists>r'. Rejected r' \<in> set acks"
begin

text \<open>
  What the coordinator relies on when it reduces the one ack it just received: a commit is never
  turned into an abort and a rejection never into progress.
\<close>

lemma single_commit: "reduce s i [Committed] \<noteq> Abort r"
  using abort_needs_reject [of s i "[Committed]" r] by auto

lemma single_reject: "reduce s i [Rejected r] \<noteq> Advance"
  using advance_needs_commit [of s i "[Rejected r]"] by auto

text \<open>The default \<open>timeout_ms\<close> does not panic on a step of the protocol.\<close>

lemma timeout_in_range:
  "i < count s \<Longrightarrow> \<exists>t. bind_result (step s i) (\<lambda>sp. Inr (timeout_ms sp)) = Inr t"
  using step_in_range [of i s] by auto

lemma unanimous_acks:
  assumes "acks = replicate n a" and "reduce s i acks \<noteq> PendingAcks"
  shows "reduce s i acks = Advance \<longleftrightarrow> a = Committed"
proof (cases "reduce s i acks")
  case Advance
  then show ?thesis using advance_needs_commit [OF Advance] assms(1) by (auto split: if_splits)
next
  case (Abort r)
  then show ?thesis using abort_needs_reject [OF Abort] assms(1) by (auto split: if_splits)
next
  case PendingAcks
  with assms(2) show ?thesis by simp
qed

end

lemma committed_acks_pos: "0 < committed_acks acks \<longleftrightarrow> Committed \<in> set acks"
  by (auto simp: committed_acks_def filter_empty_conv)

lemma rejected_acks_pos: "0 < rejected_acks acks \<longleftrightarrow> (\<exists>r. Rejected r \<in> set acks)"
proof -
  have "is_rejected a \<longleftrightarrow> (\<exists>r. a = Rejected r)" for a by (cases a) auto
  then show ?thesis by (auto simp: rejected_acks_def filter_empty_conv)
qed

lemma approval_reduce_cases:
  "approval_reduce s i acks = Advance \<Longrightarrow> 0 < committed_acks acks"
  "approval_reduce s i acks = Abort r \<Longrightarrow> 0 < rejected_acks acks"
  by (auto simp: approval_reduce_def Let_def split: if_splits)

interpretation approval_saga: saga_protocol "\<lambda>_. 1" "\<lambda>s _. Inr (as_step s)" approval_reduce
proof
  fix s :: "'b approval_saga" and i acks r
  show "approval_reduce s i [] = PendingAcks"
    by (auto simp: approval_reduce_def committed_acks_def rejected_acks_def Let_def)
  show "i < 1 \<Longrightarrow> \<exists>sp. Inr (as_step s) = (Inr sp :: 'b saga_step_spec result)"
    by simp
  show "approval_reduce s i acks = Advance \<Longrightarrow> Committed \<in> set acks"
    using approval_reduce_cases(1) committed_acks_pos by blast
  show "approval_reduce s i acks = Abort r \<Longrightarrow> \<exists>r'. Rejected r' \<in> set acks"
    using approval_reduce_cases(2) rejected_acks_pos by blast
qed

lemma transfer_reduce_first: "transfer_reduce s i acks = first_ack_wins acks"
  by (cases "(s, i, acks)" rule: transfer_reduce.cases) simp_all

lemma first_ack_wins_cases:
  "first_ack_wins acks = Advance \<Longrightarrow> Committed \<in> set acks"
  "first_ack_wins acks = Abort r \<Longrightarrow> Rejected r \<in> set acks"
  by (cases acks rule: first_ack_wins.cases; simp)+

interpretation transfer_saga: saga_protocol "\<lambda>s. length (tr_steps s)" "\<lambda>s. nth_step (tr_steps s)"
    transfer_reduce
  by unfold_locales (auto simp: nth_step_def transfer_reduce_first dest: first_ack_wins_cases)

interpretation session_saga: saga_protocol step_count saga_step saga_reduce
proof
  fix s :: "'a session_saga" and i acks r
  show "i < step_count s \<Longrightarrow> \<exists>sp. saga_step s i = Inr sp"
    by (cases s) (auto simp: nth_step_def)
  show "saga_reduce s i [] = PendingAcks"
    by (cases s) (simp_all add: approval_saga.no_acks)
  show "saga_reduce s i acks = Advance \<Longrightarrow> Committed \<in> set acks"
    by (cases s) (auto simp: transfer_reduce_first
        dest: approval_saga.advance_needs_commit first_ack_wins_cases)
  show "saga_reduce s i acks = Abort r \<Longrightarrow> \<exists>r'. Rejected r' \<in> set acks"
    by (cases s) (auto simp: transfer_reduce_first
        dest: approval_saga.abort_needs_reject first_ack_wins_cases)
qed

text \<open>A reconstructed custom or transfer saga decides on its single ack at once.\<close>

lemma custom_single_ack:
  "saga_type r \<noteq> ''approval'' \<Longrightarrow>
   saga_reduce (build_session_saga E r) i [ack] =
     (case ack of Committed \<Rightarrow> Advance | Rejected reason \<Rightarrow> Abort reason)"
  by (cases ack) (auto simp: build_session_saga_def Let_def transfer_reduce_first)

end
