(* ===== verification/Logged.thy ===== *)
theory Logged
  imports Saga
begin

text \<open>
  The replay half of the transition function (\<open>apply_logged\<close> in
  \<open>crates/session/src/transition.rs\<close>): how an event of the log advances control state and
  memory. Each arm that computes something is a definition of its own; \<open>logged_arm\<close> is the
  match. \<open>m\<close> is always the memory after \<open>advance_cursor\<close>.
\<close>

type_synonym 'j outcome = "(session_state \<times> 'j session_memory \<times> 'j effect list) result"

abbreviation quiet :: "session_state \<Rightarrow> 'j session_memory \<Rightarrow> 'j outcome" where
  "quiet st m \<equiv> Inr (st, m, [])"

definition session_updated_broadcast :: "'j host \<Rightarrow> 'j session_memory \<Rightarrow> 'j effect" where
  "session_updated_broadcast E m =
     Broadcast (j_obj E
       [(''type'', j_str E ''session_updated''),
        (''session_id'', j_str E (session_id m)),
        (''cursor'', j_int E (cursor m))])"

section \<open>Lifecycle and participation\<close>

definition fresh_member :: "string \<Rightarrow> string \<Rightarrow> datetime \<Rightarrow> member_record" where
  "fresh_member actor r t =
     \<lparr>mr_actor_id = actor, role = r, mr_joined_at = t, detached = False, connection = None\<rparr>"

definition logged_session_created ::
  "'j host \<Rightarrow> 'j session_memory \<Rightarrow> string \<Rightarrow> string \<Rightarrow> string \<Rightarrow> 'j session_memory" where
  "logged_session_created E m owner name policy =
     recount_eligible
       (m\<lparr>session_name := name, session_policy := policy, owner_id := owner,
          members := bt_or_insert owner (fresh_member owner ''owner'' (clock E 0)) (members m)\<rparr>)"

definition logged_participant_joined ::
  "'j session_memory \<Rightarrow> string \<Rightarrow> string \<Rightarrow> datetime \<Rightarrow> 'j session_memory" where
  "logged_participant_joined m actor r joined =
     recount_eligible
       (m\<lparr>members := bt_or_insert actor (fresh_member actor r joined) (members m)\<rparr>)"

definition detach_member :: "string \<Rightarrow> 'j session_memory \<Rightarrow> 'j session_memory" where
  "detach_member actor m =
     m\<lparr>members := bt_modify actor (\<lambda>r. r\<lparr>detached := True, connection := None\<rparr>) (members m)\<rparr>"

definition logged_participant_left :: "'j session_memory \<Rightarrow> string \<Rightarrow> 'j session_memory" where
  "logged_participant_left m actor = recount_eligible (detach_member actor m)"

definition logged_ownership_transferred ::
  "'j session_memory \<Rightarrow> string \<Rightarrow> string \<Rightarrow> 'j session_memory" where
  "logged_ownership_transferred m from_actor to_actor =
     recount_eligible
       (m\<lparr>owner_id := to_actor,
          members :=
            bt_modify to_actor (\<lambda>r. r\<lparr>role := ''owner''\<rparr>)
              (bt_modify from_actor (\<lambda>r. r\<lparr>role := ''collaborator''\<rparr>) (members m))\<rparr>)"

definition logged_agent_attached ::
  "'j host \<Rightarrow> session_state \<Rightarrow> 'j session_memory \<Rightarrow> string \<Rightarrow> 'j outcome" where
  "logged_agent_attached E st m actor =
     (let m' = m\<lparr>members :=
                 bt_modify_or_insert actor (\<lambda>r. r\<lparr>detached := False\<rparr>)
                   (fresh_member actor ''agent'' (clock E 0)) (members m)\<rparr>
      in Inr (st, m', [session_updated_broadcast E m']))"

definition logged_agent_detached ::
  "'j host \<Rightarrow> session_state \<Rightarrow> 'j session_memory \<Rightarrow> string \<Rightarrow> 'j outcome" where
  "logged_agent_detached E st m actor =
     (let m' = detach_member actor m in Inr (st, m', [session_updated_broadcast E m']))"

section \<open>Capabilities\<close>

definition logged_cap_delegated ::
  "'j session_memory \<Rightarrow> string \<Rightarrow> string option \<Rightarrow> string \<Rightarrow> string list \<Rightarrow> int \<Rightarrow> int \<Rightarrow> datetime
   \<Rightarrow> 'j session_memory" where
  "logged_cap_delegated m cid parent actor perms ep strat issued =
     m\<lparr>cap_children :=
         (case parent of
            None \<Rightarrow> cap_children m
          | Some p \<Rightarrow> bt_modify_or_insert p (\<lambda>cs. cs @ [cid]) [cid] (cap_children m)),
       caps :=
         bt_insert cid
           \<lparr>cap_id = cid, cap_actor_id = actor, parent_cap = parent, permissions = perms,
            cap_epoch = ep, stratum = strat, issued_at = issued, revoked = False\<rparr> (caps m)\<rparr>"

definition revoke_cap :: "string \<Rightarrow> 'j session_memory \<Rightarrow> 'j session_memory" where
  "revoke_cap cid m = m\<lparr>caps := bt_modify cid (\<lambda>c. c\<lparr>revoked := True\<rparr>) (caps m)\<rparr>"

definition logged_cap_revoked ::
  "'j session_memory \<Rightarrow> string \<Rightarrow> string \<Rightarrow> 'j session_memory result" where
  "logged_cap_revoked m cid strategy =
     (if strategy = ''subtree''
      then bind_result (cap_subtree m cid) (\<lambda>ids. Inr (fold revoke_cap ids m))
      else Inr (revoke_cap cid m))"

definition logged_epoch_advanced ::
  "'j host \<Rightarrow> session_state \<Rightarrow> 'j session_memory \<Rightarrow> int \<Rightarrow> int \<Rightarrow> u64 \<Rightarrow> string list \<Rightarrow> datetime
   \<Rightarrow> 'j outcome" where
  "logged_epoch_advanced E st m sq new_epoch drain_deadline_ms fenced advanced_at =
     (let m' = m\<lparr>epoch := new_epoch,
                 caps := bt_map_values
                   (\<lambda>c. if cap_epoch c < new_epoch then c\<lparr>revoked := True\<rparr> else c) (caps m)\<rparr>
      in if fenced = [] then quiet st m'
         else case date_add_ms E advanced_at (sint drain_deadline_ms) of
                None \<Rightarrow> Inl Date_out_of_range
              | Some deadline \<Rightarrow> quiet (Draining deadline sq) m')"

section \<open>Approvals\<close>

definition logged_approval_requested ::
  "'j session_memory \<Rightarrow> string \<Rightarrow> string \<Rightarrow> string \<Rightarrow> datetime option \<Rightarrow> datetime \<Rightarrow> 'j session_memory" where
  "logged_approval_requested m aid actor tname expires requested =
     m\<lparr>approvals :=
         bt_insert aid
           \<lparr>approval_id = aid, ap_actor_id = actor, tool = tname, ap_status = Pending,
            requested_at = requested, expires_at = expires, votes = []\<rparr> (approvals m)\<rparr>"

definition set_status :: "approval_status \<Rightarrow> string \<Rightarrow> 'j session_memory \<Rightarrow> 'j session_memory" where
  "set_status s aid m = m\<lparr>approvals := bt_modify aid (\<lambda>a. a\<lparr>ap_status := s\<rparr>) (approvals m)\<rparr>"

definition set_status_if_open ::
  "approval_status \<Rightarrow> string \<Rightarrow> 'j session_memory \<Rightarrow> 'j session_memory" where
  "set_status_if_open s aid m =
     m\<lparr>approvals :=
         bt_modify aid (\<lambda>a. if approval_is_terminal (ap_status a) then a else a\<lparr>ap_status := s\<rparr>)
           (approvals m)\<rparr>"

definition approval_timer :: "string \<Rightarrow> string" where
  "approval_timer aid = ''approval:'' @ aid"

definition drop_timer :: "string \<Rightarrow> 'j session_memory \<Rightarrow> 'j session_memory" where
  "drop_timer t m = m\<lparr>timers := bt_remove t (timers m)\<rparr>"

definition logged_approval_voted ::
  "'j session_memory \<Rightarrow> string \<Rightarrow> string \<Rightarrow> string \<Rightarrow> 'j session_memory" where
  "logged_approval_voted m aid voter decision =
     m\<lparr>approvals := bt_modify aid (\<lambda>a. a\<lparr>votes := bt_insert voter decision (votes a)\<rparr>) (approvals m)\<rparr>"

definition gated_on :: "string \<Rightarrow> 'j session_memory \<Rightarrow> (string \<times> 'j saga_bundle option) list" where
  "gated_on aid m =
     map (\<lambda>(i, g). (i, gated g))
       (filter (\<lambda>(i, g). gate_kind g = Gate_Approval aid) (gated_bundles m))"

definition remove_gate :: "string \<Rightarrow> 'j session_memory \<Rightarrow> 'j session_memory" where
  "remove_gate i m = m\<lparr>gated_bundles := bt_remove i (gated_bundles m)\<rparr>"

definition logged_approval_granted ::
  "session_state \<Rightarrow> 'j session_memory \<Rightarrow> string \<Rightarrow> 'j outcome" where
  "logged_approval_granted st m aid =
     (let m1 = drop_timer (approval_timer aid) (set_status Granted aid m);
          held = gated_on aid m1
      in Inr (st, fold (\<lambda>(i, _). remove_gate i) held m1,
              CancelTimer (approval_timer aid) # map BundleDeliver (List.map_filter snd held)))"

definition logged_approval_closed ::
  "session_state \<Rightarrow> 'j session_memory \<Rightarrow> approval_status \<Rightarrow> string \<Rightarrow> 'j outcome" where
  "logged_approval_closed st m s aid =
     Inr (st, drop_timer (approval_timer aid) (set_status_if_open s aid m),
          [CancelTimer (approval_timer aid)])"

definition logged_approval_denied ::
  "session_state \<Rightarrow> 'j session_memory \<Rightarrow> string \<Rightarrow> 'j outcome" where
  "logged_approval_denied st m aid =
     Inr (st, drop_timer (approval_timer aid) (set_status Denied aid m),
          [CancelTimer (approval_timer aid)])"

section \<open>Proposals, content and snapshots\<close>

definition logged_effect_proposed ::
  "'j session_memory \<Rightarrow> string \<Rightarrow> string option \<Rightarrow> string \<Rightarrow> string option \<Rightarrow> string option
   \<Rightarrow> 'j session_memory" where
  "logged_effect_proposed m pid receipt ety hb ha =
     m\<lparr>proposals :=
         bt_insert pid
           \<lparr>proposal_id = pid, effect_type = ety, receipt_id = receipt, h_before = hb, h_after = ha,
            committed = False, diverged = False\<rparr> (proposals m)\<rparr>"

definition logged_effect_committed ::
  "'j session_memory \<Rightarrow> string \<Rightarrow> string \<Rightarrow> string \<Rightarrow> 'j session_memory" where
  "logged_effect_committed m pid hb ha =
     m\<lparr>proposals :=
         bt_modify pid (\<lambda>p. p\<lparr>committed := True, h_before := Some hb, h_after := Some ha\<rparr>)
           (proposals m)\<rparr>"

text \<open>The loop breaks after its first iteration: only the least key is marked.\<close>

definition logged_effect_diverged :: "'j session_memory \<Rightarrow> 'j session_memory" where
  "logged_effect_diverged m =
     m\<lparr>proposals :=
         (case proposals m of
            [] \<Rightarrow> []
          | (k, p) # rest \<Rightarrow> (k, p\<lparr>diverged := True\<rparr>) # rest)\<rparr>"

definition logged_context_added ::
  "'j session_memory \<Rightarrow> int \<Rightarrow> string \<Rightarrow> string \<Rightarrow> context_entry_kind \<Rightarrow> string \<Rightarrow> datetime
   \<Rightarrow> 'j session_memory" where
  "logged_context_added m sq eid actor kind content added =
     m\<lparr>context_entries :=
         bt_insert eid
           \<lparr>ce_id = eid, ce_kind = kind, ce_content = content, ce_actor_id = actor,
            ce_timestamp = added, ce_resolved = False, ce_resolved_by = None,
            ce_resolution_note = None, ce_seq = sq\<rparr> (context_entries m)\<rparr>"

definition logged_context_resolved ::
  "'j session_memory \<Rightarrow> string \<Rightarrow> string \<Rightarrow> string option \<Rightarrow> 'j session_memory" where
  "logged_context_resolved m eid by_actor note_text =
     m\<lparr>context_entries :=
         bt_modify eid
           (\<lambda>e. e\<lparr>ce_resolved := True, ce_resolved_by := Some by_actor,
                  ce_resolution_note := note_text\<rparr>)
           (context_entries m)\<rparr>"

definition logged_artifact_created ::
  "'j session_memory \<Rightarrow> string \<Rightarrow> string \<Rightarrow> string option \<Rightarrow> 'j session_memory" where
  "logged_artifact_created m aid name ty =
     m\<lparr>artifacts :=
         bt_or_insert aid
           \<lparr>as_id = aid, as_name = name, as_artifact_type = str_or ''other'' ty\<rparr> (artifacts m)\<rparr>"

definition logged_artifact_updated ::
  "'j session_memory \<Rightarrow> string \<Rightarrow> string \<Rightarrow> 'j session_memory" where
  "logged_artifact_updated m aid name =
     m\<lparr>artifacts := bt_modify aid (\<lambda>a. a\<lparr>as_name := name\<rparr>) (artifacts m)\<rparr>"

definition logged_artifact_deleted :: "'j session_memory \<Rightarrow> string \<Rightarrow> 'j session_memory" where
  "logged_artifact_deleted m aid = m\<lparr>artifacts := bt_remove aid (artifacts m)\<rparr>"

section \<open>Sagas and bundle policies\<close>

definition saga_timer :: "string \<Rightarrow> nat \<Rightarrow> string" where
  "saga_timer sid i = ''saga:'' @ sid @ '':'' @ nat_str i"

definition logged_saga_begun ::
  "'j session_memory \<Rightarrow> string \<Rightarrow> string \<Rightarrow> 'j saga_step_spec list \<Rightarrow> datetime \<Rightarrow> 'j
   \<Rightarrow> 'j session_memory" where
  "logged_saga_begun m sid ty ss begun md =
     m\<lparr>sagas :=
         bt_insert sid
           \<lparr>saga_id = sid, saga_type = ty, steps = ss, saga_status = Saga_Running,
            begun_at = begun, saga_metadata = md\<rparr> (sagas m)\<rparr>"

definition logged_saga_step_sent :: "'j session_memory \<Rightarrow> string \<Rightarrow> nat \<Rightarrow> 'j session_memory" where
  "logged_saga_step_sent m sid i =
     m\<lparr>sagas := bt_modify sid (\<lambda>s. s\<lparr>saga_status := Saga_Waiting i (saga_timer sid i)\<rparr>) (sagas m)\<rparr>"

definition is_waiting_on :: "'j saga_record \<Rightarrow> nat \<Rightarrow> bool" where
  "is_waiting_on s i \<longleftrightarrow> (case saga_status s of Saga_Waiting k _ \<Rightarrow> k = i | _ \<Rightarrow> False)"

definition acked_status :: "nat \<Rightarrow> saga_outcome \<Rightarrow> saga_status" where
  "acked_status i out =
     (case out of Committed \<Rightarrow> Saga_Running | Rejected reason \<Rightarrow> Saga_Compensating i reason)"

definition logged_saga_step_acked ::
  "session_state \<Rightarrow> 'j session_memory \<Rightarrow> string \<Rightarrow> nat \<Rightarrow> saga_outcome \<Rightarrow> 'j outcome" where
  "logged_saga_step_acked st m sid i out =
     Inr (st,
          m\<lparr>sagas :=
              bt_modify sid
                (\<lambda>s. if is_waiting_on s i then s\<lparr>saga_status := acked_status i out\<rparr> else s)
                (sagas m)\<rparr>,
          [CancelTimer (saga_timer sid i)])"

definition terminated_status :: "saga_termination \<Rightarrow> saga_status" where
  "terminated_status t =
     (case t of SagaCompleted \<Rightarrow> Saga_Completed | SagaAborted reason \<Rightarrow> Saga_Aborted reason)"

definition logged_saga_terminated ::
  "'j session_memory \<Rightarrow> string \<Rightarrow> saga_termination \<Rightarrow> 'j session_memory" where
  "logged_saga_terminated m sid t =
     m\<lparr>sagas := bt_modify sid (\<lambda>s. s\<lparr>saga_status := terminated_status t\<rparr>) (sagas m)\<rparr>"

definition remaining_ms :: "u64 \<Rightarrow> u64 \<Rightarrow> u64" where
  "remaining_ms now until = (if until \<le> now then 1 else until - now)"

definition defer_timer :: "string \<Rightarrow> string" where
  "defer_timer bid = ''bundle_defer:'' @ bid"

definition logged_bundle_deferred ::
  "'j host \<Rightarrow> session_state \<Rightarrow> 'j session_memory \<Rightarrow> string \<Rightarrow> u64 \<Rightarrow> 'j outcome" where
  "logged_bundle_deferred E st m bid until =
     Inr (st,
          m\<lparr>gated_bundles :=
              bt_or_insert bid
                \<lparr>gate_kind = Gate_Deferred until, gated = None, gate_cursor = None\<rparr>
                (gated_bundles m)\<rparr>,
          [SetTimer (defer_timer bid) (remaining_ms (now_ms E 0) until)])"

definition logged_bundle_approval_gated ::
  "'j session_memory \<Rightarrow> string \<Rightarrow> string \<Rightarrow> 'j session_memory" where
  "logged_bundle_approval_gated m bid aid =
     m\<lparr>gated_bundles :=
         bt_or_insert bid
           \<lparr>gate_kind = Gate_Approval aid, gated = None, gate_cursor = None\<rparr> (gated_bundles m)\<rparr>"

definition logged_policy_set ::
  "'j session_memory \<Rightarrow> policy_target \<Rightarrow> 'j policy_constraint \<Rightarrow> 'j session_memory" where
  "logged_policy_set m target con = m\<lparr>policies := bt_insert target con (policies m)\<rparr>"

section \<open>The match\<close>

primrec logged_arm ::
  "'j host \<Rightarrow> session_state \<Rightarrow> 'j session_memory \<Rightarrow> int \<Rightarrow> 'j session_event \<Rightarrow> 'j outcome" where
  "logged_arm E st m sq (SessionCreated sid owner name policy created) =
     quiet st (logged_session_created E m owner name policy)"
| "logged_arm E st m sq (SessionPaused by_actor reason paused) =
     quiet (Suspended by_actor reason paused) m"
| "logged_arm E st m sq (SessionResumed by_actor resumed) = quiet Active m"
| "logged_arm E st m sq (SessionArchived by_actor archived) = quiet (Archived archived) m"
| "logged_arm E st m sq (ParticipantJoined actor r joined) =
     quiet st (logged_participant_joined m actor r joined)"
| "logged_arm E st m sq (ParticipantLeft actor reason left) = quiet st (logged_participant_left m actor)"
| "logged_arm E st m sq (OwnershipTransferred from_actor to_actor transferred) =
     quiet st (logged_ownership_transferred m from_actor to_actor)"
| "logged_arm E st m sq (AgentAttached actor cid attached) = logged_agent_attached E st m actor"
| "logged_arm E st m sq (AgentDetached actor reason detached_at) = logged_agent_detached E st m actor"
| "logged_arm E st m sq (CapDelegated cid parent actor perms ep strat issued) =
     quiet st (logged_cap_delegated m cid parent actor perms ep strat issued)"
| "logged_arm E st m sq (CapRevoked cid strategy by_actor at) =
     bind_result (logged_cap_revoked m cid strategy) (\<lambda>m'. quiet st m')"
| "logged_arm E st m sq (EpochAdvanced old_epoch new_epoch strategy dl fenced by_actor advanced) =
     logged_epoch_advanced E st m sq new_epoch dl fenced advanced"
| "logged_arm E st m sq (ApprovalRequested aid actor tname args expires requested) =
     quiet st (logged_approval_requested m aid actor tname expires requested)"
| "logged_arm E st m sq (ApprovalClaimed aid by_actor at) = quiet st (set_status_if_open Claimed aid m)"
| "logged_arm E st m sq (ApprovalVoted aid voter decision at) =
     quiet st (logged_approval_voted m aid voter decision)"
| "logged_arm E st m sq (ApprovalGranted aid by_actor at) = logged_approval_granted st m aid"
| "logged_arm E st m sq (ApprovalDenied aid by_actor reason at) = logged_approval_denied st m aid"
| "logged_arm E st m sq (ApprovalExpired aid at) = logged_approval_closed st m Expired aid"
| "logged_arm E st m sq (ApprovalInterrupted aid reason at) =
     logged_approval_closed st m Interrupted aid"
| "logged_arm E st m sq (ApprovalCancelled aid by_actor at) = logged_approval_closed st m Expired aid"
| "logged_arm E st m sq (ApprovalDelegated aid from_actor to_actor at) = quiet st m"
| "logged_arm E st m sq (ApprovalDisputed aid by_actor reason at) = quiet st m"
| "logged_arm E st m sq (CrossSessionDelegationRequested sid aid target by_actor at) = quiet st m"
| "logged_arm E st m sq (CrossSessionDelegationReceived sid source said args taid at) = quiet st m"
| "logged_arm E st m sq (CrossSessionDelegationResolved sid aid decision at) = quiet st m"
| "logged_arm E st m sq (CrossSessionArtifactImportReceived a b c d e f g h i k l n p q) = quiet st m"
| "logged_arm E st m sq (CrossSessionContextReceived a b c d e f g h i k l) = quiet st m"
| "logged_arm E st m sq (CrossSessionAnnotationReceived a b c d e f g h i) = quiet st m"
| "logged_arm E st m sq (EffectProposed pid receipt ety hb ha at) =
     quiet st (logged_effect_proposed m pid receipt ety hb ha)"
| "logged_arm E st m sq (EffectScouted aid manifest at) = quiet st m"
| "logged_arm E st m sq (EffectAttested atid receipt tname path mismatch at) = quiet st m"
| "logged_arm E st m sq (EffectCommitted pid eid hb ha at) =
     quiet st (logged_effect_committed m pid hb ha)"
| "logged_arm E st m sq (EffectDiverged aid ty details at) = quiet st (logged_effect_diverged m)"
| "logged_arm E st m sq (MessagePosted actor content at) = quiet st m"
| "logged_arm E st m sq (ContextEntryAdded eid actor kind content added) =
     quiet st (logged_context_added m sq eid actor kind content added)"
| "logged_arm E st m sq (ContextEntryResolved eid by_actor note_text at) =
     quiet st (logged_context_resolved m eid by_actor note_text)"
| "logged_arm E st m sq (ArtifactCreated aid actor name ty at) =
     quiet st (logged_artifact_created m aid name ty)"
| "logged_arm E st m sq (ArtifactUpdated aid actor name ty at) =
     quiet st (logged_artifact_updated m aid name)"
| "logged_arm E st m sq (ArtifactDeleted aid actor name ty at) = quiet st (logged_artifact_deleted m aid)"
| "logged_arm E st m sq (SnapshotCreated snap at) = quiet st (m\<lparr>snapshot_seq := snap\<rparr>)"
| "logged_arm E st m sq (SnapshotInvalidated reason at) = quiet st (m\<lparr>snapshot_seq := 0\<rparr>)"
| "logged_arm E st m sq (SagaBegun sid ty ss begun md) = quiet st (logged_saga_begun m sid ty ss begun md)"
| "logged_arm E st m sq (SagaStepSent sid i part at) = quiet st (logged_saga_step_sent m sid i)"
| "logged_arm E st m sq (SagaStepAcked sid i out at) = logged_saga_step_acked st m sid i out"
| "logged_arm E st m sq (SagaCompensated sid i at) = quiet st m"
| "logged_arm E st m sq (SagaTerminated sid t at) = quiet st (logged_saga_terminated m sid t)"
| "logged_arm E st m sq (BundleAnnotated bid md) = quiet st m"
| "logged_arm E st m sq (BundleReshaped bid transport reason) = quiet st m"
| "logged_arm E st m sq (BundleDeferred bid until icap) = logged_bundle_deferred E st m bid until"
| "logged_arm E st m sq (BundleRejected bid reason icap) = quiet st (remove_gate bid m)"
| "logged_arm E st m sq (BundleApprovalGated bid aid icap) =
     quiet st (logged_bundle_approval_gated m bid aid)"
| "logged_arm E st m sq (PolicySet target con by_cap at) = quiet st (logged_policy_set m target con)"

definition apply_logged ::
  "'j host \<Rightarrow> session_state \<Rightarrow> 'j session_memory \<Rightarrow> int \<Rightarrow> 'j session_event \<Rightarrow> 'j outcome" where
  "apply_logged E st m sq ev = logged_arm E st (advance_cursor sq m) sq ev"

lemmas logged_memory_defs =
  logged_session_created_def logged_participant_joined_def logged_participant_left_def
  logged_ownership_transferred_def logged_cap_delegated_def logged_approval_requested_def
  logged_approval_voted_def logged_effect_proposed_def logged_effect_committed_def
  logged_effect_diverged_def logged_context_added_def logged_context_resolved_def
  logged_artifact_created_def logged_artifact_updated_def logged_artifact_deleted_def
  logged_saga_begun_def logged_saga_step_sent_def logged_saga_terminated_def
  logged_bundle_approval_gated_def logged_policy_set_def detach_member_def recount_eligible_def
  revoke_cap_def set_status_def set_status_if_open_def drop_timer_def remove_gate_def
  advance_cursor_def

lemmas logged_outcome_defs =
  logged_agent_attached_def logged_agent_detached_def logged_epoch_advanced_def
  logged_approval_granted_def logged_approval_closed_def logged_approval_denied_def
  logged_saga_step_acked_def logged_bundle_deferred_def

end
