(* ===== verification/Live.thy ===== *)
theory Live
  imports Logged
begin

text \<open>
  The live half of the transition function (\<open>apply_live\<close> and its handlers in
  \<open>crates/session/src/transition.rs\<close>), the approval policy and the public entry point
  \<open>transition\<close>. \<open>clock E i\<close> is the \<open>i\<close>-th reading of the wall clock a handler
  makes; a handler that calls another after \<open>n\<close> readings passes \<open>after_reading\<close> applied
  \<open>n\<close> times.
\<close>

section \<open>Connections\<close>

definition is_fenced :: "'j session_memory \<Rightarrow> string \<Rightarrow> bool" where
  "is_fenced m actor =
     list_ex (\<lambda>c. cap_actor_id c = actor \<and> revoked c \<and> cap_epoch c < epoch m) (bt_values (caps m))"

text \<open>The message contains an em dash, three bytes of UTF-8.\<close>

definition fenced_reason :: string where
  "fenced_reason =
     ''epoch fenced '' @ [CHR 0xE2, CHR 0x80, CHR 0x94] @ '' obtain a new cap before reconnecting''"

definition attach_connection :: "string \<Rightarrow> string \<Rightarrow> 'j session_memory \<Rightarrow> 'j session_memory" where
  "attach_connection actor conn m =
     m\<lparr>members :=
         bt_modify actor (\<lambda>r. r\<lparr>connection := Some conn, detached := False\<rparr>) (members m)\<rparr>"

definition live_actor_connected ::
  "'j host \<Rightarrow> session_state \<Rightarrow> 'j session_memory \<Rightarrow> string \<Rightarrow> string \<Rightarrow> 'j outcome" where
  "live_actor_connected E st m actor conn =
     (if is_draining st \<and> is_fenced m actor
      then Inr (st, m, [CloseConnection actor 4003 fenced_reason])
      else let m' = attach_connection actor conn m
           in Inr (st, m', [session_updated_broadcast E m']))"

definition to_interrupt :: "'j session_memory \<Rightarrow> string \<Rightarrow> string list" where
  "to_interrupt m actor =
     map fst (filter (\<lambda>(i, a). ap_actor_id a = actor \<and> is_open a) (approvals m))"

definition live_actor_disconnected ::
  "'j host \<Rightarrow> session_state \<Rightarrow> 'j session_memory \<Rightarrow> string \<Rightarrow> string \<Rightarrow> 'j outcome" where
  "live_actor_disconnected E st m actor conn =
     (let m' = m\<lparr>members := bt_modify actor (\<lambda>r. r\<lparr>connection := None\<rparr>) (members m)\<rparr>
      in Inr (st, m',
           map (\<lambda>(i, aid). Persist (ApprovalInterrupted aid ''agent disconnected'' (clock E i)))
             (List.enumerate 0 (to_interrupt m' actor))
           @ [session_updated_broadcast E m']))"

definition live_actor_reconnected ::
  "'j host \<Rightarrow> session_state \<Rightarrow> 'j session_memory \<Rightarrow> string \<Rightarrow> string \<Rightarrow> 'j outcome" where
  "live_actor_reconnected E st m actor conn =
     (let m' = attach_connection actor conn m in Inr (st, m', [session_updated_broadcast E m']))"

section \<open>The approval policy\<close>

datatype policy_outcome = Grant string | PolicyDeny string | PolicyPending

text \<open>The last key of the vote map, or the empty string.\<close>

definition deciding :: "(string, string) btree \<Rightarrow> string" where
  "deciding vs = (if vs = [] then '''' else fst (last vs))"

definition evaluate_policy :: "string \<Rightarrow> (string, string) btree \<Rightarrow> nat \<Rightarrow> policy_outcome" where
  "evaluate_policy policy vs eligible_count =
     (let approve = count_votes ''approve'' vs; denials = count_votes ''deny'' vs
      in if policy = ''single_vote'' then
           (if approve > 0 then Grant (deciding vs)
            else if denials > 0 then PolicyDeny (deciding vs)
            else PolicyPending)
         else if policy = ''majority'' then
           (let threshold = eligible_count div 2 + 1
            in if threshold \<le> approve then Grant (deciding vs)
               else if threshold \<le> denials then PolicyDeny (deciding vs)
               else PolicyPending)
         else if policy = ''unanimous'' then
           (if eligible_count > 0 \<and> approve = eligible_count then Grant (deciding vs)
            else if denials > 0 then PolicyDeny (deciding vs)
            else PolicyPending)
         else
           (if approve > 0 then Grant (deciding vs) else PolicyPending))"

section \<open>Approvals\<close>

definition can_vote :: "'j session_memory \<Rightarrow> string \<Rightarrow> bool" where
  "can_vote m voter =
     (case bt_get (members m) voter of None \<Rightarrow> False | Some r \<Rightarrow> can_approve r \<and> \<not> detached r)"

fun decision_str :: "vote_decision \<Rightarrow> string" where
  "decision_str VoteApprove = ''approve''"
| "decision_str VoteDeny = ''deny''"

definition live_vote_cast ::
  "'j host \<Rightarrow> session_state \<Rightarrow> 'j session_memory \<Rightarrow> string \<Rightarrow> string \<Rightarrow> vote_decision \<Rightarrow> 'j outcome" where
  "live_vote_cast E st m aid voter decision =
     (if \<not> can_vote m voter then quiet st m
      else case bt_get (approvals m) aid of
        None \<Rightarrow> quiet st m
      | Some a \<Rightarrow>
          if \<not> is_open a then quiet st m
          else let projected = bt_insert voter (decision_str decision) (votes a);
                   resolution =
                     evaluate_policy (session_policy m) projected (eligible_approvers m);
                   tail =
                     (case resolution of
                        Grant by_actor \<Rightarrow>
                          [Persist (ApprovalGranted aid by_actor (clock E 1)),
                           CancelTimer (approval_timer aid)]
                      | PolicyDeny by_actor \<Rightarrow>
                          [Persist (ApprovalDenied aid by_actor None (clock E 1)),
                           CancelTimer (approval_timer aid)]
                      | PolicyPending \<Rightarrow> [])
               in Inr (st, m,
                    Persist (ApprovalVoted aid voter (decision_str decision) (clock E 0))
                    # tail @ [session_updated_broadcast E m]))"

text \<open>The shape shared by the handlers that log one event and notify the clients.\<close>

definition persist_and_notify ::
  "'j host \<Rightarrow> session_state \<Rightarrow> 'j session_memory \<Rightarrow> 'j session_event \<Rightarrow> 'j outcome" where
  "persist_and_notify E st m ev = Inr (st, m, [Persist ev, session_updated_broadcast E m])"

definition live_ownership_transfer ::
  "'j host \<Rightarrow> session_state \<Rightarrow> 'j session_memory \<Rightarrow> string \<Rightarrow> string \<Rightarrow> 'j outcome" where
  "live_ownership_transfer E st m from_actor to_actor =
     persist_and_notify E st m (OwnershipTransferred from_actor to_actor (clock E 0))"

definition live_approval_claim ::
  "'j host \<Rightarrow> session_state \<Rightarrow> 'j session_memory \<Rightarrow> string \<Rightarrow> string \<Rightarrow> 'j outcome" where
  "live_approval_claim E st m aid actor =
     (if (case bt_get (approvals m) aid of None \<Rightarrow> False | Some a \<Rightarrow> ap_status a = Pending)
      then persist_and_notify E st m (ApprovalClaimed aid actor (clock E 0))
      else quiet st m)"

definition live_approval_cancel ::
  "'j host \<Rightarrow> session_state \<Rightarrow> 'j session_memory \<Rightarrow> string \<Rightarrow> string \<Rightarrow> 'j outcome" where
  "live_approval_cancel E st m aid actor =
     persist_and_notify E st m (ApprovalCancelled aid actor (clock E 0))"

definition live_approval_delegate ::
  "'j host \<Rightarrow> session_state \<Rightarrow> 'j session_memory \<Rightarrow> string \<Rightarrow> string \<Rightarrow> string \<Rightarrow> 'j outcome" where
  "live_approval_delegate E st m aid from_actor to_actor =
     persist_and_notify E st m (ApprovalDelegated aid from_actor to_actor (clock E 0))"

definition live_approval_dispute ::
  "'j host \<Rightarrow> session_state \<Rightarrow> 'j session_memory \<Rightarrow> string \<Rightarrow> string \<Rightarrow> string \<Rightarrow> 'j outcome" where
  "live_approval_dispute E st m aid actor reason =
     persist_and_notify E st m (ApprovalDisputed aid actor reason (clock E 0))"

definition actor_present :: "'j session_memory \<Rightarrow> string \<Rightarrow> bool" where
  "actor_present m actor =
     (case bt_get (members m) actor of None \<Rightarrow> False | Some r \<Rightarrow> \<not> detached r)"

definition live_approval_create ::
  "'j host \<Rightarrow> session_state \<Rightarrow> 'j session_memory \<Rightarrow> string \<Rightarrow> string \<Rightarrow> string \<Rightarrow> 'j \<Rightarrow> u64 option
   \<Rightarrow> 'j outcome" where
  "live_approval_create E st m aid actor tname args expires_ms =
     (if \<not> actor_present m actor then quiet st m
      else case expires_ms of
        None \<Rightarrow>
          Inr (st, m,
            [Persist (ApprovalRequested aid actor tname args None (clock E 0)),
             session_updated_broadcast E m])
      | Some ms \<Rightarrow>
          (case date_add_ms E (clock E 0) (sint ms) of
             None \<Rightarrow> Inl Date_out_of_range
           | Some expires \<Rightarrow>
               Inr (st, m,
                 [Persist (ApprovalRequested aid actor tname args (Some expires) (clock E 1)),
                  SetTimer (approval_timer aid) ms,
                  session_updated_broadcast E m])))"

section \<open>Messages, context and artifacts\<close>

definition live_message_post ::
  "'j host \<Rightarrow> session_state \<Rightarrow> 'j session_memory \<Rightarrow> string \<Rightarrow> string \<Rightarrow> 'j outcome" where
  "live_message_post E st m actor content =
     persist_and_notify E st m (MessagePosted actor content (clock E 0))"

definition live_context_add ::
  "'j host \<Rightarrow> session_state \<Rightarrow> 'j session_memory \<Rightarrow> string \<Rightarrow> string \<Rightarrow> context_entry_kind \<Rightarrow> string
   \<Rightarrow> 'j outcome" where
  "live_context_add E st m eid actor kind content =
     persist_and_notify E st m (ContextEntryAdded eid actor kind content (clock E 0))"

definition live_context_resolve ::
  "'j host \<Rightarrow> session_state \<Rightarrow> 'j session_memory \<Rightarrow> string \<Rightarrow> string \<Rightarrow> string option \<Rightarrow> 'j outcome" where
  "live_context_resolve E st m eid by_actor note_text =
     persist_and_notify E st m (ContextEntryResolved eid by_actor note_text (clock E 0))"

definition live_artifact_create ::
  "'j host \<Rightarrow> session_state \<Rightarrow> 'j session_memory \<Rightarrow> string \<Rightarrow> string \<Rightarrow> string \<Rightarrow> string option
   \<Rightarrow> 'j outcome" where
  "live_artifact_create E st m aid actor name ty =
     persist_and_notify E st m (ArtifactCreated aid actor name ty (clock E 0))"

definition live_artifact_update ::
  "'j host \<Rightarrow> session_state \<Rightarrow> 'j session_memory \<Rightarrow> string \<Rightarrow> string \<Rightarrow> string \<Rightarrow> string option
   \<Rightarrow> 'j outcome" where
  "live_artifact_update E st m aid actor name ty =
     persist_and_notify E st m (ArtifactUpdated aid actor name ty (clock E 0))"

definition live_artifact_delete ::
  "'j host \<Rightarrow> session_state \<Rightarrow> 'j session_memory \<Rightarrow> string \<Rightarrow> string \<Rightarrow> string \<Rightarrow> string option
   \<Rightarrow> 'j outcome" where
  "live_artifact_delete E st m aid actor name ty =
     persist_and_notify E st m (ArtifactDeleted aid actor name ty (clock E 0))"

section \<open>Administration and agents\<close>

definition live_admin_pause ::
  "'j host \<Rightarrow> session_state \<Rightarrow> 'j session_memory \<Rightarrow> string \<Rightarrow> string option \<Rightarrow> 'j outcome" where
  "live_admin_pause E st m by_actor reason =
     (if \<not> is_active st then quiet st m
      else persist_and_notify E st m (SessionPaused by_actor reason (clock E 0)))"

definition live_admin_resume ::
  "'j host \<Rightarrow> session_state \<Rightarrow> 'j session_memory \<Rightarrow> string \<Rightarrow> 'j outcome" where
  "live_admin_resume E st m by_actor =
     (case st of
        Suspended _ _ _ \<Rightarrow> persist_and_notify E st m (SessionResumed by_actor (clock E 0))
      | _ \<Rightarrow> quiet st m)"

definition live_admin_archive ::
  "'j host \<Rightarrow> session_state \<Rightarrow> 'j session_memory \<Rightarrow> string \<Rightarrow> 'j outcome" where
  "live_admin_archive E st m by_actor =
     Inr (st, m,
       map CancelTimer (bt_keys (timers m))
       @ [Persist (SessionArchived by_actor (clock E 0)), session_updated_broadcast E m])"

definition live_sidecar_attach ::
  "'j host \<Rightarrow> session_state \<Rightarrow> 'j session_memory \<Rightarrow> string \<Rightarrow> string \<Rightarrow> 'j outcome" where
  "live_sidecar_attach E st m actor cid =
     (if \<not> cap_is_active m cid
      then Inr (st, m, [CloseConnection actor 4001 ''invalid or revoked capability''])
      else if (case bt_get (caps m) cid of None \<Rightarrow> True | Some c \<Rightarrow> cap_actor_id c \<noteq> actor)
      then Inr (st, m, [CloseConnection actor 4002 ''cap actor_id mismatch''])
      else Inr (st, m, [Persist (AgentAttached actor cid (clock E 0))]))"

definition live_sidecar_detach ::
  "'j host \<Rightarrow> session_state \<Rightarrow> 'j session_memory \<Rightarrow> string \<Rightarrow> string option \<Rightarrow> 'j outcome" where
  "live_sidecar_detach E st m actor reason =
     Inr (st, m, [Persist (AgentDetached actor reason (clock E 0))])"

definition live_forwarded_message ::
  "session_state \<Rightarrow> 'j session_memory \<Rightarrow> string \<Rightarrow> 'j \<Rightarrow> 'j outcome" where
  "live_forwarded_message st m from_sess payload = quiet st m"

end
