(* ===== verification/Coordination.thy ===== *)
theory Coordination
  imports Live
begin

text \<open>
  The cross-session handlers of \<open>crates/session/src/transition.rs\<close>: beginning a saga,
  reducing an ack (with compensation in reverse order), receiving a bundle, and the interception of
  bundles by the policies of the session.
\<close>

section \<open>Beginning a saga\<close>

definition step_bundle ::
  "'j session_memory \<Rightarrow> string \<Rightarrow> nat \<Rightarrow> 'j saga_step_spec \<Rightarrow> u64 \<Rightarrow> 'j saga_bundle" where
  "step_bundle m sid i sp now =
     \<lparr>bundle_id = sid @ '':'' @ nat_str i @ '':step'', bundle_saga_id = sid, bundle_step_idx = i,
      from_session = session_id m, to_session = participant sp,
      bundle_kind = Step (step_message sp) (step_compensation sp),
      ttl_ms = now + timeout_ms sp\<rparr>"

definition live_saga_begin ::
  "'j host \<Rightarrow> session_state \<Rightarrow> 'j session_memory \<Rightarrow> string \<Rightarrow> string \<Rightarrow> 'j saga_step_spec list \<Rightarrow> 'j
   \<Rightarrow> 'j outcome" where
  "live_saga_begin E st m sid ty ss md =
     (case ss of
        [] \<Rightarrow> quiet st m
      | first # _ \<Rightarrow>
          let now = clock E 0
          in Inr (st, m,
               [Persist (SagaBegun sid ty ss now md),
                Persist (SagaStepSent sid 0 (participant first) now),
                Bundle (step_bundle m sid 0 first (now_ms E 1)),
                SetTimer (saga_timer sid 0) (timeout_ms first),
                session_updated_broadcast E m]))"

definition delegation_step :: "'j host \<Rightarrow> string \<Rightarrow> string \<Rightarrow> 'j \<Rightarrow> 'j saga_step_spec" where
  "delegation_step E aid target args =
     \<lparr>step_idx = 0, participant = target,
      step_message = j_obj E
        [(''kind'', j_str E ''cross_session_delegation''), (''approval_id'', j_str E aid),
         (''arguments'', args)],
      step_compensation = j_null E,
      timeout_ms = 24 * 60 * 60 * 1000\<rparr>"

definition live_cross_session_delegate ::
  "'j host \<Rightarrow> session_state \<Rightarrow> 'j session_memory \<Rightarrow> string \<Rightarrow> string \<Rightarrow> string \<Rightarrow> string \<Rightarrow> 'j
   \<Rightarrow> 'j outcome" where
  "live_cross_session_delegate E st m sid aid target by_actor args =
     bind_result
       (live_saga_begin (after_reading E) st m sid ''custom'' [delegation_step E aid target args]
          (j_obj E [(''kind'', j_str E ''cross_session_delegation''), (''approval_id'', j_str E aid)]))
       (\<lambda>(st', m', effs).
          Inr (st', m',
            Persist (CrossSessionDelegationRequested sid aid target by_actor (clock E 0)) # effs))"

section \<open>Reducing an ack\<close>

text \<open>\<open>v.get(field).and_then(|x| x.as_str())\<close>\<close>

definition str_field :: "'j host \<Rightarrow> 'j \<Rightarrow> string \<Rightarrow> string option" where
  "str_field E v f = Option.bind (j_get E v f) (j_as_str E)"

definition delegation_approval_id :: "'j host \<Rightarrow> 'j \<Rightarrow> string option" where
  "delegation_approval_id E md =
     (if str_field E md ''kind'' = Some ''cross_session_delegation''
      then Some (str_or '''' (str_field E md ''approval_id''))
      else None)"

definition comp_bundle ::
  "'j session_memory \<Rightarrow> string \<Rightarrow> nat \<Rightarrow> 'j saga_step_spec \<Rightarrow> u64 \<Rightarrow> 'j saga_bundle" where
  "comp_bundle m sid i sp now =
     \<lparr>bundle_id = sid @ '':'' @ nat_str i @ '':comp'', bundle_saga_id = sid, bundle_step_idx = i,
      from_session = session_id m, to_session = participant sp,
      bundle_kind = Compensation (step_compensation sp),
      ttl_ms = now + timeout_ms sp\<rparr>"

text \<open>
  The compensation loop over the indices given; \<open>r\<close> is the number of the next clock reading.
  An index out of range panics.
\<close>

fun compensate ::
  "'j host \<Rightarrow> 'j session_memory \<Rightarrow> string \<Rightarrow> 'j saga_step_spec list \<Rightarrow> datetime \<Rightarrow> nat \<Rightarrow> nat list
   \<Rightarrow> 'j effect list result" where
  "compensate E m sid ss now r [] = Inr []"
| "compensate E m sid ss now r (i # is) =
     bind_result (nth_step ss i) (\<lambda>sp.
     bind_result (compensate E m sid ss now (Suc r) is) (\<lambda>rest.
       Inr (Persist (SagaCompensated sid i now)
            # Bundle (comp_bundle m sid i sp (now_ms E r)) # rest)))"

definition resolved_effects ::
  "'j host \<Rightarrow> 'j \<Rightarrow> string \<Rightarrow> string \<Rightarrow> datetime \<Rightarrow> 'j effect list" where
  "resolved_effects E md sid decision now =
     (case delegation_approval_id E md of
        None \<Rightarrow> []
      | Some aid \<Rightarrow> [Persist (CrossSessionDelegationResolved sid aid decision now)])"

definition advance_effects ::
  "'j host \<Rightarrow> 'j session_memory \<Rightarrow> string \<Rightarrow> nat \<Rightarrow> 'j saga_step_spec list \<Rightarrow> 'j \<Rightarrow> 'j effect list" where
  "advance_effects E m sid i ss md =
     (let now = clock E 0; next_idx = usize_add i 1
      in Persist (SagaStepAcked sid i Committed now)
         # (if next_idx < length ss
            then let sp = ss ! next_idx
                 in [Persist (SagaStepSent sid next_idx (participant sp) now),
                     Bundle (step_bundle m sid next_idx sp (now_ms E 1)),
                     SetTimer (saga_timer sid next_idx) (timeout_ms sp)]
            else Persist (SagaTerminated sid SagaCompleted now)
                 # resolved_effects E md sid ''granted'' now))"

definition abort_effects ::
  "'j host \<Rightarrow> 'j session_memory \<Rightarrow> string \<Rightarrow> nat \<Rightarrow> 'j saga_step_spec list \<Rightarrow> 'j \<Rightarrow> saga_outcome \<Rightarrow> string
   \<Rightarrow> 'j effect list result" where
  "abort_effects E m sid i ss md out reason =
     (let now = clock E 0
      in bind_result (compensate E m sid ss now 1 (rev [0..<i])) (\<lambda>comps.
           Inr (Persist (SagaStepAcked sid i out now)
                # comps
                @ Persist (SagaTerminated sid (SagaAborted reason) now)
                # resolved_effects E md sid ''denied'' now)))"

definition live_saga_ack ::
  "'j host \<Rightarrow> session_state \<Rightarrow> 'j session_memory \<Rightarrow> string \<Rightarrow> nat \<Rightarrow> saga_outcome \<Rightarrow> 'j outcome" where
  "live_saga_ack E st m sid i out =
     (case bt_get (sagas m) sid of
        None \<Rightarrow> quiet st m
      | Some s \<Rightarrow>
          if \<not> is_waiting_on s i then quiet st m
          else
            bind_result
              (case saga_reduce (build_session_saga E s) i [out] of
                 PendingAcks \<Rightarrow> Inr []
               | Advance \<Rightarrow> Inr (advance_effects E m sid i (steps s) (saga_metadata s))
               | Abort reason \<Rightarrow> abort_effects E m sid i (steps s) (saga_metadata s) out reason)
              (\<lambda>effs.
                 Inr (st, m,
                   CancelTimer (saga_timer sid i) # effs @ [session_updated_broadcast E m])))"

section \<open>Receiving a bundle\<close>

definition str_field_or_empty :: "'j host \<Rightarrow> 'j \<Rightarrow> string \<Rightarrow> string" where
  "str_field_or_empty E v f = str_or '''' (str_field E v f)"

definition delegation_received :: "'j host \<Rightarrow> 'j saga_bundle \<Rightarrow> 'j \<Rightarrow> 'j session_event" where
  "delegation_received E b msg =
     CrossSessionDelegationReceived (bundle_saga_id b) (from_session b)
       (str_field_or_empty E msg ''approval_id'')
       (case j_get E msg ''arguments'' of None \<Rightarrow> j_null E | Some v \<Rightarrow> v)
       None (clock E 1)"

text \<open>
  \<open>unwrap_or_else(Utc::now)\<close>: the clock is read for a missing or unparsable date only, so the
  date comes with the number of the next reading.
\<close>

definition date_field :: "'j host \<Rightarrow> 'j \<Rightarrow> string \<Rightarrow> datetime \<times> nat" where
  "date_field E msg f =
     (case Option.bind (str_field E msg f) (parse_rfc3339 E) of
        Some d \<Rightarrow> (d, 1)
      | None \<Rightarrow> (clock E 1, 2))"

definition artifact_import_received :: "'j host \<Rightarrow> 'j saga_bundle \<Rightarrow> 'j \<Rightarrow> 'j session_event" where
  "artifact_import_received E b msg =
     (let (created, r) = date_field E msg ''source_created_at''
      in CrossSessionArtifactImportReceived (from_session b)
           (str_field_or_empty E msg ''source_artifact_id'')
           (case Option.bind (j_get E msg ''source_seq'') (j_as_i64 E) of None \<Rightarrow> 0 | Some n \<Rightarrow> n)
           (str_field_or_empty E msg ''name'')
           (str_field_or_empty E msg ''artifact_type'')
           (str_field_or_empty E msg ''storage_ref'')
           (str_field_or_empty E msg ''content_hash'')
           (str_field_or_empty E msg ''source_created_by'')
           created
           (str_field_or_empty E msg ''imported_by'')
           (str_field E msg ''link_id'')
           (str_field_or_empty E msg ''source_name'')
           (str_field_or_empty E msg ''target_name'')
           (clock E r))"

definition entry_kind :: "string option \<Rightarrow> context_entry_kind" where
  "entry_kind o_s =
     (if o_s = Some ''hypothesis'' then Hypothesis
      else if o_s = Some ''question'' then Question
      else if o_s = Some ''constraint'' then Constraint
      else if o_s = Some ''decision'' then Decision
      else Fact)"

definition context_received :: "'j host \<Rightarrow> 'j saga_bundle \<Rightarrow> 'j \<Rightarrow> 'j session_event" where
  "context_received E b msg =
     (let (authored, r) = date_field E msg ''source_authored_at''
      in CrossSessionContextReceived (from_session b)
           (str_field_or_empty E msg ''source_entry_id'')
           (entry_kind (str_field E msg ''entry_kind''))
           (str_field_or_empty E msg ''content'')
           (str_field_or_empty E msg ''source_authored_by'')
           authored
           (str_field_or_empty E msg ''imported_by'')
           (str_field E msg ''link_id'')
           (str_field_or_empty E msg ''source_name'')
           (str_field_or_empty E msg ''target_name'')
           (clock E r))"

definition annotation_received :: "'j host \<Rightarrow> 'j saga_bundle \<Rightarrow> 'j \<Rightarrow> 'j session_event" where
  "annotation_received E b msg =
     CrossSessionAnnotationReceived (from_session b)
       (str_field_or_empty E msg ''object_type'')
       (str_field_or_empty E msg ''object_id'')
       (str_field_or_empty E msg ''object_name'')
       (str_field_or_empty E msg ''note'')
       (str_field_or_empty E msg ''authored_by'')
       (str_field E msg ''link_id'')
       (str_field_or_empty E msg ''source_name'')
       (clock E 1)"

definition receive_step ::
  "'j host \<Rightarrow> session_state \<Rightarrow> 'j session_memory \<Rightarrow> 'j saga_bundle \<Rightarrow> 'j \<Rightarrow> 'j outcome" where
  "receive_step E st m b msg =
     (let k = str_field E msg ''kind''
      in if k = Some ''cross_session_delegation''
         then persist_and_notify E st m (delegation_received E b msg)
         else if k = Some ''artifact_import''
         then persist_and_notify E st m (artifact_import_received E b msg)
         else if k = Some ''context_summary_send''
         then persist_and_notify E st m (context_received E b msg)
         else if k = Some ''annotation''
         then persist_and_notify E st m (annotation_received E b msg)
         else quiet st m)"

definition cap_not_revoked :: "'j session_memory \<Rightarrow> string \<Rightarrow> bool" where
  "cap_not_revoked m cid =
     (case bt_get (caps m) cid of None \<Rightarrow> False | Some c \<Rightarrow> \<not> revoked c)"

definition live_bundle_received ::
  "'j host \<Rightarrow> session_state \<Rightarrow> 'j session_memory \<Rightarrow> 'j saga_bundle \<Rightarrow> 'j outcome" where
  "live_bundle_received E st m b =
     (if ttl_ms b < now_ms E 0 then quiet st m
      else case bundle_kind b of
        Ack out cid \<Rightarrow>
          if \<not> cap_not_revoked m cid then quiet st m
          else live_saga_ack (after_reading E) st m (bundle_saga_id b) (bundle_step_idx b) out
      | Step msg rollback \<Rightarrow> receive_step E st m b msg
      | Compensation msg \<Rightarrow> quiet st m)"

section \<open>Interception\<close>

fun specific_target :: "'j bundle_kind \<Rightarrow> policy_target" where
  "specific_target (Step _ _) = BundleStep"
| "specific_target (Compensation _) = BundleCompensation"
| "specific_target (Ack _ _) = BundleAck"

definition effective_constraint ::
  "'j session_memory \<Rightarrow> 'j saga_bundle \<Rightarrow> 'j policy_constraint option" where
  "effective_constraint m b =
     (case bt_get (policies m) (specific_target (bundle_kind b)) of
        Some c \<Rightarrow> Some c
      | None \<Rightarrow> bt_get (policies m) TargetAll)"

definition resolve_bundle_disposition ::
  "'j host \<Rightarrow> 'j session_memory \<Rightarrow> 'j saga_bundle \<Rightarrow> 'j bundle_disposition" where
  "resolve_bundle_disposition E m b =
     (case effective_constraint m b of
        None \<Rightarrow> DispForward
      | Some ForwardConstraint \<Rightarrow> DispForward
      | Some RequireApproval \<Rightarrow> DispApprovalPending (''gate:'' @ bundle_id b)
      | Some (DeferConstraint d) \<Rightarrow> DispDefer (now_ms E 0 + d)
      | Some (RejectConstraint reason) \<Rightarrow> DispReject reason
      | Some (AnnotateConstraint md) \<Rightarrow> DispAnnotate md)"

definition hold_bundle ::
  "'j saga_bundle \<Rightarrow> reflector_cursor \<Rightarrow> gate_kind \<Rightarrow> 'j session_memory \<Rightarrow> 'j session_memory" where
  "hold_bundle b rc k m =
     m\<lparr>gated_bundles :=
         bt_insert (bundle_id b) \<lparr>gate_kind = k, gated = Some b, gate_cursor = Some rc\<rparr>
           (gated_bundles m)\<rparr>"

definition apply_bundle_disposition ::
  "'j host \<Rightarrow> session_state \<Rightarrow> 'j session_memory \<Rightarrow> 'j saga_bundle \<Rightarrow> string \<Rightarrow> reflector_cursor
   \<Rightarrow> 'j bundle_disposition \<Rightarrow> 'j outcome" where
  "apply_bundle_disposition E st m b icap rc disp =
     (case disp of
        DispForward \<Rightarrow> Inr (st, m, [BundleDeliver b])
      | DispAnnotate md \<Rightarrow> Inr (st, m, [Persist (BundleAnnotated (bundle_id b) md), BundleDeliver b])
      | DispReject reason \<Rightarrow> Inr (st, m, [Persist (BundleRejected (bundle_id b) reason icap)])
      | DispReshape transport \<Rightarrow>
          Inr (st, m,
            [Persist (BundleReshaped (bundle_id b) transport ''adapter reshape''),
             BundleDeliver (b\<lparr>to_session := bt_to_session transport, ttl_ms := bt_ttl_ms transport\<rparr>)])
      | DispDefer until \<Rightarrow>
          Inr (st, hold_bundle b rc (Gate_Deferred until) m,
            [Persist (BundleDeferred (bundle_id b) until icap),
             SetTimer (defer_timer (bundle_id b)) (remaining_ms (now_ms E 0) until)])
      | DispApprovalPending aid \<Rightarrow>
          Inr (st, hold_bundle b rc (Gate_Approval aid) m,
            [Persist (BundleApprovalGated (bundle_id b) aid icap)]))"

definition live_bundle_intercepted ::
  "'j host \<Rightarrow> session_state \<Rightarrow> 'j session_memory \<Rightarrow> 'j saga_bundle \<Rightarrow> string \<Rightarrow> reflector_cursor
   \<Rightarrow> 'j outcome" where
  "live_bundle_intercepted E st m b icap rc =
     (if ttl_ms b < now_ms E 0 then quiet st m
      else apply_bundle_disposition (after_reading (after_reading E)) st m b icap rc
             (resolve_bundle_disposition (after_reading E) m b))"

end
