(* ===== verification/Transition.thy ===== *)
theory Transition
  imports Coordination
begin

text \<open>
  Timers, the dispatch of live events and the public entry point \<open>transition\<close> of
  \<open>crates/session/src/transition.rs\<close>.
\<close>

text \<open>The timer of a saga step: \<open>saga:{saga_id}:{step_idx}\<close>, read back from its end.\<close>

definition saga_timer_target :: "string \<Rightarrow> (string \<times> nat) option" where
  "saga_timer_target t =
     (case strip_prefix ''saga:'' t of
        None \<Rightarrow> None
      | Some rest \<Rightarrow>
          (case rsplit_colon rest of
             None \<Rightarrow> None
           | Some (step_s, sid) \<Rightarrow>
               (case parse_usize step_s of None \<Rightarrow> None | Some i \<Rightarrow> Some (sid, i))))"

definition approval_still_open :: "'j session_memory \<Rightarrow> string \<Rightarrow> bool" where
  "approval_still_open m aid =
     (case bt_get (approvals m) aid of
        None \<Rightarrow> False
      | Some a \<Rightarrow> \<not> approval_is_terminal (ap_status a))"

definition saga_is_waiting :: "'j session_memory \<Rightarrow> string \<Rightarrow> nat \<Rightarrow> bool" where
  "saga_is_waiting m sid i =
     (case bt_get (sagas m) sid of None \<Rightarrow> False | Some s \<Rightarrow> is_waiting_on s i)"

definition fire_deferred ::
  "'j host \<Rightarrow> session_state \<Rightarrow> 'j session_memory \<Rightarrow> string \<Rightarrow> 'j outcome" where
  "fire_deferred E st m bid =
     (case bt_get (gated_bundles m) bid of
        None \<Rightarrow> quiet st m
      | Some g \<Rightarrow>
          (case gated g of
             None \<Rightarrow> quiet st (remove_gate bid m)
           | Some b \<Rightarrow>
               if now_ms E 0 \<le> ttl_ms b
               then Inr (st, remove_gate bid m, [BundleDeliver b])
               else quiet st (remove_gate bid m)))"

definition fire_saga ::
  "'j host \<Rightarrow> session_state \<Rightarrow> 'j session_memory \<Rightarrow> string \<Rightarrow> 'j outcome" where
  "fire_saga E st m t =
     (case saga_timer_target t of
        None \<Rightarrow> quiet st m
      | Some (sid, i) \<Rightarrow>
          if saga_is_waiting m sid i
          then live_saga_ack E st m sid i (Rejected (''step '' @ nat_str i @ '' timed out''))
          else quiet st m)"

definition live_timer_fired ::
  "'j host \<Rightarrow> session_state \<Rightarrow> 'j session_memory \<Rightarrow> string \<Rightarrow> 'j outcome" where
  "live_timer_fired E st m0 t =
     (let m = drop_timer t m0
      in if (case strip_prefix ''approval:'' t of None \<Rightarrow> False | Some aid \<Rightarrow> approval_still_open m aid)
         then persist_and_notify E st m
                (ApprovalExpired (the (strip_prefix ''approval:'' t)) (clock E 0))
         else if starts_with ''drain:'' t \<and> is_draining st
         then Inr (Active, m, [session_updated_broadcast E m])
         else case strip_prefix ''bundle_defer:'' t of
           Some bid \<Rightarrow> fire_deferred E st m bid
         | None \<Rightarrow> fire_saga E st m t)"

primrec apply_live ::
  "'j host \<Rightarrow> session_state \<Rightarrow> 'j session_memory \<Rightarrow> 'j live_event \<Rightarrow> 'j outcome" where
  "apply_live E st m (ActorConnected actor conn) = live_actor_connected E st m actor conn"
| "apply_live E st m (ActorDisconnected actor conn reason) = live_actor_disconnected E st m actor conn"
| "apply_live E st m (ActorReconnected actor conn) = live_actor_reconnected E st m actor conn"
| "apply_live E st m (VoteCast aid voter decision) = live_vote_cast E st m aid voter decision"
| "apply_live E st m (TimerFired t) = live_timer_fired E st m t"
| "apply_live E st m (OwnershipTransfer from_actor to_actor) =
     live_ownership_transfer E st m from_actor to_actor"
| "apply_live E st m (ApprovalClaim aid actor) = live_approval_claim E st m aid actor"
| "apply_live E st m (ApprovalCancel aid actor) = live_approval_cancel E st m aid actor"
| "apply_live E st m (ApprovalDelegate aid from_actor to_actor) =
     live_approval_delegate E st m aid from_actor to_actor"
| "apply_live E st m (ApprovalDispute aid actor reason) = live_approval_dispute E st m aid actor reason"
| "apply_live E st m (CrossSessionDelegate sid aid target by_actor args) =
     live_cross_session_delegate E st m sid aid target by_actor args"
| "apply_live E st m (MessagePost actor content) = live_message_post E st m actor content"
| "apply_live E st m (ContextAdd eid actor kind content) = live_context_add E st m eid actor kind content"
| "apply_live E st m (ContextResolve eid by_actor note_text) =
     live_context_resolve E st m eid by_actor note_text"
| "apply_live E st m (ArtifactCreate aid actor name ty) = live_artifact_create E st m aid actor name ty"
| "apply_live E st m (ArtifactUpdate aid actor name ty) = live_artifact_update E st m aid actor name ty"
| "apply_live E st m (ArtifactDelete aid actor name ty) = live_artifact_delete E st m aid actor name ty"
| "apply_live E st m (AdminPause by_actor reason) = live_admin_pause E st m by_actor reason"
| "apply_live E st m (AdminResume by_actor) = live_admin_resume E st m by_actor"
| "apply_live E st m (AdminArchive by_actor) = live_admin_archive E st m by_actor"
| "apply_live E st m (SidecarAttach actor cid) = live_sidecar_attach E st m actor cid"
| "apply_live E st m (SidecarDetach actor reason) = live_sidecar_detach E st m actor reason"
| "apply_live E st m (ApprovalCreate aid actor tname args expires_ms) =
     live_approval_create E st m aid actor tname args expires_ms"
| "apply_live E st m (ForwardedMessage from_sess payload) =
     live_forwarded_message st m from_sess payload"
| "apply_live E st m (SagaBegin sid ty ss md) = live_saga_begin E st m sid ty ss md"
| "apply_live E st m (SagaAck sid i out) = live_saga_ack E st m sid i out"
| "apply_live E st m (BundleIntercepted b icap rc) = live_bundle_intercepted E st m b icap rc"
| "apply_live E st m (BundleReceived b) = live_bundle_received E st m b"

fun transition ::
  "'j host \<Rightarrow> session_state \<Rightarrow> 'j session_memory \<Rightarrow> 'j inbound_event \<Rightarrow> 'j outcome" where
  "transition E st m (Replayed sq ev) = apply_logged E st m sq ev"
| "transition E st m (Live ev) = (if is_terminal st then quiet st m else apply_live E st m ev)"

lemmas persist_and_notify_handlers =
  live_ownership_transfer_def live_approval_claim_def live_approval_cancel_def
  live_approval_delegate_def live_approval_dispute_def live_message_post_def live_context_add_def
  live_context_resolve_def live_artifact_create_def live_artifact_update_def
  live_artifact_delete_def live_admin_pause_def live_admin_resume_def persist_and_notify_def

end
