(* ===== verification/Frames.thy ===== *)
theory Frames
  imports Transition
begin

text \<open>
  What the two halves of the transition function may write. \<open>live_write\<close> lists every change
  of memory a live event can cause: connections, timers and held bundles, nothing that the log
  records. \<open>live_apply\<close> lets every proof about live events proceed by cases on that relation
  instead of on the twenty-eight handlers.
\<close>

section \<open>Live events\<close>

inductive live_write :: "'j session_memory \<Rightarrow> 'j session_memory \<Rightarrow> bool" for m where
  keep: "live_write m m"
| attach: "live_write m (attach_connection actor conn m)"
| lose: "live_write m (m\<lparr>members := bt_modify actor (\<lambda>r. r\<lparr>connection := None\<rparr>) (members m)\<rparr>)"
| fire: "live_write m (drop_timer t m)"
| fire_gate: "live_write m (remove_gate b (drop_timer t m))"
| hold: "live_write m (hold_bundle b rc k m)"

lemma saga_ack_keeps:
  "live_saga_ack E st m sid i out = Inr (st', m', effs) \<Longrightarrow> st' = st \<and> m' = m"
  by (auto simp: live_saga_ack_def bind_result_Inr split: option.splits if_splits)

lemma saga_begin_keeps:
  "live_saga_begin E st m sid ty ss md = Inr (st', m', effs) \<Longrightarrow> st' = st \<and> m' = m"
  by (auto simp: live_saga_begin_def Let_def split: list.splits)

lemma delegate_keeps:
  "live_cross_session_delegate E st m sid aid target by_actor args = Inr (st', m', effs)
   \<Longrightarrow> st' = st \<and> m' = m"
  by (auto simp: live_cross_session_delegate_def bind_result_Inr dest: saga_begin_keeps)

lemma bundle_received_keeps:
  "live_bundle_received E st m b = Inr (st', m', effs) \<Longrightarrow> st' = st \<and> m' = m"
  by (auto simp: live_bundle_received_def receive_step_def persist_and_notify_def Let_def
      split: if_splits bundle_kind.splits dest: saga_ack_keeps)

lemma bundle_intercepted_writes:
  "live_bundle_intercepted E st m b icap rc = Inr (st', m', effs) \<Longrightarrow> st' = st \<and> live_write m m'"
  by (auto simp: live_bundle_intercepted_def apply_bundle_disposition_def
      split: if_splits bundle_disposition.splits intro: live_write.intros)

lemma timer_fired_writes:
  assumes "live_timer_fired E st m t = Inr (st', m', effs)"
  shows "live_write m m' \<and> (st' = st \<or> (is_draining st \<and> starts_with ''drain:'' t \<and> st' = Active))"
proof -
  have gate: "live_write m (remove_gate b (drop_timer t m))" for b
    by (rule live_write.fire_gate)
  show ?thesis
    using assms
    by (auto simp: live_timer_fired_def persist_and_notify_def fire_deferred_def fire_saga_def Let_def
        split: if_splits option.splits prod.splits dest!: saga_ack_keeps
        intro: live_write.fire gate)
qed

lemma connection_writes:
  "live_actor_connected E st m actor conn = Inr (st', m', effs) \<Longrightarrow> st' = st \<and> live_write m m'"
  "live_actor_reconnected E st m actor conn = Inr (st', m', effs) \<Longrightarrow> st' = st \<and> live_write m m'"
  "live_actor_disconnected E st m actor conn = Inr (st', m', effs) \<Longrightarrow> st' = st \<and> live_write m m'"
  by (auto simp: live_actor_connected_def live_actor_reconnected_def live_actor_disconnected_def
      Let_def split: if_splits intro: live_write.intros)

lemma approval_handlers_keep:
  "live_vote_cast E st m aid voter decision = Inr (st', m', effs) \<Longrightarrow> st' = st \<and> m' = m"
  "live_approval_create E st m aid actor tname args ms = Inr (st', m', effs) \<Longrightarrow> st' = st \<and> m' = m"
  by (auto simp: live_vote_cast_def live_approval_create_def Let_def
      split: if_splits option.splits policy_outcome.splits)

lemma live_apply:
  assumes "apply_live E st m ev = Inr (st', m', effs)"
  shows "live_write m m' \<and>
    (st' = st \<or> (\<exists>t. ev = TimerFired t \<and> starts_with ''drain:'' t \<and> is_draining st \<and> st' = Active))"
proof (cases ev)
  case (TimerFired t)
  with assms show ?thesis using timer_fired_writes [of E st m t] by auto
next
  case (BundleIntercepted b icap rc)
  with assms show ?thesis using bundle_intercepted_writes [of E st m b icap rc] by auto
qed (use assms in \<open>auto simp: persist_and_notify_handlers live_sidecar_attach_def
      live_sidecar_detach_def live_admin_archive_def live_forwarded_message_def
      split: if_splits option.splits session_state.splits intro: live_write.keep
      dest!: connection_writes approval_handlers_keep saga_ack_keeps saga_begin_keeps delegate_keeps
        bundle_received_keeps\<close>)

lemma replay_emits_no_persist:
  "apply_logged E st m sq ev = Inr (st', m', effs) \<Longrightarrow> list_all (\<lambda>e. \<not> is_persist e) effs"
  unfolding apply_logged_def
  by (cases ev) (auto simp: logged_outcome_defs session_updated_broadcast_def Let_def list_all_iff
      bind_result_Inr split: if_splits option.splits)

section \<open>Timers\<close>

text \<open>The names under which the transition function arms timers.\<close>

definition timer_name :: "string \<Rightarrow> bool" where
  "timer_name i \<longleftrightarrow> starts_with ''approval:'' i \<or> starts_with ''saga:'' i \<or> starts_with ''bundle_defer:'' i"

fun well_named :: "'j effect \<Rightarrow> bool" where
  "well_named (SetTimer i d) = timer_name i"
| "well_named e = True"

lemma timer_names [simp]:
  "timer_name (approval_timer aid)" "timer_name (saga_timer sid i)" "timer_name (defer_timer bid)"
  by (simp_all add: timer_name_def approval_timer_def saga_timer_def defer_timer_def starts_with_def)

lemma timer_name_not_drain: "timer_name i \<Longrightarrow> \<not> starts_with ''drain:'' i"
  by (cases i) (auto simp: timer_name_def starts_with_def)

lemma logged_timers:
  "apply_logged E st m sq ev = Inr (st', m', effs) \<Longrightarrow> list_all well_named effs"
  unfolding apply_logged_def
  by (cases ev) (auto simp: logged_outcome_defs session_updated_broadcast_def Let_def list_all_iff
      bind_result_Inr split: if_splits option.splits)


lemma compensate_well_named: "compensate E m sid ss now r is = Inr effs \<Longrightarrow> list_all well_named effs"
  by (induction E m sid ss now r "is" arbitrary: effs rule: compensate.induct)
    (auto simp: bind_result_Inr)

lemma saga_ack_well_named:
  "live_saga_ack E st m sid i out = Inr (st', m', effs) \<Longrightarrow> list_all well_named effs"
  by (auto simp: live_saga_ack_def advance_effects_def abort_effects_def resolved_effects_def
      session_updated_broadcast_def Let_def bind_result_Inr
      split: option.splits if_splits protocol_outcome.splits dest: compensate_well_named)

lemma saga_begin_well_named:
  "live_saga_begin E st m sid ty ss md = Inr (st', m', effs) \<Longrightarrow> list_all well_named effs"
  by (auto simp: live_saga_begin_def session_updated_broadcast_def Let_def split: list.splits)

lemma bundle_received_well_named:
  "live_bundle_received E st m b = Inr (st', m', effs) \<Longrightarrow> list_all well_named effs"
  by (auto simp: live_bundle_received_def receive_step_def persist_and_notify_def Let_def
      session_updated_broadcast_def
      split: if_splits bundle_kind.splits dest: saga_ack_well_named)

lemma timer_fired_well_named:
  "live_timer_fired E st m t = Inr (st', m', effs) \<Longrightarrow> list_all well_named effs"
  by (auto simp: live_timer_fired_def persist_and_notify_def fire_deferred_def fire_saga_def Let_def
        session_updated_broadcast_def
      split: if_splits option.splits prod.splits dest: saga_ack_well_named)

lemma bundle_intercepted_well_named:
  "live_bundle_intercepted E st m b icap rc = Inr (st', m', effs) \<Longrightarrow> list_all well_named effs"
  by (auto simp: live_bundle_intercepted_def apply_bundle_disposition_def
      split: if_splits bundle_disposition.splits)

lemma live_timers:
  assumes "apply_live E st m ev = Inr (st', m', effs)"
  shows "list_all well_named effs"
  using assms
  by (cases ev)
    (auto simp: persist_and_notify_handlers live_sidecar_attach_def live_actor_connected_def
      live_actor_reconnected_def live_actor_disconnected_def live_vote_cast_def
      live_approval_create_def live_cross_session_delegate_def
      live_sidecar_detach_def live_admin_archive_def live_forwarded_message_def
      session_updated_broadcast_def bind_result_Inr Let_def list_all_iff
      split: if_splits option.splits session_state.splits policy_outcome.splits
      dest!: saga_ack_well_named saga_begin_well_named bundle_received_well_named
        timer_fired_well_named bundle_intercepted_well_named)

lemma transition_timers:
  "transition E st m ev = Inr (st', m', effs) \<Longrightarrow> list_all well_named effs"
  by (cases ev) (auto dest: logged_timers live_timers split: if_splits)

end
