(* ===== verification/Durable.thy ===== *)
theory Durable
  imports Frames
begin

text \<open>
  Event sourcing. \<open>durable\<close> is the part of the memory that the event log determines: it erases
  what live events write directly (connections, the detached flag and what is counted from it,
  timers, held bundles) and the wall-clock readings of replay. Live events never change it, and
  replaying an event maps it to a value that depends on it alone, so a run of the session task and
  a replay of the events it persisted end in the same durable memory.
\<close>

definition erase_member :: "member_record \<Rightarrow> member_record" where
  "erase_member r = r\<lparr>mr_joined_at := 0, detached := False, connection := None\<rparr>"

definition durable :: "'j session_memory \<Rightarrow> 'j session_memory" where
  "durable m =
     m\<lparr>eligible_approvers := 0, members := bt_map_values erase_member (members m),
       timers := [], gated_bundles := []\<rparr>"

lemma erase_member_simps [simp]:
  "erase_member (erase_member r) = erase_member r"
  "erase_member (r\<lparr>detached := d\<rparr>) = erase_member r"
  "erase_member (r\<lparr>connection := c\<rparr>) = erase_member r"
  "erase_member (r\<lparr>role := x\<rparr>) = (erase_member r)\<lparr>role := x\<rparr>"
  by (simp_all add: erase_member_def)

lemma erase_fresh: "erase_member (fresh_member a x t) = fresh_member a x 0"
  by (simp add: erase_member_def fresh_member_def)

section \<open>Mapping over the values commutes with the operations\<close>

lemma map_values_modify:
  "(\<And>v. g (f v) = h (g v)) \<Longrightarrow>
   bt_map_values g (bt_modify k f t) = bt_modify k h (bt_map_values g t)"
  by (induction t) (auto simp: bt_map_values_def bt_modify_def)

lemma modify_id [simp]: "bt_modify k (\<lambda>v. v) t = t"
  by (induction t) (auto simp: bt_modify_def)

lemma map_values_insert: "bt_map_values g (bt_insert k v t) = bt_insert k (g v) (bt_map_values g t)"
  by (induction k v t rule: bt_insert.induct) (auto simp: bt_map_values_def)

lemma map_values_or_insert:
  "bt_map_values g (bt_or_insert k v t) = bt_or_insert k (g v) (bt_map_values g t)"
  by (auto simp: bt_or_insert_def map_values_insert split: option.splits)

lemma map_values_modify_or_insert:
  "(\<And>v. g (f v) = h (g v)) \<Longrightarrow>
   bt_map_values g (bt_modify_or_insert k f v t) = bt_modify_or_insert k h (g v) (bt_map_values g t)"
  by (auto simp: bt_modify_or_insert_def map_values_insert map_values_modify split: option.splits)

lemma map_values_twice [simp]: "bt_map_values g (bt_map_values f t) = bt_map_values (\<lambda>v. g (f v)) t"
  by (induction t) (auto simp: bt_map_values_def)

lemmas erase_members =
  map_values_modify [where g = erase_member and h = "\<lambda>r. r"]
  map_values_modify [where g = erase_member and h = "\<lambda>r. r\<lparr>role := x\<rparr>" for x]
  map_values_or_insert [where g = erase_member]
  map_values_modify_or_insert [where g = erase_member and h = "\<lambda>r. r"]

section \<open>Live events leave it alone\<close>

lemma live_write_durable: "live_write m m' \<Longrightarrow> durable m' = durable m"
  by (induction rule: live_write.induct)
    (simp_all add: durable_def attach_connection_def drop_timer_def remove_gate_def hold_bundle_def
      erase_members)

section \<open>Replay depends on it alone\<close>

definition durable_of :: "'j outcome \<Rightarrow> (session_state \<times> 'j session_memory) result" where
  "durable_of r = bind_result r (\<lambda>(st, m, effs). Inr (st, durable m))"

lemma durable_of_Inr [simp]: "durable_of (Inr (st, m, effs)) = Inr (st, durable m)"
  by (simp add: durable_of_def)

lemma durable_durable [simp]: "durable (durable m) = durable m"
  by (simp add: durable_def)

lemma durable_revoke_cap: "durable (revoke_cap c m) = revoke_cap c (durable m)"
  by (simp add: durable_def revoke_cap_def)

lemma durable_revoke: "durable (fold revoke_cap ids m) = fold revoke_cap ids (durable m)"
  by (induction ids arbitrary: m) (simp_all add: durable_revoke_cap)

lemma durable_remove_gates: "durable (fold (\<lambda>(i, _). remove_gate i) held m) = durable m"
  by (induction held arbitrary: m) (auto simp: durable_def remove_gate_def)

lemma durable_fields [simp]:
  "caps (durable m) = caps m" "cap_children (durable m) = cap_children m"
  "approvals (durable m) = approvals m" "proposals (durable m) = proposals m"
  "artifacts (durable m) = artifacts m" "context_entries (durable m) = context_entries m"
  "sagas (durable m) = sagas m" "policies (durable m) = policies m"
  "cursor (durable m) = cursor m" "epoch (durable m) = epoch m" "owner_id (durable m) = owner_id m"
  "session_id (durable m) = session_id m" "session_name (durable m) = session_name m"
  "session_policy (durable m) = session_policy m" "snapshot_seq (durable m) = snapshot_seq m"
  by (simp_all add: durable_def)

lemma logged_arm_durable:
  assumes "date_add_ms E' = date_add_ms E"
  shows "durable_of (logged_arm E st m sq ev) = durable_of (logged_arm E' st (durable m) sq ev)"
proof (cases ev)
  case (CapRevoked cid strategy by_actor at)
  have "cap_subtree (durable m) cid = cap_subtree m cid"
    by (simp add: cap_subtree_def)
  with CapRevoked show ?thesis
    by (cases "cap_subtree m cid")
      (auto simp: logged_cap_revoked_def durable_of_def durable_revoke durable_revoke_cap)
next
  case (ApprovalGranted aid by_actor at)
  then show ?thesis
    by (simp add: logged_approval_granted_def Let_def durable_remove_gates)
      (simp add: durable_def set_status_def drop_timer_def)
qed (use assms in \<open>auto simp: logged_memory_defs logged_outcome_defs Let_def durable_def
      erase_members erase_fresh comp_def split: option.splits\<close>)


lemma durable_advance_cursor: "durable (advance_cursor sq m) = advance_cursor sq (durable m)"
  by (simp add: durable_def advance_cursor_def)

lemma apply_logged_durable:
  assumes lib: "date_add_ms E' = date_add_ms E" and same: "durable m = durable m'"
  shows "durable_of (apply_logged E st m sq ev) = durable_of (apply_logged E' st m' sq ev)"
proof -
  have "durable_of (apply_logged E st m sq ev) =
      durable_of (logged_arm E st (advance_cursor sq (durable m)) sq ev)"
    unfolding apply_logged_def durable_advance_cursor [symmetric] by (rule logged_arm_durable) simp
  moreover have "durable_of (apply_logged E' st m' sq ev) =
      durable_of (logged_arm E st (advance_cursor sq (durable m')) sq ev)"
    unfolding apply_logged_def durable_advance_cursor [symmetric]
    by (rule logged_arm_durable) (rule lib [symmetric])
  ultimately show ?thesis by (simp add: same)
qed

section \<open>Folding a log\<close>

definition replay_step ::
  "'j host \<Rightarrow> session_state \<times> 'j session_memory \<Rightarrow> int \<times> 'j session_event
   \<Rightarrow> (session_state \<times> 'j session_memory) result" where
  "replay_step E s e =
     bind_result (transition E (fst s) (snd s) (Replayed (fst e) (snd e)))
       (\<lambda>(st, m, effs). Inr (st, m))"

definition replay_log ::
  "'j host \<Rightarrow> string \<Rightarrow> string \<Rightarrow> (int \<times> 'j session_event) list
   \<Rightarrow> (session_state \<times> 'j session_memory) result" where
  "replay_log E sid owner log = run_steps (replay_step E) (Active, new_memory sid owner) log"

lemma replay_log_snoc:
  "replay_log E sid owner (log @ [e]) =
   bind_result (replay_log E sid owner log) (\<lambda>s. replay_step E s e)"
  unfolding replay_log_def run_steps_append
  by (rule arg_cong2 [where f = bind_result]) (auto simp: fun_eq_iff bind_result_def split: sum.splits)

end
