(* ===== verification/Ws_Messages.thy ===== *)
theory Ws_Messages
  imports Protocol_Types
begin

text \<open>
  The WebSocket messages (\<open>crates/protocol/src/messages.rs\<close>): commands of the clients, events of the
  timeline and snapshots, each with its wire name, and who may see an event in full
  (\<open>crates/server/src/event_visibility.rs\<close>).
\<close>

section \<open>Messages\<close>

datatype approval_decision = Decision_granted | Decision_denied | Decision_timed_out

text \<open>The fields that every event carries.\<close>

record ws_head =
  ws_session :: string
  ws_actor :: string
  ws_timestamp :: datetime
  ws_seq :: int

record file_write_attested =
  fw_attestation :: string
  fw_receipt :: string
  fw_tool :: string
  fw_path :: string
  fw_mismatch :: bool
  fw_approved_before :: string
  fw_approved_after :: string
  fw_observed_before :: string
  fw_actual_after :: string

record epoch_advanced =
  ep_new_epoch :: int
  ep_strategy :: string
  ep_target_cap :: "string option"
  ep_target_stratum :: "int option"
  ep_drain_seq :: int
  ep_drain_deadline_ms :: u64
  ep_closed_epoch :: int
  ep_revoked_count :: u64

datatype (plugins only: code) 'j ws_payload =
    WsApprovalRequest string string string string 'j "datetime option"
      \<comment> \<open>session_id, actor_id, approval_id, tool, args, expires_at\<close>
  | WsApprovalClaim string string string              \<comment> \<open>session_id, approval_id, actor_id\<close>
  | WsApprovalGrant string string string
  | WsApprovalDeny string string string "string option"
  | WsApprovalCancel string string "string option"    \<comment> \<open>session_id, approval_id, reason\<close>
  | WsApprovalDelegate string string string string "string option"
      \<comment> \<open>session_id, approval_id, from, to, note\<close>
  | WsApprovalDispute string string string string     \<comment> \<open>session_id, approval_id, actor_id, reason\<close>
  | WsApprovalResolved string approval_decision "string option" datetime "string option"
      \<comment> \<open>approval_id, decision, resolved_by, resolved_at, escalated_to\<close>
  | WsOwnershipTransfer string string string          \<comment> \<open>session_id, from, to\<close>
  | WsMessagePost string string                       \<comment> \<open>session_id, content\<close>
  | WsAgentStatusUpdate string string agent_status
  | WsContextEntryAdd string string context_entry_kind string
  | WsContextEntryResolve string string string "string option"
      \<comment> \<open>session_id, actor_id, entry_id, note\<close>
  | WsToolCallRequested ws_head string string         \<comment> \<open>tool, approval_id\<close>
  | WsToolCallExecuted ws_head string string
  | WsToolCallBlocked ws_head string string string    \<comment> \<open>tool, approval_id, reason\<close>
  | WsApprovalRequested ws_head string string string string "datetime option" 'j
      \<comment> \<open>approval_id, tool, summary, requested_by, expires_at, arguments\<close>
  | WsApprovalClaimed ws_head string                  \<comment> \<open>approval_id\<close>
  | WsApprovalGranted ws_head string
  | WsApprovalDenied ws_head string "string option"
  | WsApprovalContested ws_head string "(string, vote) btree" string
      \<comment> \<open>approval_id, votes, pending_resolution\<close>
  | WsApprovalTimedOut ws_head string
  | WsApprovalCancelled ws_head string
  | WsApprovalDelegated ws_head string string string  \<comment> \<open>approval_id, from, to\<close>
  | WsApprovalDisputed ws_head string string          \<comment> \<open>approval_id, reason\<close>
  | WsActorJoined ws_head "member_role option" "string option"   \<comment> \<open>role, name\<close>
  | WsPresenceChanged string string datetime bool "member_role option"
      \<comment> \<open>session_id, actor, timestamp, attached, role\<close>
  | WsActorDetached ws_head
  | WsPresenceFocusSet string "string option"         \<comment> \<open>session_id, tab\<close>
  | WsPresenceFocus string string datetime "string option"
  | WsOwnershipTransferred ws_head string string      \<comment> \<open>from, to\<close>
  | WsArtifactCreated ws_head string string "string option"
      \<comment> \<open>artifact_id, name, artifact_type\<close>
  | WsArtifactUpdated ws_head string string "string option"
  | WsArtifactDeleted ws_head string string "string option"
  | WsAgentStatusChanged ws_head agent_status
  | WsSessionStatusChanged ws_head string             \<comment> \<open>status\<close>
  | WsSessionRenamed ws_head string string            \<comment> \<open>old_name, new_name\<close>
  | WsMessagePosted ws_head string                    \<comment> \<open>content\<close>
  | WsContextEntryAdded ws_head string context_entry_kind string "string option"
      \<comment> \<open>entry_id, kind, content, authored_by\<close>
  | WsContextEntryResolved ws_head string string "string option"
      \<comment> \<open>entry_id, resolved_by, note\<close>
  | WsShellCommandStarted ws_head string string "string option" bool bool "string option"
      \<comment> \<open>command_id, argv0, command, tracked, redacted, cwd\<close>
  | WsShellCommandCompleted ws_head string int u64    \<comment> \<open>command_id, exit_code, duration_ms\<close>
  | WsEffectRateLimited ws_head string string u64     \<comment> \<open>key_label, policy, retry_after_secs\<close>
  | WsProposalCommitted ws_head string string "string option" string string
      \<comment> \<open>proposal_id, effect_type, artifact_id, h_before, h_after\<close>
  | WsFileWriteAttested ws_head file_write_attested
  | WsEpochAdvanced ws_head epoch_advanced
  | WsSessionSnapshot string int "'j session_snapshot"   \<comment> \<open>session_id, seq, state\<close>

record 'j ws_message =
  wm_id :: string
  wm_payload :: "'j ws_payload"

primrec ws_type_name :: "'j ws_payload \<Rightarrow> string" where
  "ws_type_name (WsApprovalRequest a b c d e f) = ''approval.request''"
| "ws_type_name (WsApprovalClaim a b c) = ''approval.claim''"
| "ws_type_name (WsApprovalGrant a b c) = ''approval.grant''"
| "ws_type_name (WsApprovalDeny a b c d) = ''approval.deny''"
| "ws_type_name (WsApprovalCancel a b c) = ''approval.cancel''"
| "ws_type_name (WsApprovalDelegate a b c d e) = ''approval.delegate''"
| "ws_type_name (WsApprovalDispute a b c d) = ''approval.dispute''"
| "ws_type_name (WsApprovalResolved a b c d e) = ''approval.resolved''"
| "ws_type_name (WsOwnershipTransfer a b c) = ''ownership.transfer''"
| "ws_type_name (WsMessagePost a b) = ''message.post''"
| "ws_type_name (WsAgentStatusUpdate a b c) = ''agent.status.update''"
| "ws_type_name (WsContextEntryAdd a b c d) = ''context.entry.add''"
| "ws_type_name (WsContextEntryResolve a b c d) = ''context.entry.resolve''"
| "ws_type_name (WsToolCallRequested h a b) = ''tool.call.requested''"
| "ws_type_name (WsToolCallExecuted h a b) = ''tool.call.executed''"
| "ws_type_name (WsToolCallBlocked h a b c) = ''tool.call.blocked''"
| "ws_type_name (WsApprovalRequested h a b c d e f) = ''approval.requested''"
| "ws_type_name (WsApprovalClaimed h a) = ''approval.claimed''"
| "ws_type_name (WsApprovalGranted h a) = ''approval.granted''"
| "ws_type_name (WsApprovalDenied h a b) = ''approval.denied''"
| "ws_type_name (WsApprovalContested h a b c) = ''approval.contested''"
| "ws_type_name (WsApprovalTimedOut h a) = ''approval.timed_out''"
| "ws_type_name (WsApprovalCancelled h a) = ''approval.cancelled''"
| "ws_type_name (WsApprovalDelegated h a b c) = ''approval.delegated''"
| "ws_type_name (WsApprovalDisputed h a b) = ''approval.disputed''"
| "ws_type_name (WsActorJoined h a b) = ''actor.joined''"
| "ws_type_name (WsPresenceChanged a b c d e) = ''presence.changed''"
| "ws_type_name (WsActorDetached h) = ''actor.detached''"
| "ws_type_name (WsPresenceFocusSet a b) = ''presence.focus.set''"
| "ws_type_name (WsPresenceFocus a b c d) = ''presence.focus''"
| "ws_type_name (WsOwnershipTransferred h a b) = ''ownership.transferred''"
| "ws_type_name (WsArtifactCreated h a b c) = ''artifact.created''"
| "ws_type_name (WsArtifactUpdated h a b c) = ''artifact.updated''"
| "ws_type_name (WsArtifactDeleted h a b c) = ''artifact.deleted''"
| "ws_type_name (WsAgentStatusChanged h a) = ''agent.status.changed''"
| "ws_type_name (WsSessionStatusChanged h a) = ''session.status.changed''"
| "ws_type_name (WsSessionRenamed h a b) = ''session.renamed''"
| "ws_type_name (WsMessagePosted h a) = ''message.posted''"
| "ws_type_name (WsContextEntryAdded h a b c d) = ''context.entry.added''"
| "ws_type_name (WsContextEntryResolved h a b c) = ''context.entry.resolved''"
| "ws_type_name (WsShellCommandStarted h a b c d e f) = ''shell.command.started''"
| "ws_type_name (WsShellCommandCompleted h a b c) = ''shell.command.completed''"
| "ws_type_name (WsEffectRateLimited h a b c) = ''effect.rate_limited''"
| "ws_type_name (WsProposalCommitted h a b c d e) = ''proposal.committed''"
| "ws_type_name (WsFileWriteAttested h a) = ''proposal.file_write.attested''"
| "ws_type_name (WsEpochAdvanced h a) = ''cap.epoch.advanced''"
| "ws_type_name (WsSessionSnapshot a b c) = ''session.snapshot''"

section \<open>Visibility\<close>

definition GATED_TYPES :: "string list" where
  "GATED_TYPES =
     [''approval.requested'', ''approval.contested'', ''approval.delegated'', ''effect.rate_limited'',
      ''tool.call.blocked'', ''proposal.file_write.attested'']"

definition min_role_for_type :: "string \<Rightarrow> member_role option" where
  "min_role_for_type name = (if name \<in> set GATED_TYPES then Some Collaborator else None)"

definition min_role_of :: "'j ws_payload \<Rightarrow> member_role option" where
  "min_role_of p = min_role_for_type (ws_type_name p)"

text \<open>\<open>redact\<close>, with the JSON value \<open>null\<close>.\<close>

definition redact :: "'j \<Rightarrow> 'j ws_message \<Rightarrow> 'j ws_message option" where
  "redact jnull msg =
     (case wm_payload msg of
        WsApprovalRequested h aid tname summ requested expires args \<Rightarrow>
          Some \<lparr>wm_id = wm_id msg, wm_payload = WsApprovalRequested h aid tname summ requested expires jnull\<rparr>
      | WsApprovalContested h aid vs pending \<Rightarrow>
          Some \<lparr>wm_id = wm_id msg, wm_payload = WsApprovalContested h aid [] pending\<rparr>
      | _ \<Rightarrow> None)"

text \<open>
  \<open>redact_value\<close>, on the stored JSON of an event: \<open>insert_field\<close> is \<open>as_object_mut\<close> followed by
  \<open>insert\<close>, which leaves a value that is no object as it is.
\<close>

definition redact_value ::
  "('j \<Rightarrow> string \<Rightarrow> 'j \<Rightarrow> 'j) \<Rightarrow> 'j host \<Rightarrow> string \<Rightarrow> 'j \<Rightarrow> 'j option" where
  "redact_value insert_field E name v =
     (if name = ''approval.requested'' then Some (insert_field v ''arguments'' (j_null E))
      else if name = ''approval.contested'' then Some (insert_field v ''votes'' (j_obj E []))
      else None)"

end
