(* ===== verification/Session_Broadcast.thy ===== *)
theory Session_Broadcast
  imports Effects Ws_Messages
begin

text \<open>
  The typed broadcasts of \<open>crates/server/src/session_broadcast.rs\<close>: which persisted events
  become a \<open>WsPayload\<close> for the connected clients, and with which fields. Every variant carries the
  envelope \<open>session_id\<close>, \<open>actor\<close>, \<open>timestamp\<close>, \<open>seq\<close>.
\<close>

definition head_of :: "string \<Rightarrow> string \<Rightarrow> datetime \<Rightarrow> int \<Rightarrow> ws_head" where
  "head_of sid actor at sq = \<lparr>ws_session = sid, ws_actor = actor, ws_timestamp = at, ws_seq = sq\<rparr>"

definition to_ws_payload :: "string \<Rightarrow> int \<Rightarrow> 'j session_event \<Rightarrow> 'j ws_payload option" where
  "to_ws_payload sid sq ev =
     (case ev of
        ApprovalExpired aid at \<Rightarrow> Some (WsApprovalTimedOut (head_of sid ''system'' at sq) aid)
      | AgentAttached actor cid at \<Rightarrow> Some (WsActorJoined (head_of sid actor at sq) (Some Agent) None)
      | AgentDetached actor reason at \<Rightarrow> Some (WsActorDetached (head_of sid actor at sq))
      | OwnershipTransferred from_actor to_actor at \<Rightarrow>
          Some (WsOwnershipTransferred (head_of sid from_actor at sq) from_actor to_actor)
      | ApprovalClaimed aid by_actor at \<Rightarrow> Some (WsApprovalClaimed (head_of sid by_actor at sq) aid)
      | SessionPaused by_actor reason at \<Rightarrow>
          Some (WsSessionStatusChanged (head_of sid by_actor at sq) ''suspended'')
      | SessionResumed by_actor at \<Rightarrow>
          Some (WsSessionStatusChanged (head_of sid by_actor at sq) ''active'')
      | SessionArchived by_actor at \<Rightarrow>
          Some (WsSessionStatusChanged (head_of sid by_actor at sq) ''archived'')
      | MessagePosted actor content at \<Rightarrow> Some (WsMessagePosted (head_of sid actor at sq) content)
      | ContextEntryAdded eid actor kind content at \<Rightarrow>
          Some (WsContextEntryAdded (head_of sid actor at sq) eid kind content None)
      | ContextEntryResolved eid by_actor note_text at \<Rightarrow>
          Some (WsContextEntryResolved (head_of sid by_actor at sq) eid by_actor note_text)
      | ArtifactCreated aid actor name ty at \<Rightarrow>
          Some (WsArtifactCreated (head_of sid actor at sq) aid name ty)
      | ArtifactUpdated aid actor name ty at \<Rightarrow>
          Some (WsArtifactUpdated (head_of sid actor at sq) aid name ty)
      | ApprovalCancelled aid by_actor at \<Rightarrow> Some (WsApprovalCancelled (head_of sid by_actor at sq) aid)
      | ApprovalDelegated aid from_actor to_actor at \<Rightarrow>
          Some (WsApprovalDelegated (head_of sid from_actor at sq) aid from_actor to_actor)
      | ApprovalDisputed aid by_actor reason at \<Rightarrow>
          Some (WsApprovalDisputed (head_of sid by_actor at sq) aid reason)
      | ArtifactDeleted aid actor name ty at \<Rightarrow>
          Some (WsArtifactDeleted (head_of sid actor at sq) aid name ty)
      | _ \<Rightarrow> None)"

section \<open>Who an event is attributed to\<close>

text \<open>\<open>actor_of\<close> of \<open>crates/server/src/session_task.rs\<close>.\<close>

definition system_actor :: string where
  "system_actor = ''system''"

definition actor_of :: "'j session_event \<Rightarrow> string" where
  "actor_of ev =
     (case ev of
        SessionCreated sid owner name policy at \<Rightarrow> owner
      | SessionPaused by_actor reason at \<Rightarrow> by_actor
      | SessionResumed by_actor at \<Rightarrow> by_actor
      | SessionArchived by_actor at \<Rightarrow> by_actor
      | ParticipantJoined actor r at \<Rightarrow> actor
      | ParticipantLeft actor reason at \<Rightarrow> actor
      | OwnershipTransferred from_actor to_actor at \<Rightarrow> from_actor
      | AgentAttached actor cid at \<Rightarrow> actor
      | AgentDetached actor reason at \<Rightarrow> actor
      | CapDelegated cid parent actor perms ep strat at \<Rightarrow> actor
      | CapRevoked cid strategy by_actor at \<Rightarrow> by_actor
      | EpochAdvanced old_epoch new_epoch strategy dl fenced by_actor at \<Rightarrow> by_actor
      | ApprovalRequested aid actor tname args expires at \<Rightarrow> actor
      | ApprovalClaimed aid by_actor at \<Rightarrow> by_actor
      | ApprovalVoted aid voter decision at \<Rightarrow> voter
      | ApprovalGranted aid by_actor at \<Rightarrow> by_actor
      | ApprovalDenied aid by_actor reason at \<Rightarrow> by_actor
      | MessagePosted actor content at \<Rightarrow> actor
      | ContextEntryAdded eid actor kind content at \<Rightarrow> actor
      | ContextEntryResolved eid by_actor note_text at \<Rightarrow> by_actor
      | ArtifactCreated aid actor name ty at \<Rightarrow> actor
      | ArtifactUpdated aid actor name ty at \<Rightarrow> actor
      | ArtifactDeleted aid actor name ty at \<Rightarrow> actor
      | ApprovalCancelled aid by_actor at \<Rightarrow> by_actor
      | ApprovalDelegated aid from_actor to_actor at \<Rightarrow> from_actor
      | ApprovalDisputed aid by_actor reason at \<Rightarrow> by_actor
      | CrossSessionDelegationRequested sid aid target by_actor at \<Rightarrow> by_actor
      | CrossSessionArtifactImportReceived a b c d e f g h i imported l n p q \<Rightarrow> imported
      | CrossSessionContextReceived a b c d e f imported h i k l \<Rightarrow> imported
      | CrossSessionAnnotationReceived a b c d e authored g h i \<Rightarrow> authored
      | PolicySet target con by_cap at \<Rightarrow> by_cap
      | _ \<Rightarrow> system_actor)"

end
