(* ===== verification/Lease.thy ===== *)
theory Lease
  imports Prelude
begin

text \<open>
  Lease arbitration over conflict classes (\<open>crates/server/src/lease.rs\<close>). Time is a natural
  number of nanoseconds; \<open>now\<close> is the reading \<open>Instant::elapsed\<close> makes. A guard is the value
  \<open>try_acquire\<close> returns; dropping it is the operation \<open>drop_guard\<close>.
\<close>

datatype conflict_class =
    ClassSession string
  | ClassSaga string
  | ClassSagaStep string nat
  | ReflectorSegment u64
  | ReflectorEpoch

record lease =
  holder :: string
  acquired_at :: nat
  lease_ttl :: nat
  token :: u64

definition DEFAULT_LEASE_TTL :: nat where
  "DEFAULT_LEASE_TTL = 30 * 10 ^ 9"

definition new_lease :: "nat \<Rightarrow> string \<Rightarrow> nat \<Rightarrow> u64 \<Rightarrow> lease" where
  "new_lease now h ttl tok = \<lparr>holder = h, acquired_at = now, lease_ttl = ttl, token = tok\<rparr>"

definition expired :: "nat \<Rightarrow> lease \<Rightarrow> bool" where
  "expired now r \<longleftrightarrow> lease_ttl r < now - acquired_at r"

record lease_manager =
  leases :: "conflict_class \<rightharpoonup> lease"
  next_fencing_token :: u64

definition new_manager :: lease_manager where
  "new_manager = \<lparr>leases = Map.empty, next_fencing_token = 0\<rparr>"

record guard =
  guard_class :: conflict_class
  guard_token :: u64

text \<open>A token is drawn whether or not the lease is acquired.\<close>

definition try_acquire ::
  "nat \<Rightarrow> conflict_class \<Rightarrow> string \<Rightarrow> lease_manager \<Rightarrow> lease_manager \<times> guard option" where
  "try_acquire now c h lm =
     (let tok = next_fencing_token lm + 1;
          lm1 = lm\<lparr>next_fencing_token := tok\<rparr>;
          acquired = (case leases lm c of None \<Rightarrow> True | Some r \<Rightarrow> expired now r)
      in if acquired
         then (lm1\<lparr>leases := (leases lm)(c \<mapsto> new_lease now h DEFAULT_LEASE_TTL tok)\<rparr>,
               Some \<lparr>guard_class = c, guard_token = tok\<rparr>)
         else (lm1, None))"

text \<open>\<open>LeaseGuard::drop\<close> removes whatever record stands at the class.\<close>

definition drop_guard :: "guard \<Rightarrow> lease_manager \<Rightarrow> lease_manager" where
  "drop_guard g lm = lm\<lparr>leases := (leases lm)(guard_class g := None)\<rparr>"

definition holder_of :: "nat \<Rightarrow> conflict_class \<Rightarrow> lease_manager \<Rightarrow> string option" where
  "holder_of now c lm =
     (case leases lm c of
        None \<Rightarrow> None
      | Some r \<Rightarrow> if expired now r then None else Some (holder r))"

definition fencing_token_of :: "nat \<Rightarrow> conflict_class \<Rightarrow> lease_manager \<Rightarrow> u64 option" where
  "fencing_token_of now c lm =
     (case leases lm c of
        None \<Rightarrow> None
      | Some r \<Rightarrow> if expired now r then None else Some (token r))"

datatype lease_plan = ExecuteLocal | AcquireLeases "conflict_class list" | PlanForward string

fun plan_loop ::
  "nat \<Rightarrow> lease_manager \<Rightarrow> string \<Rightarrow> conflict_class list \<Rightarrow> conflict_class list \<Rightarrow> lease_plan" where
  "plan_loop now lm local missing [] =
     (if missing = [] then ExecuteLocal else AcquireLeases missing)"
| "plan_loop now lm local missing (c # cs) =
     (case holder_of now c lm of
        None \<Rightarrow> plan_loop now lm local (missing @ [c]) cs
      | Some h \<Rightarrow>
          if h = local then plan_loop now lm local missing cs else PlanForward h)"

definition plan :: "nat \<Rightarrow> conflict_class list \<Rightarrow> string \<Rightarrow> lease_manager \<Rightarrow> lease_plan" where
  "plan now claims local lm = plan_loop now lm local [] claims"

section \<open>Exclusion and fencing\<close>

lemma try_acquire_exclusive:
  "holder_of now c lm = Some h \<Longrightarrow> try_acquire now c h' lm = (lm', g) \<Longrightarrow>
   g = None \<and> leases lm' = leases lm"
  by (auto simp: holder_of_def try_acquire_def Let_def split: option.splits if_splits)

lemma try_acquire_success:
  assumes "try_acquire now c h lm = (lm', Some g)"
  shows "holder_of now c lm' = Some h" and "guard_class g = c"
    and "fencing_token_of now c lm' = Some (guard_token g)"
    and "guard_token g = next_fencing_token lm'"
  using assms
  by (auto simp: try_acquire_def holder_of_def fencing_token_of_def new_lease_def expired_def Let_def
      split: if_splits)

lemma try_acquire_free:
  "holder_of now c lm = None \<Longrightarrow> \<exists>lm' g. try_acquire now c h lm = (lm', Some g)"
  by (auto simp: holder_of_def try_acquire_def Let_def split: option.splits if_splits)

text \<open>All tokens in the table have been drawn from the counter.\<close>

definition tokens_drawn :: "lease_manager \<Rightarrow> bool" where
  "tokens_drawn lm \<longleftrightarrow> (\<forall>c r. leases lm c = Some r \<longrightarrow> token r \<le> next_fencing_token lm)"

text \<open>As long as the counter does not wrap, a lease acquired later carries a greater token.\<close>

lemma word_succ_greater: "w \<noteq> -1 \<Longrightarrow> w < w + 1" for w :: u64
  using inc_less_eq_self_iff_eq [of w] by (simp add: not_le [symmetric])

lemma try_acquire_fresh_token:
  assumes "try_acquire now c h lm = (lm', Some g)" and "tokens_drawn lm"
    and "next_fencing_token lm \<noteq> -1" and "leases lm c' = Some r"
  shows "token r < guard_token g"
proof -
  have "token r \<le> next_fencing_token lm" using assms(2,4) by (auto simp: tokens_drawn_def)
  also have "\<dots> < next_fencing_token lm + 1" using assms(3) by (rule word_succ_greater)
  also have "\<dots> = guard_token g"
    using assms(1) by (auto simp: try_acquire_def Let_def split: if_splits)
  finally show ?thesis .
qed

lemma tokens_drawn_try_acquire:
  assumes "tokens_drawn lm" and "next_fencing_token lm \<noteq> -1"
  shows "tokens_drawn (fst (try_acquire now c h lm))"
proof -
  have "token r \<le> next_fencing_token lm + 1" if "leases lm c' = Some r" for c' r
    using assms that word_succ_greater [OF assms(2)] by (force simp: tokens_drawn_def)
  then show ?thesis
    by (auto simp: tokens_drawn_def try_acquire_def new_lease_def Let_def)
qed

lemma tokens_drawn_drop: "tokens_drawn lm \<Longrightarrow> tokens_drawn (drop_guard g lm)"
  by (auto simp: tokens_drawn_def drop_guard_def)

section \<open>Plans\<close>

lemma plan_loop_sound:
  "plan_loop now lm local missing cs = ExecuteLocal \<Longrightarrow>
     missing = [] \<and> (\<forall>c \<in> set cs. holder_of now c lm = Some local)"
  "plan_loop now lm local missing cs = AcquireLeases xs \<Longrightarrow>
     xs = missing @ filter (\<lambda>c. holder_of now c lm = None) cs \<and>
     (\<forall>c \<in> set cs. holder_of now c lm \<in> {None, Some local})"
  "plan_loop now lm local missing cs = PlanForward h \<Longrightarrow>
     h \<noteq> local \<and> (\<exists>c \<in> set cs. holder_of now c lm = Some h)"
  by (induction now lm local missing cs rule: plan_loop.induct) (auto split: option.splits if_splits)

end
