(* ===== verification/Reflector.thy ===== *)
theory Reflector
  imports Effects Lease
begin

text \<open>
  The bundle reflector (\<open>crates/server/src/reflector.rs\<close>): the ordered log of cross-session
  bundles with replay from a cursor, lease-gated dispatch and compaction, and the routing of a
  bundle by the session task (\<open>route_bundle\<close>, \<open>deliver_or_queue\<close> in
  \<open>session_task.rs\<close>). What a call finds outside the process is a record \<open>dispatch_env\<close>:
  the clocks, the durable placement directory, whether the hand-off row could be written, and what
  other threads did to the lease table between planning and acquiring.
\<close>

section \<open>State\<close>

definition MAX_AGE_MS :: u64 where
  "MAX_AGE_MS = 10 * 60 * 1000"

record 'j log_entry =
  le_seq :: int
  le_bundle :: "'j saga_bundle"
  le_created_ms :: u64

record 'j reflector =
  refl_log :: "'j log_entry list"
  next_seq :: int
  log_epoch :: "32 word"
  view :: "32 word"
  sole_replica :: bool
  replica_id :: string
  has_pool :: bool
  lease_table :: lease_manager
  announced :: "(reflector_cursor \<times> 'j saga_bundle) list"   \<comment> \<open>sent on the broadcast channel\<close>
  forwarded :: "(string \<times> 'j saga_bundle) list"             \<comment> \<open>rows handed to another replica\<close>

definition new_reflector :: "string \<Rightarrow> bool \<Rightarrow> 'j reflector" where
  "new_reflector rid pool =
     \<lparr>refl_log = [], next_seq = 1, log_epoch = 0, view = 0, sole_replica = True, replica_id = rid,
      has_pool = pool, lease_table = new_manager, announced = [], forwarded = []\<rparr>"

record dispatch_env =
  wall_ms :: u64
  instant :: nat
  current_owner :: "string \<Rightarrow> string option"
  forward_written :: bool
  meanwhile :: "lease_manager \<Rightarrow> lease_manager"

definition set_sole_replica :: "bool \<Rightarrow> 'j reflector \<Rightarrow> 'j reflector" where
  "set_sole_replica v r = r\<lparr>sole_replica := v\<rparr>"

section \<open>Append and replay\<close>

definition append_bundle ::
  "u64 \<Rightarrow> 'j saga_bundle \<Rightarrow> 'j reflector \<Rightarrow> 'j reflector \<times> reflector_cursor" where
  "append_bundle now b r =
     (let sq = next_seq r;
          rc = \<lparr>rc_seq = sq, rc_epoch = log_epoch r, rc_view = view r\<rparr>
      in (r\<lparr>next_seq := sq + 1,
            refl_log := refl_log r @ [\<lparr>le_seq = sq, le_bundle = b, le_created_ms = now\<rparr>],
            announced := announced r @ [(rc, b)]\<rparr>, rc))"

definition entry_cursor :: "'j reflector \<Rightarrow> 'j log_entry \<Rightarrow> reflector_cursor" where
  "entry_cursor r e = \<lparr>rc_seq = le_seq e, rc_epoch = log_epoch r, rc_view = view r\<rparr>"

definition replay ::
  "u64 \<Rightarrow> reflector_cursor \<Rightarrow> 'j reflector \<Rightarrow> (reflector_cursor \<times> 'j saga_bundle) list" where
  "replay now rc r =
     (let from_seq = (if rc_epoch rc = log_epoch r then rc_seq rc else 0)
      in map (\<lambda>e. (entry_cursor r e, le_bundle e))
           (filter (\<lambda>e. from_seq < le_seq e \<and> now \<le> ttl_ms (le_bundle e)) (refl_log r)))"

section \<open>Dispatch\<close>

datatype dispatch_outcome = DCommitted reflector_cursor | DForwarded | DRetry

text \<open>The first session claim that the placement directory gives to another replica.\<close>

fun foreign_owner :: "(string \<Rightarrow> string option) \<Rightarrow> string \<Rightarrow> conflict_class list \<Rightarrow> string option" where
  "foreign_owner owner_of me [] = None"
| "foreign_owner owner_of me (ClassSession sid # cs) =
     (case owner_of sid of
        Some owner \<Rightarrow> if owner \<noteq> me then Some owner else foreign_owner owner_of me cs
      | None \<Rightarrow> foreign_owner owner_of me cs)"
| "foreign_owner owner_of me (_ # cs) = foreign_owner owner_of me cs"

definition durable_session_owner_conflict ::
  "dispatch_env \<Rightarrow> conflict_class list \<Rightarrow> 'j reflector \<Rightarrow> string option" where
  "durable_session_owner_conflict D claims r =
     (if has_pool r then foreign_owner (current_owner D) (replica_id r) claims else None)"

definition forward_bundle ::
  "dispatch_env \<Rightarrow> 'j saga_bundle \<Rightarrow> string \<Rightarrow> 'j reflector \<Rightarrow> 'j reflector \<times> dispatch_outcome" where
  "forward_bundle D b owner r =
     (if has_pool r \<and> forward_written D
      then (r\<lparr>forwarded := forwarded r @ [(owner, b)]\<rparr>, DForwarded)
      else (fst (append_bundle (wall_ms D) b r), DForwarded))"

fun acquire_all ::
  "nat \<Rightarrow> string \<Rightarrow> conflict_class list \<Rightarrow> lease_manager \<Rightarrow> lease_manager \<times> guard list \<times> bool" where
  "acquire_all now h [] lm = (lm, [], False)"
| "acquire_all now h (c # cs) lm =
     (case try_acquire now c h lm of
        (lm1, None) \<Rightarrow> (lm1, [], True)
      | (lm1, Some g) \<Rightarrow>
          (case acquire_all now h cs lm1 of (lm2, gs, raced) \<Rightarrow> (lm2, g # gs, raced)))"

definition dispatch ::
  "dispatch_env \<Rightarrow> 'j saga_bundle \<Rightarrow> conflict_class list \<Rightarrow> 'j reflector
   \<Rightarrow> 'j reflector \<times> dispatch_outcome" where
  "dispatch D b claims r =
     (case durable_session_owner_conflict D claims r of
        Some owner \<Rightarrow> forward_bundle D b owner r
      | None \<Rightarrow>
          (case plan (instant D) claims (replica_id r) (lease_table r) of
             ExecuteLocal \<Rightarrow>
               (case append_bundle (wall_ms D) b r of (r', rc) \<Rightarrow> (r', DCommitted rc))
           | AcquireLeases missing \<Rightarrow>
               (case acquire_all (instant D) (replica_id r) missing (meanwhile D (lease_table r)) of
                  (lm, guards, raced) \<Rightarrow>
                    let released = fold drop_guard guards lm
                    in if raced then (r\<lparr>lease_table := released\<rparr>, DRetry)
                       else case append_bundle (wall_ms D) b r of
                         (r', rc) \<Rightarrow> (r'\<lparr>lease_table := released\<rparr>, DCommitted rc))
           | PlanForward owner \<Rightarrow> forward_bundle D b owner r))"

section \<open>Compaction\<close>

definition sat_sub :: "u64 \<Rightarrow> u64 \<Rightarrow> u64" where
  "sat_sub a b = (if a < b then 0 else a - b)"

text \<open>\<open>inst1\<close> and \<open>inst2\<close> are the instants of the two acquisitions.\<close>

definition compact :: "nat \<Rightarrow> nat \<Rightarrow> u64 \<Rightarrow> 'j reflector \<Rightarrow> 'j reflector \<times> nat" where
  "compact inst1 inst2 now r =
     (case try_acquire inst1 ReflectorEpoch (replica_id r) (lease_table r) of
        (lm1, None) \<Rightarrow> (r\<lparr>lease_table := lm1\<rparr>, 0)
      | (lm1, Some g1) \<Rightarrow>
          (case try_acquire inst2 (ReflectorSegment 0) (replica_id r) lm1 of
             (lm2, None) \<Rightarrow> (r\<lparr>lease_table := drop_guard g1 lm2\<rparr>, 0)
           | (lm2, Some g2) \<Rightarrow>
               let kept = filter (\<lambda>e. sat_sub now MAX_AGE_MS \<le> le_created_ms e) (refl_log r);
                   pruned = length (refl_log r) - length kept
               in (r\<lparr>refl_log := kept,
                     log_epoch := (if pruned > 0 then log_epoch r + 1 else log_epoch r),
                     lease_table := drop_guard g1 (drop_guard g2 lm2)\<rparr>, pruned)))"

definition reflector_len :: "'j reflector \<Rightarrow> nat" where
  "reflector_len r = length (refl_log r)"

definition reflector_is_empty :: "'j reflector \<Rightarrow> bool" where
  "reflector_is_empty r \<longleftrightarrow> reflector_len r = 0"

section \<open>Routing a bundle\<close>

text \<open>The message by which a bundle enters the mailbox of its target.\<close>

definition intercept_message :: "reflector_cursor \<Rightarrow> 'j saga_bundle \<Rightarrow> 'j inbound_event" where
  "intercept_message rc b = Live (BundleIntercepted b '''' rc)"

text \<open>\<open>live\<close>: the sessions with a running task here. The result is the message sent, if any.\<close>

definition deliver_or_queue ::
  "(string \<Rightarrow> bool) \<Rightarrow> 'j saga_bundle \<Rightarrow> reflector_cursor \<Rightarrow> (string \<times> 'j inbound_event) option" where
  "deliver_or_queue live b rc =
     (if live (to_session b) then Some (to_session b, intercept_message rc b) else None)"

definition bundle_claims :: "'j saga_bundle \<Rightarrow> conflict_class list" where
  "bundle_claims b =
     [ClassSession (to_session b), ClassSagaStep (bundle_saga_id b) (bundle_step_idx b)]"

text \<open>
  Up to three dispatches, one environment each; what the last environment's clock says dates the
  plain append that follows three lost races.
\<close>

fun dispatch_attempts ::
  "dispatch_env list \<Rightarrow> 'j saga_bundle \<Rightarrow> 'j reflector \<Rightarrow> 'j reflector \<times> dispatch_outcome" where
  "dispatch_attempts [] b r = (r, DRetry)"
| "dispatch_attempts (D # Ds) b r =
     (case dispatch D b (bundle_claims b) r of
        (r', DRetry) \<Rightarrow> dispatch_attempts Ds b r'
      | (r', outcome) \<Rightarrow> (r', outcome))"

definition MAX_DISPATCH_ATTEMPTS :: nat where
  "MAX_DISPATCH_ATTEMPTS = 3"

definition route_bundle ::
  "(nat \<Rightarrow> dispatch_env) \<Rightarrow> (string \<Rightarrow> bool) \<Rightarrow> 'j saga_bundle \<Rightarrow> 'j reflector
   \<Rightarrow> 'j reflector \<times> (string \<times> 'j inbound_event) option" where
  "route_bundle Ds live b r =
     (case dispatch_attempts (map Ds [0..<MAX_DISPATCH_ATTEMPTS]) b r of
        (r', DCommitted rc) \<Rightarrow> (r', deliver_or_queue live b rc)
      | (r', DForwarded) \<Rightarrow> (r', None)
      | (r', DRetry) \<Rightarrow>
          (case append_bundle (wall_ms (Ds MAX_DISPATCH_ATTEMPTS)) b r' of
             (r'', rc) \<Rightarrow> (r'', deliver_or_queue live b rc)))"

section \<open>The log is ordered\<close>

definition log_ok :: "'j reflector \<Rightarrow> bool" where
  "log_ok r \<longleftrightarrow>
     sorted_wrt (<) (map le_seq (refl_log r)) \<and> (\<forall>e \<in> set (refl_log r). 0 < le_seq e \<and> le_seq e < next_seq r) \<and>
     0 < next_seq r"

lemma log_ok_new: "log_ok (new_reflector rid pool)"
  by (simp add: log_ok_def new_reflector_def)

lemma log_ok_append: "log_ok r \<Longrightarrow> log_ok (fst (append_bundle now b r))"
  by (force simp: log_ok_def append_bundle_def Let_def sorted_wrt_append)

lemma log_ok_lease_table: "log_ok (r\<lparr>lease_table := lm\<rparr>) = log_ok r"
  by (simp add: log_ok_def)

lemma log_ok_forward: "log_ok r \<Longrightarrow> log_ok (fst (forward_bundle D b owner r))"
  by (simp add: forward_bundle_def log_ok_append) (simp add: log_ok_def)

lemma log_ok_dispatch: "log_ok r \<Longrightarrow> log_ok (fst (dispatch D b claims r))"
  using log_ok_append [of r "wall_ms D" b] log_ok_forward [of r D b]
  by (auto simp: dispatch_def log_ok_lease_table Let_def split: option.split lease_plan.split prod.split)

lemma log_ok_compact: "log_ok r \<Longrightarrow> log_ok (fst (compact inst1 inst2 now r))"
  by (auto simp: compact_def log_ok_def Let_def sorted_wrt_map
      split: prod.split option.split intro: sorted_wrt_filter)

section \<open>Acquiring and releasing\<close>

lemma try_acquire_other: "c' \<noteq> c \<Longrightarrow> leases (fst (try_acquire now c h lm)) c' = leases lm c'"
  by (simp add: try_acquire_def Let_def)

lemma drop_guards: "leases (fold drop_guard gs lm) c =
    (if c \<in> guard_class ` set gs then None else leases lm c)"
  by (induction gs arbitrary: lm) (auto simp: drop_guard_def)

lemma acquire_all_leases:
  "acquire_all now h cs lm = (lm', gs, raced) \<Longrightarrow> c \<notin> guard_class ` set gs \<Longrightarrow>
   leases lm' c = leases lm c"
proof (induction now h cs lm arbitrary: lm' gs raced rule: acquire_all.induct)
  case (1 now h lm)
  then show ?case by simp
next
  case (2 now h d cs lm)
  obtain lm1 og where t: "try_acquire now d h lm = (lm1, og)" by (cases "try_acquire now d h lm")
  show ?case
  proof (cases og)
    case None
    then have "leases lm1 = leases lm"
      using t by (auto simp: try_acquire_def Let_def split: if_splits)
    with 2 t None show ?thesis by simp
  next
    case (Some g)
    then have "guard_class g = d" and "c \<noteq> d \<Longrightarrow> leases lm1 c = leases lm c"
      using t try_acquire_success(2) [of now d h lm lm1 g] try_acquire_other [of c d now h lm]
      by simp_all
    with 2 t Some show ?thesis by (auto split: prod.splits)
  qed
qed

text \<open>A transaction leaves no lease behind.\<close>

lemma acquire_release:
  assumes "acquire_all now h cs lm = (lm', gs, raced)"
  shows "leases (fold drop_guard gs lm') c = Some l \<Longrightarrow> leases lm c = Some l"
  using acquire_all_leases [OF assms, of c] by (auto simp: drop_guards split: if_splits)


section \<open>Catching up from a cursor\<close>

text \<open>
  What the drain of a returning session relies on: from a cursor that is still current, replay
  gives what was added since, in order, without what has expired.
\<close>

locale catch_up_log =
  fixes add :: "'b \<Rightarrow> 's \<Rightarrow> 's \<times> 'c"
    and since :: "'c \<Rightarrow> 's \<Rightarrow> 'b list"
    and ok :: "'s \<Rightarrow> bool"
    and current :: "'c \<Rightarrow> 's \<Rightarrow> bool"
    and unexpired :: "'b \<Rightarrow> bool"
  assumes add_ok: "ok s \<Longrightarrow> ok (fst (add b s))"
    and add_current: "ok s \<Longrightarrow> current (snd (add b s)) (fst (add b s))"
    and still_current: "ok s \<Longrightarrow> current c s \<Longrightarrow> current c (fst (add b s))"
    and since_here: "ok s \<Longrightarrow> since (snd (add b s)) (fst (add b s)) = []"
    and since_add: "ok s \<Longrightarrow> current c s \<Longrightarrow>
        since c (fst (add b s)) = since c s @ (if unexpired b then [b] else [])"
begin

lemma since_adds:
  "ok s \<Longrightarrow> current c s \<Longrightarrow>
   since c (fold (\<lambda>b s. fst (add b s)) bs s) = since c s @ filter unexpired bs"
proof (induction bs arbitrary: s)
  case Nil
  then show ?case by simp
next
  case (Cons b bs)
  then show ?case
    using Cons.IH [of "fst (add b s)"] by (simp add: add_ok still_current since_add)
qed

text \<open>A reader that saw the entry added last misses nothing and sees nothing twice.\<close>

lemma catch_up:
  assumes "ok s"
  shows "since (snd (add b s)) (fold (\<lambda>b s. fst (add b s)) bs (fst (add b s))) = filter unexpired bs"
  using assms by (simp add: since_adds add_ok add_current since_here)

end

definition cursor_current :: "reflector_cursor \<Rightarrow> 'j reflector \<Rightarrow> bool" where
  "cursor_current rc r \<longleftrightarrow> rc_epoch rc = log_epoch r \<and> rc_seq rc < next_seq r"

lemma replay_bundles:
  "map snd (replay now rc r) =
   map le_bundle (filter (\<lambda>e. (if rc_epoch rc = log_epoch r then rc_seq rc else 0) < le_seq e
     \<and> now \<le> ttl_ms (le_bundle e)) (refl_log r))"
  by (simp add: replay_def Let_def comp_def)

interpretation reader: catch_up_log "append_bundle at" "\<lambda>rc r. map snd (replay now rc r)" log_ok
    cursor_current "\<lambda>b. now \<le> ttl_ms b" for at :: u64 and now :: u64
proof
  fix r :: "'j reflector" and b rc
  assume ok: "log_ok r"
  show "log_ok (fst (append_bundle at b r))" using ok by (rule log_ok_append)
  show "cursor_current (snd (append_bundle at b r)) (fst (append_bundle at b r))"
    by (simp add: cursor_current_def append_bundle_def Let_def)
  show "map snd (replay now (snd (append_bundle at b r)) (fst (append_bundle at b r))) = []"
    using ok unfolding replay_bundles by (auto simp: append_bundle_def Let_def log_ok_def filter_empty_conv)
  assume cur: "cursor_current rc r"
  show "cursor_current rc (fst (append_bundle at b r))"
    using cur by (simp add: cursor_current_def append_bundle_def Let_def)
  show "map snd (replay now rc (fst (append_bundle at b r))) =
      map snd (replay now rc r) @ (if now \<le> ttl_ms b then [b] else [])"
    using cur unfolding replay_bundles by (simp add: append_bundle_def Let_def cursor_current_def)
qed

end
