(* ===== verification/Runtime.thy ===== *)
theory Runtime
  imports Durable Session_Broadcast Reflector
begin

text \<open>
  The session actor (\<open>crates/server/src/session_task.rs\<close>): the task state, the effect
  interpreter with its real and shadow persistence, cold-start replay, timers, and the loop that
  feeds the mailbox to \<open>transition\<close>.

  The task's channel holds 256 messages; only the task itself takes messages out, so its own send
  into a full channel never returns, which is the failure \<open>Deadlocked\<close>. The task keeps a
  sender of its own channel, so the channel never closes under it.
\<close>

section \<open>State\<close>

text \<open>
  Where the event of a journal entry came from: read from the log at start-up, appended to
  \<open>session_events\<close> by \<open>real_persist\<close>, or applied to the memory only by
  \<open>shadow_persist\<close>. The journal is the sequence of events the task folded into its memory.
\<close>

datatype journal_origin = From_log | Appended | Shadowed

record 'j journal_entry =
  je_origin :: journal_origin
  je_seq :: int
  je_type :: string
  je_actor :: string
  je_event :: "'j session_event"

datatype 'j emission =
    Out_typed "'j ws_payload"             \<comment> \<open>hub broadcast of a persisted event\<close>
  | Out_broadcast 'j
  | Out_send string 'j
  | Out_close string nat string          \<comment> \<open>actor_id, code, reason\<close>
  | Out_forward string 'j                \<comment> \<open>to the mailbox of another session's task\<close>
  | Out_bundle "'j saga_bundle"          \<comment> \<open>handed to \<open>route_bundle\<close>\<close>
  | Out_side_effects "'j session_event"  \<comment> \<open>handed to \<open>handle_cross_session_side_effects\<close>\<close>
  | Out_watermark int "32 word"          \<comment> \<open>upsert of the reflector cursor\<close>

record 'j task =
  task_session :: string
  task_state :: session_state
  task_memory :: "'j session_memory"
  journal :: "'j journal_entry list"
  armed :: "(string, u64) btree"
  in_flight :: "string list"
  mailbox :: "'j inbound_event list"
  outputs :: "'j emission list"
  hub_snapshot :: "(int \<times> 'j session_snapshot) option"
  ticks :: nat
  stopped :: bool

text \<open>
  The runtime's surroundings. \<open>lib\<close> are the libraries; \<open>clocks k\<close> is the wall clock as the
  \<open>k\<close>-th call of \<open>transition\<close> reads it. The database answers are indexed by the same counter:
  \<open>append_reply\<close> is the sequence number \<open>PersistPlan::execute\<close> returns, \<open>alloc_reply\<close> that of
  \<open>alloc_seq\<close>, \<open>snapshot_written\<close> whether the snapshot write succeeds.
\<close>

record 'j runtime =
  lib :: "'j host"
  clocks :: "nat \<Rightarrow> nat \<Rightarrow> datetime"
  append_reply :: "nat \<Rightarrow> int option"
  alloc_reply :: "nat \<Rightarrow> int option"
  snapshot_written :: "nat \<Rightarrow> bool"

definition host_at :: "'j runtime \<Rightarrow> nat \<Rightarrow> 'j host" where
  "host_at X k = (lib X)\<lparr>clock := clocks X k\<rparr>"

section \<open>Elementary actions\<close>

definition channel_capacity :: nat where
  "channel_capacity = 256"

definition emit :: "'j emission \<Rightarrow> 'j task \<Rightarrow> 'j task" where
  "emit x t = t\<lparr>outputs := outputs t @ [x]\<rparr>"

definition send_self :: "'j inbound_event \<Rightarrow> 'j task \<Rightarrow> 'j task result" where
  "send_self ev t =
     (if length (mailbox t) < channel_capacity
      then Inr (t\<lparr>mailbox := mailbox t @ [ev]\<rparr>)
      else Inl Deadlocked)"

text \<open>A prior timer with the same name is cancelled first.\<close>

definition arm_timer :: "string \<Rightarrow> u64 \<Rightarrow> 'j task \<Rightarrow> 'j task" where
  "arm_timer i d t = t\<lparr>armed := bt_insert i d (bt_remove i (armed t))\<rparr>"

definition cancel_timer :: "string \<Rightarrow> 'j task \<Rightarrow> 'j task" where
  "cancel_timer i t = t\<lparr>armed := bt_remove i (armed t)\<rparr>"

section \<open>Persistence\<close>

definition is_machine_autonomous :: "'j session_event \<Rightarrow> bool" where
  "is_machine_autonomous ev =
     (case ev of
        ApprovalExpired a b \<Rightarrow> True
      | ApprovalInterrupted a b c \<Rightarrow> True
      | AgentAttached a b c \<Rightarrow> True
      | AgentDetached a b c \<Rightarrow> True
      | SagaBegun a b c d e \<Rightarrow> True
      | SagaStepSent a b c d \<Rightarrow> True
      | SagaStepAcked a b c d \<Rightarrow> True
      | SagaCompensated a b c \<Rightarrow> True
      | SagaTerminated a b c \<Rightarrow> True
      | BundleAnnotated a b \<Rightarrow> True
      | BundleReshaped a b c \<Rightarrow> True
      | BundleDeferred a b c \<Rightarrow> True
      | BundleRejected a b c \<Rightarrow> True
      | BundleApprovalGated a b c \<Rightarrow> True
      | PolicySet a b c d \<Rightarrow> True
      | _ \<Rightarrow> False)"

text \<open>The events \<open>handle_cross_session_side_effects\<close> matches.\<close>

definition has_side_effects :: "'j session_event \<Rightarrow> bool" where
  "has_side_effects ev =
     (case ev of
        CrossSessionDelegationReceived a b c d e f \<Rightarrow> True
      | CrossSessionDelegationResolved a b c d \<Rightarrow> True
      | CrossSessionArtifactImportReceived a b c d e f g h i k l m n p \<Rightarrow> True
      | CrossSessionContextReceived a b c d e f g h i k l \<Rightarrow> True
      | CrossSessionAnnotationReceived a b c d e f g h i \<Rightarrow> True
      | _ \<Rightarrow> False)"

text \<open>
  \<open>transition(.., Replayed { seq, event })\<close> stored back into the task; the effects come with it.
\<close>

definition fold_event ::
  "'j runtime \<Rightarrow> journal_origin \<Rightarrow> int \<Rightarrow> 'j session_event \<Rightarrow> 'j task
   \<Rightarrow> ('j task \<times> 'j effect list) result" where
  "fold_event X orig sq ev t =
     bind_result
       (transition (host_at X (ticks t)) (task_state t) (task_memory t) (Replayed sq ev))
       (\<lambda>(st, m, effs).
          Inr (t\<lparr>task_state := st, task_memory := m, ticks := Suc (ticks t),
                 journal := journal t @
                   [\<lparr>je_origin = orig, je_seq = sq, je_type = type_name ev,
                     je_actor = actor_of ev, je_event = ev\<rparr>]\<rparr>, effs))"

definition publish_snapshot :: "'j runtime \<Rightarrow> int \<Rightarrow> 'j session_event \<Rightarrow> 'j task \<Rightarrow> 'j task" where
  "publish_snapshot X sq ev t =
     (let fresh = build_snapshot (lib X) (task_state t) (task_memory t);
          snap =
            (if intersects (algebra_mask ev) SNAPSHOT_DEPENDS_ON then fresh
             else case hub_snapshot t of None \<Rightarrow> fresh | Some (_, old) \<Rightarrow> old)
      in t\<lparr>hub_snapshot := Some (sq, snap)\<rparr>)"

type_synonym 'j interpreter = "'j effect list \<Rightarrow> 'j task \<Rightarrow> 'j task result"

definition real_persist ::
  "'j runtime \<Rightarrow> 'j interpreter \<Rightarrow> int \<Rightarrow> 'j session_event \<Rightarrow> 'j task \<Rightarrow> 'j task result" where
  "real_persist X run sq ev t =
     (let t1 =
        (case to_ws_payload (task_session t) sq ev of
           None \<Rightarrow> t
         | Some p \<Rightarrow> emit (Out_typed p) t)
      in bind_result (fold_event X Appended sq ev t1)
           (\<lambda>(t2, effs). run effs (publish_snapshot X sq ev t2)))"

definition shadow_persist ::
  "'j runtime \<Rightarrow> 'j interpreter \<Rightarrow> 'j session_event \<Rightarrow> 'j task \<Rightarrow> 'j task result" where
  "shadow_persist X run ev t =
     (let sq =
        (case alloc_reply X (ticks t) of
           Some s \<Rightarrow> s
         | None \<Rightarrow> cursor (task_memory t) + 1)
      in bind_result (fold_event X Shadowed sq ev t) (\<lambda>(t2, effs). run effs t2))"

definition handle_persist ::
  "'j runtime \<Rightarrow> 'j interpreter \<Rightarrow> 'j session_event \<Rightarrow> 'j task \<Rightarrow> 'j task result" where
  "handle_persist X run ev t =
     (let t1 = (if has_side_effects ev then emit (Out_side_effects ev) t else t)
      in if is_machine_autonomous ev
         then case append_reply X (ticks t1) of
                Some sq \<Rightarrow> real_persist X run sq ev t1
              | None \<Rightarrow> shadow_persist X run ev t1
         else shadow_persist X run ev t1)"

definition persist_snapshot :: "'j runtime \<Rightarrow> 'j task \<Rightarrow> 'j task" where
  "persist_snapshot X t =
     (if snapshot_written X (ticks t)
      then t\<lparr>hub_snapshot :=
             Some (cursor (task_memory t), build_snapshot (lib X) (task_state t) (task_memory t))\<rparr>
      else t)"

section \<open>The effect interpreter\<close>

fun run_effect :: "'j runtime \<Rightarrow> 'j interpreter \<Rightarrow> 'j effect \<Rightarrow> 'j task \<Rightarrow> 'j task result" where
  "run_effect X run (Persist ev) t = handle_persist X run ev t"
| "run_effect X run (Broadcast p) t = Inr (emit (Out_broadcast p) t)"
| "run_effect X run (Send actor p) t = Inr (emit (Out_send actor p) t)"
| "run_effect X run (Forward target p) t = Inr (emit (Out_forward target p) t)"
| "run_effect X run (SetTimer i d) t = Inr (arm_timer i d t)"
| "run_effect X run (CancelTimer i) t = Inr (cancel_timer i t)"
| "run_effect X run (CloseConnection actor code reason) t = Inr (emit (Out_close actor code reason) t)"
| "run_effect X run PersistSnapshot t = Inr (persist_snapshot X t)"
| "run_effect X run (Bundle b) t = Inr (emit (Out_bundle b) t)"
| "run_effect X run (BundleDeliver b) t = send_self (Live (BundleReceived b)) t"

fun run_list ::
  "('j effect \<Rightarrow> 'j task \<Rightarrow> 'j task result) \<Rightarrow> 'j effect list \<Rightarrow> 'j task \<Rightarrow> 'j task result" where
  "run_list f [] t = Inr t"
| "run_list f (e # es) t = bind_result (f e t) (run_list f es)"

text \<open>
  \<open>run_effects\<close> and \<open>handle_persist\<close> call each other; the first argument bounds the depth of
  that recursion. Persisting an event replays it, and a replay emits no \<open>Persist\<close>, so depth 2
  is never exhausted (\<open>depth_irrelevant\<close>).
\<close>

primrec run_effects_upto :: "nat \<Rightarrow> 'j runtime \<Rightarrow> 'j effect list \<Rightarrow> 'j task \<Rightarrow> 'j task result" where
  "run_effects_upto 0 X effs t = Inl Loops_forever"
| "run_effects_upto (Suc d) X effs t = run_list (run_effect X (run_effects_upto d X)) effs t"

definition run_effects :: "'j runtime \<Rightarrow> 'j effect list \<Rightarrow> 'j task \<Rightarrow> 'j task result" where
  "run_effects X = run_effects_upto 2 X"

section \<open>Cold start\<close>

text \<open>
  The rows of the log in order; a row whose payload is not a \<open>SessionEvent\<close> is \<open>None\<close> and is
  skipped.
\<close>

fun replay_rows :: "'j runtime \<Rightarrow> (int \<times> 'j session_event option) list \<Rightarrow> 'j task \<Rightarrow> 'j task result" where
  "replay_rows X [] t = Inr t"
| "replay_rows X ((sq, None) # rows) t = replay_rows X rows t"
| "replay_rows X ((sq, Some ev) # rows) t =
     bind_result (fold_event X From_log sq ev t)
       (\<lambda>(t2, effs). bind_result (run_effects X effs t2) (replay_rows X rows))"

text \<open>\<open>None\<close>: the query for the log failed.\<close>

definition replay_history ::
  "'j runtime \<Rightarrow> (int \<times> 'j session_event option) list option \<Rightarrow> 'j task \<Rightarrow> 'j task result" where
  "replay_history X log t = (case log of None \<Rightarrow> Inr t | Some rows \<Rightarrow> replay_rows X rows t)"

fun queue_backlog ::
  "(reflector_cursor \<times> 'j saga_bundle) list \<Rightarrow> 'j task \<Rightarrow> 'j task result" where
  "queue_backlog [] t = Inr t"
| "queue_backlog ((rc, b) # rest) t =
     (if to_session b \<noteq> task_session t then queue_backlog rest t
      else bind_result (send_self (intercept_message rc b) t) (queue_backlog rest))"

text \<open>
  The backlog is what the reflector replays after the session's stored cursor. The watermark stored
  is the cursor of the last entry, whether or not it was addressed to this session.
\<close>

definition drain_reflector_backlog ::
  "(reflector_cursor \<times> 'j saga_bundle) list \<Rightarrow> 'j task \<Rightarrow> 'j task result" where
  "drain_reflector_backlog backlog t =
     (if backlog = [] then Inr t
      else bind_result (queue_backlog backlog t)
        (\<lambda>t'. let rc = fst (last backlog) in Inr (emit (Out_watermark (rc_seq rc) (rc_epoch rc)) t')))"

definition new_task :: "string \<Rightarrow> string \<Rightarrow> 'j task" where
  "new_task sid owner =
     \<lparr>task_session = sid, task_state = Active, task_memory = new_memory sid owner, journal = [],
      armed = [], in_flight = [], mailbox = [], outputs = [], hub_snapshot = None, ticks = 0,
      stopped = False\<rparr>"

definition start_task ::
  "'j runtime \<Rightarrow> string \<Rightarrow> string \<Rightarrow> (int \<times> 'j session_event option) list option
   \<Rightarrow> (reflector_cursor \<times> 'j saga_bundle) list \<Rightarrow> 'j task result" where
  "start_task X sid owner log backlog =
     bind_result (replay_history X log (new_task sid owner)) (drain_reflector_backlog backlog)"

section \<open>The loop\<close>

definition shut_down :: "'j task \<Rightarrow> 'j task" where
  "shut_down t = t\<lparr>mailbox := [], armed := [], stopped := True\<rparr>"

text \<open>One iteration of the receive loop, for an event just taken from the channel.\<close>

definition serve :: "'j runtime \<Rightarrow> 'j inbound_event \<Rightarrow> 'j task \<Rightarrow> 'j task result" where
  "serve X ev t =
     bind_result (transition (host_at X (ticks t)) (task_state t) (task_memory t) ev)
       (\<lambda>(st, m, effs).
          bind_result
            (run_effects X effs (t\<lparr>task_state := st, task_memory := m, ticks := Suc (ticks t)\<rparr>))
            (\<lambda>t'. Inr (if is_terminal (task_state t') then shut_down t' else t')))"

text \<open>
  What can happen to a running task: another task or a connection handler puts a live event into
  the channel (nobody but the task's own timers sends \<open>TimerFired\<close>, and nobody sends
  \<open>Replayed\<close>); an armed timer elapses, which first forgets its handle and then waits for room in
  the channel; a handler of the hub stores a snapshot of its own; the loop takes the next event.
\<close>

fun is_timer_fired :: "'j live_event \<Rightarrow> bool" where
  "is_timer_fired (TimerFired i) = True"
| "is_timer_fired _ = False"

inductive task_step :: "'j runtime \<Rightarrow> 'j task \<Rightarrow> 'j task \<Rightarrow> bool" for X where
  arrive: "\<not> stopped t \<Longrightarrow> length (mailbox t) < channel_capacity \<Longrightarrow> \<not> is_timer_fired ev \<Longrightarrow>
     task_step X t (t\<lparr>mailbox := mailbox t @ [Live ev]\<rparr>)"
| elapse: "\<not> stopped t \<Longrightarrow> bt_get (armed t) i = Some d \<Longrightarrow>
     task_step X t (t\<lparr>armed := bt_remove i (armed t), in_flight := in_flight t @ [i]\<rparr>)"
| land: "\<not> stopped t \<Longrightarrow> length (mailbox t) < channel_capacity \<Longrightarrow> i \<in> set (in_flight t) \<Longrightarrow>
     task_step X t
       (t\<lparr>in_flight := remove1 i (in_flight t), mailbox := mailbox t @ [Live (TimerFired i)]\<rparr>)"
| hub_write: "\<not> stopped t \<Longrightarrow> task_step X t (t\<lparr>hub_snapshot := snap\<rparr>)"
| receive: "\<not> stopped t \<Longrightarrow> mailbox t = ev # rest \<Longrightarrow> serve X ev (t\<lparr>mailbox := rest\<rparr>) = Inr t' \<Longrightarrow>
     task_step X t t'"

inductive_cases task_stepE: "task_step X t t'"

inductive reachable ::
  "'j runtime \<Rightarrow> string \<Rightarrow> string \<Rightarrow> 'j task \<Rightarrow> bool" for X sid owner where
  start: "start_task X sid owner log backlog = Inr t \<Longrightarrow> reachable X sid owner t"
| step: "reachable X sid owner t \<Longrightarrow> task_step X t t' \<Longrightarrow> reachable X sid owner t'"

end
