(* ===== verification/Sample.thy ===== *)
theory Sample
  imports Runtime
begin

text \<open>
  A concrete instance of the parameters, on which the properties with hypotheses are exercised:
  JSON as a datatype, a host with a standing clock whose dates are plain milliseconds, a runtime
  whose database always answers, and small memories.
\<close>

datatype json = JNull | JStr string | JInt int | JObj "(string \<times> json) list"

definition json_get :: "json \<Rightarrow> string \<Rightarrow> json option" where
  "json_get v k = (case v of JObj kvs \<Rightarrow> map_of (rev kvs) k | _ \<Rightarrow> None)"

definition sample_host :: "json host" where
  "sample_host =
     \<lparr>clock = (\<lambda>_. 0), timestamp_millis = (\<lambda>d. d), date_add_ms = (\<lambda>d k. Some (d + k)),
      parse_rfc3339 = (\<lambda>_. None), j_null = JNull, j_str = JStr, j_int = JInt, j_obj = JObj,
      j_get = json_get,
      j_index = (\<lambda>v k. case json_get v k of None \<Rightarrow> JNull | Some x \<Rightarrow> x),
      j_as_str = (\<lambda>v. case v of JStr s \<Rightarrow> Some s | _ \<Rightarrow> None),
      j_as_i64 = (\<lambda>v. case v of JInt n \<Rightarrow> Some n | _ \<Rightarrow> None),
      j_as_u64 = (\<lambda>v. case v of JInt n \<Rightarrow> if n < 0 then None else Some (word_of_int n) | _ \<Rightarrow> None)\<rparr>"

definition sample_runtime :: "json runtime" where
  "sample_runtime =
     \<lparr>lib = sample_host, clocks = (\<lambda>_ _. 0), append_reply = (\<lambda>k. Some (int k + 1)),
      alloc_reply = (\<lambda>k. Some (int k + 1)), snapshot_written = (\<lambda>_. True)\<rparr>"

lemma sample_host_laws: "json_laws sample_host"
  by (simp add: json_laws_def sample_host_def json_get_def)

lemma sample_dates [simp]: "date_add_ms sample_host d k = Some (d + k)"
  by (simp add: sample_host_def)

text \<open>Lookup in a literal map.\<close>

lemma bt_get_Cons [simp]: "bt_get ((k, v) # t) x = (if k = x then Some v else bt_get t x)"
  by (simp add: bt_get_def)

definition sample_member :: "string \<Rightarrow> string \<Rightarrow> member_record" where
  "sample_member a r =
     \<lparr>mr_actor_id = a, role = r, mr_joined_at = 0, detached = False, connection = Some ''c''\<rparr>"

definition sample_approval :: "approval_record" where
  "sample_approval =
     \<lparr>approval_id = ''ap'', ap_actor_id = ''bot'', tool = ''shell'', ap_status = Pending,
      requested_at = 0, expires_at = None, votes = []\<rparr>"

text \<open>Two voters, an agent, and one open approval.\<close>

definition sample_memory :: "json session_memory" where
  "sample_memory =
     (new_memory ''s'' ''ann'')
       \<lparr>members := [(''ann'', sample_member ''ann'' ''owner''), (''bob'', sample_member ''bob'' ''collaborator''),
                     (''bot'', sample_member ''bot'' ''agent'')],
        eligible_approvers := 2, approvals := [(''ap'', sample_approval)]\<rparr>"

definition sample_task :: "json session_memory \<Rightarrow> json task" where
  "sample_task m = (new_task ''s'' ''ann'')\<lparr>task_memory := m\<rparr>"

definition sample_bundle :: "string \<Rightarrow> json saga_bundle" where
  "sample_bundle i =
     \<lparr>bundle_id = i, bundle_saga_id = ''sg'', bundle_step_idx = 0, from_session = ''r'',
      to_session = ''s'', bundle_kind = Step JNull JNull, ttl_ms = 10\<rparr>"

lemmas sample_defs = sample_host_def sample_runtime_def sample_memory_def sample_member_def
  sample_approval_def sample_task_def new_memory_def new_task_def

end
