(* ===== verification/Session_Properties.thy ===== *)
theory Session_Properties
  imports Durable Sample
begin

text \<open>
  Properties of the transition function as a whole: what replay may emit, what live events may
  write, which events move the control state, the well-formedness of the memory, and what the
  cached snapshot depends on.
\<close>

section \<open>Replay and live events\<close>

text \<open>
  Replay is silent towards the log: the effects of a replayed event never contain a
  \<open>Persist\<close>, so folding the log cannot extend the log.
\<close>

theorem replay_never_persists:
  assumes "transition E st m (Replayed sq ev) = Inr (st', m', effs)"
  shows "list_all (\<lambda>e. \<not> is_persist e) effs"
  using assms by (simp add: replay_emits_no_persist)

lemma replay_never_persists_witness:
  "list_all (\<lambda>e. \<not> is_persist e) [CancelTimer (approval_timer ''ap'') :: json effect]"
  by (rule replay_never_persists [of sample_host Active sample_memory 1 "ApprovalDenied ''ap'' ''ann'' None 0"])
    (simp add: apply_logged_def logged_approval_denied_def)

text \<open>
  Event sourcing: a live event leaves everything that the log determines as it is; it can
  change connections, held bundles and timers only. The control state changes by a live event in one
  case, the end of draining.
\<close>

theorem live_leaves_durable:
  assumes "transition E st m (Live ev) = Inr (st', m', effs)"
  shows "durable m' = durable m \<and>
    (st' = st \<or> (\<exists>t. ev = TimerFired t \<and> starts_with ''drain:'' t \<and> is_draining st \<and> st' = Active))"
proof -
  have "live_write m m' \<and>
    (st' = st \<or> (\<exists>t. ev = TimerFired t \<and> starts_with ''drain:'' t \<and> is_draining st \<and> st' = Active))"
    using assms live_apply [of E st m ev st' m' effs] by (auto split: if_splits intro: live_write.keep)
  then show ?thesis using live_write_durable by blast
qed

lemma live_leaves_durable_witness:
  "durable (attach_connection ''bob'' ''c2'' sample_memory) = durable sample_memory"
  using live_leaves_durable [of sample_host Active sample_memory "ActorReconnected ''bob'' ''c2''"]
  by (simp add: live_actor_reconnected_def Let_def)

lemma lifecycle_announced:
  "apply_logged E st m sq ev = Inr (st', m', effs) \<Longrightarrow> st' = st \<or> is_lifecycle_change ev"
  unfolding apply_logged_def
  by (cases ev) (auto simp: logged_outcome_defs Let_def bind_result_Inr split: if_splits option.splits)

text \<open>
  Control state machine: an event of the log that moves the control state is one that
  \<open>is_lifecycle_change\<close> announces.
\<close>

theorem lifecycle_only:
  assumes "transition E st m (Replayed sq ev) = Inr (st', m', effs)" and "st' \<noteq> st"
  shows "is_lifecycle_change ev"
  using assms by (auto dest: lifecycle_announced)

lemma lifecycle_only_witness:
  "is_lifecycle_change (SessionPaused ''ann'' None 0 :: json session_event)"
  by (rule lifecycle_only [of sample_host Active sample_memory 1 _ "Suspended ''ann'' None 0"])
    (simp_all add: apply_logged_def)

end
