(* ===== verification/Snapshot_Properties.thy ===== *)
theory Snapshot_Properties
  imports Durable Sample
begin

text \<open>
  What is derived from the memory: the snapshot the hub caches, the count of eligible approvers that
  the majority policy divides by, and who may connect while a session drains.
\<close>

section \<open>The cached snapshot\<close>

lemma masks_disjoint [simp]:
  "\<not> intersects AUTHORITY SNAPSHOT_DEPENDS_ON" "\<not> intersects PROJECTION SNAPSHOT_DEPENDS_ON"
  "\<not> intersects SAGA SNAPSHOT_DEPENDS_ON" "\<not> intersects POLICY SNAPSHOT_DEPENDS_ON"
  "intersects LIFECYCLE SNAPSHOT_DEPENDS_ON" "intersects MEMBERSHIP SNAPSHOT_DEPENDS_ON"
  "intersects APPROVAL SNAPSHOT_DEPENDS_ON" "intersects EFFECT SNAPSHOT_DEPENDS_ON"
  by (simp_all add: intersects_def SNAPSHOT_DEPENDS_ON_def mask_defs push_bit_eq_mult)

lemma revoke_caps_fields:
  "owner_id (fold revoke_cap ids m) = owner_id m"
  "session_name (fold revoke_cap ids m) = session_name m"
  "session_policy (fold revoke_cap ids m) = session_policy m"
  "members (fold revoke_cap ids m) = members m" "approvals (fold revoke_cap ids m) = approvals m"
  "artifacts (fold revoke_cap ids m) = artifacts m"
  "context_entries (fold revoke_cap ids m) = context_entries m"
  by (induction ids arbitrary: m) (simp_all add: revoke_cap_def)

text \<open>
  C38 (the snapshot cache): folding an event whose mask does not meet \<open>SNAPSHOT_DEPENDS_ON\<close>, on which
  the hub keeps the cached snapshot, changes nothing in a snapshot built afresh except, possibly,
  the status of the session.
\<close>

theorem snapshot_cache_sound:
  assumes "apply_logged E st m sq ev = Inr (st', m', effs)"
    and "\<not> intersects (algebra_mask ev) SNAPSHOT_DEPENDS_ON"
  shows "build_snapshot E st' m' = (build_snapshot E st m)\<lparr>sn_status := snapshot_status st'\<rparr>"
  using assms unfolding apply_logged_def
  by (cases ev)
    (auto simp: algebra_mask_def logged_cap_revoked_def logged_memory_defs logged_outcome_defs
      revoke_caps_fields build_snapshot_def bind_result_Inr Let_def
      split: if_splits option.splits)

lemma snapshot_cache_sound_witness:
  "build_snapshot sample_host Active (advance_cursor 3 (sample_memory\<lparr>snapshot_seq := 2\<rparr>))
     = build_snapshot sample_host Active sample_memory"
  using snapshot_cache_sound [of sample_host Active sample_memory 3 "SnapshotCreated 2 0" Active
      "(advance_cursor 3 sample_memory)\<lparr>snapshot_seq := 2\<rparr>" "[]"]
  by (simp add: apply_logged_def algebra_mask_def advance_cursor_def build_snapshot_def)

text \<open>
  The status can go stale: fencing actors out of a suspended session makes it draining, which clients
  see as active, but the cached snapshot still says suspended.
\<close>

lemma cached_status_stale:
  assumes "date_add_ms E at (sint dl) = Some d"
  shows "apply_logged E (Suspended by_actor reason since) m sq (EpochAdvanced 0 1 s dl [''bob''] by2 at)
      = Inr (Draining d sq, m', effs) \<Longrightarrow>
    \<not> intersects (algebra_mask (EpochAdvanced 0 1 s dl [''bob''] by2 at :: 'j session_event)) SNAPSHOT_DEPENDS_ON \<and>
    sn_status (build_snapshot E (Draining d sq) m') \<noteq> sn_status (build_snapshot E (Suspended by_actor reason since) m)"
  by (simp add: algebra_mask_def build_snapshot_def snapshot_status_def)

section \<open>Eligible approvers\<close>

definition agent_event :: "'j session_event \<Rightarrow> bool" where
  "agent_event ev = (case ev of AgentAttached a b c \<Rightarrow> True | AgentDetached a b c \<Rightarrow> True | _ \<Rightarrow> False)"

definition eligible_exact :: "'j session_memory \<Rightarrow> bool" where
  "eligible_exact m \<longleftrightarrow> eligible_approvers m = count_eligible (members m)"

lemma eligible_folds:
  "eligible_approvers (fold revoke_cap ids m) = eligible_approvers m"
  "eligible_approvers (fold (\<lambda>(i, _). remove_gate i) xs m) = eligible_approvers m"
  "members (fold (\<lambda>(i, _). remove_gate i) xs m) = members m"
  by (induction ids arbitrary: m, simp_all add: revoke_cap_def)
    (induction xs arbitrary: m, auto simp: remove_gate_def)+

lemma logged_eligible:
  assumes "apply_logged E st m sq ev = Inr (st', m', effs)" and "eligible_exact m" and "\<not> agent_event ev"
  shows "eligible_exact m'"
  using assms unfolding apply_logged_def eligible_exact_def
  by (cases ev)
    (auto simp: agent_event_def logged_cap_revoked_def logged_memory_defs logged_outcome_defs
      eligible_folds revoke_caps_fields bind_result_Inr Let_def split: if_splits option.splits)

interpretation eligible: invariant_machine "replay_step E" "\<lambda>_ (sq, ev). \<not> agent_event ev"
    "\<lambda>s. eligible_exact (snd s)" for E :: "'j host"
  by unfold_locales (auto simp: replay_step_def bind_result_Inr dest: logged_eligible)

lemma eligible_accepts:
  "\<forall>(sq, ev) \<in> set es. \<not> agent_event ev \<Longrightarrow> eligible.accepts_all E s es"
  by (induction es arbitrary: s) (auto split: sum.splits)

text \<open>
  Eligible approvers: after replaying a log in which no agent is attached or detached, the number
  the majority and unanimous policies divide by is the number of members who may approve and are not
  detached.
\<close>

theorem eligible_approvers_exact:
  assumes "replay_log E sid owner es = Inr (st, m)" and "\<forall>(sq, ev) \<in> set es. \<not> agent_event ev"
  shows "eligible_approvers m = count_eligible (members m)"
proof -
  have "eligible_exact (snd (Active, new_memory sid owner))"
    by (simp add: eligible_exact_def new_memory_def count_eligible_def bt_values_def)
  then have "eligible_exact (snd (st, m))"
    using assms(1) eligible_accepts [OF assms(2)] eligible.run_inv unfolding replay_log_def by blast
  then show ?thesis by (simp add: eligible_exact_def)
qed

lemma eligible_approvers_exact_witness:
  "\<exists>m :: json session_memory. eligible_approvers m = 2 \<and> eligible_approvers m = count_eligible (members m)"
proof -
  let ?log = "[(1, SessionCreated ''s'' ''ann'' ''n'' ''majority'' 0), (2, ParticipantJoined ''bob'' ''collaborator'' 0)]"
  have "\<exists>st m. replay_log sample_host ''s'' ''ann'' ?log = Inr (st, m) \<and> eligible_approvers m = 2"
    by (simp add: replay_log_def replay_step_def apply_logged_def logged_memory_defs new_memory_def
        bt_or_insert_def fresh_member_def count_eligible_def bt_values_def can_approve_def)
  then show ?thesis
    using eligible_approvers_exact [of sample_host "''s''" "''ann''" ?log] by (fastforce simp: agent_event_def)
qed

text \<open>
  An approver that is detached as an agent still counts, so a majority of two is asked of one.
\<close>

lemma eligible_stale:
  "logged_agent_detached E st sample_memory ''bob'' = Inr (st, m', effs) \<Longrightarrow>
   eligible_approvers m' = 2 \<and> count_eligible (members m') = 1"
  by (auto simp: logged_agent_detached_def detach_member_def sample_memory_def sample_member_def
      bt_modify_def count_eligible_def bt_values_def can_approve_def Let_def)

section \<open>Draining\<close>

text \<open>
  Fencing: advancing the epoch with a list of fenced actors makes the session drain until the
  deadline, and from then on a connection of any actor with a capability from before the new epoch
  is closed with code 4003 and changes nothing.
\<close>

theorem epoch_fences:
  assumes "date_add_ms E at (sint dl) = Some d" and "fenced \<noteq> []"
    and "bt_get (caps m) c = Some r" and "cap_epoch r < new_epoch"
  shows "\<exists>m'. transition E st m (Replayed sq (EpochAdvanced old_epoch new_epoch strategy dl fenced by_actor at))
      = Inr (Draining d sq, m', []) \<and>
    transition E2 (Draining d sq) m' (Live (ActorConnected (cap_actor_id r) conn))
      = Inr (Draining d sq, m', [CloseConnection (cap_actor_id r) 4003 fenced_reason])"
proof -
  let ?m' = "(advance_cursor sq m)\<lparr>epoch := new_epoch,
    caps := bt_map_values (\<lambda>c. if cap_epoch c < new_epoch then c\<lparr>revoked := True\<rparr> else c) (caps m)\<rparr>"
  have "bt_get (caps ?m') c = Some (r\<lparr>revoked := True\<rparr>)" using assms(3,4) by simp
  then have "is_fenced ?m' (cap_actor_id r)"
    using assms(4) by (force simp: is_fenced_def list_ex_iff bt_values_def dest!: bt_get_entry)
  then show ?thesis
    using assms(1,2)
    by (intro exI [of _ ?m'])
      (simp add: apply_logged_def logged_epoch_advanced_def live_actor_connected_def advance_cursor_def Let_def)
qed

lemma epoch_fences_witness:
  "\<exists>m'. transition sample_host (Draining 5 3) m' (Live (ActorConnected ''bot'' ''c''))
     = Inr (Draining 5 3, m', [CloseConnection ''bot'' 4003 fenced_reason])"
proof -
  let ?r = "\<lparr>cap_id = ''k'', cap_actor_id = ''bot'', parent_cap = None, permissions = [], cap_epoch = 0,
    stratum = 0, issued_at = 0, revoked = False\<rparr>"
  let ?m = "sample_memory\<lparr>caps := [(''k'', ?r)]\<rparr>"
  show ?thesis
    using epoch_fences [of sample_host 0 5 5 "[''bot'']" ?m "''k''" ?r 1 Active 3 0 "''s''" "''ann''" sample_host "''c''"]
    by auto
qed

text \<open>The same actor gets in by reconnecting: that handler has no such check.\<close>

lemma reconnect_skips_fence:
  assumes "is_fenced m actor"
  shows "\<exists>effs. transition E (Draining d sq) m (Live (ActorReconnected actor conn))
    = Inr (Draining d sq, attach_connection actor conn m, effs)"
  by (simp add: live_actor_reconnected_def Let_def)

end
