(* ===== verification/Authority.thy ===== *)
theory Authority
  imports Durable
begin

text \<open>
  The records that carry authority: an agent attached, an approval requested, granted or denied.
  Only three live events can cause them (\<open>live_sensitive\<close>); the lemmas before it say so of the
  handlers shared by several events.
\<close>

fun sensitive :: "'j effect \<Rightarrow> bool" where
  "sensitive (Persist ev) \<longleftrightarrow>
     type_name ev \<in> {''agent_attached'', ''approval_requested'', ''approval_granted'', ''approval_denied''}"
| "sensitive e \<longleftrightarrow> False"

lemma compensate_not_sensitive:
  "compensate E m sid ss now r is = Inr effs \<Longrightarrow> list_all (\<lambda>e. \<not> sensitive e) effs"
  by (induction E m sid ss now r "is" arbitrary: effs rule: compensate.induct)
    (auto simp: bind_result_Inr)

lemma saga_ack_not_sensitive:
  "live_saga_ack E st m sid i out = Inr (st', m', effs) \<Longrightarrow> list_all (\<lambda>e. \<not> sensitive e) effs"
  by (auto simp: live_saga_ack_def advance_effects_def abort_effects_def resolved_effects_def
      session_updated_broadcast_def Let_def bind_result_Inr
      split: option.splits if_splits protocol_outcome.splits dest: compensate_not_sensitive)

lemma saga_begin_not_sensitive:
  "live_saga_begin E st m sid ty ss md = Inr (st', m', effs) \<Longrightarrow> list_all (\<lambda>e. \<not> sensitive e) effs"
  by (auto simp: live_saga_begin_def session_updated_broadcast_def Let_def split: list.splits)

lemma bundle_not_sensitive:
  "live_bundle_received E st m b = Inr (st', m', effs) \<Longrightarrow> list_all (\<lambda>e. \<not> sensitive e) effs"
  "live_bundle_intercepted E st m b icap rc = Inr (st', m', effs) \<Longrightarrow> list_all (\<lambda>e. \<not> sensitive e) effs"
  by (auto simp: live_bundle_received_def receive_step_def persist_and_notify_def Let_def
      session_updated_broadcast_def delegation_received_def artifact_import_received_def
      context_received_def annotation_received_def live_bundle_intercepted_def
      apply_bundle_disposition_def
      split: if_splits bundle_kind.splits bundle_disposition.splits prod.splits dest: saga_ack_not_sensitive)

lemma timer_not_sensitive:
  "live_timer_fired E st m t = Inr (st', m', effs) \<Longrightarrow> list_all (\<lambda>e. \<not> sensitive e) effs"
  by (auto simp: live_timer_fired_def persist_and_notify_def fire_deferred_def fire_saga_def Let_def
        session_updated_broadcast_def
      split: if_splits option.splits prod.splits dest: saga_ack_not_sensitive)


lemma live_sensitive:
  assumes "apply_live E st m ev = Inr (st', m', effs)"
  shows "list_all (\<lambda>e. \<not> sensitive e) effs \<or> (\<exists>aid voter d. ev = VoteCast aid voter d) \<or>
    (\<exists>aid a tname args ms. ev = ApprovalCreate aid a tname args ms) \<or> (\<exists>a c. ev = SidecarAttach a c)"
  using assms
  by (cases ev)
    (auto simp: persist_and_notify_handlers live_actor_connected_def
      live_actor_reconnected_def live_actor_disconnected_def live_cross_session_delegate_def
      live_sidecar_detach_def live_admin_archive_def live_forwarded_message_def
      session_updated_broadcast_def bind_result_Inr Let_def list_all_iff
      split: if_splits option.splits session_state.splits
      dest!: saga_ack_not_sensitive saga_begin_not_sensitive bundle_not_sensitive timer_not_sensitive)

end
