(* ===== verification/Capability_Properties.thy ===== *)
theory Capability_Properties
  imports Authority Sample "HOL-Library.Multiset"
begin

text \<open>
  The capability graph: when the traversal of a subtree ends and what it returns, what a revocation
  revokes, that revocation and fencing are permanent, and who may attach a sidecar.
\<close>

section \<open>The traversal of the child index\<close>

definition children_of :: "(string, string list) btree \<Rightarrow> string \<Rightarrow> string list" where
  "children_of ch p = (case bt_get ch p of None \<Rightarrow> [] | Some cs \<Rightarrow> cs)"

text \<open>\<open>(c, p)\<close>: \<open>c\<close> is a child of \<open>p\<close>.\<close>

definition child_rel :: "(string, string list) btree \<Rightarrow> (string \<times> string) set" where
  "child_rel ch = {(c, p). c \<in> set (children_of ch p)}"

definition descendants :: "(string, string list) btree \<Rightarrow> string \<Rightarrow> string set" where
  "descendants ch root = {x. (x, root) \<in> (child_rel ch)\<^sup>*}"

lemma child_rel_iff: "(c, p) \<in> child_rel ch \<longleftrightarrow> c \<in> set (children_of ch p)"
  by (simp add: child_rel_def)

lemma finite_child_rel: "finite (child_rel ch)"
proof -
  have "child_rel ch \<subseteq> (\<Union>(p, cs) \<in> set ch. set cs \<times> {p})"
  proof
    fix x
    assume "x \<in> child_rel ch"
    then obtain c p where x: "x = (c, p)" and c: "c \<in> set (children_of ch p)"
      by (auto simp: child_rel_def)
    from c obtain cs where "bt_get ch p = Some cs" and "c \<in> set cs"
      by (cases "bt_get ch p") (auto simp: children_of_def)
    with x show "x \<in> (\<Union>(p, cs) \<in> set ch. set cs \<times> {p})"
      by (intro UN_I [of "(p, cs)"]) (auto dest: bt_get_entry)
  qed
  moreover have "finite (\<Union>(p, cs) \<in> set ch. set cs \<times> {p})" by auto
  ultimately show ?thesis by (rule finite_subset)
qed

lemma subtree_loop_step:
  "queue \<noteq> [] \<Longrightarrow> subtree_loop ch queue acc =
     subtree_loop ch (butlast queue @ children_of ch (last queue)) (acc @ [last queue])"
  by (subst subtree_loop.simps) (simp add: children_of_def)

lemma queue_decreases:
  assumes "queue \<noteq> []" and "\<forall>c \<in> set cs. (c, last queue) \<in> r"
  shows "(mset (butlast queue @ cs), mset queue) \<in> mult r"
proof -
  have "mset queue = mset (butlast queue) + {#last queue#}"
    using assms(1) by (metis append_butlast_last_id mset.simps mset_append add_mset_add_single)
  then show ?thesis
    using one_step_implies_mult [of "{#last queue#}" "mset cs" r "mset (butlast queue)"] assms(2) by simp
qed

text \<open>Over a well-founded part of the graph the loop returns, and it returns that part.\<close>

lemma subtree_loop_returns:
  assumes "wf (child_rel ch \<inter> S \<times> S)" and closed: "\<And>p. p \<in> S \<Longrightarrow> set (children_of ch p) \<subseteq> S"
    and "set queue \<subseteq> S"
  shows "\<exists>ids. subtree_loop ch queue acc = Some (acc @ ids) \<and> set ids = (\<Union>q \<in> set queue. descendants ch q)"
proof -
  have "wf (mult (child_rel ch \<inter> S \<times> S))" using assms(1) by (rule wf_mult)
  then show ?thesis
    using assms(3)
  proof (induction "mset queue" arbitrary: queue acc rule: wf_induct_rule)
    case less
    show ?case
    proof (cases "queue = []")
      case True
      then show ?thesis by (subst subtree_loop.simps) simp
    next
      case False
      define cs where "cs = children_of ch (last queue)"
      have lastS: "last queue \<in> S" using False less.prems by auto
      have next_in: "set (butlast queue @ cs) \<subseteq> S"
        using closed [OF lastS] less.prems by (auto simp: cs_def dest: in_set_butlastD)
      have "(mset (butlast queue @ cs), mset queue) \<in> mult (child_rel ch \<inter> S \<times> S)"
        using False lastS next_in by (intro queue_decreases) (auto simp: cs_def child_rel_iff)
      from less.hyps [OF this next_in, of "acc @ [last queue]"]
      obtain ids where ids: "subtree_loop ch (butlast queue @ cs) (acc @ [last queue])
          = Some ((acc @ [last queue]) @ ids)"
        and set_ids: "set ids = (\<Union>q \<in> set (butlast queue @ cs). descendants ch q)" by blast
      have "descendants ch (last queue) = insert (last queue) (\<Union>c \<in> set cs. descendants ch c)"
        by (auto simp: descendants_def cs_def simp flip: child_rel_iff
            elim: rtranclE intro: rtrancl_into_rtrancl)
      moreover have "set queue = insert (last queue) (set (butlast queue))"
        using False by (metis append_butlast_last_id list.set(2) rotate1.simps(2) set_rotate1)
      ultimately have "insert (last queue) (set ids) = (\<Union>q \<in> set queue. descendants ch q)"
        using set_ids by auto
      then show ?thesis
        using ids False by (intro exI [of _ "last queue # ids"]) (simp add: subtree_loop_step cs_def)
    qed
  qed
qed

text \<open>Where it returns, no capability it visits lies on a cycle.\<close>

lemma subtree_loop_accessible:
  assumes "subtree_loop ch queue acc = Some ids" and "q \<in> set queue"
  shows "q \<in> Wellfounded.acc (child_rel ch)"
proof -
  have "\<forall>q \<in> set queue. q \<in> Wellfounded.acc (child_rel ch)"
    using _ assms(1)
  proof (rule subtree_loop.raw_induct
      [where P = "\<lambda>ch queue acc ids. \<forall>q \<in> set queue. q \<in> Wellfounded.acc (child_rel ch)"])
    fix loop :: "(string, string list) btree \<Rightarrow> string list \<Rightarrow> string list \<Rightarrow> string list option"
      and ch :: "(string, string list) btree" and queue acc ids :: "string list"
    assume IH: "\<And>ch q acc ids. loop ch q acc = Some ids \<Longrightarrow>
        \<forall>x \<in> set q. x \<in> Wellfounded.acc (child_rel ch)"
      and body: "(if queue = [] then Some acc
        else loop ch (butlast queue @ (case bt_get ch (last queue) of None \<Rightarrow> [] | Some cs \<Rightarrow> cs))
          (acc @ [last queue])) = Some ids"
    show "\<forall>q \<in> set queue. q \<in> Wellfounded.acc (child_rel ch)"
    proof (cases queue rule: rev_cases)
      case Nil
      then show ?thesis by simp
    next
      case (snoc front p)
      then have below: "\<forall>q \<in> set (front @ children_of ch p). q \<in> Wellfounded.acc (child_rel ch)"
        using body by (intro IH) (simp add: children_of_def)
      then have "p \<in> Wellfounded.acc (child_rel ch)"
        by - (rule accI, simp add: child_rel_iff)
      then show ?thesis using below by (simp add: snoc)
    qed
  qed
  then show ?thesis using assms(2) by blast
qed

lemma accessible_acyclic: "x \<in> Wellfounded.acc r \<Longrightarrow> (x, x) \<notin> r\<^sup>+"
proof (induction rule: acc_induct_rule)
  case (1 x)
  show ?case
  proof
    assume "(x, x) \<in> r\<^sup>+"
    then obtain y where "(x, y) \<in> r\<^sup>*" and step: "(y, x) \<in> r"
      by (meson tranclD2)
    then have "(y, y) \<in> r\<^sup>+" by (meson rtrancl_into_trancl2)
    with 1 step show False by blast
  qed
qed

section \<open>The subtree of a capability\<close>

lemma descendants_closed: "p \<in> descendants ch root \<Longrightarrow> set (children_of ch p) \<subseteq> descendants ch root"
  by (auto simp: descendants_def simp flip: child_rel_iff intro: converse_rtrancl_into_rtrancl)

lemma cap_subtree_cases:
  shows "(\<exists>x \<in> descendants (cap_children m) root. (x, x) \<in> (child_rel (cap_children m))\<^sup>+) \<Longrightarrow>
      cap_subtree m root = Inl Loops_forever"
    and "\<not> (\<exists>x \<in> descendants (cap_children m) root. (x, x) \<in> (child_rel (cap_children m))\<^sup>+) \<Longrightarrow>
      \<exists>ids. cap_subtree m root = Inr ids \<and> set ids = descendants (cap_children m) root"
proof -
  let ?ch = "cap_children m"
  let ?S = "descendants ?ch root"
  show "\<exists>x \<in> ?S. (x, x) \<in> (child_rel ?ch)\<^sup>+ \<Longrightarrow> cap_subtree m root = Inl Loops_forever"
  proof (rule ccontr)
    assume "\<exists>x \<in> ?S. (x, x) \<in> (child_rel ?ch)\<^sup>+" and "cap_subtree m root \<noteq> Inl Loops_forever"
    then obtain x ids where x: "x \<in> ?S" "(x, x) \<in> (child_rel ?ch)\<^sup>+"
      and loop: "subtree_loop ?ch [root] [] = Some ids"
      by (auto simp: cap_subtree_def split: option.splits)
    have "root \<in> Wellfounded.acc (child_rel ?ch)"
      using subtree_loop_accessible [OF loop] by simp
    then have "x \<in> Wellfounded.acc (child_rel ?ch)"
      by (rule acc_downwards) (rule x(1) [unfolded descendants_def mem_Collect_eq])
    then show False using x(2) by (simp add: accessible_acyclic)
  qed
  show "\<not> (\<exists>x \<in> ?S. (x, x) \<in> (child_rel ?ch)\<^sup>+) \<Longrightarrow>
      \<exists>ids. cap_subtree m root = Inr ids \<and> set ids = ?S"
  proof -
    assume no_cycle: "\<not> (\<exists>x \<in> ?S. (x, x) \<in> (child_rel ?ch)\<^sup>+)"
    have "acyclic (child_rel ?ch \<inter> ?S \<times> ?S)"
    proof (intro acyclicI allI notI)
      fix x
      assume cyc: "(x, x) \<in> (child_rel ?ch \<inter> ?S \<times> ?S)\<^sup>+"
      then have "x \<in> ?S" by (auto dest: tranclD)
      moreover have "(x, x) \<in> (child_rel ?ch)\<^sup>+" using cyc by (rule trancl_mono) blast
      ultimately show False using no_cycle by blast
    qed
    then have "wf (child_rel ?ch \<inter> ?S \<times> ?S)"
      by (intro finite_acyclic_wf) (simp_all add: finite_child_rel)
    moreover have "set [root] \<subseteq> ?S" by (simp add: descendants_def)
    ultimately obtain ids where "subtree_loop ?ch [root] [] = Some ([] @ ids)"
      and "set ids = (\<Union>q \<in> set [root]. descendants ?ch q)"
      using subtree_loop_returns [of ?ch ?S "[root]" "[]"] descendants_closed [of _ ?ch root] by blast
    then show ?thesis by (simp add: cap_subtree_def)
  qed
qed

text \<open>
  C7 (termination of the subtree traversal): \<open>cap_subtree\<close> fails to return exactly when a cycle of
  delegations is reachable from its root; otherwise it returns the root and all its descendants.
\<close>

theorem cap_subtree_spec:
  "(cap_subtree m root = Inl Loops_forever \<longleftrightarrow>
      (\<exists>x \<in> descendants (cap_children m) root. (x, x) \<in> (child_rel (cap_children m))\<^sup>+)) \<and>
   (cap_subtree m root = Inl Loops_forever \<or>
      (\<exists>ids. cap_subtree m root = Inr ids \<and> set ids = descendants (cap_children m) root))"
  using cap_subtree_cases [of m root] by fastforce

lemma cap_subtree_set: "cap_subtree m root = Inr ids \<Longrightarrow> set ids = descendants (cap_children m) root"
  using cap_subtree_cases [of m root] by fastforce

section \<open>Revocation\<close>

lemma caps_revoke_cap:
  "bt_get (caps (revoke_cap x m)) c =
     map_option (\<lambda>r. if c = x then r\<lparr>revoked := True\<rparr> else r) (bt_get (caps m) c)"
  by (cases "bt_get (caps m) c") (auto simp: revoke_cap_def)

lemma caps_revoke_all:
  "bt_get (caps (fold revoke_cap ids m)) c =
     map_option (\<lambda>r. if c \<in> set ids then r\<lparr>revoked := True\<rparr> else r) (bt_get (caps m) c)"
proof (induction ids arbitrary: m)
  case Nil
  then show ?case by (cases "bt_get (caps m) c") simp_all
next
  case (Cons x ids)
  then show ?case by (cases "bt_get (caps m) c") (auto simp: caps_revoke_cap)
qed

definition revocation_targets :: "'j session_memory \<Rightarrow> string \<Rightarrow> string \<Rightarrow> string set" where
  "revocation_targets m cid strategy =
     (if strategy = ''subtree'' then descendants (cap_children m) cid else {cid})"

text \<open>
  C6 (effect of a revocation): replaying \<open>CapRevoked\<close> marks the capability, and with strategy
  \<open>subtree\<close> everything delegated from it directly or indirectly, as revoked, and changes no other
  capability record.
\<close>

theorem revocation_exact:
  assumes "transition E st m (Replayed sq (CapRevoked cid strategy by_actor at)) = Inr (st', m', effs)"
  shows "bt_get (caps m') c =
    map_option (\<lambda>r. if c \<in> revocation_targets m cid strategy then r\<lparr>revoked := True\<rparr> else r)
      (bt_get (caps m) c)"
proof -
  obtain ids where m': "caps m' = caps (fold revoke_cap ids (advance_cursor sq m))"
    and ids: "set ids = revocation_targets m cid strategy"
  proof (cases "strategy = ''subtree''")
    case True
    with assms obtain ids where "cap_subtree (advance_cursor sq m) cid = Inr ids"
      and "m' = fold revoke_cap ids (advance_cursor sq m)"
      by (auto simp: apply_logged_def logged_cap_revoked_def bind_result_Inr)
    then show ?thesis
      using that [of ids] cap_subtree_set [of "advance_cursor sq m" cid ids] True
      by (simp add: revocation_targets_def advance_cursor_def)
  next
    case False
    with assms show ?thesis
      using that [of "[cid]"]
      by (auto simp: apply_logged_def logged_cap_revoked_def revocation_targets_def)
  qed
  show ?thesis
    unfolding m' caps_revoke_all ids by (simp add: advance_cursor_def)
qed

definition sample_caps :: "json session_memory" where
  "sample_caps =
     logged_cap_delegated
       (logged_cap_delegated (new_memory ''s'' ''ann'') ''root'' None ''ann'' [] 0 0 0)
       ''leaf'' (Some ''root'') ''bot'' [] 0 1 0"

lemma sample_caps_subtree:
  "cap_subtree (advance_cursor sq sample_caps) ''root'' = Inr [''root'', ''leaf'']"
proof -
  have "subtree_loop (cap_children sample_caps) [] acc = Some acc" for acc
    by (subst subtree_loop.simps) simp
  then show ?thesis
    by (simp add: cap_subtree_def subtree_loop_step children_of_def advance_cursor_def
        sample_caps_def logged_cap_delegated_def new_memory_def)
qed

lemma revocation_exact_witness:
  "map_option revoked (bt_get (caps (fold revoke_cap [''root'', ''leaf''] (advance_cursor 3 sample_caps)))
     ''leaf'') = Some True"
proof -
  have "bt_get (caps (fold revoke_cap [''root'', ''leaf''] (advance_cursor 3 sample_caps))) ''leaf'' =
    map_option (\<lambda>r. if ''leaf'' \<in> revocation_targets sample_caps ''root'' ''subtree''
        then r\<lparr>revoked := True\<rparr> else r)
      (bt_get (caps sample_caps) ''leaf'')"
    by (rule revocation_exact [of sample_host Active sample_caps 3 _ _ "''ann''" 0 Active _ "[]"])
      (simp add: apply_logged_def logged_cap_revoked_def sample_caps_subtree)
  moreover have "''leaf'' \<in> revocation_targets sample_caps ''root'' ''subtree''"
    using cap_subtree_set [OF sample_caps_subtree, of 0]
    by (auto simp: revocation_targets_def advance_cursor_def)
  ultimately show ?thesis
    by (simp add: sample_caps_def logged_cap_delegated_def new_memory_def)
qed

section \<open>Revocation is permanent\<close>

definition cap_revoked :: "string \<Rightarrow> 'j session_memory \<Rightarrow> bool" where
  "cap_revoked c m \<longleftrightarrow> (case bt_get (caps m) c of None \<Rightarrow> False | Some r \<Rightarrow> revoked r)"

text \<open>The one event that files a capability record.\<close>

definition delegates :: "string \<Rightarrow> 'j session_event \<Rightarrow> bool" where
  "delegates c ev \<longleftrightarrow>
     (case ev of CapDelegated cid parent actor perms ep strat at \<Rightarrow> cid = c | _ \<Rightarrow> False)"

lemma gates_keep_caps: "caps (fold (\<lambda>(i, _). remove_gate i) held m) = caps m"
  by (induction held arbitrary: m) (auto simp: remove_gate_def)

lemma cap_revoked_fold: "cap_revoked c m \<Longrightarrow> cap_revoked c (fold revoke_cap ids m)"
  by (auto simp: cap_revoked_def caps_revoke_all split: option.splits)

lemma logged_keeps_revoked:
  assumes "apply_logged E st m sq ev = Inr (st', m', effs)" and "\<not> delegates c ev"
    and "cap_revoked c m"
  shows "cap_revoked c m'"
proof (cases ev)
  case (CapRevoked cid strategy by_actor at)
  then show ?thesis
    using assms cap_revoked_fold [of c "advance_cursor sq m"] cap_revoked_fold [of c "advance_cursor sq m" "[cid]"]
    by (auto simp: apply_logged_def logged_cap_revoked_def bind_result_Inr cap_revoked_def
        advance_cursor_def split: if_splits)
next
  case (ApprovalGranted aid by_actor at)
  then show ?thesis
    using assms by (auto simp: apply_logged_def logged_approval_granted_def Let_def cap_revoked_def
        gates_keep_caps drop_timer_def set_status_def advance_cursor_def)
qed (use assms in \<open>auto simp: apply_logged_def logged_memory_defs logged_outcome_defs Let_def
      cap_revoked_def delegates_def split: option.splits if_splits\<close>)

interpretation revocation: monotone_machine "replay_step E" "\<lambda>e. \<not> delegates c (snd e)"
    "\<lambda>s t. cap_revoked c (snd s) \<longrightarrow> cap_revoked c (snd t)" for E :: "'j host" and c
  by unfold_locales (auto simp: replay_step_def bind_result_Inr dest: logged_keeps_revoked)

text \<open>
  C8 (fencing is permanent): once an epoch advance has been replayed, a capability of an older epoch
  is never active again, whatever follows in the log, unless its identifier is delegated anew; a
  sidecar presenting it is turned away with code 4001 in every state that still serves events.
\<close>

theorem fenced_for_good:
  assumes "run_steps (replay_step E) (st, m)
      ((sq, EpochAdvanced old_epoch new_epoch strategy dl fenced by_actor at) # log) = Inr (st', m')"
    and "bt_get (caps m) c = Some r" and "cap_epoch r < new_epoch"
    and "\<forall>(s, ev) \<in> set log. \<not> delegates c ev"
  shows "\<not> cap_is_active m' c \<and>
    (\<not> is_terminal st' \<longrightarrow>
       transition E' st' m' (Live (SidecarAttach actor c)) =
         Inr (st', m', [CloseConnection actor 4001 ''invalid or revoked capability'']))"
proof -
  obtain st1 m1 where adv: "replay_step E (st, m)
      (sq, EpochAdvanced old_epoch new_epoch strategy dl fenced by_actor at) = Inr (st1, m1)"
    and rest: "run_steps (replay_step E) (st1, m1) log = Inr (st', m')"
    using assms(1) by (auto simp: bind_result_Inr)
  have "cap_revoked c m1"
    using adv assms(2,3)
    by (auto simp: replay_step_def bind_result_Inr apply_logged_def logged_epoch_advanced_def Let_def
        cap_revoked_def advance_cursor_def split: if_splits option.splits)
  moreover have "list_all (\<lambda>e. \<not> delegates c (snd e)) log"
    using assms(4) by (auto simp: list_all_iff)
  ultimately have "cap_revoked c m'"
    using revocation.run_below [OF _ rest, of c] by simp
  then have "\<not> cap_is_active m' c"
    by (auto simp: cap_revoked_def cap_is_active_def split: option.splits)
  then show ?thesis by (simp add: live_sidecar_attach_def)
qed

lemma fenced_for_good_witness:
  "\<exists>st' m'. run_steps (replay_step sample_host) (Active, sample_caps)
      [(3, EpochAdvanced 0 1 ''immediate'' 0 [] ''ann'' 0), (4, SessionPaused ''ann'' None 0)] = Inr (st', m')
    \<and> \<not> cap_is_active m' ''leaf''"
proof -
  obtain st' m' where run: "run_steps (replay_step sample_host) (Active, sample_caps)
      [(3, EpochAdvanced 0 1 ''immediate'' 0 [] ''ann'' 0), (4, SessionPaused ''ann'' None 0)] = Inr (st', m')"
    by (simp add: replay_step_def apply_logged_def logged_epoch_advanced_def Let_def)
  have "\<exists>r. bt_get (caps sample_caps) ''leaf'' = Some r \<and> cap_epoch r < 1"
    by (simp add: sample_caps_def logged_cap_delegated_def new_memory_def)
  then have "\<not> cap_is_active m' ''leaf''"
    using fenced_for_good [OF run] by (auto simp: delegates_def)
  with run show ?thesis by blast
qed

section \<open>Attaching a sidecar\<close>

text \<open>
  Authority of an attachment: a live event causes an \<open>AgentAttached\<close> record in one case only,
  a sidecar of that actor presenting a capability that is active in the current epoch and was
  issued to that very actor.
\<close>

theorem attach_needs_capability:
  assumes "transition E st m (Live ev) = Inr (st', m', effs)"
    and "Persist (AgentAttached actor cid at) \<in> set effs"
  shows "ev = SidecarAttach actor cid \<and> cap_is_active m cid \<and>
    (\<exists>r. bt_get (caps m) cid = Some r \<and> cap_actor_id r = actor \<and> \<not> revoked r \<and> cap_epoch r = epoch m)"
proof -
  have run: "apply_live E st m ev = Inr (st', m', effs)"
    using assms by (auto split: if_splits)
  show ?thesis
  proof (cases "\<exists>a c. ev = SidecarAttach a c")
    case True
    then show ?thesis
      using run assms(2)
      by (auto simp: live_sidecar_attach_def cap_is_active_def split: if_splits option.splits)
  next
    case False
    have "list_all (\<lambda>e. \<not> sensitive e) effs \<or> (\<exists>aid voter d. ev = VoteCast aid voter d) \<or>
        (\<exists>aid a tname args ms. ev = ApprovalCreate aid a tname args ms)"
      using run False by (blast dest: live_sensitive)
    moreover have "Persist (AgentAttached actor cid at) \<notin> set effs" if "ev = VoteCast aid voter d" for aid voter d
      using run that by (auto simp: live_vote_cast_def session_updated_broadcast_def Let_def
          split: if_splits option.splits policy_outcome.splits)
    moreover have "Persist (AgentAttached actor cid at) \<notin> set effs"
      if "ev = ApprovalCreate aid a tname args ms" for aid a tname args ms
      using run that by (auto simp: live_approval_create_def session_updated_broadcast_def
          split: if_splits option.splits)
    ultimately show ?thesis
      using assms(2) by (fastforce simp: list_all_iff)
  qed
qed

lemma attach_needs_capability_witness:
  "cap_is_active sample_caps ''leaf''"
  using attach_needs_capability [of sample_host Active sample_caps "SidecarAttach ''bot'' ''leaf''"
      Active sample_caps "[Persist (AgentAttached ''bot'' ''leaf'' 0)]" "''bot''" "''leaf''" 0]
  by (simp add: live_sidecar_attach_def cap_is_active_def sample_caps_def logged_cap_delegated_def
      new_memory_def sample_host_def)

end
