(* ===== verification/Cap_Store.thy ===== *)
theory Cap_Store
  imports Protocol_Types
begin

text \<open>
  The tables that hold authority (\<open>crates/db/src/tokens.rs\<close>, \<open>epochs.rs\<close>, the triggers of
  \<open>migrations/015_security_hardening.sql\<close>). A table is the list of its rows in order of insertion
  and a query is a function on the tables, translated from its SQL text; the answer of a query
  without \<open>ORDER BY\<close> is in table order, which no caller relies on. \<open>NULL\<close> is \<open>None\<close>.

  \<open>pg\<close> is what comes from outside: the time of a statement (\<open>NOW()\<close>), the identifiers of the
  \<open>ulid\<close> crate, JSON arrays of strings, and which statements fail for a reason these tables do not
  show (a lost connection, a constraint of another table). A statement that fails has no effect.
\<close>

section \<open>Errors, rows and tables\<close>

datatype db_error =
    Not_found
  | Unauthorized
  | Db_conflict string
  | Sqlx                    \<comment> \<open>any other error of the database\<close>
  | Hung                    \<comment> \<open>the statement never returns\<close>
  | Panicked                \<comment> \<open>not a \<open>DbError\<close>: the calling task panics\<close>

record 'j token_row =
  tk_id :: string
  tk_session :: string
  tk_actor :: string
  tk_expires :: datetime
  tk_used :: "datetime option"
  tk_created :: datetime
  tk_parent :: "string option"
  tk_observed :: int
  tk_perms :: 'j
  tk_epoch :: int
  tk_stratum :: int
  tk_revoked :: "datetime option"
  tk_transferred :: "string option"

record revocation_row =
  rv_id :: string
  rv_session :: string
  rv_strategy :: string
  rv_target_cap :: "string option"
  rv_target_stratum :: "int option"
  rv_drain_seq :: int
  rv_drain_deadline :: datetime
  rv_closed :: int
  rv_new :: int
  rv_at :: datetime
  rv_by :: string

record 'j receipt_row =
  rx_id :: string
  rx_cap :: string
  rx_session :: string
  rx_method :: string
  rx_args :: 'j
  rx_issued :: datetime
  rx_expires :: datetime
  rx_used :: "datetime option"
  rx_approval :: "string option"

record 'j method_row =
  mt_id :: string
  mt_session :: string
  mt_slug :: string
  mt_name :: string
  mt_address :: string
  mt_schema :: 'j
  mt_description :: "string option"
  mt_requires_approval :: bool
  mt_registered_at :: datetime

record 'j approval_row =
  aq_id :: string
  aq_session :: string
  aq_actor :: string
  aq_tool :: string
  aq_args :: 'j
  aq_state :: string
  aq_votes :: "(string \<times> string) list"
  aq_resolved_by :: "string option"
  aq_created :: datetime
  aq_timeout :: "datetime option"
  aq_resolved_at :: "datetime option"

record descriptor_row =
  ds_id :: string
  ds_actor :: string
  ds_index :: int
  ds_uri :: string
  ds_granted :: datetime

record 'j store =
  tokens :: "'j token_row list"
  epochs :: "string \<rightharpoonup> int"
  revocations :: "revocation_row list"
  receipts :: "'j receipt_row list"
  methods :: "'j method_row list"
  approval_rows :: "'j approval_row list"
  descriptors :: "descriptor_row list"
  memberships :: "(string \<times> string \<times> string) list"   \<comment> \<open>session, actor, role\<close>
  event_seqs :: "string \<rightharpoonup> int"                       \<comment> \<open>\<open>MAX(seq)\<close> of the events of a session\<close>
  next_seqs :: "string \<rightharpoonup> int"                        \<comment> \<open>\<open>session_sequences\<close>\<close>
  statements :: nat                                     \<comment> \<open>how many statements have been run\<close>

record 'j pg =
  down :: "nat \<Rightarrow> bool"
  pg_now :: "nat \<Rightarrow> datetime"
  ulid :: "nat \<Rightarrow> string"
  add_secs :: "datetime \<Rightarrow> int \<Rightarrow> datetime option"    \<comment> \<open>\<open>Utc::now() + Duration::seconds(k)\<close>\<close>
  strings_json :: "string list \<Rightarrow> 'j"
  json_array :: "'j \<Rightarrow> 'j list option"
  json_text :: "'j \<Rightarrow> string option"

section \<open>Statements\<close>

type_synonym ('j, 'a) db_op = "'j pg \<Rightarrow> 'j store \<Rightarrow> (db_error + 'a) \<times> 'j store"

text \<open>The sequencing of operations, on these tables or on a record that contains them.\<close>

definition db_return :: "'a \<Rightarrow> 'x \<Rightarrow> 'd \<Rightarrow> ('e + 'a) \<times> 'd" where
  "db_return x X d = (Inr x, d)"

definition db_fail :: "'e \<Rightarrow> 'x \<Rightarrow> 'd \<Rightarrow> ('e + 'a) \<times> 'd" where
  "db_fail e X d = (Inl e, d)"

definition db_bind ::
  "('x \<Rightarrow> 'd \<Rightarrow> ('e + 'a) \<times> 'd) \<Rightarrow> ('a \<Rightarrow> 'x \<Rightarrow> 'd \<Rightarrow> ('e + 'b) \<times> 'd) \<Rightarrow> 'x \<Rightarrow> 'd \<Rightarrow> ('e + 'b) \<times> 'd" where
  "db_bind m k X d = (case m X d of (Inl e, d1) \<Rightarrow> (Inl e, d1) | (Inr x, d1) \<Rightarrow> k x X d1)"

definition statement ::
  "(datetime \<Rightarrow> 'j store \<Rightarrow> (db_error + 'a) \<times> 'j store) \<Rightarrow> ('j, 'a) db_op" where
  "statement f X d =
     (let i = statements d; d1 = d\<lparr>statements := Suc i\<rparr>
      in if down X i then (Inl Sqlx, d1) else f (pg_now X i) d1)"

text \<open>\<open>?\<close>-less continuation: the result of the first operation, error or not, goes to the second.\<close>

definition db_attempt ::
  "('x \<Rightarrow> 'd \<Rightarrow> ('e + 'a) \<times> 'd) \<Rightarrow> ('e + 'a \<Rightarrow> 'x \<Rightarrow> 'd \<Rightarrow> ('e + 'b) \<times> 'd) \<Rightarrow> 'x \<Rightarrow> 'd \<Rightarrow> ('e + 'b) \<times> 'd" where
  "db_attempt m k X d = (case m X d of (r, d1) \<Rightarrow> k r X d1)"

text \<open>
  A transaction is \<open>begin\<close>, a body and \<open>commit\<close>. An error of the body or of the commit leaves the
  tables as they were.
\<close>

definition begin_tx :: "('j, unit) db_op" where
  "begin_tx = statement (\<lambda>now d. (Inr (), d))"

definition tx_body :: "('j, 'a) db_op \<Rightarrow> ('j, 'a) db_op" where
  "tx_body m X d =
     (case m X d of
        (Inl e, d1) \<Rightarrow> (Inl e, d\<lparr>statements := statements d1\<rparr>)
      | (Inr x, d1) \<Rightarrow>
          if down X (statements d1) then (Inl Sqlx, d\<lparr>statements := Suc (statements d1)\<rparr>)
          else (Inr x, d1\<lparr>statements := Suc (statements d1)\<rparr>))"

definition transaction :: "('j, 'a) db_op \<Rightarrow> ('j, 'a) db_op" where
  "transaction m = db_bind begin_tx (\<lambda>_. tx_body m)"

text \<open>An identifier is drawn.\<close>

definition drawing :: "(string \<Rightarrow> ('j, 'a) db_op) \<Rightarrow> ('j, 'a) db_op" where
  "drawing k X d = k (ulid X (statements d)) X d"

text \<open>
  The identifier and the expiry are drawn before the statements that follow; \<open>k\<close> gets them.
\<close>

definition with_expiry :: "int \<Rightarrow> (string \<Rightarrow> datetime \<Rightarrow> ('j, 'a) db_op) \<Rightarrow> ('j, 'a) db_op" where
  "with_expiry ttl_secs k X d =
     (case add_secs X (pg_now X (statements d)) ttl_secs of
        None \<Rightarrow> (Inl Panicked, d)
      | Some expires \<Rightarrow> k (ulid X (statements d)) expires X d)"

section \<open>Capability tokens\<close>

definition find_token :: "'j store \<Rightarrow> string \<Rightarrow> 'j token_row option" where
  "find_token d i = find (\<lambda>t. tk_id t = i) (tokens d)"

text \<open>The columns that a query lists; \<open>transferred_to\<close> is not among them and defaults.\<close>

definition listed :: "'j token_row \<Rightarrow> 'j token_row" where
  "listed t = t\<lparr>tk_transferred := None\<rparr>"

definition current_epoch :: "'j store \<Rightarrow> string \<Rightarrow> int" where
  "current_epoch d sid = (case epochs d sid of None \<Rightarrow> 0 | Some e \<Rightarrow> e)"

text \<open>The trigger \<open>enforce_token_epoch_coherence\<close>, which runs before an insert.\<close>

definition coherent :: "'j store \<Rightarrow> 'j token_row \<Rightarrow> bool" where
  "coherent d t \<longleftrightarrow>
     (case tk_parent t of
        None \<Rightarrow> True
      | Some p \<Rightarrow>
          (case find_token d p of
             None \<Rightarrow> False
           | Some r \<Rightarrow> tk_session r = tk_session t \<and> tk_epoch r = tk_epoch t))"

definition insert_row :: "'j token_row \<Rightarrow> 'j store \<Rightarrow> (db_error + 'j token_row) \<times> 'j store" where
  "insert_row t d =
     (if find_token d (tk_id t) \<noteq> None \<or> \<not> coherent d t then (Inl Sqlx, d)
      else (Inr (listed t), d\<lparr>tokens := tokens d @ [t]\<rparr>))"

definition insert_token ::
  "string \<Rightarrow> string \<Rightarrow> string \<Rightarrow> datetime \<Rightarrow> string option \<Rightarrow> int \<Rightarrow> string list
   \<Rightarrow> ('j, 'j token_row) db_op" where
  "insert_token i sid actor expires parent observed perms X =
     statement (\<lambda>now d.
       insert_row
         \<lparr>tk_id = i, tk_session = sid, tk_actor = actor, tk_expires = expires, tk_used = None,
          tk_created = now, tk_parent = parent, tk_observed = observed,
          tk_perms = strings_json X perms, tk_epoch = current_epoch d sid,
          tk_stratum = (case Option.bind parent (find_token d) of
                          None \<Rightarrow> 0 | Some p \<Rightarrow> tk_stratum p + 1),
          tk_revoked = None, tk_transferred = None\<rparr> d) X"

definition get_cap :: "string \<Rightarrow> ('j, 'j token_row) db_op" where
  "get_cap i =
     statement (\<lambda>now d.
       (case find_token d i of None \<Rightarrow> Inl Not_found | Some t \<Rightarrow> Inr (listed t), d))"

text \<open>\<open>UPDATE session_tokens SET \<dots> WHERE \<dots> RETURNING id\<close>.\<close>

definition update_tokens ::
  "('j token_row \<Rightarrow> bool) \<Rightarrow> ('j token_row \<Rightarrow> 'j token_row) \<Rightarrow> 'j store \<Rightarrow> string list \<times> 'j store" where
  "update_tokens P f d =
     (map tk_id (filter P (tokens d)),
      d\<lparr>tokens := map (\<lambda>t. if P t then f t else t) (tokens d)\<rparr>)"

definition exchange :: "string \<Rightarrow> ('j, 'j token_row) db_op" where
  "exchange i =
     statement (\<lambda>now d.
       let P = (\<lambda>t. tk_id t = i \<and> tk_used t = None \<and> now < tk_expires t \<and> tk_revoked t = None);
           (hit, d') = update_tokens P (\<lambda>t. t\<lparr>tk_used := Some now\<rparr>) d
       in if hit = [] then (Inl Not_found, d)
          else (case find_token d' i of
                  None \<Rightarrow> Inl Not_found | Some t \<Rightarrow> Inr (listed t), d'))"

definition children :: "string \<Rightarrow> ('j, 'j token_row list) db_op" where
  "children p =
     statement (\<lambda>now d. (Inr (map listed (filter (\<lambda>t. tk_parent t = Some p) (tokens d))), d))"

definition parse_permissions :: "'j pg \<Rightarrow> 'j token_row \<Rightarrow> string list" where
  "parse_permissions X t =
     (case json_array X (tk_perms t) of
        None \<Rightarrow> []
      | Some vs \<Rightarrow> List.map_filter (json_text X) vs)"

definition unexpired_token :: "datetime \<Rightarrow> 'j token_row \<Rightarrow> bool" where
  "unexpired_token now t \<longleftrightarrow> now < tk_expires t \<and> tk_revoked t = None"

definition actor_caps_in_session :: "string \<Rightarrow> string \<Rightarrow> ('j, 'j token_row list) db_op" where
  "actor_caps_in_session sid actor =
     statement (\<lambda>now d.
       (Inr (map listed (sort_key tk_observed
          (filter (\<lambda>t. tk_session t = sid \<and> tk_actor t = actor \<and> unexpired_token now t) (tokens d)))), d))"

subsection \<open>Recursive queries\<close>

text \<open>
  A \<open>WITH RECURSIVE \<dots> UNION ALL\<close> query repeats its second half on the rows the last round added,
  until a round adds none; with a cycle it never ends.
\<close>

definition live_children :: "'j token_row list \<Rightarrow> string list \<Rightarrow> string list" where
  "live_children rows ps =
     concat (map (\<lambda>p. map tk_id (filter (\<lambda>t. tk_parent t = Some p \<and> tk_revoked t = None) rows)) ps)"

partial_function (option) descend ::
  "'j token_row list \<Rightarrow> string list \<Rightarrow> string list \<Rightarrow> string list option" where
  "descend rows front acc =
     (if front = [] then Some acc else descend rows (live_children rows front) (acc @ front))"

declare descend.simps [code]

definition revoke_cap_subtree :: "string \<Rightarrow> ('j, string list) db_op" where
  "revoke_cap_subtree cap =
     statement (\<lambda>now d.
       case descend (tokens d) (map tk_id (filter (\<lambda>t. tk_id t = cap) (tokens d))) [] of
         None \<Rightarrow> (Inl Hung, d)
       | Some ids \<Rightarrow>
           (case update_tokens (\<lambda>t. tk_id t \<in> set ids \<and> tk_revoked t = None)
                   (\<lambda>t. t\<lparr>tk_revoked := Some now\<rparr>) d of
              (hit, d') \<Rightarrow> (Inr hit, d')))"

partial_function (option) ascend ::
  "'j token_row list \<Rightarrow> 'j token_row list \<Rightarrow> 'j token_row list \<Rightarrow> 'j token_row list option" where
  "ascend rows front acc =
     (if front = [] then Some acc
      else ascend rows
             (concat (map (\<lambda>l. filter (\<lambda>t. Some (tk_id t) = tk_parent l) rows) front)) (acc @ front))"

declare ascend.simps [code]

definition lineage :: "string \<Rightarrow> ('j, 'j token_row list) db_op" where
  "lineage i =
     statement (\<lambda>now d.
       case ascend (tokens d) (filter (\<lambda>t. tk_id t = i) (tokens d)) [] of
         None \<Rightarrow> (Inl Hung, d)
       | Some ts \<Rightarrow> (Inr (sort_key tk_observed (map listed ts)), d))"

subsection \<open>Revocation, rerooting, transfer\<close>

definition revoke_by_stratum :: "string \<Rightarrow> int \<Rightarrow> int \<Rightarrow> ('j, string list) db_op" where
  "revoke_by_stratum sid ep threshold =
     statement (\<lambda>now d.
       case update_tokens
              (\<lambda>t. tk_session t = sid \<and> tk_epoch t = ep \<and> threshold \<le> tk_stratum t \<and> tk_revoked t = None)
              (\<lambda>t. t\<lparr>tk_revoked := Some now\<rparr>) d of
         (hit, d') \<Rightarrow> (Inr hit, d'))"

definition revoke_epoch :: "string \<Rightarrow> int \<Rightarrow> ('j, string list) db_op" where
  "revoke_epoch sid ep =
     statement (\<lambda>now d.
       case update_tokens
              (\<lambda>t. tk_session t = sid \<and> tk_epoch t = ep \<and> tk_revoked t = None)
              (\<lambda>t. t\<lparr>tk_revoked := Some now\<rparr>) d of
         (hit, d') \<Rightarrow> (Inr hit, d'))"

definition reroot_caps :: "string \<Rightarrow> string \<Rightarrow> string option \<Rightarrow> ('j, nat) db_op" where
  "reroot_caps sid old_parent new_parent =
     statement (\<lambda>now d.
       case update_tokens
              (\<lambda>t. tk_parent t = Some old_parent \<and> tk_session t = sid \<and> tk_revoked t = None)
              (\<lambda>t. t\<lparr>tk_parent := new_parent\<rparr>) d of
         (hit, d') \<Rightarrow> (Inr (length hit), d'))"

definition get_parent_id :: "string \<Rightarrow> ('j, string option) db_op" where
  "get_parent_id i = statement (\<lambda>now d. (Inr (Option.bind (find_token d i) tk_parent), d))"

definition is_revoked :: "string \<Rightarrow> ('j, bool) db_op" where
  "is_revoked i =
     statement (\<lambda>now d.
       (Inr (case find_token d i of None \<Rightarrow> False | Some t \<Rightarrow> tk_revoked t \<noteq> None), d))"

text \<open>\<open>ORDER BY created_at DESC LIMIT 1\<close>.\<close>

definition find_root_cap_in_tx :: "string \<Rightarrow> string \<Rightarrow> ('j, string option) db_op" where
  "find_root_cap_in_tx sid actor =
     statement (\<lambda>now d.
       let roots = filter (\<lambda>t. tk_session t = sid \<and> tk_actor t = actor \<and> tk_stratum t = 0 \<and>
                                unexpired_token now t) (tokens d)
       in (Inr (case rev (sort_key tk_created roots) of [] \<Rightarrow> None | t # _ \<Rightarrow> Some (tk_id t)), d))"

text \<open>
  The three statements of the transfer and the read before them; the identifier of the new root is
  drawn between the read and the insert. The answer is the new root and how many children moved.
\<close>

definition read_perms :: "string \<Rightarrow> ('j, 'j) db_op" where
  "read_perms i X =
     statement (\<lambda>now d.
       (Inr (case find_token d i of None \<Rightarrow> strings_json X [] | Some t \<Rightarrow> tk_perms t), d)) X"

definition insert_root :: "string \<Rightarrow> string \<Rightarrow> string \<Rightarrow> datetime \<Rightarrow> 'j \<Rightarrow> ('j, 'j token_row) db_op" where
  "insert_root i sid actor expires perms =
     statement (\<lambda>now d.
       insert_row
         \<lparr>tk_id = i, tk_session = sid, tk_actor = actor, tk_expires = expires, tk_used = None,
          tk_created = now, tk_parent = None,
          tk_observed = (case next_seqs d sid of None \<Rightarrow> 0 | Some n \<Rightarrow> n - 1),
          tk_perms = perms, tk_epoch = current_epoch d sid, tk_stratum = 0,
          tk_revoked = None, tk_transferred = None\<rparr> d)"

definition move_children :: "string \<Rightarrow> string \<Rightarrow> ('j, nat) db_op" where
  "move_children old_root root =
     statement (\<lambda>now d.
       case update_tokens (\<lambda>t. tk_parent t = Some old_root \<and> tk_revoked t = None)
              (\<lambda>t. t\<lparr>tk_parent := Some root\<rparr>) d of
         (hit, d') \<Rightarrow> (Inr (length hit), d'))"

definition retire_root :: "string \<Rightarrow> string \<Rightarrow> ('j, unit) db_op" where
  "retire_root old_root root =
     statement (\<lambda>now d.
       (Inr (), snd (update_tokens (\<lambda>t. tk_id t = old_root)
          (\<lambda>t. t\<lparr>tk_revoked := Some now, tk_transferred := Some root\<rparr>) d)))"

definition transfer_root_in_tx ::
  "string \<Rightarrow> string \<Rightarrow> string \<Rightarrow> int \<Rightarrow> ('j, string \<times> nat) db_op" where
  "transfer_root_in_tx sid old_root new_actor ttl_hours =
     db_bind (read_perms old_root) (\<lambda>perms.
       with_expiry (ttl_hours * 3600) (\<lambda>i expires.
         db_bind (insert_root i sid new_actor expires perms) (\<lambda>row.
         db_bind (move_children old_root (tk_id row)) (\<lambda>moved.
         db_bind (retire_root old_root (tk_id row)) (\<lambda>_.
           db_return (tk_id row, moved))))))"

definition actors_in_revoked_epoch :: "string \<Rightarrow> int \<Rightarrow> ('j, string list) db_op" where
  "actors_in_revoked_epoch sid ep =
     statement (\<lambda>now d.
       (Inr (remdups (map tk_actor
          (filter (\<lambda>t. tk_session t = sid \<and> tk_epoch t = ep \<and> tk_revoked t \<noteq> None) (tokens d)))), d))"

definition revoke_owned_root_cap :: "string \<Rightarrow> string \<Rightarrow> ('j, string list option) db_op" where
  "revoke_owned_root_cap cap owner =
     db_bind
       (statement (\<lambda>now d.
          (Inr (\<exists>t \<in> set (tokens d). \<exists>(s, a, r) \<in> set (memberships d).
             tk_id t = cap \<and> tk_stratum t = 0 \<and> s = tk_session t \<and> r = ''owner'' \<and> a = owner), d)))
       (\<lambda>owns. if owns then db_bind (revoke_cap_subtree cap) (\<lambda>ids. db_return (Some ids))
               else db_return None)"

section \<open>Epochs\<close>

definition seed_epoch :: "string \<Rightarrow> ('j, unit) db_op" where
  "seed_epoch sid =
     statement (\<lambda>now d.
       (Inr (), if epochs d sid = None then d\<lparr>epochs := (epochs d)(sid \<mapsto> 0)\<rparr> else d))"

definition read_epoch :: "string \<Rightarrow> ('j, int) db_op" where
  "read_epoch sid = statement (\<lambda>now d. (Inr (current_epoch d sid), d))"

definition advance_epoch :: "string \<Rightarrow> ('j, int) db_op" where
  "advance_epoch sid =
     statement (\<lambda>now d.
       case epochs d sid of
         None \<Rightarrow> (Inl (Db_conflict (''no epoch row for session '' @ sid)), d)
       | Some e \<Rightarrow> (Inr (e + 1), d\<lparr>epochs := (epochs d)(sid \<mapsto> e + 1)\<rparr>))"

definition record_revocation ::
  "string \<Rightarrow> string \<Rightarrow> string \<Rightarrow> string option \<Rightarrow> int option \<Rightarrow> int \<Rightarrow> datetime \<Rightarrow> int \<Rightarrow> int \<Rightarrow> string
   \<Rightarrow> ('j, unit) db_op" where
  "record_revocation i sid strategy target stratum dseq deadline closed opened by_actor =
     statement (\<lambda>now d.
       (Inr (), d\<lparr>revocations := revocations d @
          [\<lparr>rv_id = i, rv_session = sid, rv_strategy = strategy, rv_target_cap = target,
            rv_target_stratum = stratum, rv_drain_seq = dseq, rv_drain_deadline = deadline,
            rv_closed = closed, rv_new = opened, rv_at = now, rv_by = by_actor\<rparr>]\<rparr>))"

definition current_seq :: "string \<Rightarrow> ('j, int) db_op" where
  "current_seq sid =
     statement (\<lambda>now d. (Inr (case event_seqs d sid of None \<Rightarrow> 0 | Some s \<Rightarrow> s), d))"

end
