(* ===== verification/Broker_Store.thy ===== *)
theory Broker_Store
  imports Cap_Store "HOL-Library.AList"
begin

text \<open>
  The tables around the capabilities: the method registry (\<open>crates/db/src/methods.rs\<close>), execution
  receipts (\<open>receipts.rs\<close>), approval requests (\<open>approvals.rs\<close>), memberships
  (\<open>require_membership\<close> of \<open>sessions.rs\<close>) and actor descriptors (\<open>descriptors.rs\<close>).
\<close>

section \<open>Method registry\<close>

definition method_address :: "string \<Rightarrow> string \<Rightarrow> string" where
  "method_address slug name = ''mcp.'' @ slug @ ''.'' @ name"

definition get_by_address :: "string \<Rightarrow> string \<Rightarrow> ('j, 'j method_row option) db_op" where
  "get_by_address sid addr =
     statement (\<lambda>now d.
       (Inr (find (\<lambda>m. mt_session m = sid \<and> mt_address m = addr) (methods d)), d))"

text \<open>One round of \<open>register_bulk\<close>: an insert that updates on conflict of session and address.\<close>

record 'j method_def =
  md_name :: string
  md_description :: "string option"
  md_schema :: 'j
  md_requires_approval :: bool

definition register_method ::
  "string \<Rightarrow> string \<Rightarrow> 'j method_def \<Rightarrow> ('j, unit) db_op" where
  "register_method sid slug m X d0 =
     (let i = ulid X (statements d0); addr = method_address slug (md_name m)
      in statement (\<lambda>now d.
        (Inr (),
         if \<exists>r \<in> set (methods d). mt_session r = sid \<and> mt_address r = addr
         then d\<lparr>methods := map
                (\<lambda>r. if mt_session r = sid \<and> mt_address r = addr
                     then r\<lparr>mt_schema := md_schema m, mt_description := md_description m,
                            mt_requires_approval := md_requires_approval m, mt_registered_at := now\<rparr>
                     else r) (methods d)\<rparr>
         else d\<lparr>methods := methods d @
                [\<lparr>mt_id = i, mt_session = sid, mt_slug = slug, mt_name = md_name m, mt_address = addr,
                  mt_schema = md_schema m, mt_description = md_description m,
                  mt_requires_approval = md_requires_approval m, mt_registered_at = now\<rparr>]\<rparr>)) X d0)"

fun register_bulk :: "string \<Rightarrow> string \<Rightarrow> 'j method_def list \<Rightarrow> ('j, nat) db_op" where
  "register_bulk sid slug [] = db_return 0"
| "register_bulk sid slug (m # ms) =
     db_bind (register_method sid slug m)
       (\<lambda>_. db_bind (register_bulk sid slug ms) (\<lambda>k. db_return (Suc k)))"

definition unknown_addresses :: "string \<Rightarrow> string list \<Rightarrow> ('j, string list) db_op" where
  "unknown_addresses sid perms =
     (let addrs = filter (starts_with ''mcp.'') perms
      in if perms = [] \<or> addrs = [] then db_return []
         else statement (\<lambda>now d.
           (Inr (filter (\<lambda>a. \<not> (\<exists>m \<in> set (methods d). mt_session m = sid \<and> mt_address m = a)) addrs), d)))"

section \<open>Execution receipts\<close>

definition issue_receipt ::
  "string \<Rightarrow> string \<Rightarrow> string \<Rightarrow> 'j \<Rightarrow> int \<Rightarrow> string option \<Rightarrow> ('j, 'j receipt_row) db_op" where
  "issue_receipt cap sid meth args ttl_secs approval X d0 =
     (case add_secs X (pg_now X (statements d0)) ttl_secs of
        None \<Rightarrow> (Inl Panicked, d0)
      | Some expires \<Rightarrow>
          statement (\<lambda>now d.
            let r = \<lparr>rx_id = ulid X (statements d0), rx_cap = cap, rx_session = sid, rx_method = meth,
                     rx_args = args, rx_issued = now, rx_expires = expires, rx_used = None,
                     rx_approval = approval\<rparr>
            in if (\<exists>q \<in> set (receipts d). rx_id q = rx_id r) \<or> find_token d cap = None
               then (Inl Sqlx, d)
               else (Inr r, d\<lparr>receipts := receipts d @ [r]\<rparr>)) X d0)"

text \<open>The \<open>WHERE\<close> clause of \<open>consume\<close>: the receipt, its capability, and its approval if it has one.\<close>

definition consumable :: "datetime \<Rightarrow> 'j store \<Rightarrow> string \<Rightarrow> string \<Rightarrow> 'j receipt_row \<Rightarrow> bool" where
  "consumable now d sid i r \<longleftrightarrow>
     rx_id r = i \<and> rx_session r = sid \<and> rx_used r = None \<and> now < rx_expires r \<and>
     (\<exists>t \<in> set (tokens d).
        tk_id t = rx_cap r \<and> tk_session t = rx_session r \<and> tk_revoked t = None \<and>
        now < tk_expires t \<and> tk_epoch t = current_epoch d (rx_session r)) \<and>
     (case rx_approval r of
        None \<Rightarrow> True
      | Some a \<Rightarrow>
          \<exists>q \<in> set (approval_rows d).
            aq_id q = a \<and> aq_session q = rx_session r \<and> aq_state q = ''Approved'')"

definition consume_receipt :: "string \<Rightarrow> string \<Rightarrow> ('j, 'j receipt_row) db_op" where
  "consume_receipt sid i =
     statement (\<lambda>now d.
       case find (consumable now d sid i) (receipts d) of
         None \<Rightarrow> (Inl Not_found, d)
       | Some r \<Rightarrow>
           (Inr (r\<lparr>rx_used := Some now\<rparr>),
            d\<lparr>receipts := map (\<lambda>q. if consumable now d sid i q then q\<lparr>rx_used := Some now\<rparr> else q)
                             (receipts d)\<rparr>))"

definition get_receipt :: "string \<Rightarrow> ('j, 'j receipt_row) db_op" where
  "get_receipt i =
     statement (\<lambda>now d.
       (case find (\<lambda>r. rx_id r = i) (receipts d) of None \<Rightarrow> Inl Not_found | Some r \<Rightarrow> Inr r, d))"

text \<open>The garbage collector of receipts; \<open>before\<close> is \<open>NOW()\<close> less the interval.\<close>

definition compact_expired :: "int \<Rightarrow> ('j, nat) db_op" where
  "compact_expired retention =
     statement (\<lambda>now d.
       let gone = (\<lambda>r. rx_used r = None \<and> rx_expires r < now - retention)
       in (Inr (length (filter gone (receipts d))),
           d\<lparr>receipts := filter (\<lambda>r. \<not> gone r) (receipts d)\<rparr>))"

definition compact_consumed :: "int \<Rightarrow> ('j, nat) db_op" where
  "compact_consumed retention =
     statement (\<lambda>now d.
       let gone = (\<lambda>r. case rx_used r of None \<Rightarrow> False | Some u \<Rightarrow> u < now - retention)
       in (Inr (length (filter gone (receipts d))),
           d\<lparr>receipts := filter (\<lambda>r. \<not> gone r) (receipts d)\<rparr>))"

section \<open>Approval requests\<close>

definition open_state :: "string \<Rightarrow> bool" where
  "open_state s \<longleftrightarrow> s \<in> {''Pending'', ''Claimed'', ''Contested''}"

definition insert_approval ::
  "string \<Rightarrow> string \<Rightarrow> string \<Rightarrow> string \<Rightarrow> 'j \<Rightarrow> datetime option \<Rightarrow> ('j, unit) db_op" where
  "insert_approval i sid actor tool args timeout =
     statement (\<lambda>now d.
       (Inr (),
        if \<exists>q \<in> set (approval_rows d). aq_id q = i then d
        else d\<lparr>approval_rows := approval_rows d @
               [\<lparr>aq_id = i, aq_session = sid, aq_actor = actor, aq_tool = tool, aq_args = args,
                 aq_state = ''Pending'', aq_votes = [], aq_resolved_by = None, aq_created = now,
                 aq_timeout = timeout, aq_resolved_at = None\<rparr>]\<rparr>))"

text \<open>\<open>UPDATE approval_requests SET \<dots> WHERE \<dots> RETURNING \<dots>\<close> for at most one row.\<close>

definition update_approval ::
  "('j approval_row \<Rightarrow> bool) \<Rightarrow> ('j approval_row \<Rightarrow> 'j approval_row) \<Rightarrow> 'j store
   \<Rightarrow> 'j approval_row option \<times> 'j store" where
  "update_approval P f d =
     (map_option f (find P (approval_rows d)),
      d\<lparr>approval_rows := map (\<lambda>q. if P q then f q else q) (approval_rows d)\<rparr>)"

definition or_not_found ::
  "'j approval_row option \<times> 'j store \<Rightarrow> (db_error + 'j approval_row) \<times> 'j store" where
  "or_not_found p = (case p of (None, d) \<Rightarrow> (Inl Not_found, d) | (Some q, d) \<Rightarrow> (Inr q, d))"

definition claim_if_pending_in_tx :: "string \<Rightarrow> ('j, 'j approval_row) db_op" where
  "claim_if_pending_in_tx i =
     statement (\<lambda>now d. or_not_found
       (update_approval (\<lambda>q. aq_id q = i \<and> aq_state q = ''Pending'')
          (\<lambda>q. q\<lparr>aq_state := ''Claimed''\<rparr>) d))"

definition set_state_in_tx :: "string \<Rightarrow> string \<Rightarrow> string \<Rightarrow> ('j, 'j approval_row) db_op" where
  "set_state_in_tx i sid st =
     statement (\<lambda>now d. or_not_found
       (update_approval (\<lambda>q. aq_id q = i \<and> aq_session q = sid \<and> open_state (aq_state q))
          (\<lambda>q. q\<lparr>aq_state := st\<rparr>) d))"

definition resolve_in_tx :: "string \<Rightarrow> string \<Rightarrow> string \<Rightarrow> string \<Rightarrow> ('j, 'j approval_row) db_op" where
  "resolve_in_tx i sid st by_actor =
     statement (\<lambda>now d. or_not_found
       (update_approval (\<lambda>q. aq_id q = i \<and> aq_session q = sid \<and> open_state (aq_state q))
          (\<lambda>q. q\<lparr>aq_state := st, aq_resolved_by := Some by_actor, aq_resolved_at := Some now\<rparr>) d))"

definition resolve_if_pending_in_tx ::
  "string \<Rightarrow> string \<Rightarrow> string \<Rightarrow> ('j, 'j approval_row option) db_op" where
  "resolve_if_pending_in_tx i st by_actor =
     statement (\<lambda>now d.
       case update_approval (\<lambda>q. aq_id q = i \<and> aq_state q = ''Pending'')
              (\<lambda>q. q\<lparr>aq_state := st, aq_resolved_by := Some by_actor, aq_resolved_at := Some now\<rparr>) d of
         (hit, d') \<Rightarrow> (Inr hit, d'))"

definition record_vote_in_tx ::
  "string \<Rightarrow> string \<Rightarrow> string \<Rightarrow> string \<Rightarrow> ('j, 'j approval_row) db_op" where
  "record_vote_in_tx i sid voter v =
     statement (\<lambda>now d. or_not_found
       (update_approval (\<lambda>q. aq_id q = i \<and> aq_session q = sid \<and> open_state (aq_state q))
          (\<lambda>q. q\<lparr>aq_votes := AList.update voter v (aq_votes q)\<rparr>) d))"

definition expire_timed_out :: "('j, string list) db_op" where
  "expire_timed_out =
     statement (\<lambda>now d.
       let P = (\<lambda>q. open_state (aq_state q) \<and>
                    (case aq_timeout q of None \<Rightarrow> False | Some t \<Rightarrow> t < now))
       in (Inr (map aq_id (filter P (approval_rows d))),
           d\<lparr>approval_rows := map (\<lambda>q. if P q then q\<lparr>aq_state := ''Expired'', aq_resolved_at := Some now\<rparr>
                                     else q) (approval_rows d)\<rparr>))"

section \<open>The event log\<close>

text \<open>
  What \<open>stamp_append_snapshot\<close> of \<open>ws.rs\<close> does to these tables: a sequence number is allocated and
  the event row takes it. The event and the snapshot row themselves are not kept here.
\<close>

definition alloc_seq :: "string \<Rightarrow> ('j, int) db_op" where
  "alloc_seq sid =
     statement (\<lambda>now d.
       case next_seqs d sid of
         None \<Rightarrow> (Inl Not_found, d)
       | Some n \<Rightarrow> (Inr n, d\<lparr>next_seqs := (next_seqs d)(sid \<mapsto> n + 1)\<rparr>))"

definition append_event :: "string \<Rightarrow> int \<Rightarrow> ('j, unit) db_op" where
  "append_event sid sq =
     statement (\<lambda>now d.
       (Inr (), d\<lparr>event_seqs := (event_seqs d)
          (sid \<mapsto> (case event_seqs d sid of None \<Rightarrow> sq | Some s \<Rightarrow> max s sq))\<rparr>))"

definition stamp_append :: "string \<Rightarrow> ('j, int) db_op" where
  "stamp_append sid =
     db_bind (alloc_seq sid) (\<lambda>sq.
     db_bind (append_event sid sq) (\<lambda>_.
     db_bind (statement (\<lambda>now d. (Inr (), d))) (\<lambda>_. db_return sq)))"

section \<open>Memberships and descriptors\<close>

definition require_membership :: "string \<Rightarrow> string \<Rightarrow> member_role \<Rightarrow> ('j, string) db_op" where
  "require_membership sid actor min_role =
     db_bind
       (statement (\<lambda>now d.
          (case find (\<lambda>(s, a, r). s = sid \<and> a = actor) (memberships d) of
             None \<Rightarrow> Inl Not_found | Some (s, a, r) \<Rightarrow> Inr r, d)))
       (\<lambda>role. case role_from_str role of
          None \<Rightarrow> db_fail Unauthorized
        | Some r \<Rightarrow> if satisfies r min_role then db_return role else db_fail Unauthorized)"

definition grant_descriptor :: "string \<Rightarrow> string \<Rightarrow> ('j, descriptor_row) db_op" where
  "grant_descriptor actor uri X d0 =
     statement (\<lambda>now d.
       let used = map ds_index (filter (\<lambda>r. ds_actor r = actor) (descriptors d));
           row = \<lparr>ds_id = ulid X (statements d0), ds_actor = actor,
                  ds_index = (if used = [] then 0 else Max (set used)) + 1,
                  ds_uri = uri, ds_granted = now\<rparr>
       in (Inr row, d\<lparr>descriptors := descriptors d @ [row]\<rparr>)) X d0"

definition resolve_descriptor :: "string \<Rightarrow> int \<Rightarrow> ('j, descriptor_row) db_op" where
  "resolve_descriptor actor k =
     db_bind
       (statement (\<lambda>now d.
          (case find (\<lambda>r. ds_actor r = actor \<and> ds_index r = k) (descriptors d) of
             None \<Rightarrow> Inl Not_found | Some r \<Rightarrow> Inr r, d)))
       (\<lambda>row.
          case strip_prefix ''cap/'' (ds_uri row) of
            None \<Rightarrow> db_return row
          | Some cap \<Rightarrow>
              db_bind (statement (\<lambda>now d. (Inr (map_option (unexpired_token now) (find_token d cap)), d)))
                (\<lambda>live. if live = Some True then db_return row else db_fail Not_found))"

definition delete_for_caps :: "string list \<Rightarrow> ('j, nat) db_op" where
  "delete_for_caps caps =
     (if caps = [] then db_return 0
      else statement (\<lambda>now d.
        let gone = (\<lambda>r. ds_uri r \<in> (\<lambda>c. ''cap/'' @ c) ` set caps)
        in (Inr (length (filter gone (descriptors d))),
            d\<lparr>descriptors := filter (\<lambda>r. \<not> gone r) (descriptors d)\<rparr>)))"

definition list_for_actor :: "string \<Rightarrow> ('j, descriptor_row list) db_op" where
  "list_for_actor actor =
     statement (\<lambda>now d. (Inr (sort_key ds_index (filter (\<lambda>r. ds_actor r = actor) (descriptors d))), d))"

end
