(* ===== verification/Authority_Arena.thy ===== *)
theory Authority_Arena
  imports Broker_Store
begin

text \<open>
  Handles on the authority of a session (\<open>crates/db/src/authority_arena.rs\<close>) and the import of
  capabilities written in the authority DSL (\<open>crates/db/src/authority_import.rs\<close>). An
  \<open>arena\<close> caches the epoch it was opened in; an \<open>authority\<close> is a handle on one capability.
\<close>

record arena =
  ar_session :: string
  ar_epoch :: int

record authority =
  au_session :: string
  au_id :: string
  au_epoch :: int
  au_stratum :: int
  au_perms :: "string list"
  au_expires :: datetime

record transfer_receipt =
  tr_old_root :: string
  tr_new_root :: string
  tr_new_actor :: string
  tr_rerooted :: nat
  tr_at :: datetime

record revocation_receipt =
  rr_closed :: int
  rr_new :: int
  rr_count :: nat
  rr_drain_seq :: int
  rr_deadline :: datetime

definition authority_of :: "'j pg \<Rightarrow> 'j token_row \<Rightarrow> authority" where
  "authority_of X t =
     \<lparr>au_session = tk_session t, au_id = tk_id t, au_epoch = tk_epoch t, au_stratum = tk_stratum t,
      au_perms = parse_permissions X t, au_expires = tk_expires t\<rparr>"

definition for_session :: "string \<Rightarrow> ('j, arena) db_op" where
  "for_session sid =
     db_bind (read_epoch sid) (\<lambda>e. db_return \<lparr>ar_session = sid, ar_epoch = e\<rparr>)"

definition alloc :: "arena \<Rightarrow> string \<Rightarrow> string list \<Rightarrow> int \<Rightarrow> ('j, authority) db_op" where
  "alloc ar actor perms ttl =
     with_expiry ttl (\<lambda>i expires.
       db_bind (current_seq (ar_session ar)) (\<lambda>observed.
       db_bind (insert_token i (ar_session ar) actor expires None observed perms) (\<lambda>row X.
         db_return ((authority_of X row)\<lparr>au_session := ar_session ar\<rparr>) X)))"

definition authority_for_cap :: "arena \<Rightarrow> string \<Rightarrow> ('j, authority) db_op" where
  "authority_for_cap ar cap =
     db_bind (get_cap cap) (\<lambda>row X.
       if tk_session row \<noteq> ar_session ar then db_fail Not_found X
       else db_return (authority_of X row) X)"

section \<open>Delegation\<close>

text \<open>The attenuation check: a permission asked for that a restricted parent does not hold.\<close>

definition expanding :: "authority \<Rightarrow> string list \<Rightarrow> string option" where
  "expanding parent perms =
     (if au_perms parent = [] then None else find (\<lambda>p. p \<notin> set (au_perms parent)) perms)"

text \<open>The message quotes the offending permission, which is left out here.\<close>

definition delegate :: "authority \<Rightarrow> string \<Rightarrow> string list \<Rightarrow> int \<Rightarrow> ('j, authority) db_op" where
  "delegate parent grantee perms ttl =
     (case expanding parent perms of
        Some bad \<Rightarrow> db_fail 
          (Db_conflict (''delegation would expand authority: '' @ bad @
             '' not held by parent cap '' @ au_id parent))
      | None \<Rightarrow>
          db_bind (unknown_addresses (au_session parent) perms) (\<lambda>unknown.
            if unknown \<noteq> [] then db_fail (Db_conflict ''delegation references unregistered method address(es)'')
            else
              with_expiry ttl (\<lambda>i expires.
                db_bind (current_seq (au_session parent)) (\<lambda>observed.
                db_bind (insert_token i (au_session parent) grantee expires (Some (au_id parent)) observed perms)
                  (\<lambda>row. db_attempt (grant_descriptor grantee (''cap/'' @ tk_id row)) (\<lambda>_ X.
                     db_return ((authority_of X row)\<lparr>au_session := au_session parent\<rparr>) X))))))"

definition transfer_authority :: "authority \<Rightarrow> string option \<Rightarrow> ('j, nat) db_op" where
  "transfer_authority au new_parent = reroot_caps (au_session au) (au_id au) new_parent"

definition authority_is_live :: "authority \<Rightarrow> ('j, bool) db_op" where
  "authority_is_live au =
     statement (\<lambda>now d.
       (Inr (case find_token d (au_id au) of None \<Rightarrow> False | Some t \<Rightarrow> unexpired_token now t), d))"

section \<open>Revocation\<close>

text \<open>What the three revocations share after their update: the descriptors of the revoked
  capabilities go (a failure is only logged), and the end of the drain window is computed.\<close>

definition drain_deadline :: "u64 \<Rightarrow> ('j, datetime) db_op" where
  "drain_deadline secs X d =
     (case add_secs X (pg_now X (statements d)) (sint secs) of
        None \<Rightarrow> (Inl Panicked, d) | Some t \<Rightarrow> (Inr t, d))"

definition arena_revoke_subtree :: "arena \<Rightarrow> string \<Rightarrow> u64 \<Rightarrow> ('j, revocation_receipt) db_op" where
  "arena_revoke_subtree ar cap drain =
     db_bind (current_seq (ar_session ar)) (\<lambda>dseq.
     db_bind (revoke_cap_subtree cap) (\<lambda>ids.
     db_attempt (delete_for_caps ids) (\<lambda>_.
     db_bind (drain_deadline drain) (\<lambda>deadline.
       db_return \<lparr>rr_closed = ar_epoch ar, rr_new = ar_epoch ar, rr_count = length ids,
                  rr_drain_seq = dseq, rr_deadline = deadline\<rparr>))))"

definition arena_advance ::
  "arena \<Rightarrow> u64 \<Rightarrow> ('j, string list) db_op \<Rightarrow> ('j, arena \<times> revocation_receipt) db_op" where
  "arena_advance ar drain revoke =
     db_bind (current_seq (ar_session ar)) (\<lambda>dseq.
     db_bind revoke (\<lambda>ids.
     db_attempt (delete_for_caps ids) (\<lambda>_.
     db_bind (advance_epoch (ar_session ar)) (\<lambda>new_epoch.
     db_bind (drain_deadline drain) (\<lambda>deadline.
       db_return
         (\<lparr>ar_session = ar_session ar, ar_epoch = new_epoch\<rparr>,
          \<lparr>rr_closed = ar_epoch ar, rr_new = new_epoch, rr_count = length ids,
           rr_drain_seq = dseq, rr_deadline = deadline\<rparr>))))))"

definition arena_revoke_by_stratum ::
  "arena \<Rightarrow> int \<Rightarrow> u64 \<Rightarrow> ('j, arena \<times> revocation_receipt) db_op" where
  "arena_revoke_by_stratum ar threshold drain =
     arena_advance ar drain (revoke_by_stratum (ar_session ar) (ar_epoch ar) threshold)"

definition arena_revoke_epoch :: "arena \<Rightarrow> u64 \<Rightarrow> ('j, arena \<times> revocation_receipt) db_op" where
  "arena_revoke_epoch ar drain = arena_advance ar drain (revoke_epoch (ar_session ar) (ar_epoch ar))"

section \<open>Cooperative transfer\<close>

definition transfer_root ::
  "arena \<Rightarrow> string \<Rightarrow> string \<Rightarrow> int \<Rightarrow> ('j, transfer_receipt option) db_op" where
  "transfer_root ar old_actor new_actor ttl_hours =
     db_bind begin_tx (\<lambda>_.
     db_bind (find_root_cap_in_tx (ar_session ar) old_actor) (\<lambda>found.
       case found of
         None \<Rightarrow> db_return None
       | Some old_root \<Rightarrow>
           db_bind (tx_body (transfer_root_in_tx (ar_session ar) old_root new_actor ttl_hours))
             (\<lambda>(root, k) X d. db_return
                (Some \<lparr>tr_old_root = old_root, tr_new_root = root, tr_new_actor = new_actor,
                       tr_rerooted = k, tr_at = pg_now X (statements d)\<rparr>) X d)))"

text \<open>\<open>sessions::transfer_ownership_in_tx\<close>: the labels of the two members, then the root.\<close>

definition DEFAULT_OWNER_TTL_HOURS :: int where
  "DEFAULT_OWNER_TTL_HOURS = 24"

definition set_role :: "string \<Rightarrow> string \<Rightarrow> string \<Rightarrow> ('j, unit) db_op" where
  "set_role sid actor role =
     statement (\<lambda>now d.
       (Inr (), d\<lparr>memberships :=
          map (\<lambda>(s, a, r). if s = sid \<and> a = actor then (s, a, role) else (s, a, r)) (memberships d)\<rparr>))"

definition transfer_ownership_in_tx :: "string \<Rightarrow> string \<Rightarrow> string \<Rightarrow> ('j, unit) db_op" where
  "transfer_ownership_in_tx sid old_actor new_actor =
     db_bind (set_role sid old_actor ''collaborator'') (\<lambda>_.
     db_bind (set_role sid new_actor ''owner'') (\<lambda>_.
     db_bind (find_root_cap_in_tx sid old_actor) (\<lambda>found.
       case found of
         None \<Rightarrow> db_return ()
       | Some old_root \<Rightarrow>
           db_bind (transfer_root_in_tx sid old_root new_actor DEFAULT_OWNER_TTL_HOURS)
             (\<lambda>_. db_return ()))))"

end
