(* ===== verification/Rate_Limit.thy ===== *)
theory Rate_Limit
  imports Prelude
begin

text \<open>
  Rate limiting: the vocabulary and the fixed-window bucket of
  \<open>crates/session/src/rate_limit.rs\<close>, and the two limiter tiers with their idle sweep of
  \<open>crates/server/src/rate_limit.rs\<close>. An \<open>Instant\<close> and a \<open>Duration\<close> are naturals
  (nanoseconds), on which subtraction saturates as \<open>saturating_duration_since\<close> does.
\<close>

section \<open>Keys and policies\<close>

definition from_secs :: "nat \<Rightarrow> nat" where
  "from_secs s = s * 10 ^ 9"

definition as_secs :: "nat \<Rightarrow> nat" where
  "as_secs d = d div 10 ^ 9"

type_synonym u32 = "32 word"

datatype policy =
    Count u32 nat     \<comment> \<open>max, window\<close>
  | Budget u32 nat    \<comment> \<open>max_units, window\<close>

fun window :: "policy \<Rightarrow> nat" where
  "window (Count _ w) = w"
| "window (Budget _ w) = w"

fun capacity :: "policy \<Rightarrow> u32" where
  "capacity (Count c _) = c"
| "capacity (Budget c _) = c"

definition describe :: "policy \<Rightarrow> string" where
  "describe p = nat_str (unat (capacity p)) @ ''/'' @ nat_str (as_secs (window p)) @ ''s''"

text \<open>The argument is the \<open>actor_id\<close>.\<close>

datatype rate_limit_key =
    MessagePostKey string
  | ContextAddKey string
  | ArtifactCreateKey string
  | ApprovalRequestKey string
  | AgentAttachKey string
  | OwnershipTransferKey
  | ArtifactMutateKey string
  | ApprovalVoteKey string
  | CrossSessionDelegateKey string
  | ManifestPatchKey string
  | SessionLinkMutateKey string
  | SessionRemoteMutateKey string
  | MembershipGrantKey string
  | AuthorityImportKey string
  | AnonymousJoinKey

fun key_label :: "rate_limit_key \<Rightarrow> string" where
  "key_label (MessagePostKey _) = ''MessagePost''"
| "key_label (ContextAddKey _) = ''ContextAdd''"
| "key_label (ArtifactCreateKey _) = ''ArtifactCreate''"
| "key_label (ApprovalRequestKey _) = ''ApprovalRequest''"
| "key_label (AgentAttachKey _) = ''AgentAttach''"
| "key_label OwnershipTransferKey = ''OwnershipTransfer''"
| "key_label (ArtifactMutateKey _) = ''ArtifactMutate''"
| "key_label (ApprovalVoteKey _) = ''ApprovalVote''"
| "key_label (CrossSessionDelegateKey _) = ''CrossSessionDelegate''"
| "key_label (ManifestPatchKey _) = ''ManifestPatch''"
| "key_label (SessionLinkMutateKey _) = ''SessionLinkMutate''"
| "key_label (SessionRemoteMutateKey _) = ''SessionRemoteMutate''"
| "key_label (MembershipGrantKey _) = ''MembershipGrant''"
| "key_label (AuthorityImportKey _) = ''AuthorityImport''"
| "key_label AnonymousJoinKey = ''AnonymousJoin''"

fun default_policy :: "rate_limit_key \<Rightarrow> policy option" where
  "default_policy (MessagePostKey _) = Some (Count 30 (from_secs 60))"
| "default_policy (ContextAddKey _) = Some (Count 20 (from_secs 60))"
| "default_policy (ArtifactCreateKey _) = Some (Count 10 (from_secs 60))"
| "default_policy (ApprovalRequestKey _) = Some (Count 10 (from_secs 60))"
| "default_policy (AgentAttachKey _) = Some (Count 5 (from_secs 3600))"
| "default_policy OwnershipTransferKey = Some (Count 10 (from_secs 3600))"
| "default_policy (ArtifactMutateKey _) = Some (Count 20 (from_secs 60))"
| "default_policy (ApprovalVoteKey _) = Some (Count 20 (from_secs 60))"
| "default_policy (CrossSessionDelegateKey _) = Some (Count 10 (from_secs 3600))"
| "default_policy (ManifestPatchKey _) = Some (Count 60 (from_secs 60))"
| "default_policy (SessionLinkMutateKey _) = Some (Count 20 (from_secs 3600))"
| "default_policy (SessionRemoteMutateKey _) = Some (Count 30 (from_secs 60))"
| "default_policy (MembershipGrantKey _) = Some (Count 10 (from_secs 3600))"
| "default_policy (AuthorityImportKey _) = Some (Count 10 (from_secs 3600))"
| "default_policy AnonymousJoinKey = Some (Count 20 (from_secs 3600))"

datatype global_key =
    ActorCreateKey string string        \<comment> \<open>sub, provider\<close>
  | SessionCreateKey string             \<comment> \<open>actor_id\<close>
  | OidcAttemptKey string               \<comment> \<open>ip\<close>
  | InviteRedeemAttemptKey string       \<comment> \<open>actor_id\<close>

fun global_label :: "global_key \<Rightarrow> string" where
  "global_label (ActorCreateKey _ _) = ''ActorCreate''"
| "global_label (SessionCreateKey _) = ''SessionCreate''"
| "global_label (OidcAttemptKey _) = ''OidcAttempt''"
| "global_label (InviteRedeemAttemptKey _) = ''InviteRedeemAttempt''"

fun global_policy :: "global_key \<Rightarrow> policy option" where
  "global_policy (ActorCreateKey _ _) = Some (Count 3 (from_secs 3600))"
| "global_policy (SessionCreateKey _) = Some (Count 20 (from_secs 3600))"
| "global_policy (OidcAttemptKey _) = Some (Count 20 (from_secs 60))"
| "global_policy (InviteRedeemAttemptKey _) = Some (Count 10 (from_secs 60))"

section \<open>The bucket\<close>

datatype admission = Allowed | RateDenied nat   \<comment> \<open>retry_after\<close>

record bucket =
  bk_count :: u32
  window_started_at :: nat

definition fresh_bucket :: "nat \<Rightarrow> bucket" where
  "fresh_bucket now = \<lparr>bk_count = 0, window_started_at = now\<rparr>"

definition check_and_consume :: "policy \<Rightarrow> nat \<Rightarrow> bucket \<Rightarrow> bucket \<times> admission" where
  "check_and_consume p now b =
     (let elapsed = now - window_started_at b;
          b1 = (if window p \<le> elapsed then b\<lparr>bk_count := 0, window_started_at := now\<rparr> else b)
      in if bk_count b1 < capacity p
         then (b1\<lparr>bk_count := bk_count b1 + 1\<rparr>, Allowed)
         else (b1, RateDenied (window p - elapsed)))"

definition is_idle :: "nat \<Rightarrow> nat \<Rightarrow> bucket \<Rightarrow> bool" where
  "is_idle now idle_for b \<longleftrightarrow> idle_for \<le> now - window_started_at b"

section \<open>The limiters\<close>

type_synonym 'k buckets = "'k \<rightharpoonup> bucket"

text \<open>
  The two tiers run the same code over different keys: \<open>check\<close> of \<open>GlobalLimiter\<close> and of
  \<open>SessionRateLimiter\<close>.
\<close>

definition limiter_check ::
  "policy option \<Rightarrow> 'k \<Rightarrow> nat \<Rightarrow> 'k buckets \<Rightarrow> 'k buckets \<times> admission \<times> policy option" where
  "limiter_check pol k now m =
     (case pol of
        None \<Rightarrow> (m, Allowed, None)
      | Some p \<Rightarrow>
          let b = (case m k of None \<Rightarrow> fresh_bucket now | Some b \<Rightarrow> b);
              (b', a) = check_and_consume p now b
          in (m(k \<mapsto> b'), a, Some p))"

definition sweep_idle :: "nat \<Rightarrow> nat \<Rightarrow> 'k buckets \<Rightarrow> 'k buckets" where
  "sweep_idle now idle_for m =
     (\<lambda>k. case m k of None \<Rightarrow> None | Some b \<Rightarrow> if is_idle now idle_for b then None else Some b)"

definition global_check ::
  "global_key \<Rightarrow> nat \<Rightarrow> global_key buckets \<Rightarrow> global_key buckets \<times> admission \<times> policy option" where
  "global_check k = limiter_check (global_policy k) k"

definition session_check ::
  "string \<Rightarrow> rate_limit_key \<Rightarrow> nat \<Rightarrow> (string \<times> rate_limit_key) buckets
   \<Rightarrow> (string \<times> rate_limit_key) buckets \<times> admission \<times> policy option" where
  "session_check sid k = limiter_check (default_policy k) (sid, k)"

definition IDLE_BUCKET_TTL :: nat where
  "IDLE_BUCKET_TTL = from_secs (2 * 3600)"

text \<open>One tick of the periodic sweep.\<close>

definition sweep_rate_limits ::
  "nat \<Rightarrow> global_key buckets \<times> (string \<times> rate_limit_key) buckets
   \<Rightarrow> global_key buckets \<times> (string \<times> rate_limit_key) buckets" where
  "sweep_rate_limits now st =
     (sweep_idle now IDLE_BUCKET_TTL (fst st), sweep_idle now IDLE_BUCKET_TTL (snd st))"

section \<open>Sequences of checks on one bucket\<close>

fun admitted :: "policy \<Rightarrow> nat list \<Rightarrow> bucket \<Rightarrow> nat" where
  "admitted p [] b = 0"
| "admitted p (t # ts) b =
     (case check_and_consume p t b of
        (b', Allowed) \<Rightarrow> Suc (admitted p ts b')
      | (b', RateDenied _) \<Rightarrow> admitted p ts b')"

lemma word_suc_below: "c < d \<Longrightarrow> unat (c + 1 :: u32) = Suc (unat c)"
  using unsigned_less [of d, where ?'a = nat] by (simp add: word_less_nat_alt unat_word_ariths)

text \<open>Inside one window no more than the rest of the quota is admitted.\<close>

lemma admitted_in_window:
  "\<forall>t \<in> set ts. t - window_started_at b < window p \<Longrightarrow> bk_count b \<le> capacity p \<Longrightarrow>
   admitted p ts b + unat (bk_count b) \<le> unat (capacity p)"
proof (induction ts arbitrary: b)
  case Nil
  then show ?case by (simp add: word_le_nat_alt)
next
  case (Cons t ts)
  show ?case
  proof (cases "bk_count b < capacity p")
    case True
    then have "bk_count b + 1 \<le> capacity p" and "unat (bk_count b + 1) = Suc (unat (bk_count b))"
      using word_suc_below [OF True] by (simp_all add: word_le_nat_alt word_less_nat_alt)
    then show ?thesis
      using Cons.prems True Cons.IH [of "b\<lparr>bk_count := bk_count b + 1\<rparr>"]
      by (auto simp: check_and_consume_def Let_def)
  next
    case False
    then show ?thesis
      using Cons.prems Cons.IH [of b] by (auto simp: check_and_consume_def Let_def)
  qed
qed


lemma admitted_twice:
  "sorted ts \<Longrightarrow> \<forall>t \<in> set ts. a \<le> t \<and> t < a + window p \<Longrightarrow> bk_count b \<le> capacity p \<Longrightarrow>
   admitted p ts b + unat (bk_count b) \<le> 2 * unat (capacity p)"
proof (induction ts arbitrary: b)
  case Nil
  then show ?case by (simp add: word_le_nat_alt)
next
  case (Cons t ts)
  show ?case
  proof (cases "window p \<le> t - window_started_at b")
    case True
    then have "admitted p (t # ts) b = admitted p (t # ts) (fresh_bucket t)"
      by (cases b) (simp add: check_and_consume_def Let_def fresh_bucket_def)
    moreover have "\<forall>u \<in> set (t # ts). u - window_started_at (fresh_bucket t) < window p"
      using Cons.prems(1,2) by (auto simp: fresh_bucket_def)
    then have "admitted p (t # ts) (fresh_bucket t) \<le> unat (capacity p)"
      using admitted_in_window [of "t # ts" "fresh_bucket t" p] by (simp add: fresh_bucket_def)
    ultimately show ?thesis
      using Cons.prems(3) by (simp add: word_le_nat_alt)
  next
    case same: False
    show ?thesis
    proof (cases "bk_count b < capacity p")
      case True
      then have "bk_count b + 1 \<le> capacity p" and "unat (bk_count b + 1) = Suc (unat (bk_count b))"
        using word_suc_below [OF True] by (simp_all add: word_le_nat_alt word_less_nat_alt)
      then show ?thesis
        using Cons.prems True same Cons.IH [of "b\<lparr>bk_count := bk_count b + 1\<rparr>"]
        by (auto simp: check_and_consume_def Let_def)
    next
      case False
      then show ?thesis
        using Cons.prems same Cons.IH [of b] by (auto simp: check_and_consume_def Let_def)
    qed
  qed
qed

lemma idle_like_fresh:
  assumes "is_idle now idle_for b" and "window p \<le> idle_for" and "now \<le> later"
    and "0 < capacity p"
  shows "check_and_consume p later b = check_and_consume p later (fresh_bucket later)"
  using assms by (auto simp: is_idle_def check_and_consume_def fresh_bucket_def Let_def)

text \<open>Every policy in use has a quota and fits into the idle time of the sweep.\<close>

definition sweepable :: "policy \<Rightarrow> bool" where
  "sweepable p \<longleftrightarrow> window p \<le> IDLE_BUCKET_TTL \<and> 0 < capacity p"

lemma default_policy_sweepable: "default_policy k = Some p \<Longrightarrow> sweepable p"
  by (cases k) (auto simp: sweepable_def IDLE_BUCKET_TTL_def from_secs_def)

lemma global_policy_sweepable: "global_policy k = Some p \<Longrightarrow> sweepable p"
  by (cases k) (auto simp: sweepable_def IDLE_BUCKET_TTL_def from_secs_def)

lemma limiter_check_after_sweep:
  assumes "\<And>p. pol = Some p \<Longrightarrow> window p \<le> idle_for \<and> 0 < capacity p" and "now \<le> later"
  shows "snd (limiter_check pol k later (sweep_idle now idle_for m)) = snd (limiter_check pol k later m)
    \<and> fst (limiter_check pol k later (sweep_idle now idle_for m)) k =
        (if pol = None then sweep_idle now idle_for m k else fst (limiter_check pol k later m) k)"
  using assms idle_like_fresh [of now idle_for _ _ later]
  by (auto simp: limiter_check_def sweep_idle_def Let_def split_def split: option.splits)

end
