(* ===== verification/Tool_Policy.thy ===== *)
theory Tool_Policy
  imports Rate_Limit
begin

text \<open>
  Who may call a tool without asking: the standing policies of a session and the invocation quota
  (\<open>crates/server/src/state.rs\<close>, \<open>routes/approval_policies.rs\<close>, the policy loop of
  \<open>routes/invoke.rs\<close>), and the policy of the shim, which decides on its own for calls that do not
  go through the server (\<open>crates/shim/src/policy.rs\<close>).
\<close>

section \<open>Patterns\<close>

definition star :: char where
  "star = CHR ''*''"

definition ends_with_star :: "string \<Rightarrow> bool" where
  "ends_with_star p \<longleftrightarrow> p \<noteq> [] \<and> List.last p = star"

text \<open>\<open>p.trim_end_matches('*')\<close>.\<close>

definition trim_stars :: "string \<Rightarrow> string" where
  "trim_stars p = rev (dropWhile (\<lambda>c. c = star) (rev p))"

section \<open>Standing policies of the server\<close>

datatype policy_decision = AutoApprove | AlwaysDeny

record standing_policy =
  sp_id :: string
  sp_actor :: "string option"
  sp_pattern :: string
  sp_decision :: policy_decision

text \<open>\<open>&p[..p.len() - 1]\<close> drops the star, whose encoding is one byte.\<close>

definition method_matches :: "string \<Rightarrow> string \<Rightarrow> bool" where
  "method_matches p m \<longleftrightarrow>
     p = [star] \<or> p = m \<or> (ends_with_star p \<and> starts_with (butlast p) m)"

definition actor_matches :: "string option \<Rightarrow> string \<Rightarrow> bool" where
  "actor_matches who actor \<longleftrightarrow> (case who of None \<Rightarrow> True | Some a \<Rightarrow> a = actor)"

fun standing_decision :: "standing_policy list \<Rightarrow> string \<Rightarrow> string \<Rightarrow> policy_decision option" where
  "standing_decision [] actor m = None"
| "standing_decision (p # ps) actor m =
     (if actor_matches (sp_actor p) actor \<and> method_matches (sp_pattern p) m then Some (sp_decision p)
      else standing_decision ps actor m)"

definition decision_from_str :: "string \<Rightarrow> policy_decision option" where
  "decision_from_str s =
     (if s = ''auto_approve'' then Some AutoApprove
      else if s = ''always_deny'' then Some AlwaysDeny else None)"

definition decision_to_str :: "policy_decision \<Rightarrow> string" where
  "decision_to_str d = (case d of AutoApprove \<Rightarrow> ''auto_approve'' | AlwaysDeny \<Rightarrow> ''always_deny'')"

text \<open>The map of a session's policies; the replies are the status codes.\<close>

type_synonym policy_table = "string \<rightharpoonup> standing_policy list"

definition create_policy ::
  "string \<Rightarrow> string \<Rightarrow> string option \<Rightarrow> string \<Rightarrow> string \<Rightarrow> policy_table \<Rightarrow> nat \<times> policy_table" where
  "create_policy sid new_id actor pattern decision ps =
     (case decision_from_str decision of
        None \<Rightarrow> (422, ps)
      | Some d \<Rightarrow>
          (201, ps(sid \<mapsto> (case ps sid of None \<Rightarrow> [] | Some l \<Rightarrow> l) @
             [\<lparr>sp_id = new_id, sp_actor = actor, sp_pattern = pattern, sp_decision = d\<rparr>])))"

definition remove_policy :: "string \<Rightarrow> string \<Rightarrow> policy_table \<Rightarrow> nat \<times> policy_table" where
  "remove_policy sid pid ps =
     (case ps sid of
        None \<Rightarrow> (404, ps)
      | Some l \<Rightarrow>
          let kept = filter (\<lambda>p. sp_id p \<noteq> pid) l
          in ((if length kept < length l then 204 else 404), ps(sid \<mapsto> kept)))"

section \<open>The shim's policy\<close>

record server_policy =
  sv_actor :: "string option"
  sv_pattern :: string
  sv_decision :: string

record policy_data =
  auto_approve :: "string set"
  always_require :: "string set"
  require_prefixes :: "string list"
  default_timeout_secs :: nat
  server_policies :: "server_policy list"

definition default_policy_data :: policy_data where
  "default_policy_data =
     \<lparr>auto_approve = {}, always_require = {}, require_prefixes = [], default_timeout_secs = 300,
      server_policies = []\<rparr>"

fun prefix_required :: "string list \<Rightarrow> string \<Rightarrow> bool option" where
  "prefix_required [] tool_name = None"
| "prefix_required (p # ps) tool_name =
     (if starts_with (trim_stars p) tool_name then Some True else prefix_required ps tool_name)"

definition local_requires_approval :: "policy_data \<Rightarrow> string \<Rightarrow> bool" where
  "local_requires_approval P tool_name =
     (if tool_name \<in> auto_approve P then False
      else if tool_name \<in> always_require P then True
      else case prefix_required (require_prefixes P) tool_name of Some b \<Rightarrow> b | None \<Rightarrow> True)"

definition shim_matches :: "string \<Rightarrow> string \<Rightarrow> bool" where
  "shim_matches p m \<longleftrightarrow>
     p = [star] \<or> p = m \<or> (ends_with_star p \<and> starts_with (trim_stars p) m)"

fun server_requires_approval :: "server_policy list \<Rightarrow> string \<Rightarrow> string \<Rightarrow> bool option" where
  "server_requires_approval [] actor m = None"
| "server_requires_approval (p # ps) actor m =
     (if actor_matches (sv_actor p) actor \<and> shim_matches (sv_pattern p) m
      then Some (sv_decision p \<noteq> ''auto_approve'')
      else server_requires_approval ps actor m)"

definition requires_approval :: "policy_data \<Rightarrow> string \<Rightarrow> string \<Rightarrow> bool" where
  "requires_approval P actor m =
     (case server_requires_approval (server_policies P) actor m of
        Some b \<Rightarrow> b
      | None \<Rightarrow> local_requires_approval P m)"

text \<open>What the shim reads from the server's list of policies.\<close>

definition as_server_policy :: "standing_policy \<Rightarrow> server_policy" where
  "as_server_policy p =
     \<lparr>sv_actor = sp_actor p, sv_pattern = sp_pattern p, sv_decision = decision_to_str (sp_decision p)\<rparr>"

section \<open>The quota of invocations\<close>

record rate_bucket =
  rb_count :: u32
  rb_window_start :: nat

definition fresh_rate_bucket :: "nat \<Rightarrow> rate_bucket" where
  "fresh_rate_bucket now = \<lparr>rb_count = 0, rb_window_start = now\<rparr>"

text \<open>The clock is read for \<open>elapsed()\<close> and again when the window starts anew.\<close>

definition check_and_increment :: "u32 \<Rightarrow> nat \<Rightarrow> nat \<Rightarrow> rate_bucket \<Rightarrow> rate_bucket \<times> bool" where
  "check_and_increment max_per_minute now again b =
     (let b1 = (if 60 \<le> as_secs (now - rb_window_start b)
                then \<lparr>rb_count = 0, rb_window_start = again\<rparr> else b)
      in if max_per_minute \<le> rb_count b1 then (b1, False)
         else (b1\<lparr>rb_count := rb_count b1 + 1\<rparr>, True))"

section \<open>The two policies agree\<close>

text \<open>A pattern with a single star at the end is read the same way by the server and by the shim.\<close>

definition plain_pattern :: "string \<Rightarrow> bool" where
  "plain_pattern p \<longleftrightarrow> \<not> (ends_with_star p \<and> ends_with_star (butlast p))"

lemma trim_stars_plain:
  assumes "plain_pattern p" and "ends_with_star p"
  shows "trim_stars p = butlast p"
proof -
  obtain q where p: "p = q @ [star]"
    using assms(2) by (metis append_butlast_last_id ends_with_star_def)
  have "\<not> ends_with_star q" using assms by (simp add: plain_pattern_def p)
  then have "dropWhile (\<lambda>c. c = star) (rev q) = rev q"
    by (cases q rule: rev_cases) (auto simp: ends_with_star_def)
  then show ?thesis by (simp add: trim_stars_def p)
qed

lemma matches_agree: "plain_pattern p \<Longrightarrow> shim_matches p m \<longleftrightarrow> method_matches p m"
  using trim_stars_plain by (auto simp: shim_matches_def method_matches_def)

lemma decision_round_trip: "decision_from_str (decision_to_str d) = Some d"
  by (cases d) (simp_all add: decision_from_str_def decision_to_str_def)

lemma decision_str_auto: "decision_to_str d = ''auto_approve'' \<longleftrightarrow> d = AutoApprove"
  by (cases d) (simp_all add: decision_to_str_def)

lemma server_requires_standing:
  assumes "\<forall>p \<in> set ps. plain_pattern (sp_pattern p)"
  shows "server_requires_approval (map as_server_policy ps) actor m =
    map_option (\<lambda>d. d \<noteq> AutoApprove) (standing_decision ps actor m)"
  using assms
  by (induction ps) (auto simp: as_server_policy_def matches_agree decision_str_auto)

text \<open>Without a policy of the server the shim asks for everything that is not on its list.\<close>

lemma local_asks: "local_requires_approval P m \<longleftrightarrow> m \<notin> auto_approve P"
proof -
  have "prefix_required ps m \<in> {None, Some True}" for ps by (induction ps) auto
  from this [of "require_prefixes P"] show ?thesis
    by (auto simp: local_requires_approval_def)
qed

lemma butlast_prefix_trim: "starts_with (butlast p) m \<Longrightarrow> ends_with_star p \<Longrightarrow> starts_with (trim_stars p) m"
proof -
  assume a: "starts_with (butlast p) m" and e: "ends_with_star p"
  obtain q where p: "p = q @ [star]"
    using e by (metis append_butlast_last_id ends_with_star_def)
  have "q = rev (dropWhile (\<lambda>c. c = star) (rev q)) @ rev (takeWhile (\<lambda>c. c = star) (rev q))"
    by (metis rev_append rev_rev_ident takeWhile_dropWhile_id)
  then obtain z where z: "q = trim_stars p @ z"
    by (simp add: trim_stars_def p)
  obtain y where "m = q @ y"
    using a by (metis append_take_drop_id butlast_snoc p starts_with_def)
  then show ?thesis using z by simp
qed

lemma server_match_shim: "method_matches p m \<Longrightarrow> shim_matches p m"
  using butlast_prefix_trim by (auto simp: method_matches_def shim_matches_def)

section \<open>The invocation bucket is a fixed window\<close>

definition as_bucket :: "rate_bucket \<Rightarrow> bucket" where
  "as_bucket b = \<lparr>bk_count = rb_count b, window_started_at = rb_window_start b\<rparr>"

lemma minute_elapsed: "60 \<le> as_secs n \<longleftrightarrow> from_secs 60 \<le> n"
  by (simp add: as_secs_def from_secs_def less_eq_div_iff_mult_less_eq)

lemma rate_bucket_refines:
  "(case check_and_increment c now now b of (b', ok) \<Rightarrow>
     check_and_consume (Count c (from_secs 60)) now (as_bucket b) =
       (as_bucket b', if ok then Allowed else RateDenied (from_secs 60 - (now - rb_window_start b))))"
  by (auto simp: check_and_increment_def check_and_consume_def as_bucket_def minute_elapsed Let_def
      linorder_not_le)

end
