(* ===== verification/Invoke.thy ===== *)
theory Invoke
  imports Authority_Arena Tool_Policy
begin

text \<open>
  The trust boundary for tool calls: \<open>POST invoke\<close> and \<open>POST consume-receipt\<close>
  (\<open>crates/server/src/routes/invoke.rs\<close>), the creation of the approval request that an invocation
  waits for (\<open>create_approval_for_session\<close> of \<open>ws.rs\<close>), and \<open>POST epoch/revoke\<close>
  (\<open>routes/epoch.rs\<close>) with the fence it puts up in the hub (\<open>state.rs\<close>).
\<close>

section \<open>Replies\<close>

datatype reply_error = Status nat | Internal db_error

text \<open>
  What a handler does with an error it has no answer for: a 500, unless the task died or waits for
  ever.
\<close>

definition internal :: "(reply_error \<Rightarrow> 'r) \<Rightarrow> db_error \<Rightarrow> ('j, 'r) db_op" where
  "internal f e = (if e = Panicked \<or> e = Hung then db_fail e else db_return (f (Internal e)))"

section \<open>Invocation\<close>

record 'j invoke_body =
  ib_cap :: string
  ib_method :: string
  ib_args :: 'j
  ib_timeout_secs :: u64

datatype invoke_reply =
    Invoke_refused reply_error
  | Invoke_approved string bool       \<comment> \<open>receipt, by a standing policy\<close>
  | Invoke_pending string string      \<comment> \<open>approval, receipt\<close>

definition AUTO_APPROVE_RECEIPT_TTL_SECS :: int where "AUTO_APPROVE_RECEIPT_TTL_SECS = 30"
definition PENDING_RECEIPT_TTL_SECS :: int where "PENDING_RECEIPT_TTL_SECS = 240"
definition RECEIPT_GRACE_SECS :: int where "RECEIPT_GRACE_SECS = 60"
definition MAX_APPROVAL_WAIT_SECS :: u64 where "MAX_APPROVAL_WAIT_SECS = 24 * 60 * 60"

definition pending_ttl :: "u64 \<Rightarrow> int" where
  "pending_ttl timeout =
     max PENDING_RECEIPT_TTL_SECS (sint (min timeout MAX_APPROVAL_WAIT_SECS) + RECEIPT_GRACE_SECS)"

text \<open>
  The request row and its event, in one transaction; the snapshot that is read before it and the
  broadcast after it are not part of these tables.
\<close>

definition create_approval ::
  "string \<Rightarrow> string \<Rightarrow> string \<Rightarrow> 'j \<Rightarrow> u64 \<Rightarrow> ('j, (string \<times> datetime) option) db_op" where
  "create_approval sid actor tool_name args timeout =
     with_expiry (sint timeout) (\<lambda>i expires.
       db_attempt
         (transaction
           (db_bind (insert_approval i sid actor tool_name args (Some expires)) (\<lambda>_. stamp_append sid)))
         (\<lambda>r. case r of Inl _ \<Rightarrow> db_return None | Inr _ \<Rightarrow> db_return (Some (i, expires))))"

definition issue_or_500 ::
  "string \<Rightarrow> 'j invoke_body \<Rightarrow> int \<Rightarrow> string option \<Rightarrow> (string \<Rightarrow> invoke_reply) \<Rightarrow> ('j, invoke_reply) db_op" where
  "issue_or_500 sid body ttl approval ok =
     db_attempt (issue_receipt (ib_cap body) sid (ib_method body) (ib_args body) ttl approval)
       (\<lambda>r. case r of Inl e \<Rightarrow> internal Invoke_refused e | Inr row \<Rightarrow> db_return (ok (rx_id row)))"

text \<open>The approval gate, for a capability and a method that have passed the checks.\<close>

definition approval_gate ::
  "string \<Rightarrow> 'j invoke_body \<Rightarrow> 'j token_row \<Rightarrow> 'j method_row \<Rightarrow> ('j, invoke_reply) db_op" where
  "approval_gate sid body cap m =
     (if \<not> mt_requires_approval m
      then issue_or_500 sid body AUTO_APPROVE_RECEIPT_TTL_SECS None (\<lambda>i. Invoke_approved i False)
      else
        db_bind (create_approval sid (tk_actor cap) (mt_name m) (ib_args body) (ib_timeout_secs body))
          (\<lambda>made. case made of
             None \<Rightarrow> db_return (Invoke_refused (Status 500))
           | Some (approval, _) \<Rightarrow>
               issue_or_500 sid body (pending_ttl (ib_timeout_secs body)) (Some approval)
                 (\<lambda>i. Invoke_pending approval i)))"

definition policy_gate ::
  "standing_policy list \<Rightarrow> string \<Rightarrow> 'j invoke_body \<Rightarrow> 'j token_row \<Rightarrow> 'j method_row
   \<Rightarrow> ('j, invoke_reply) db_op" where
  "policy_gate policies sid body cap m =
     (case standing_decision policies (tk_actor cap) (ib_method body) of
        Some AutoApprove \<Rightarrow>
          issue_or_500 sid body AUTO_APPROVE_RECEIPT_TTL_SECS None (\<lambda>i. Invoke_approved i True)
      | Some AlwaysDeny \<Rightarrow> db_return (Invoke_refused (Status 403))
      | None \<Rightarrow> approval_gate sid body cap m)"

definition permitted :: "string list \<Rightarrow> string \<Rightarrow> bool" where
  "permitted perms m \<longleftrightarrow> perms = [] \<or> m \<in> set perms"

definition method_gate ::
  "standing_policy list \<Rightarrow> string \<Rightarrow> 'j invoke_body \<Rightarrow> 'j token_row \<Rightarrow> ('j, invoke_reply) db_op" where
  "method_gate policies sid body cap =
     db_attempt (get_by_address sid (ib_method body)) (\<lambda>r X.
       case r of
         Inl e \<Rightarrow> internal Invoke_refused e X
       | Inr None \<Rightarrow> db_return (Invoke_refused (Status 404)) X
       | Inr (Some m) \<Rightarrow>
           if \<not> permitted (parse_permissions X cap) (ib_method body)
           then db_return (Invoke_refused (Status 403)) X
           else policy_gate policies sid body cap m X)"

definition cap_gate ::
  "standing_policy list \<Rightarrow> string \<Rightarrow> 'j invoke_body \<Rightarrow> ('j, invoke_reply) db_op" where
  "cap_gate policies sid body =
     db_attempt (get_cap (ib_cap body)) (\<lambda>r X d.
       case r of
         Inl Not_found \<Rightarrow> db_return (Invoke_refused (Status 401)) X d
       | Inl e \<Rightarrow> internal Invoke_refused e X d
       | Inr cap \<Rightarrow>
           if tk_session cap \<noteq> sid then db_return (Invoke_refused (Status 403)) X d
           else if tk_expires cap < pg_now X (statements d) then db_return (Invoke_refused (Status 410)) X d
           else if tk_revoked cap \<noteq> None then db_return (Invoke_refused (Status 410)) X d
           else db_attempt (read_epoch sid) (\<lambda>q.
             case q of
               Inl e \<Rightarrow> internal Invoke_refused e
             | Inr ep \<Rightarrow>
                 if tk_epoch cap \<noteq> ep then db_return (Invoke_refused (Status 410))
                 else method_gate policies sid body cap) X d)"

text \<open>The state of the handlers: the tables, the quota of each capability, the standing policies.\<close>

record 'j broker =
  br_store :: "'j store"
  br_buckets :: "string \<rightharpoonup> rate_bucket"
  br_policies :: policy_table

definition policies_of :: "'j broker \<Rightarrow> string \<Rightarrow> standing_policy list" where
  "policies_of b sid = (case br_policies b sid of None \<Rightarrow> [] | Some ps \<Rightarrow> ps)"

definition invoke ::
  "'j pg \<Rightarrow> nat \<Rightarrow> nat \<Rightarrow> string \<Rightarrow> 'j invoke_body \<Rightarrow> 'j broker \<Rightarrow> (db_error + invoke_reply) \<times> 'j broker" where
  "invoke X now again sid body b =
     (let bucket = (case br_buckets b (ib_cap body) of None \<Rightarrow> fresh_rate_bucket now | Some k \<Rightarrow> k)
      in case check_and_increment 60 now again bucket of
           (bucket', ok) \<Rightarrow>
             let b1 = b\<lparr>br_buckets := (br_buckets b)(ib_cap body \<mapsto> bucket')\<rparr>
             in if \<not> ok then (Inr (Invoke_refused (Status 429)), b1)
                else case cap_gate (policies_of b1 sid) sid body X (br_store b1) of
                       (r, d) \<Rightarrow> (r, b1\<lparr>br_store := d\<rparr>))"

section \<open>Consuming a receipt\<close>

datatype 'j consume_reply =
    Consume_refused reply_error
  | Consume_ok string string string 'j "string option"   \<comment> \<open>receipt, capability, method, arguments, approval\<close>

definition consume :: "string \<Rightarrow> string \<Rightarrow> ('j, 'j consume_reply) db_op" where
  "consume sid i =
     db_attempt (consume_receipt sid i) (\<lambda>r.
       case r of
         Inl Not_found \<Rightarrow> db_return (Consume_refused (Status 410))
       | Inl e \<Rightarrow> internal Consume_refused e
       | Inr row \<Rightarrow>
           db_return (Consume_ok (rx_id row) (rx_cap row) (rx_method row) (rx_args row) (rx_approval row)))"

section \<open>Revocation by epoch\<close>

record revoke_body =
  vb_by :: string
  vb_strategy :: string
  vb_target_cap :: "string option"
  vb_target_stratum :: "int option"
  vb_drain_secs :: u64
  vb_reroot :: bool

datatype revoke_reply =
    Revoke_refused reply_error
  | Revoke_ok int int nat int datetime   \<comment> \<open>new epoch, closed epoch, count, drain seq, deadline\<close>

text \<open>The strategy is known and has its target.\<close>

definition valid_strategy :: "revoke_body \<Rightarrow> bool" where
  "valid_strategy v \<longleftrightarrow>
     (vb_strategy v = ''cap'' \<and> vb_target_cap v \<noteq> None) \<or>
     (vb_strategy v = ''stratum'' \<and> vb_target_stratum v \<noteq> None) \<or>
     vb_strategy v = ''epoch''"

definition revoke_caps :: "string \<Rightarrow> revoke_body \<Rightarrow> int \<Rightarrow> ('j, string list) db_op" where
  "revoke_caps sid v closed =
     (if vb_strategy v = ''cap'' then
        (let cap = the (vb_target_cap v)
         in db_attempt
              (if vb_reroot v
               then db_attempt (get_parent_id cap) (\<lambda>g.
                      reroot_caps sid cap (case g of Inl _ \<Rightarrow> None | Inr p \<Rightarrow> p))
               else db_return 0)
              (\<lambda>_. revoke_cap_subtree cap))
      else if vb_strategy v = ''stratum'' then revoke_by_stratum sid closed (the (vb_target_stratum v))
      else revoke_epoch sid closed)"

text \<open>
  After the epoch is advanced: the audit row, the dirty mark of the snapshot, the query for the
  actors to fence if the session has a hub (\<open>fence\<close>), and the event; each of them may fail without
  effect on the answer.
\<close>

definition after_advance ::
  "string \<Rightarrow> revoke_body \<Rightarrow> bool \<Rightarrow> string list \<Rightarrow> int \<Rightarrow> datetime \<Rightarrow> int \<Rightarrow> int
   \<Rightarrow> ('j, revoke_reply \<times> string list) db_op" where
  "after_advance sid v hub ids dseq deadline closed new_epoch =
     drawing (\<lambda>i.
     db_attempt
       (record_revocation i sid (vb_strategy v) (vb_target_cap v) (vb_target_stratum v) dseq deadline
          closed new_epoch (vb_by v)) (\<lambda>_.
     db_attempt (statement (\<lambda>now d. (Inr (), d))) (\<lambda>_.
     db_attempt (if hub then actors_in_revoked_epoch sid closed else db_return []) (\<lambda>fence.
     db_attempt (transaction (stamp_append sid)) (\<lambda>_.
       db_return
         (Revoke_ok new_epoch closed (length ids) dseq deadline,
          (case fence of Inl _ \<Rightarrow> [] | Inr actors \<Rightarrow> actors)))))))"

definition refuse_revoke :: "reply_error \<Rightarrow> revoke_reply \<times> string list" where
  "refuse_revoke e = (Revoke_refused e, [])"

definition revoke ::
  "string \<Rightarrow> revoke_body \<Rightarrow> bool \<Rightarrow> ('j, revoke_reply \<times> string list) db_op" where
  "revoke sid v hub =
     db_attempt (require_membership sid (vb_by v) Collaborator) (\<lambda>member.
       case member of
         Inl e \<Rightarrow>
           if e = Not_found \<or> e = Unauthorized then db_return (refuse_revoke (Status 403))
           else internal refuse_revoke e
       | Inr _ \<Rightarrow>
           if \<not> valid_strategy v then db_return (refuse_revoke (Status 422))
           else
             db_attempt (read_epoch sid) (\<lambda>q.
               case q of
                 Inl e \<Rightarrow> internal refuse_revoke e
               | Inr closed \<Rightarrow>
                   db_attempt (current_seq sid) (\<lambda>s.
                     case s of
                       Inl e \<Rightarrow> internal refuse_revoke e
                     | Inr dseq \<Rightarrow>
                         db_bind (drain_deadline (vb_drain_secs v)) (\<lambda>deadline.
                           db_attempt (revoke_caps sid v closed) (\<lambda>hit.
                             case hit of
                               Inl e \<Rightarrow> internal refuse_revoke e
                             | Inr ids \<Rightarrow>
                                 db_attempt (delete_for_caps ids) (\<lambda>_.
                                   db_attempt (advance_epoch sid) (\<lambda>a.
                                     case a of
                                       Inl e \<Rightarrow> internal refuse_revoke e
                                     | Inr new_epoch \<Rightarrow>
                                         after_advance sid v hub ids dseq deadline closed new_epoch)))))))"

section \<open>The fence in the hub\<close>

type_synonym fences = "string \<rightharpoonup> nat"

definition fence_actors :: "string list \<Rightarrow> nat \<Rightarrow> fences \<Rightarrow> fences" where
  "fence_actors actors deadline f = fold (\<lambda>a f. f(a \<mapsto> deadline)) actors f"

definition is_fenced_and_expired :: "nat \<Rightarrow> string \<Rightarrow> fences \<Rightarrow> bool" where
  "is_fenced_and_expired now actor f \<longleftrightarrow> (case f actor of None \<Rightarrow> False | Some t \<Rightarrow> t < now)"

text \<open>The close messages that go out when the drain window has passed.\<close>

definition drain_expired :: "nat \<Rightarrow> string list \<Rightarrow> fences \<Rightarrow> string list" where
  "drain_expired now connected f = filter (\<lambda>a. is_fenced_and_expired now a f) connected"

section \<open>Settings: revoking an agent\<close>

definition revoke_mine :: "string \<Rightarrow> string \<Rightarrow> ('j, nat) db_op" where
  "revoke_mine owner cap =
     db_attempt (revoke_owned_root_cap cap owner) (\<lambda>r.
       case r of
         Inr (Some _) \<Rightarrow> db_return 204
       | Inr None \<Rightarrow> db_return 404
       | Inl e \<Rightarrow> if e = Panicked \<or> e = Hung then db_fail e else db_return 500)"

end
