(* ===== verification/Cap_Refinement.thy ===== *)
theory Cap_Refinement
  imports Invoke
begin

text \<open>
  An abstract specification of the authority tables and the proof that every operation of the code
  implements it. \<open>table_step\<close> lists the changes a table may undergo; \<open>implements m\<close> says that \<open>m\<close>,
  whatever fails on the way, does nothing but a sequence of them. What holds of \<open>table_step\<close> then
  holds of every handler.
\<close>

section \<open>Well-formed tables\<close>

text \<open>The parent of a capability exists and is nearer to the root.\<close>

definition parent_ok :: "'j store \<Rightarrow> string option \<Rightarrow> int \<Rightarrow> bool" where
  "parent_ok d p s \<longleftrightarrow>
     (case p of None \<Rightarrow> True | Some q \<Rightarrow> \<exists>r. find_token d q = Some r \<and> tk_stratum r < s)"

definition wf_token :: "'j store \<Rightarrow> 'j token_row \<Rightarrow> bool" where
  "wf_token d t \<longleftrightarrow>
     0 \<le> tk_stratum t \<and> parent_ok d (tk_parent t) (tk_stratum t) \<and>
     tk_epoch t \<le> current_epoch d (tk_session t)"

definition wf_store :: "'j store \<Rightarrow> bool" where
  "wf_store d \<longleftrightarrow>
     distinct (map tk_id (tokens d)) \<and> distinct (map rx_id (receipts d)) \<and>
     (\<forall>t \<in> set (tokens d). wf_token d t)"

section \<open>What may happen to the tables\<close>

text \<open>A capability keeps its authority; it can be used, revoked, transferred and moved.\<close>

definition lifecycle :: "'j store \<Rightarrow> 'j token_row \<Rightarrow> 'j token_row \<Rightarrow> bool" where
  "lifecycle d t t' \<longleftrightarrow>
     t' = t\<lparr>tk_used := tk_used t', tk_parent := tk_parent t', tk_revoked := tk_revoked t',
            tk_transferred := tk_transferred t'\<rparr> \<and>
     (tk_revoked t \<noteq> None \<longrightarrow> tk_revoked t' \<noteq> None) \<and>
     (tk_parent t' = tk_parent t \<or> parent_ok d (tk_parent t') (tk_stratum t))"

text \<open>An approval request that is resolved: its state is not one that the updates look for.\<close>

definition resolved :: "'j store \<Rightarrow> string \<Rightarrow> string \<Rightarrow> bool" where
  "resolved d i st \<longleftrightarrow>
     \<not> open_state st \<and> (\<exists>q \<in> set (approval_rows d). aq_id q = i) \<and>
     (\<forall>q \<in> set (approval_rows d). aq_id q = i \<longrightarrow> aq_state q = st)"

text \<open>The tables that a step of each kind leaves alone.\<close>

definition same_tokens :: "'j store \<Rightarrow> 'j store \<Rightarrow> bool" where
  "same_tokens d d' \<longleftrightarrow> tokens d' = tokens d \<and> epochs d' = epochs d"

text \<open>\<open>k\<close> is how many identifiers have been drawn; a receipt takes a later one.\<close>

inductive table_step :: "'j pg \<Rightarrow> nat \<Rightarrow> 'j store \<Rightarrow> 'j store \<Rightarrow> bool" for X k where
  other:
    "same_tokens d d' \<Longrightarrow> receipts d' = receipts d \<Longrightarrow>
     \<forall>i st. resolved d i st \<longrightarrow> resolved d' i st \<Longrightarrow> table_step X k d d'"
| new_token:
    "tokens d' = tokens d @ [t] \<Longrightarrow> epochs d' = epochs d \<Longrightarrow> receipts d' = receipts d \<Longrightarrow>
     approval_rows d' = approval_rows d \<Longrightarrow>
     find_token d (tk_id t) = None \<Longrightarrow> tk_epoch t = current_epoch d (tk_session t) \<Longrightarrow>
     0 \<le> tk_stratum t \<Longrightarrow> parent_ok d (tk_parent t) (tk_stratum t) \<Longrightarrow> table_step X k d d'"
| update:
    "tokens d' = map f (tokens d) \<Longrightarrow> epochs d' = epochs d \<Longrightarrow> receipts d' = receipts d \<Longrightarrow>
     approval_rows d' = approval_rows d \<Longrightarrow>
     \<forall>t \<in> set (tokens d). lifecycle d t (f t) \<Longrightarrow> table_step X k d d'"
| epoch:
    "tokens d' = tokens d \<Longrightarrow> receipts d' = receipts d \<Longrightarrow>
     approval_rows d' = approval_rows d \<Longrightarrow> \<forall>s. current_epoch d s \<le> current_epoch d' s \<Longrightarrow> table_step X k d d'"
| new_receipt:
    "same_tokens d d' \<Longrightarrow> approval_rows d' = approval_rows d \<Longrightarrow> receipts d' = receipts d @ [r] \<Longrightarrow>
     \<forall>q \<in> set (receipts d). rx_id q \<noteq> rx_id r \<Longrightarrow> rx_used r = None \<Longrightarrow>
     rx_id r \<in> ulid X ` {k..} \<Longrightarrow> table_step X k d d'"
| use_receipt:
    "same_tokens d d' \<Longrightarrow> approval_rows d' = approval_rows d \<Longrightarrow>
     receipts d' = map (\<lambda>q. if P q then q\<lparr>rx_used := Some now\<rparr> else q) (receipts d) \<Longrightarrow> table_step X k d d'"
| drop_receipts:
    "same_tokens d d' \<Longrightarrow> approval_rows d' = approval_rows d \<Longrightarrow>
     receipts d' = filter P (receipts d) \<Longrightarrow> table_step X k d d'"

subsection \<open>Lookup\<close>

lemma find_token_set: "find_token d i = Some t \<Longrightarrow> t \<in> set (tokens d) \<and> tk_id t = i"
  by (auto simp: find_token_def find_Some_iff)

lemma find_token_unique:
  assumes "distinct (map tk_id (tokens d))" and "t \<in> set (tokens d)"
  shows "find_token d (tk_id t) = Some t"
proof (cases "find_token d (tk_id t)")
  case None
  then show ?thesis using assms(2) by (auto simp: find_token_def find_None_iff)
next
  case (Some u)
  then have "u \<in> set (tokens d)" and "tk_id u = tk_id t"
    using find_token_set by fastforce+
  then have "u = t" using assms by (metis distinct_map inj_on_def)
  then show ?thesis using Some by simp
qed

lemma find_append:
  "find P (xs @ ys) = (case find P xs of Some x \<Rightarrow> Some x | None \<Rightarrow> find P ys)"
  by (induction xs) auto

lemma find_token_append:
  "find_token (d\<lparr>tokens := tokens d @ [t]\<rparr>) i =
     (case find_token d i of Some u \<Rightarrow> Some u | None \<Rightarrow> if tk_id t = i then Some t else None)"
  by (simp add: find_token_def find_append split: option.split)

lemma find_map_id:
  assumes "\<And>t. t \<in> set ts \<Longrightarrow> tk_id (f t) = tk_id t"
  shows "find (\<lambda>t. tk_id t = i) (map f ts) = map_option f (find (\<lambda>t. tk_id t = i) ts)"
  using assms by (induction ts) auto

lemma lifecycle_fields:
  assumes "lifecycle d t t'"
  shows "tk_id t' = tk_id t" and "tk_session t' = tk_session t" and "tk_epoch t' = tk_epoch t"
    and "tk_stratum t' = tk_stratum t" and "tk_perms t' = tk_perms t" and "tk_actor t' = tk_actor t"
    and "tk_expires t' = tk_expires t"
proof -
  have t': "t' = t\<lparr>tk_used := tk_used t', tk_parent := tk_parent t', tk_revoked := tk_revoked t',
      tk_transferred := tk_transferred t'\<rparr>" (is "_ = ?u")
    using assms by (simp add: lifecycle_def)
  show "tk_id t' = tk_id t" by (subst t') simp
  show "tk_session t' = tk_session t" by (subst t') simp
  show "tk_epoch t' = tk_epoch t" by (subst t') simp
  show "tk_stratum t' = tk_stratum t" by (subst t') simp
  show "tk_perms t' = tk_perms t" by (subst t') simp
  show "tk_actor t' = tk_actor t" by (subst t') simp
  show "tk_expires t' = tk_expires t" by (subst t') simp
qed

lemma find_token_update:
  assumes "tokens d' = map f (tokens d)" and "\<forall>t \<in> set (tokens d). lifecycle d t (f t)"
  shows "find_token d' i = map_option f (find_token d i)"
proof -
  have "tk_id (f t) = tk_id t" if "t \<in> set (tokens d)" for t
    using assms(2) that lifecycle_fields(1) by blast
  then show ?thesis using find_map_id [of "tokens d" f i] by (simp add: find_token_def assms(1))
qed

section \<open>Steps keep the tables well formed\<close>

lemma parent_ok_mono:
  assumes "\<And>i r. find_token d i = Some r \<Longrightarrow> \<exists>r'. find_token d' i = Some r' \<and> tk_stratum r' = tk_stratum r"
    and "parent_ok d p s"
  shows "parent_ok d' p s"
  using assms by (fastforce simp: parent_ok_def split: option.splits)

lemma wf_token_mono:
  assumes "\<And>i r. find_token d i = Some r \<Longrightarrow> \<exists>r'. find_token d' i = Some r' \<and> tk_stratum r' = tk_stratum r"
    and "\<And>s. current_epoch d s \<le> current_epoch d' s" and "wf_token d t"
  shows "wf_token d' t"
  using assms parent_ok_mono [OF assms(1)] by (auto simp: wf_token_def intro: order_trans)

lemma wf_same_tokens:
  assumes "same_tokens d d'" and "wf_store d" and "distinct (map rx_id (receipts d'))"
  shows "wf_store d'"
proof -
  have "wf_token d' t \<longleftrightarrow> wf_token d t" for t
    using assms(1)
    by (simp add: same_tokens_def wf_token_def parent_ok_def find_token_def current_epoch_def
        split: option.splits)
  then show ?thesis using assms by (simp add: wf_store_def same_tokens_def)
qed

lemma wf_table_step:
  assumes "table_step X k d d'" and wf: "wf_store d"
  shows "wf_store d'"
  using assms(1)
proof cases
  case other
  then show ?thesis using wf_same_tokens [OF other(1) wf] wf by (simp add: wf_store_def)
next
  case (new_token t)
  have app: "find_token d' i = (case find_token d i of Some u \<Rightarrow> Some u | None \<Rightarrow> if tk_id t = i then Some t else None)" for i
    using find_token_append [of d t i] new_token(1) by (simp add: find_token_def)
  have mono: "find_token d i = Some r \<Longrightarrow> \<exists>r'. find_token d' i = Some r' \<and> tk_stratum r' = tk_stratum r" for i r
    by (simp add: app)
  have ep: "current_epoch d' s = current_epoch d s" for s
    using new_token(2) by (simp add: current_epoch_def)
  have "wf_token d' u" if "u \<in> set (tokens d)" for u
    using wf that wf_token_mono [OF mono, where t = u] ep by (auto simp: wf_store_def)
  moreover have "wf_token d' t"
    using new_token parent_ok_mono [OF mono] by (auto simp: wf_token_def ep)
  moreover have "tk_id t \<notin> tk_id ` set (tokens d)"
    using new_token(5) by (auto simp: find_token_def find_None_iff)
  ultimately show ?thesis using wf new_token by (auto simp: wf_store_def)
next
  case (update f)
  note found = find_token_update [OF update(1) update(5)]
  have mono: "find_token d i = Some r \<Longrightarrow> \<exists>r'. find_token d' i = Some r' \<and> tk_stratum r' = tk_stratum r" for i r
    using update(5) find_token_set [of d i r] lifecycle_fields(4) [of d r "f r"] by (simp add: found)
  have ep: "current_epoch d' s = current_epoch d s" for s
    using update(2) by (simp add: current_epoch_def)
  have "wf_token d' (f t)" if t: "t \<in> set (tokens d)" for t
  proof -
    have l: "lifecycle d t (f t)" and w: "wf_token d t" using update(5) wf t by (auto simp: wf_store_def)
    have "parent_ok d (tk_parent (f t)) (tk_stratum t)"
      using l w by (auto simp: lifecycle_def wf_token_def)
    then show ?thesis
      using w parent_ok_mono [OF mono] lifecycle_fields [OF l] by (auto simp: wf_token_def ep)
  qed
  moreover have ids: "map tk_id (tokens d') = map tk_id (tokens d)"
    using update(5) lifecycle_fields(1) by (simp add: update(1)) blast
  ultimately show ?thesis
    using wf unfolding wf_store_def ids by (simp add: update(1,3))
next
  case epoch
  have "find_token d' i = find_token d i" for i using epoch(1) by (simp add: find_token_def)
  then have "wf_token d' t" if "t \<in> set (tokens d)" for t
    using wf that wf_token_mono [of d d', where t = t] epoch(4) by (auto simp: wf_store_def)
  then show ?thesis using wf epoch by (auto simp: wf_store_def)
next
  case (new_receipt r)
  then show ?thesis using wf wf_same_tokens [OF new_receipt(1) wf] by (force simp: wf_store_def)
next
  case (use_receipt P now)
  have "map rx_id (receipts d') = map rx_id (receipts d)"
    by (simp add: use_receipt(3))
  then show ?thesis using wf wf_same_tokens [OF use_receipt(1) wf] by (simp add: wf_store_def)
next
  case (drop_receipts P)
  then show ?thesis
    using wf wf_same_tokens [OF drop_receipts(1) wf] by (simp add: wf_store_def distinct_map_filter)
qed

lemma wf_table_steps: "(table_step X k)\<^sup>*\<^sup>* d d' \<Longrightarrow> wf_store d \<Longrightarrow> wf_store d'"
  by (induction rule: rtranclp_induct) (auto intro: wf_table_step)

section \<open>Operations as sequences of steps\<close>

named_theorems implements_intros "how an operation that implements the specification is composed"

definition goes :: "'j pg \<Rightarrow> nat \<Rightarrow> 'j store \<Rightarrow> 'j store \<Rightarrow> bool" where
  "goes X k d d' \<longleftrightarrow> (table_step X k)\<^sup>*\<^sup>* d d' \<and> statements d \<le> statements d'"

definition implements :: "'j pg \<Rightarrow> ('j, 'a) db_op \<Rightarrow> bool" where
  "implements X m \<longleftrightarrow>
     (\<forall>k d. wf_store d \<longrightarrow> k \<le> statements d \<longrightarrow> goes X k d (snd (m X d)))"

lemma goes_refl [simp]: "goes X k d d"
  by (simp add: goes_def)

lemma goes_trans [trans]: "goes X k d e \<Longrightarrow> goes X k e f \<Longrightarrow> goes X k d f"
  by (auto simp: goes_def)

lemma goes_wf: "goes X k d e \<Longrightarrow> wf_store d \<Longrightarrow> wf_store e"
  by (auto simp: goes_def intro: wf_table_steps)

lemma goes_bound: "goes X k d e \<Longrightarrow> k \<le> statements d \<Longrightarrow> k \<le> statements e"
  by (simp add: goes_def)

lemma goes_step: "table_step X k d e \<Longrightarrow> statements d \<le> statements e \<Longrightarrow> goes X k d e"
  by (simp add: goes_def r_into_rtranclp)

lemma implementsI:
  "(\<And>d k. wf_store d \<Longrightarrow> k \<le> statements d \<Longrightarrow> goes X k d (snd (m X d))) \<Longrightarrow> implements X m"
  by (simp add: implements_def)

lemma implementsD: "implements X m \<Longrightarrow> wf_store d \<Longrightarrow> k \<le> statements d \<Longrightarrow> goes X k d (snd (m X d))"
  by (simp add: implements_def)

lemma tick_step [simp]: "table_step X k d (d\<lparr>statements := n\<rparr>)"
  by (rule table_step.other) (simp_all add: same_tokens_def resolved_def)

lemma tick_goes: "statements d \<le> n \<Longrightarrow> goes X k d (d\<lparr>statements := n\<rparr>)"
  by (rule goes_step) simp_all

lemma tick_then:
  "statements d \<le> n \<Longrightarrow> goes X k (d\<lparr>statements := n\<rparr>) e \<Longrightarrow> goes X k d e"
  using tick_goes goes_trans by blast

lemma tick_then_step:
  "table_step X k (d\<lparr>statements := n\<rparr>) e \<Longrightarrow> statements d \<le> n \<Longrightarrow> n \<le> statements e \<Longrightarrow> goes X k d e"
  using tick_then goes_step by fastforce

lemma find_token_tick [simp]: "find_token (d\<lparr>statements := n\<rparr>) i = find_token d i"
  by (simp add: find_token_def)

lemma parent_ok_tick [simp]: "parent_ok (d\<lparr>statements := n\<rparr>) p s \<longleftrightarrow> parent_ok d p s"
  by (simp add: parent_ok_def split: option.split)

lemma wf_tick [simp]: "wf_store (d\<lparr>statements := n\<rparr>) \<longleftrightarrow> wf_store d"
  by (simp add: wf_store_def wf_token_def parent_ok_def find_token_def current_epoch_def
      split: option.splits)

lemma implements_return [implements_intros]: "implements X (db_return x)"
  by (simp add: implements_def db_return_def)

lemma implements_return_outside [implements_intros]: "implements X (\<lambda>Y. db_return (f Y) Y)"
  by (simp add: implements_def db_return_def)

lemma implements_return_state [implements_intros]: "implements X (\<lambda>Y d. db_return (f Y d) Y d)"
  by (simp add: implements_def db_return_def)

lemma implements_fail [implements_intros]: "implements X (db_fail e)"
  by (simp add: implements_def db_fail_def)

lemma steps_bind:
  assumes "goes X k d (snd (m X d))" and "\<And>x. goes X k (snd (m X d)) (snd (r x X (snd (m X d))))"
  shows "goes X k d (snd (db_bind m r X d))"
  using assms goes_trans by (cases "m X d") (fastforce simp: db_bind_def split: sum.split)

lemma implements_bind [implements_intros]:
  assumes m: "implements X m" and r: "\<And>x. implements X (r x)"
  shows "implements X (db_bind m r)"
proof (rule implementsI)
  fix d :: "'a store" and k assume d: "wf_store d" "k \<le> statements d"
  have 1: "goes X k d (snd (m X d))" using implementsD [OF m d] .
  show "goes X k d (snd (db_bind m r X d))"
    using 1 implementsD [OF r goes_wf [OF 1 d(1)] goes_bound [OF 1 d(2)]] by (rule steps_bind)
qed

lemma implements_attempt [implements_intros]:
  assumes m: "implements X m" and r: "\<And>x. implements X (r x)"
  shows "implements X (db_attempt m r)"
proof (rule implementsI)
  fix d :: "'a store" and k assume d: "wf_store d" "k \<le> statements d"
  have 1: "goes X k d (snd (m X d))" using implementsD [OF m d] .
  have "goes X k (snd (m X d)) (snd (r x X (snd (m X d))))" for x
    using implementsD [OF r goes_wf [OF 1 d(1)] goes_bound [OF 1 d(2)]] .
  then show "goes X k d (snd (db_attempt m r X d))"
    using 1 goes_trans by (cases "m X d") (fastforce simp: db_attempt_def)
qed

lemma implements_statement:
  assumes "\<And>now d k. wf_store d \<Longrightarrow> goes X k d (snd (f now d))"
  shows "implements X (statement f)"
proof (rule implementsI)
  fix d :: "'a store" and k assume wf: "wf_store d"
  let ?d = "d\<lparr>statements := Suc (statements d)\<rparr>"
  have "goes X k ?d (snd (f (pg_now X (statements d)) ?d))" using assms wf by simp
  then show "goes X k d (snd (statement f X d))"
    using tick_then [of d "Suc (statements d)" X k] by (auto simp: statement_def Let_def tick_goes)
qed

lemma implements_query:
  "(\<And>now d. snd (f now d) = d) \<Longrightarrow> implements X (statement f)"
  by (rule implements_statement) simp

lemma implements_step:
  assumes "\<And>now d k. wf_store d \<Longrightarrow> table_step X k d (snd (f now d))"
    and "\<And>now d. statements (snd (f now d)) = statements d"
  shows "implements X (statement f)"
  by (rule implements_statement, rule goes_step) (simp_all add: assms)

lemma implements_tx [implements_intros]: "implements X m \<Longrightarrow> implements X (tx_body m)"
proof (rule implementsI)
  fix d :: "'a store" and k assume m: "implements X m" and d: "wf_store d" "k \<le> statements d"
  have 1: "goes X k d (snd (m X d))" using implementsD [OF m d] .
  then have le: "statements d \<le> statements (snd (m X d))" by (simp add: goes_def)
  show "goes X k d (snd (tx_body m X d))"
    using 1 le goes_trans [OF 1 tick_goes]
    by (cases "m X d") (auto simp: tx_body_def tick_goes split: sum.split)
qed

lemma implements_begin [implements_intros]: "implements X begin_tx"
  unfolding begin_tx_def by (rule implements_query) simp

lemma implements_transaction [implements_intros]: "implements X m \<Longrightarrow> implements X (transaction m)"
  unfolding transaction_def by (intro implements_intros)

lemma implements_expiry [implements_intros]:
  assumes "\<And>i e. implements X (k i e)"
  shows "implements X (with_expiry ttl k)"
  using assms by (auto simp: implements_def with_expiry_def split: option.split)

lemma implements_if [implements_intros]:
  "implements X m \<Longrightarrow> implements X k \<Longrightarrow> implements X (if b then m else k)"
  by simp

lemma implements_option [implements_intros]:
  "implements X m \<Longrightarrow> (\<And>y. implements X (k y)) \<Longrightarrow>
   implements X (case x of None \<Rightarrow> m | Some y \<Rightarrow> k y)"
  by (cases x) simp_all

lemma implements_sum [implements_intros]:
  "(\<And>e. implements X (m e)) \<Longrightarrow> (\<And>y. implements X (k y)) \<Longrightarrow>
   implements X (case x of Inl e \<Rightarrow> m e | Inr y \<Rightarrow> k y)"
  by (cases x) simp_all

lemma implements_prod [implements_intros]:
  "(\<And>a b. implements X (m a b)) \<Longrightarrow> implements X (case x of (a, b) \<Rightarrow> m a b)"
  by (cases x) simp

end
