(* ===== verification/Cap_Operations.thy ===== *)
theory Cap_Operations
  imports Cap_Refinement
begin

text \<open>
  Every operation of \<open>Cap_Store\<close>, \<open>Broker_Store\<close>, \<open>Authority_Arena\<close> and \<open>Invoke\<close> implements the
  specification of \<open>Cap_Refinement\<close>; \<open>store_step\<close> collects the requests the server serves, and what
  holds along \<open>table_step\<close> is lifted to runs of requests.
\<close>

section \<open>Statements\<close>

lemma lifecycle_refl [simp]: "lifecycle d t t"
  by (simp add: lifecycle_def)

lemma lifecycle_revoke [simp]: "lifecycle d t (t\<lparr>tk_revoked := Some now\<rparr>)"
  by (simp add: lifecycle_def)

lemma lifecycle_use [simp]: "lifecycle d t (t\<lparr>tk_used := Some now\<rparr>)"
  by (simp add: lifecycle_def)

lemma lifecycle_retire [simp]:
  "lifecycle d t (t\<lparr>tk_revoked := Some now, tk_transferred := Some i\<rparr>)"
  by (simp add: lifecycle_def)

lemma lifecycle_reroot: "parent_ok d p (tk_stratum t) \<Longrightarrow> lifecycle d t (t\<lparr>tk_parent := p\<rparr>)"
  by (simp add: lifecycle_def)

lemma step_update_tokens:
  assumes "\<And>t. t \<in> set (tokens d) \<Longrightarrow> P t \<Longrightarrow> lifecycle d t (f t)"
  shows "table_step X k d (snd (update_tokens P f d))"
  by (rule table_step.update [where f = "\<lambda>t. if P t then f t else t"])
     (use assms in \<open>auto simp: update_tokens_def\<close>)

lemma update_tokens_statements [simp]: "statements (snd (update_tokens P f d)) = statements d"
  by (simp add: update_tokens_def)

lemma insert_row_statements [simp]: "statements (snd (insert_row t d)) = statements d"
  by (simp add: insert_row_def)

lemma step_insert_row:
  assumes "tk_epoch t = current_epoch d (tk_session t)" and "0 \<le> tk_stratum t"
    and "parent_ok d (tk_parent t) (tk_stratum t) \<or> \<not> coherent d t"
  shows "table_step X k d (snd (insert_row t d))"
proof (cases "find_token d (tk_id t) \<noteq> None \<or> \<not> coherent d t")
  case True
  then show ?thesis using tick_step [of X k d "statements d"] by (auto simp: insert_row_def)
next
  case False
  then show ?thesis
    by (intro table_step.new_token [where t = t]) (use assms in \<open>auto simp: insert_row_def\<close>)
qed

lemma step_same [simp]: "table_step X k d d"
  using tick_step [of X k d "statements d"] by simp

lemma implements_other:
  assumes "\<And>now d. tokens (snd (f now d)) = tokens d" and "\<And>now d. epochs (snd (f now d)) = epochs d"
    and "\<And>now d. receipts (snd (f now d)) = receipts d"
    and "\<And>now d. approval_rows (snd (f now d)) = approval_rows d"
    and "\<And>now d. statements (snd (f now d)) = statements d"
  shows "implements X (statement f)"
  by (rule implements_step, rule table_step.other)
    (use assms in \<open>simp_all add: same_tokens_def resolved_def\<close>)

subsection \<open>Tokens and epochs\<close>

lemma implements_insert_token [implements_intros]:
  "implements X (insert_token i sid actor expires parent observed perms)"
proof (rule implementsI)
  fix d :: "'a store" and k assume d: "wf_store d" "k \<le> statements d"
  have stratum: "0 \<le> tk_stratum r + 1" if "find_token d' p = Some r" and "wf_store d'"
    for d' :: "'a store" and p r
    using that find_token_set by (fastforce simp: wf_store_def wf_token_def)
  show "goes X k d (snd (insert_token i sid actor expires parent observed perms X d))"
    unfolding insert_token_def
    by (rule implementsD [OF implements_step d], rule step_insert_row)
       (auto simp: parent_ok_def coherent_def Option.bind_eq_Some_conv dest: stratum split: option.splits)
qed

lemma implements_get_cap [implements_intros]: "implements X (get_cap i)"
  unfolding get_cap_def by (rule implements_query) simp

lemma implements_exchange [implements_intros]: "implements X (exchange i)"
proof -
  have "snd (if hit = [] then (Inl Not_found, d) else (r, d')) = (if hit = [] then d else d')"
    for hit :: "string list" and d d' :: "'a store" and r :: "db_error + 'a token_row"
    by simp
  then show ?thesis
    unfolding exchange_def
    by (intro implements_step) (auto simp: Let_def split_def intro: step_update_tokens)
qed

lemma implements_revoking:
  "implements X (statement (\<lambda>now d.
     case update_tokens (P now d) (\<lambda>t. t\<lparr>tk_revoked := Some now\<rparr>) d of (hit, d') \<Rightarrow> (Inr (g hit), d')))"
  by (rule implements_step) (auto simp: split_def intro: step_update_tokens)

lemma implements_revoke_cap_subtree [implements_intros]: "implements X (revoke_cap_subtree cap)"
  unfolding revoke_cap_subtree_def
  by (rule implements_step) (auto simp: split_def intro: step_update_tokens split: option.split)

lemma implements_revoke_by_stratum [implements_intros]: "implements X (revoke_by_stratum sid ep n)"
  unfolding revoke_by_stratum_def by (rule implements_revoking [where g = "\<lambda>x. x"])

lemma implements_revoke_epoch [implements_intros]: "implements X (revoke_epoch sid ep)"
  unfolding revoke_epoch_def by (rule implements_revoking [where g = "\<lambda>x. x"])

lemma implements_reads [implements_intros]:
  "implements X (get_parent_id i)" "implements X (is_revoked i)" "implements X (children i)"
  "implements X (actor_caps_in_session sid actor)" "implements X (actors_in_revoked_epoch sid ep)"
  "implements X (find_root_cap_in_tx sid actor)" "implements X (read_epoch sid)"
  "implements X (current_seq sid)" "implements X (get_by_address sid addr)"
  "implements X (get_receipt i)" "implements X (list_for_actor actor)"
  unfolding get_parent_id_def is_revoked_def children_def actor_caps_in_session_def
    actors_in_revoked_epoch_def find_root_cap_in_tx_def read_epoch_def current_seq_def
    get_by_address_def get_receipt_def list_for_actor_def
  by (rule implements_query; simp add: Let_def)+

lemma implements_lineage [implements_intros]: "implements X (lineage i)"
  unfolding lineage_def by (rule implements_query) (simp split: option.split)

lemma implements_seed_epoch [implements_intros]: "implements X (seed_epoch sid)"
  unfolding seed_epoch_def
  by (rule implements_step, rule table_step.epoch) (auto simp: current_epoch_def)

lemma implements_advance_epoch [implements_intros]: "implements X (advance_epoch sid)"
  unfolding advance_epoch_def
  by (rule implements_step, rule table_step.epoch) (auto simp: current_epoch_def split: option.split)

lemma implements_record_revocation [implements_intros]:
  "implements X (record_revocation i sid strategy target stratum dseq deadline closed opened by_actor)"
  unfolding record_revocation_def by (rule implements_other) simp_all

text \<open>Rerooting to the parent that the query before it found.\<close>

lemma parent_of_child:
  assumes wf: "wf_store d" and "t \<in> set (tokens d)" and "tk_parent t = Some old"
  shows "parent_ok d (Option.bind (find_token d old) tk_parent) (tk_stratum t)"
proof -
  obtain r where r: "find_token d old = Some r" "tk_stratum r < tk_stratum t"
    using assms by (auto simp: wf_store_def wf_token_def parent_ok_def split: option.splits)
  then have "wf_token d r" using wf find_token_set by (auto simp: wf_store_def)
  then show ?thesis
    using r by (fastforce simp: wf_token_def parent_ok_def split: option.splits)
qed

text \<open>A continuation that needs what the operation before it established.\<close>

lemma implements_attempt_after:
  fixes X :: "'j pg"
  assumes m: "implements X m"
    and Q: "\<And>d. Q (fst (m X d)) (snd (m X d))"
    and r: "\<And>v d k. wf_store d \<Longrightarrow> k \<le> statements d \<Longrightarrow> Q v d \<Longrightarrow> goes X k d (snd (r v X d))"
  shows "implements X (db_attempt m r)"
proof (rule implementsI)
  fix d :: "'j store" and k assume d: "wf_store d" "k \<le> statements d"
  let ?d = "snd (m X d)"
  have 1: "goes X k d ?d" using implementsD [OF m d] .
  have "goes X k ?d (snd (r (fst (m X d)) X ?d))"
    using goes_wf [OF 1 d(1)] goes_bound [OF 1 d(2)] Q by (rule r)
  with 1 show "goes X k d (snd (db_attempt m r X d))"
    using goes_trans by (fastforce simp: db_attempt_def split_def)
qed

lemma implements_bind_after:
  assumes "implements X m"
    and "\<And>d x d1. m X d = (Inr x, d1) \<Longrightarrow> Q x d1"
    and "\<And>x d k. wf_store d \<Longrightarrow> k \<le> statements d \<Longrightarrow> Q x d \<Longrightarrow> goes X k d (snd (r x X d))"
  shows "implements X (db_bind m r)"
proof -
  have bind: "db_bind m r = db_attempt m (\<lambda>v. case v of Inl e \<Rightarrow> db_fail e | Inr x \<Rightarrow> r x)"
    by (auto simp: db_bind_def db_attempt_def db_fail_def fun_eq_iff split: prod.split sum.split)
  show ?thesis
    unfolding bind
    by (rule implements_attempt_after [OF assms(1), where Q = "\<lambda>v d. \<forall>x. v = Inr x \<longrightarrow> Q x d"])
      (use assms(2) in \<open>auto simp: db_fail_def assms(3) split: sum.split\<close>, metis prod.collapse)
qed

lemma implements_reroot_to_grandparent [implements_intros]:
  fixes X :: "'j pg"
  shows "implements X (db_attempt (get_parent_id cap) (\<lambda>g.
     reroot_caps sid cap (case g of Inl _ \<Rightarrow> None | Inr p \<Rightarrow> p)))"
proof (rule implements_attempt_after [where Q = "\<lambda>v d. \<forall>p. v = Inr p \<longrightarrow> p = Option.bind (find_token d cap) tk_parent"])
  fix v and d :: "'j store" and k
  assume d: "wf_store d" "k \<le> statements d" and
    v: "\<forall>p. v = Inr p \<longrightarrow> p = Option.bind (find_token d cap) tk_parent"
  let ?p = "case v of Inl _ \<Rightarrow> None | Inr p \<Rightarrow> p" and ?d = "d\<lparr>statements := Suc (statements d)\<rparr>"
  have ok: "parent_ok ?d ?p (tk_stratum t)" if "t \<in> set (tokens d)" "tk_parent t = Some cap" for t
    using parent_of_child [of d t cap] d v that
    by (auto split: sum.split) (simp add: parent_ok_def)
  have "table_step X k ?d (snd (update_tokens
      (\<lambda>t. tk_parent t = Some cap \<and> tk_session t = sid \<and> tk_revoked t = None)
      (\<lambda>t. t\<lparr>tk_parent := ?p\<rparr>) ?d))"
    using ok by (intro step_update_tokens lifecycle_reroot) simp
  then show "goes X k d (snd (reroot_caps sid cap ?p X d))"
    by (auto simp: reroot_caps_def statement_def Let_def split_def tick_goes intro: tick_then_step)
qed (auto simp: get_parent_id_def statement_def Let_def intro: implements_query)

text \<open>With no parent to move to, or one that is known to be higher.\<close>

lemma implements_reroot:
  fixes X :: "'j pg"
  assumes "\<And>(d :: 'j store) t. wf_store d \<Longrightarrow> t \<in> set (tokens d) \<Longrightarrow> tk_parent t = Some old \<Longrightarrow>
    parent_ok d p (tk_stratum t)"
  shows "implements X (reroot_caps sid old p)"
  unfolding reroot_caps_def
  by (rule implements_step)
     (auto simp: split_def intro!: step_update_tokens lifecycle_reroot assms)

subsection \<open>Transfer of a root\<close>

lemma implements_insert_root: "implements X (insert_root i sid actor expires perms)"
  unfolding insert_root_def
  by (rule implements_step, rule step_insert_row) (simp_all add: parent_ok_def)

lemma inserted_root:
  assumes "insert_root i sid actor expires perms X d = (Inr row, d1)"
  shows "\<exists>r. find_token d1 (tk_id row) = Some r \<and> tk_stratum r = 0"
  using assms
  by (auto simp: insert_root_def statement_def insert_row_def listed_def find_token_def find_append Let_def
      split: if_splits)

text \<open>The children move to a root that exists; each of them has a stratum above \<open>0\<close>.\<close>

lemma move_to_root:
  assumes wf: "wf_store d" and r: "find_token d i = Some r" "tk_stratum r = 0"
  shows "table_step X k d (snd (update_tokens (\<lambda>t. tk_parent t = Some old \<and> tk_revoked t = None)
    (\<lambda>t. t\<lparr>tk_parent := Some i\<rparr>) d))"
proof (intro step_update_tokens lifecycle_reroot)
  fix t assume t: "t \<in> set (tokens d)" and p: "tk_parent t = Some old \<and> tk_revoked t = None"
  obtain q where q: "find_token d old = Some q" "tk_stratum q < tk_stratum t"
    using wf t p by (auto simp: wf_store_def wf_token_def parent_ok_def split: option.splits)
  have "0 \<le> tk_stratum q" using find_token_set [OF q(1)] wf by (auto simp: wf_store_def wf_token_def)
  then show "parent_ok d (Some i) (tk_stratum t)" using q r by (simp add: parent_ok_def)
qed

lemma implements_move_children:
  assumes d: "wf_store d" "k \<le> statements d" and r: "find_token d i = Some r" "tk_stratum r = 0"
  shows "goes X k d (snd (move_children old i X d))"
proof -
  let ?d = "d\<lparr>statements := Suc (statements d)\<rparr>"
  have "table_step X k ?d (snd (update_tokens (\<lambda>t. tk_parent t = Some old \<and> tk_revoked t = None)
      (\<lambda>t. t\<lparr>tk_parent := Some i\<rparr>) ?d))"
    by (rule move_to_root [where r = r]) (use d r in simp_all)
  then show ?thesis
    by (auto simp: move_children_def statement_def Let_def split_def tick_goes intro: tick_then_step)
qed

lemma implements_retire_root [implements_intros]: "implements X (retire_root old i)"
  unfolding retire_root_def by (rule implements_step) (simp_all add: step_update_tokens)

lemma implements_read_perms [implements_intros]: "implements X (read_perms i)"
  by (simp add: read_perms_def implements_def statement_def Let_def tick_goes)

lemma implements_transfer_root_in_tx [implements_intros]:
  "implements X (transfer_root_in_tx sid old_root new_actor ttl_hours)"
  unfolding transfer_root_in_tx_def
proof (intro implements_bind [OF implements_read_perms] implements_expiry
    implements_bind_after [OF implements_insert_root inserted_root])
  fix row and d :: "'a store" and k
  assume d: "wf_store d" "k \<le> statements d" and "\<exists>r. find_token d (tk_id row) = Some r \<and> tk_stratum r = 0"
  then obtain r where r: "find_token d (tk_id row) = Some r" "tk_stratum r = 0" by blast
  have 1: "goes X k d (snd (move_children old_root (tk_id row) X d))"
    using d r by (rule implements_move_children)
  have 2: "implements X (db_bind (retire_root old_root (tk_id row)) (\<lambda>_. db_return (tk_id row, moved)))" for moved :: nat
    by (intro implements_intros)
  show "goes X k d (snd (db_bind (move_children old_root (tk_id row)) (\<lambda>moved.
      db_bind (retire_root old_root (tk_id row)) (\<lambda>_. db_return (tk_id row, moved))) X d))"
    using 1 implementsD [OF 2 goes_wf [OF 1 d(1)] goes_bound [OF 1 d(2)]] by (rule steps_bind)
qed

subsection \<open>The broker's tables\<close>

lemma implements_revoke_owned_root_cap [implements_intros]:
  "implements X (revoke_owned_root_cap cap owner)"
  unfolding revoke_owned_root_cap_def
  by (intro implements_intros implements_query) simp

lemma implements_register_method [implements_intros]: "implements X (register_method sid slug m)"
  unfolding register_method_def Let_def
  by (rule implementsI, rule implementsD [OF implements_other]) simp_all

lemma implements_register_bulk [implements_intros]: "implements X (register_bulk sid slug ms)"
proof (induction ms)
  case Nil
  then show ?case by (simp add: implements_return)
next
  case (Cons m ms)
  then show ?case by (simp add: implements_bind implements_register_method implements_return)
qed

lemma implements_unknown_addresses [implements_intros]: "implements X (unknown_addresses sid perms)"
  unfolding unknown_addresses_def Let_def
  by (intro implements_intros implements_query) simp

lemma implements_issue_receipt [implements_intros]:
  "implements X (issue_receipt cap sid meth args ttl approval)"
proof (rule implementsI)
  fix d :: "'a store" and k assume d: "wf_store d" "k \<le> statements d"
  then have i: "ulid X (statements d) \<in> ulid X ` {k..}" by simp
  show "goes X k d (snd (issue_receipt cap sid meth args ttl approval X d))"
    using i unfolding issue_receipt_def statement_def Let_def
    by (auto simp: tick_goes same_tokens_def split: option.split
        intro!: tick_then_step [where n = "Suc (statements d)"] table_step.new_receipt)
qed

lemma implements_consume_receipt [implements_intros]: "implements X (consume_receipt sid i)"
proof -
  have "table_step X k d (d\<lparr>receipts := map (\<lambda>q. if P q then q\<lparr>rx_used := Some now\<rparr> else q) (receipts d)\<rparr>)"
    for k P now and d :: "'a store"
    by (rule table_step.use_receipt [where P = P and now = now]) (simp_all add: same_tokens_def)
  then show ?thesis
    unfolding consume_receipt_def by (intro implements_step) (auto split: option.split)
qed

lemma implements_compact [implements_intros]:
  "implements X (compact_expired n)" "implements X (compact_consumed n)"
  unfolding compact_expired_def compact_consumed_def Let_def
  by (rule implements_step, rule table_step.drop_receipts, simp_all add: same_tokens_def)+

text \<open>An update that touches open requests only, and keeps their identifiers.\<close>

lemma snd_update_approval:
  "snd (update_approval P f d) = d\<lparr>approval_rows := map (\<lambda>q. if P q then f q else q) (approval_rows d)\<rparr>"
  by (simp add: update_approval_def)

lemma snd_or_not_found [simp]: "snd (or_not_found p) = snd p"
  by (auto simp: or_not_found_def split: prod.split option.split)

lemma step_approval_rows:
  assumes "\<And>q. P q \<Longrightarrow> open_state (aq_state q)" and "\<And>q. aq_id (g q) = aq_id q"
  shows "table_step X k d (d\<lparr>approval_rows := map (\<lambda>q. if P q then g q else q) (approval_rows d)\<rparr>)"
  by (rule table_step.other) (auto simp: assms same_tokens_def resolved_def dest: assms(1))

lemma implements_approval_or_not_found:
  assumes "\<And>now q. P now q \<Longrightarrow> open_state (aq_state q)" and "\<And>now q. aq_id (g now q) = aq_id q"
  shows "implements X (statement (\<lambda>now d. or_not_found (update_approval (P now) (g now) d)))"
  by (rule implements_step) (simp_all add: snd_update_approval step_approval_rows assms)

lemma implements_insert_approval [implements_intros]:
  "implements X (insert_approval i sid actor tool args timeout)"
  unfolding insert_approval_def
  by (rule implements_step, rule table_step.other) (auto simp: same_tokens_def resolved_def)

lemma implements_approvals [implements_intros]:
  "implements X (claim_if_pending_in_tx i)" "implements X (set_state_in_tx i sid st)"
  "implements X (resolve_in_tx i sid st by_actor)" "implements X (resolve_if_pending_in_tx i st by_actor)"
  "implements X (record_vote_in_tx i sid voter v)" "implements X expire_timed_out"
proof -
  show "implements X (claim_if_pending_in_tx i)"
    unfolding claim_if_pending_in_tx_def
    by (rule implements_approval_or_not_found) (simp_all add: open_state_def)
  show "implements X (set_state_in_tx i sid st)" "implements X (resolve_in_tx i sid st by_actor)"
    "implements X (record_vote_in_tx i sid voter v)"
    unfolding set_state_in_tx_def resolve_in_tx_def record_vote_in_tx_def
    by (rule implements_approval_or_not_found; simp)+
  show "implements X (resolve_if_pending_in_tx i st by_actor)"
    unfolding resolve_if_pending_in_tx_def split_def
    by (rule implements_step, unfold snd_conv snd_update_approval, rule step_approval_rows)
       (simp_all add: open_state_def)
  show "implements X expire_timed_out"
    unfolding expire_timed_out_def Let_def
    by (rule implements_step, unfold snd_conv, rule step_approval_rows) simp_all
qed

lemma implements_stamp_append [implements_intros]: "implements X (stamp_append sid)"
proof -
  have "implements X (alloc_seq sid)" "implements X (append_event sid sq)" for sq
    unfolding alloc_seq_def append_event_def by (rule implements_other; simp split: option.split)+
  then show ?thesis
    unfolding stamp_append_def by (intro implements_intros implements_query) simp_all
qed

lemma implements_require_membership [implements_intros]:
  "implements X (require_membership sid actor role)"
  unfolding require_membership_def by (intro implements_intros implements_query) simp

lemma implements_descriptors [implements_intros]:
  "implements X (grant_descriptor actor uri)" "implements X (resolve_descriptor actor n)"
  "implements X (delete_for_caps caps)"
proof -
  show "implements X (grant_descriptor actor uri)"
    unfolding grant_descriptor_def Let_def
    by (rule implementsI, rule implementsD [OF implements_other]) simp_all
  show "implements X (resolve_descriptor actor n)"
    unfolding resolve_descriptor_def by (intro implements_intros implements_query) simp_all
  show "implements X (delete_for_caps caps)"
    unfolding delete_for_caps_def Let_def by (intro implements_if implements_return implements_other) simp_all
qed

section \<open>Handlers\<close>

lemma implements_authority_of [implements_intros]:
  "implements X (\<lambda>X. db_return ((authority_of X row)\<lparr>au_session := sid\<rparr>) X)"
  by (rule implements_return_outside)

lemma implements_for_session [implements_intros]: "implements X (for_session sid)"
  unfolding for_session_def by (intro implements_intros)

lemma implements_alloc [implements_intros]: "implements X (alloc ar actor perms ttl)"
  unfolding alloc_def by (intro implements_intros)

lemma implements_authority_for_cap [implements_intros]: "implements X (authority_for_cap ar cap)"
proof -
  have "implements X (\<lambda>Y. if b then db_fail e Y else db_return (f Y) Y)" for b e and f :: "'a pg \<Rightarrow> authority"
    by (cases b) (simp_all add: implements_fail implements_return_outside)
  then show ?thesis
    unfolding authority_for_cap_def by (intro implements_bind implements_get_cap) simp
qed

lemma implements_delegate [implements_intros]: "implements X (delegate parent grantee perms ttl)"
  unfolding delegate_def by (intro implements_intros)

lemma implements_transfer_authority [implements_intros]:
  "implements X (drain_deadline n)" "implements X (authority_is_live au)"
  unfolding drain_deadline_def authority_is_live_def
  by (simp add: implements_def split: option.split) (rule implements_query, simp)

lemma implements_arena_revocation [implements_intros]:
  "implements X (arena_revoke_subtree ar cap n)" "implements X (arena_revoke_by_stratum ar s n)"
  "implements X (arena_revoke_epoch ar n)"
  unfolding arena_revoke_subtree_def arena_revoke_by_stratum_def arena_revoke_epoch_def arena_advance_def
  by (intro implements_intros)+

lemma implements_transfer_root [implements_intros]: "implements X (transfer_root ar old new ttl)"
  unfolding transfer_root_def by (intro implements_intros)

lemma implements_transfer_ownership [implements_intros]:
  "implements X (transfer_ownership_in_tx sid old new)"
proof -
  have "implements X (set_role s a r)" for s a r
    unfolding set_role_def by (rule implements_other) simp_all
  then show ?thesis unfolding transfer_ownership_in_tx_def by (intro implements_intros)
qed

lemma implements_internal [implements_intros]: "implements X (internal f e)"
  unfolding internal_def by (intro implements_intros)

lemma implements_create_approval [implements_intros]: "implements X (create_approval sid actor tool args n)"
  unfolding create_approval_def by (intro implements_intros)

lemma implements_issue_or_500 [implements_intros]: "implements X (issue_or_500 sid body ttl approval ok)"
  unfolding issue_or_500_def by (intro implements_intros)

lemma implements_approval_gate [implements_intros]: "implements X (approval_gate sid body cap m)"
  unfolding approval_gate_def by (intro implements_intros)

lemma implements_policy_gate [implements_intros]: "implements X (policy_gate ps sid body cap m)"
  unfolding policy_gate_def
  by (auto simp: implements_intros split: option.split policy_decision.split)

lemma implements_method_gate [implements_intros]: "implements X (method_gate ps sid body cap)"
  unfolding method_gate_def
proof (rule implements_attempt [OF implements_reads(9)], rule implementsI)
  fix r and d :: "'a store" and k assume d: "wf_store d" "k \<le> statements d"
  show "goes X k d (snd ((case r of
         Inl e \<Rightarrow> internal Invoke_refused e X
       | Inr None \<Rightarrow> db_return (Invoke_refused (Status 404)) X
       | Inr (Some m) \<Rightarrow>
           if \<not> permitted (parse_permissions X cap) (ib_method body)
           then db_return (Invoke_refused (Status 403)) X
           else policy_gate ps sid body cap m X) d))"
    by (simp add: implementsD [OF implements_internal d] implementsD [OF implements_return d]
      implementsD [OF implements_policy_gate d] split: sum.split option.split)
qed

lemma implements_cap_gate [implements_intros]: "implements X (cap_gate ps sid body)"
  unfolding cap_gate_def
proof (rule implements_attempt [OF implements_get_cap], rule implementsI)
  fix r and d :: "'a store" and k assume d: "wf_store d" "k \<le> statements d"
  have "implements X (db_attempt (read_epoch sid) (\<lambda>q.
             case q of
               Inl e \<Rightarrow> internal Invoke_refused e
             | Inr ep \<Rightarrow>
                 if tk_epoch cap \<noteq> ep then db_return (Invoke_refused (Status 410))
                 else method_gate ps sid body cap))" for cap
    by (intro implements_intros)
  from implementsD [OF this d]
  show "goes X k d (snd (case r of
         Inl Not_found \<Rightarrow> db_return (Invoke_refused (Status 401)) X d
       | Inl e \<Rightarrow> internal Invoke_refused e X d
       | Inr cap \<Rightarrow>
           if tk_session cap \<noteq> sid then db_return (Invoke_refused (Status 403)) X d
           else if tk_expires cap < pg_now X (statements d) then db_return (Invoke_refused (Status 410)) X d
           else if tk_revoked cap \<noteq> None then db_return (Invoke_refused (Status 410)) X d
           else db_attempt (read_epoch sid) (\<lambda>q.
             case q of
               Inl e \<Rightarrow> internal Invoke_refused e
             | Inr ep \<Rightarrow>
                 if tk_epoch cap \<noteq> ep then db_return (Invoke_refused (Status 410))
                 else method_gate ps sid body cap) X d))"
    by (simp add: implementsD [OF implements_internal d] implementsD [OF implements_return d]
      split: sum.split db_error.split)
qed

lemma implements_consume [implements_intros]: "implements X (consume sid i)"
proof -
  have "implements X (case r of
         Inl Not_found \<Rightarrow> db_return (Consume_refused (Status 410))
       | Inl e \<Rightarrow> internal Consume_refused e
       | Inr row \<Rightarrow> db_return (f row))" for r f
    by (auto intro!: implements_intros split: sum.split db_error.split)
  then show ?thesis
    unfolding consume_def by (intro implements_attempt implements_consume_receipt)
qed

lemma implements_revoke_caps [implements_intros]: "implements X (revoke_caps sid v closed)"
  unfolding revoke_caps_def Let_def by (intro implements_intros)

lemma implements_drawing [implements_intros]: "(\<And>i. implements X (m i)) \<Longrightarrow> implements X (drawing m)"
  by (simp add: implements_def drawing_def)

lemma implements_after_advance [implements_intros]:
  "implements X (after_advance sid v hub ids dseq deadline closed new_epoch)"
  unfolding after_advance_def by (intro implements_intros implements_query) simp_all

lemma implements_revoke [implements_intros]: "implements X (revoke sid v hub)"
  unfolding revoke_def by (intro implements_intros)

lemma implements_revoke_mine [implements_intros]: "implements X (revoke_mine owner cap)"
proof -
  have "implements X (case r of
         Inr (Some _) \<Rightarrow> db_return 204
       | Inr None \<Rightarrow> db_return 404
       | Inl e \<Rightarrow> if e = Panicked \<or> e = Hung then db_fail e else db_return 500)" for r
    by (auto simp: implements_return implements_fail split: sum.split option.split)
  then show ?thesis
    unfolding revoke_mine_def by (intro implements_attempt implements_revoke_owned_root_cap)
qed

end
