(* ===== verification/Broker_Runs.thy ===== *)
theory Broker_Runs
  imports Cap_Operations
begin

text \<open>
  Runs of the broker: the requests that touch the authority tables, in any order, each one to its
  end, and what such runs preserve. Two handlers that interleave between statements are not covered;
  the statements that decide (the consumption of a receipt, the claim of an approval, the advance of
  an epoch) are single statements of the database and thus atomic.
\<close>

section \<open>Requests\<close>

inductive store_step :: "'j pg \<Rightarrow> 'j store \<Rightarrow> 'j store \<Rightarrow> bool" for X where
  attach: "store_step X d (snd (insert_token i sid actor expires parent observed perms X d))"
| exchange: "store_step X d (snd (exchange i X d))"
| alloc: "store_step X d (snd (alloc ar actor perms ttl X d))"
| delegate: "store_step X d (snd (delegate au grantee perms ttl X d))"
| revoke_subtree: "store_step X d (snd (arena_revoke_subtree ar cap secs X d))"
| revoke_stratum: "store_step X d (snd (arena_revoke_by_stratum ar threshold secs X d))"
| revoke_epoch: "store_step X d (snd (arena_revoke_epoch ar secs X d))"
| revoke_route: "store_step X d (snd (revoke sid v hub X d))"
| revoke_mine: "store_step X d (snd (revoke_mine owner cap X d))"
| transfer_root: "store_step X d (snd (transfer_root ar old new ttl X d))"
| transfer_ownership: "store_step X d (snd (transaction (transfer_ownership_in_tx sid old new) X d))"
| seed: "store_step X d (snd (seed_epoch sid X d))"
| register: "store_step X d (snd (register_bulk sid slug ms X d))"
| invoked: "store_step X d (snd (cap_gate ps sid body X d))"
| consumed: "store_step X d (snd (consume sid i X d))"
| expired: "store_step X d (snd (compact_expired n X d))"
| compacted: "store_step X d (snd (compact_consumed n X d))"
| approval_claimed: "store_step X d (snd (claim_if_pending_in_tx i X d))"
| approval_set: "store_step X d (snd (set_state_in_tx i sid st X d))"
| approval_resolved: "store_step X d (snd (resolve_in_tx i sid st by_actor X d))"
| approval_timed_out: "store_step X d (snd (resolve_if_pending_in_tx i st by_actor X d))"
| approval_voted: "store_step X d (snd (record_vote_in_tx i sid voter v X d))"
| approvals_expired: "store_step X d (snd (expire_timed_out X d))"

abbreviation store_run :: "'j pg \<Rightarrow> 'j store \<Rightarrow> 'j store \<Rightarrow> bool" where
  "store_run X \<equiv> (store_step X)\<^sup>*\<^sup>*"

lemma goes_weaken: "goes X k d e \<Longrightarrow> j \<le> k \<Longrightarrow> goes X j d e"
proof -
  assume g: "goes X k d e" and jk: "j \<le> k"
  have "table_step X k d e \<Longrightarrow> table_step X j d e" for d e :: "'a store"
  proof (induction rule: table_step.induct)
    case (new_receipt d d' r)
    then show ?case using jk by (intro table_step.new_receipt [where r = r]) auto
  qed (auto intro: table_step.intros)
  then have "(table_step X k)\<^sup>*\<^sup>* d e \<Longrightarrow> (table_step X j)\<^sup>*\<^sup>* d e" for d e :: "'a store"
    using mono_rtranclp by metis
  then show ?thesis using g by (simp add: goes_def)
qed

lemma step_implements: "store_step X d e \<Longrightarrow> wf_store d \<Longrightarrow> k \<le> statements d \<Longrightarrow> goes X k d e"
  by (induction rule: store_step.induct)
     (rule implementsD; (intro implements_intros)?; assumption)+

lemma run_goes: "store_run X d e \<Longrightarrow> wf_store d \<Longrightarrow> goes X (statements d) d e"
proof (induction rule: rtranclp_induct)
  case (step e f)
  have 1: "goes X (statements d) d e" using step by blast
  have "goes X (statements d) e f"
    by (rule step_implements) (use step 1 goes_wf in \<open>auto simp: goes_def\<close>)
  then show ?case using 1 goes_trans by blast
qed simp

lemma run_wf: "store_run X d e \<Longrightarrow> wf_store d \<Longrightarrow> wf_store e"
  using run_goes goes_wf by blast

section \<open>Invariants of the tables\<close>

locale table_invariant =
  fixes X :: "'j pg" and k :: nat and holds :: "'j store \<Rightarrow> bool"
  assumes step: "table_step X k d d' \<Longrightarrow> holds d \<Longrightarrow> holds d'"
begin

lemma steps: "(table_step X k)\<^sup>*\<^sup>* d e \<Longrightarrow> holds d \<Longrightarrow> holds e"
  by (induction rule: rtranclp_induct) (auto intro: step)

lemma kept: "goes X k d e \<Longrightarrow> holds d \<Longrightarrow> holds e"
  unfolding goes_def by (blast intro: steps)

end

interpretation well_formed: table_invariant X k wf_store for X k
  by unfold_locales (rule wf_table_step)

section \<open>What outlives a run\<close>

text \<open>A capability keeps its session, actor, epoch, stratum and permissions, and stays revoked.\<close>

definition same_authority :: "'j token_row \<Rightarrow> 'j token_row \<Rightarrow> bool" where
  "same_authority t t' \<longleftrightarrow>
     tk_id t' = tk_id t \<and> tk_session t' = tk_session t \<and> tk_actor t' = tk_actor t \<and>
     tk_epoch t' = tk_epoch t \<and> tk_stratum t' = tk_stratum t \<and> tk_perms t' = tk_perms t \<and>
     tk_expires t' = tk_expires t \<and> (tk_revoked t \<noteq> None \<longrightarrow> tk_revoked t' \<noteq> None)"

definition outlives :: "'j store \<Rightarrow> 'j store \<Rightarrow> bool" where
  "outlives d d' \<longleftrightarrow>
     (\<forall>i t. find_token d i = Some t \<longrightarrow> (\<exists>t'. find_token d' i = Some t' \<and> same_authority t t')) \<and>
     (\<forall>s. current_epoch d s \<le> current_epoch d' s)"

lemma same_authority_refl [simp]: "same_authority t t"
  by (simp add: same_authority_def)

lemma same_authority_trans: "same_authority t u \<Longrightarrow> same_authority u v \<Longrightarrow> same_authority t v"
  by (simp add: same_authority_def)

lemma lifecycle_same_authority: "lifecycle d t t' \<Longrightarrow> same_authority t t'"
  using lifecycle_fields [of d t t'] by (simp add: same_authority_def lifecycle_def)

lemma outlives_refl [simp]: "outlives d d"
  by (simp add: outlives_def)

lemma outlives_trans: "outlives d e \<Longrightarrow> outlives e f \<Longrightarrow> outlives d f"
  unfolding outlives_def by (meson order_trans same_authority_trans)

lemma outlives_same: "tokens d' = tokens d \<Longrightarrow> \<forall>s. current_epoch d s \<le> current_epoch d' s \<Longrightarrow> outlives d d'"
  by (simp add: outlives_def find_token_def)

lemma table_step_outlives: "table_step X k d d' \<Longrightarrow> outlives d d'"
proof (induction rule: table_step.induct)
  case (new_token d' d t)
  then show ?case by (simp add: outlives_def find_token_def find_append current_epoch_def)
next
  case (update d' f d)
  have "same_authority t (f t)" if "find_token d i = Some t" for i t
    using update(5) find_token_set [OF that] lifecycle_same_authority by blast
  then show ?case
    using find_token_update [OF update(1,5)] update(2) by (simp add: outlives_def current_epoch_def)
qed (auto intro: outlives_same simp: same_tokens_def current_epoch_def)

interpretation outlived: table_invariant X k "outlives d" for X k d
  by unfold_locales (blast intro: outlives_trans table_step_outlives)

lemma goes_outlives: "goes X k d e \<Longrightarrow> outlives d e"
  using outlived.kept outlives_refl by blast

section \<open>Receipts\<close>

text \<open>A receipt that is used stays used, or its row goes; its identifier does not come back.\<close>

definition spent :: "'j store \<Rightarrow> string \<Rightarrow> bool" where
  "spent d i \<longleftrightarrow> (\<forall>r \<in> set (receipts d). rx_id r = i \<longrightarrow> rx_used r \<noteq> None)"

lemma table_step_spent:
  "table_step X k d d' \<Longrightarrow> i \<notin> ulid X ` {k..} \<Longrightarrow> spent d i \<Longrightarrow> spent d' i"
  by (induction rule: table_step.induct) (auto simp: spent_def)

interpretation spending: table_invariant X k "\<lambda>d. i \<notin> ulid X ` {k..} \<longrightarrow> spent d i" for X k i
  by unfold_locales (blast intro: table_step_spent)

lemmas goes_spent = spending.kept [rule_format]

text \<open>A receipt that waits for an approval keeps waiting for that one.\<close>

definition waits_for :: "'j store \<Rightarrow> string \<Rightarrow> string \<Rightarrow> bool" where
  "waits_for d i a \<longleftrightarrow> (\<forall>r \<in> set (receipts d). rx_id r = i \<longrightarrow> rx_approval r = Some a)"

lemma table_step_waits_for:
  "table_step X k d d' \<Longrightarrow> i \<notin> ulid X ` {k..} \<Longrightarrow> waits_for d i a \<Longrightarrow> waits_for d' i a"
  by (induction rule: table_step.induct) (auto simp: waits_for_def)

interpretation waiting: table_invariant X k "\<lambda>d. i \<notin> ulid X ` {k..} \<longrightarrow> waits_for d i a" for X k i a
  by unfold_locales (blast intro: table_step_waits_for)

lemmas goes_waits_for = waiting.kept [rule_format]

section \<open>Approvals\<close>

lemma table_step_resolved: "table_step X k d d' \<Longrightarrow> resolved d i st \<Longrightarrow> resolved d' i st"
  by (induction rule: table_step.induct) (auto simp: resolved_def)

interpretation resolution: table_invariant X k "\<lambda>d. resolved d i st" for X k i st
  by unfold_locales (rule table_step_resolved)

lemmas goes_resolved = resolution.kept

end
