(* ===== verification/Broker_Properties.thy ===== *)
theory Broker_Properties
  imports Broker_Runs
begin

text \<open>
  What holds of the capabilities, receipts and approvals of the broker: properties of single
  requests, of the recursive revocation query, and of runs of requests.
\<close>

section \<open>Requests refine the specification\<close>

text \<open>
  C30 (Requests keep the authority tables sound): every request, whatever statement of it fails, is a
  sequence of the changes that the specification allows: capabilities are added with the current
  epoch, used, revoked, moved to a parent nearer the root, never revived or rewritten; epochs only
  grow; a receipt is added under a new identifier, used or dropped. The tables stay well formed, so
  that no capability is its own ancestor.
\<close>

theorem requests_refine:
  assumes "wf_store d" and "store_step X d e"
  shows "goes X (statements d) d e \<and> outlives d e \<and> wf_store e"
  using step_implements [OF assms(2,1)] goes_outlives goes_wf assms(1) by blast

section \<open>Receipts\<close>

lemma consume_receipt_ok:
  assumes "consume_receipt sid i X d = (Inr r, e)"
  shows "\<exists>row \<in> set (receipts d).
    consumable (pg_now X (statements d)) d sid i row \<and> r = row\<lparr>rx_used := Some (pg_now X (statements d))\<rparr> \<and>
    receipts e = map (\<lambda>q. if consumable (pg_now X (statements d)) d sid i q
      then q\<lparr>rx_used := Some (pg_now X (statements d))\<rparr> else q) (receipts d) \<and>
    tokens e = tokens d \<and> approval_rows e = approval_rows d"
proof -
  have c: "consumable now (d\<lparr>statements := n\<rparr>) = consumable now d" for now n
    by (simp add: fun_eq_iff consumable_def current_epoch_def split: option.split)
  show ?thesis
    using assms
    by (auto simp: consume_receipt_def statement_def Let_def c find_Some_iff split: if_splits option.splits)
qed

lemma consume_ok:
  assumes "consume sid i X d = (Inr (Consume_ok r c m args a), e)"
  shows "\<exists>row. consume_receipt sid i X d = (Inr row, e) \<and>
    r = rx_id row \<and> c = rx_cap row \<and> m = rx_method row \<and> args = rx_args row \<and> a = rx_approval row"
  using assms
  by (auto simp: consume_def db_attempt_def internal_def db_return_def db_fail_def
      split: prod.splits sum.splits db_error.splits if_splits)

lemma consume_spends:
  assumes "wf_store d" and "consume sid i X d = (Inr (Consume_ok r c m args a), e)"
  shows "spent e i"
  unfolding spent_def
proof (intro ballI impI)
  let ?now = "pg_now X (statements d)"
  obtain row q where row: "consume_receipt sid i X d = (Inr row, e)"
    and q: "q \<in> set (receipts d)" "consumable ?now d sid i q"
    and e: "receipts e = map (\<lambda>q. if consumable ?now d sid i q then q\<lparr>rx_used := Some ?now\<rparr> else q) (receipts d)"
    using consume_ok [OF assms(2)] consume_receipt_ok by blast
  fix x assume "x \<in> set (receipts e)" and "rx_id x = i"
  then obtain y where y: "y \<in> set (receipts d)" "rx_id y = i"
    "x = (if consumable ?now d sid i y then y\<lparr>rx_used := Some ?now\<rparr> else y)"
    using e by (auto split: if_splits)
  have "rx_id q = i" using q(2) by (simp add: consumable_def)
  then have "y = q"
    using assms(1) q(1) y(1,2) by (auto simp: wf_store_def distinct_map inj_on_def)
  then show "rx_used x \<noteq> None" using q(2) y(3) by simp
qed

text \<open>
  What a consumed receipt proves: when a receipt is consumed, the session, method, arguments
  and capability of the answer are those it was issued for, it had not been used and had not
  expired, its capability is in the session, not revoked, not expired and of the current epoch, and
  if it waits for an approval, that approval is a request of the session and has been approved. The
  receipt is used afterwards.
\<close>

theorem consume_sound:
  assumes "wf_store d" and "consume sid i X d = (Inr (Consume_ok r c m args a), e)"
  shows "r = i \<and> spent e i \<and>
    (\<exists>row \<in> set (receipts d). rx_id row = i \<and> rx_session row = sid \<and> rx_cap row = c \<and>
       rx_method row = m \<and> rx_args row = args \<and> rx_approval row = a \<and>
       rx_used row = None \<and> pg_now X (statements d) < rx_expires row) \<and>
    (\<exists>t. find_token d c = Some t \<and> tk_session t = sid \<and> tk_epoch t = current_epoch d sid \<and>
       unexpired_token (pg_now X (statements d)) t) \<and>
    (\<forall>q. a = Some q \<longrightarrow>
       (\<exists>p \<in> set (approval_rows d). aq_id p = q \<and> aq_session p = sid \<and> aq_state p = ''Approved''))"
proof -
  let ?now = "pg_now X (statements d)"
  obtain row where row: "consume_receipt sid i X d = (Inr row, e)" "r = rx_id row" "c = rx_cap row"
    "m = rx_method row" "args = rx_args row" "a = rx_approval row"
    using consume_ok [OF assms(2)] by blast
  obtain q where q: "q \<in> set (receipts d)" "consumable ?now d sid i q" "row = q\<lparr>rx_used := Some ?now\<rparr>"
    using consume_receipt_ok [OF row(1)] by blast
  obtain t where "t \<in> set (tokens d)" "tk_id t = c" "tk_session t = sid" "tk_revoked t = None"
    "?now < tk_expires t" "tk_epoch t = current_epoch d sid"
    using q(2,3) row(3) by (auto simp: consumable_def)
  moreover from this have "find_token d c = Some t"
    using find_token_unique [of d t] assms(1) by (auto simp: wf_store_def)
  ultimately show ?thesis
    using q row(2-6) consume_spends [OF assms] by (auto simp: consumable_def unexpired_token_def)
qed

lemma consume_spent:
  "spent d i \<Longrightarrow> consume sid i X d \<noteq> (Inr (Consume_ok r c m args a), e)"
  using consume_ok consume_receipt_ok by (fastforce simp: spent_def consumable_def)

text \<open>
  C23 (A receipt is used once): after a receipt has been consumed, no later request and no garbage
  collection lets it be consumed again, provided that identifiers drawn later are different from it.
\<close>

theorem receipt_used_once:
  assumes "wf_store d" and "consume sid i X d = (Inr (Consume_ok r c m args a), e)"
    and "store_run X e f" and "\<forall>n \<ge> statements e. ulid X n \<noteq> i"
  shows "\<nexists>r' c' m' args' a' g. consume sid' i X f = (Inr (Consume_ok r' c' m' args' a'), g)"
proof -
  have "goes X 0 d (snd (consume sid i X d))"
    using assms(1) by (intro implementsD implements_consume) simp_all
  then have "wf_store e" using goes_wf assms(1,2) by fastforce
  then have "goes X (statements e) e f" using run_goes [OF assms(3)] by blast
  moreover have "i \<notin> ulid X ` {statements e..}" using assms(4) by auto
  ultimately have "spent f i" using goes_spent consume_spends [OF assms(1,2)] by blast
  then show ?thesis by (simp add: consume_spent)
qed

section \<open>Revocation by epoch\<close>

definition let_through :: "db_error + invoke_reply \<Rightarrow> bool" where
  "let_through r \<longleftrightarrow> (\<exists>i p. r = Inr (Invoke_approved i p)) \<or> (\<exists>a i. r = Inr (Invoke_pending a i))"

lemma not_let_through_internal [simp]: "\<not> let_through (fst (internal Invoke_refused e X d))"
  by (simp add: let_through_def internal_def db_fail_def db_return_def)

lemma not_let_through_refused [simp]: "\<not> let_through (fst (db_return (Invoke_refused e) X d))"
  by (simp add: let_through_def db_return_def)

text \<open>A capability of an epoch that is over.\<close>

definition superseded :: "'j store \<Rightarrow> string \<Rightarrow> bool" where
  "superseded d i \<longleftrightarrow>
     (\<exists>t. find_token d i = Some t \<and> tk_epoch t < current_epoch d (tk_session t))"

lemma superseded_not_let_through:
  assumes "superseded d (ib_cap body)"
  shows "\<not> let_through (fst (cap_gate ps sid body X d))"
proof -
  have "current_epoch (d\<lparr>statements := n\<rparr>) s = current_epoch d s" for n s
    by (simp add: current_epoch_def)
  then show ?thesis
    using assms
    by (auto simp: superseded_def cap_gate_def db_attempt_def get_cap_def read_epoch_def statement_def
        listed_def Let_def split: prod.split sum.split db_error.split)
qed

lemma superseded_not_consumed:
  assumes "wf_store d" and "superseded d c"
  shows "consume sid i X d \<noteq> (Inr (Consume_ok r c m args a), e)"
proof
  assume "consume sid i X d = (Inr (Consume_ok r c m args a), e)"
  from consume_ok [OF this] obtain row where "consume_receipt sid i X d = (Inr row, e)" "c = rx_cap row"
    by blast
  with consume_receipt_ok obtain q where "consumable (pg_now X (statements d)) d sid i q" "rx_cap q = c"
    by fastforce
  then obtain t where t: "t \<in> set (tokens d)" "tk_id t = c" "tk_session t = rx_session q"
    "tk_epoch t = current_epoch d (rx_session q)"
    by (auto simp: consumable_def)
  then have "find_token d c = Some t" using assms(1) find_token_unique by (auto simp: wf_store_def)
  then show False using assms(2) t by (simp add: superseded_def)
qed

lemma superseded_outlives:
  assumes "superseded d i" and o: "outlives d e"
  shows "superseded e i"
proof -
  obtain t where t: "find_token d i = Some t" "tk_epoch t < current_epoch d (tk_session t)"
    using assms(1) by (auto simp: superseded_def)
  then obtain t' where "find_token e i = Some t'" "same_authority t t'"
    using o unfolding outlives_def by blast
  moreover have "current_epoch d (tk_session t) \<le> current_epoch e (tk_session t)"
    using o by (simp add: outlives_def)
  ultimately show ?thesis using t(2) by (auto simp: superseded_def same_authority_def)
qed

subsection \<open>The epoch is read and advanced in one request\<close>

named_theorems keeps_epochs_intros

definition keeps_epochs :: "('j, 'a) db_op \<Rightarrow> bool" where
  "keeps_epochs m \<longleftrightarrow> (\<forall>X d. epochs (snd (m X d)) = epochs d)"

lemma keeps_epochs_attempt [keeps_epochs_intros]:
  "keeps_epochs m \<Longrightarrow> (\<And>x. keeps_epochs (k x)) \<Longrightarrow> keeps_epochs (db_attempt m k)"
  by (simp add: keeps_epochs_def db_attempt_def split_def)

lemma keeps_epochs_bind [keeps_epochs_intros]:
  "keeps_epochs m \<Longrightarrow> (\<And>x. keeps_epochs (k x)) \<Longrightarrow> keeps_epochs (db_bind m k)"
  by (simp add: keeps_epochs_def db_bind_def split_def split: sum.split)

lemma keeps_epochs_statement:
  "(\<And>now d. epochs (snd (f now d)) = epochs d) \<Longrightarrow> keeps_epochs (statement f)"
  by (simp add: keeps_epochs_def statement_def Let_def)

lemma keeps_epochs_simple [keeps_epochs_intros]:
  "keeps_epochs (db_return x)" "keeps_epochs (db_fail e)" "keeps_epochs (get_parent_id i)"
  "keeps_epochs (read_epoch sid)" "keeps_epochs (current_seq sid)" "keeps_epochs (drain_deadline n)"
  by (simp_all add: keeps_epochs_def db_return_def db_fail_def get_parent_id_def read_epoch_def
      current_seq_def drain_deadline_def statement_def Let_def split: option.split)

lemma keeps_epochs_update [keeps_epochs_intros]:
  "keeps_epochs (reroot_caps sid i p)" "keeps_epochs (revoke_cap_subtree i)"
  "keeps_epochs (revoke_by_stratum sid ep n)" "keeps_epochs (revoke_epoch sid ep)"
  "keeps_epochs (delete_for_caps ids)"
  unfolding reroot_caps_def revoke_cap_subtree_def revoke_by_stratum_def revoke_epoch_def delete_for_caps_def
  by (auto intro!: keeps_epochs_statement keeps_epochs_simple
      simp: update_tokens_def Let_def split: option.split)

lemma keeps_epochs_revoke_caps [keeps_epochs_intros]: "keeps_epochs (revoke_caps sid v closed)"
  unfolding revoke_caps_def Let_def by (auto intro!: keeps_epochs_intros)

lemma keeps_epochs_membership [keeps_epochs_intros]: "keeps_epochs (require_membership sid a r)"
  unfolding require_membership_def
  by (intro keeps_epochs_bind keeps_epochs_statement) (auto intro: keeps_epochs_simple split: option.split)

lemma keeps_epochsD: "keeps_epochs m \<Longrightarrow> epochs (snd (m X d)) = epochs d"
  by (simp add: keeps_epochs_def)

lemma attempt_eq: "db_attempt m k X d = k (fst (m X d)) X (snd (m X d))"
  by (simp add: db_attempt_def split_def)

lemma bind_eq:
  "db_bind m k X d =
     (case fst (m X d) of Inl e \<Rightarrow> (Inl e, snd (m X d)) | Inr x \<Rightarrow> k x X (snd (m X d)))"
  by (simp add: db_bind_def split_def)

lemma after_advance_reply:
  "after_advance sid v hub ids dseq deadline closed new_epoch X d =
     (Inr (Revoke_ok n c k s t, fence), e) \<Longrightarrow>
   n = new_epoch \<and> c = closed \<and>
   e = snd (after_advance sid v hub ids dseq deadline closed new_epoch X d)"
  by (auto simp: after_advance_def attempt_eq drawing_def db_return_def)

lemma read_epoch_value: "fst (read_epoch sid X d) = Inr n \<Longrightarrow> n = current_epoch d sid"
  by (auto simp: read_epoch_def statement_def current_epoch_def Let_def split: if_splits)

lemma internal_no_reply: "internal refuse_revoke e X d \<noteq> (Inr (Revoke_ok n c k s t, fence), f)"
  by (auto simp: internal_def refuse_revoke_def db_return_def db_fail_def)

lemma revoke_ok_epoch:
  fixes X :: "'j pg"
  assumes wf: "wf_store d" and ok: "revoke sid v hub X d = (Inr (Revoke_ok n c k s t, fence), e)"
  shows "c = current_epoch d sid \<and> n = c + 1 \<and> n \<le> current_epoch e sid"
proof -
  define d1 where "d1 = snd (require_membership sid (vb_by v) Collaborator X d)"
  define d2 where "d2 = snd (read_epoch sid X d1)"
  define d3 where "d3 = snd (current_seq sid X d2)"
  define d4 where "d4 = snd (drain_deadline (vb_drain_secs v) X d3)"
  let ?d6 = "\<lambda>ids. snd (delete_for_caps ids X (snd (revoke_caps sid v c X d4)))"
  note states = d1_def d2_def d3_def d4_def
  have "\<exists>ids dseq deadline. fst (read_epoch sid X d1) = Inr c \<and> fst (advance_epoch sid X (?d6 ids)) = Inr n \<and>
    e = snd (after_advance sid v hub ids dseq deadline c n X (snd (advance_epoch sid X (?d6 ids))))"
    using ok
    by (auto simp: revoke_def attempt_eq bind_eq internal_no_reply refuse_revoke_def db_return_def states
        dest!: after_advance_reply split: sum.splits if_splits)
  then obtain ids dseq deadline where c: "fst (read_epoch sid X d1) = Inr c"
    and n: "fst (advance_epoch sid X (?d6 ids)) = Inr n"
    and e: "e = snd (after_advance sid v hub ids dseq deadline c n X (snd (advance_epoch sid X (?d6 ids))))"
    by blast
  have same: "epochs (?d6 ids) = epochs d" "epochs d1 = epochs d"
    unfolding states
    by (simp_all add: keeps_epochsD keeps_epochs_simple keeps_epochs_update keeps_epochs_revoke_caps
        keeps_epochs_membership)
  have "c = current_epoch d sid"
    using read_epoch_value [OF c] same(2) by (simp add: current_epoch_def)
  moreover have "n = c + 1 \<and> current_epoch (snd (advance_epoch sid X (?d6 ids))) sid = n"
    using n same(1) calculation
    by (auto simp: advance_epoch_def statement_def current_epoch_def Let_def split: if_splits option.splits)
  moreover have "goes X 0 (snd (advance_epoch sid X (?d6 ids))) e"
  proof -
    have "wf_store (snd (advance_epoch sid X (?d6 ids)))"
      unfolding states
      by (intro goes_wf [OF implementsD, where k = 0] implements_intros wf) simp_all
    then show ?thesis unfolding e by (intro implementsD implements_intros) simp_all
  qed
  moreover from this have "current_epoch (snd (advance_epoch sid X (?d6 ids))) sid \<le> current_epoch e sid"
    by (auto dest: goes_outlives simp: outlives_def)
  ultimately show ?thesis by simp
qed

lemma revoke_supersedes:
  fixes X :: "'j pg"
  assumes wf: "wf_store d" and ok: "revoke sid v hub X d = (Inr (Revoke_ok n c k s t, fence), e)"
    and cap: "find_token d i = Some u" "tk_session u = sid"
  shows "superseded e i"
proof -
  have "goes X (statements d) d (snd (revoke sid v hub X d))"
    using wf by (intro implementsD implements_intros) simp_all
  then obtain u' where u: "find_token e i = Some u'" "same_authority u u'"
    using goes_outlives cap(1) ok by (fastforce simp: outlives_def)
  have "tk_epoch u \<le> current_epoch d sid"
    using wf find_token_set [OF cap(1)] cap(2) by (auto simp: wf_store_def wf_token_def)
  then have "tk_epoch u < current_epoch e sid" using revoke_ok_epoch [OF wf ok] by simp
  then show ?thesis using u cap(2) by (auto simp: superseded_def same_authority_def)
qed

text \<open>
  C22 (A revocation closes the epoch for good): a revocation that is answered with success closes
  exactly the current epoch of its session and opens the next one, whatever its strategy; from then
  on every capability that the session had is refused by every invocation, under any standing
  policies, and no receipt that was issued to it can be consumed, whatever requests are served in
  between.
\<close>

theorem revocation_closes_epoch:
  assumes "wf_store d" and "revoke sid v hub X d = (Inr (Revoke_ok n c k s t, fence), e)"
    and "find_token d (ib_cap body) = Some u" and "tk_session u = sid" and "store_run X e f"
  shows "c = current_epoch d sid \<and> n = c + 1 \<and>
    \<not> let_through (fst (cap_gate ps sid' body X f)) \<and>
    (\<forall>i r m args a g. consume sid' i X f \<noteq> (Inr (Consume_ok r (ib_cap body) m args a), g))"
proof -
  have "goes X 0 d (snd (revoke sid v hub X d))"
    using assms(1) by (intro implementsD implements_intros) simp_all
  then have wf: "wf_store e" using goes_wf assms(1,2) by fastforce
  have "superseded e (ib_cap body)" using revoke_supersedes [OF assms(1-4)] .
  then have f: "superseded f (ib_cap body)"
    using superseded_outlives goes_outlives [OF run_goes [OF assms(5) wf]] by blast
  show ?thesis
    using revoke_ok_epoch [OF assms(1,2)] superseded_not_let_through [OF f]
      superseded_not_consumed [OF run_wf [OF assms(5) wf] f] by blast
qed

end
