(* ===== verification/Invoke_Properties.thy ===== *)
theory Invoke_Properties
  imports Broker_Properties
begin

text \<open>
  What an invocation that is let through proves, and what becomes of one that waits for an approval.
\<close>

section \<open>The gates\<close>

text \<open>The receipt binds the invocation.\<close>

definition binds :: "'j receipt_row \<Rightarrow> string \<Rightarrow> 'j invoke_body \<Rightarrow> string option \<Rightarrow> bool" where
  "binds r sid body approval \<longleftrightarrow>
     rx_session r = sid \<and> rx_cap r = ib_cap body \<and> rx_method r = ib_method body \<and>
     rx_args r = ib_args body \<and> rx_approval r = approval \<and> rx_used r = None"

lemma internal_refuses: "internal Invoke_refused x X d = (Inr reply, e) \<Longrightarrow> \<exists>y. reply = Invoke_refused y"
  by (auto simp: internal_def db_fail_def db_return_def split: if_splits)

lemma issue_ok:
  assumes "issue_or_500 sid body ttl approval ok X d = (Inr reply, e)" and "\<nexists>y. reply = Invoke_refused y"
  shows "\<exists>r. reply = ok (rx_id r) \<and> binds r sid body approval \<and> receipts e = receipts d @ [r] \<and>
    (\<forall>q \<in> set (receipts d). rx_id q \<noteq> rx_id r) \<and> approval_rows e = approval_rows d"
  using assms
  by (auto simp: issue_or_500_def attempt_eq issue_receipt_def statement_def db_return_def binds_def Let_def
      dest!: internal_refuses split: sum.splits option.splits if_splits)

lemma stamp_append_other:
  assumes "stamp_append sid X d = (r, e)"
  shows "receipts e = receipts d \<and> approval_rows e = approval_rows d"
proof -
  have 1: "receipts (snd (alloc_seq sid X d)) = receipts d \<and> approval_rows (snd (alloc_seq sid X d)) = approval_rows d"
    for d by (simp add: alloc_seq_def statement_def Let_def split: option.split)
  have 2: "receipts (snd (append_event sid n X d)) = receipts d \<and>
      approval_rows (snd (append_event sid n X d)) = approval_rows d"
    for d n by (simp add: append_event_def statement_def Let_def)
  have 3: "receipts (snd (statement (\<lambda>now d. (Inr (), d)) X d)) = receipts d \<and>
      approval_rows (snd (statement (\<lambda>now d. (Inr (), d)) X d)) = approval_rows d"
    for d by (simp add: statement_def Let_def)
  have "receipts (snd (stamp_append sid X d)) = receipts d \<and>
      approval_rows (snd (stamp_append sid X d)) = approval_rows d"
    by (simp add: stamp_append_def bind_eq db_return_def 1 2 3 split: sum.split)
  then show ?thesis using assms by simp
qed

lemma create_approval_ok:
  assumes "create_approval sid actor tool args n X d = (Inr (Some (a, t)), e)"
  shows "receipts e = receipts d \<and>
    ((\<exists>q \<in> set (approval_rows d). aq_id q = a) \<and> approval_rows e = approval_rows d \<or>
     (\<exists>q. approval_rows e = approval_rows d @ [q] \<and> aq_id q = a \<and> aq_session q = sid \<and> aq_actor q = actor \<and>
       aq_tool q = tool \<and> aq_args q = args \<and> aq_state q = ''Pending''))"
  using assms
  by (auto simp: create_approval_def with_expiry_def attempt_eq transaction_def begin_tx_def tx_body_def
      bind_eq statement_def insert_approval_def db_return_def Let_def
      dest!: stamp_append_other split: option.splits sum.splits if_splits prod.splits)

lemma approval_gate_approved:
  assumes "approval_gate sid body cap m X d = (Inr (Invoke_approved i p), e)"
  shows "\<not> p \<and> \<not> mt_requires_approval m \<and>
    (\<exists>r. i = rx_id r \<and> binds r sid body None \<and> receipts e = receipts d @ [r])"
proof (cases "mt_requires_approval m")
  case True
  then show ?thesis
    using assms
    by (auto simp: approval_gate_def bind_eq db_return_def split: sum.splits option.splits dest!: issue_ok)
next
  case False
  then show ?thesis using assms by (auto simp: approval_gate_def dest!: issue_ok)
qed

lemma approval_gate_pending:
  assumes "approval_gate sid body cap m X d = (Inr (Invoke_pending a i), e)"
  shows "mt_requires_approval m \<and>
    (\<exists>r. i = rx_id r \<and> binds r sid body (Some a) \<and> receipts e = receipts d @ [r] \<and>
       (\<forall>q \<in> set (receipts d). rx_id q \<noteq> i)) \<and>
    ((\<exists>q \<in> set (approval_rows d). aq_id q = a) \<or>
     (\<exists>q. approval_rows e = approval_rows d @ [q] \<and> aq_id q = a \<and> aq_session q = sid \<and>
       aq_actor q = tk_actor cap \<and> aq_tool q = mt_name m \<and> aq_args q = ib_args body \<and>
       aq_state q = ''Pending''))"
proof (cases "mt_requires_approval m")
  case False
  then show ?thesis using assms by (auto simp: approval_gate_def dest!: issue_ok)
next
  case True
  obtain t d1 where c: "create_approval sid (tk_actor cap) (mt_name m) (ib_args body) (ib_timeout_secs body) X d =
      (Inr (Some (a, t)), d1)"
    and j: "issue_or_500 sid body (pending_ttl (ib_timeout_secs body)) (Some a) (\<lambda>i. Invoke_pending a i) X d1 =
      (Inr (Invoke_pending a i), e)"
    using assms True
    by (auto simp: approval_gate_def db_bind_def db_return_def split: sum.splits option.splits prod.splits
        dest: issue_ok)
  show ?thesis using True create_approval_ok [OF c] issue_ok [OF j] by auto
qed

text \<open>The checks before the policies.\<close>

lemma method_gate_ok:
  assumes "method_gate ps sid body cap X d = (Inr reply, e)" and "\<nexists>y. reply = Invoke_refused y"
  shows "\<exists>m \<in> set (methods d). mt_session m = sid \<and> mt_address m = ib_method body \<and>
    permitted (parse_permissions X cap) (ib_method body) \<and>
    policy_gate ps sid body cap m X (d\<lparr>statements := Suc (statements d)\<rparr>) = (Inr reply, e)"
proof -
  consider x where "fst (get_by_address sid (ib_method body) X d) = Inl x"
    | "fst (get_by_address sid (ib_method body) X d) = Inr None"
    | m where "fst (get_by_address sid (ib_method body) X d) = Inr (Some m)"
    by (metis not_None_eq old.sum.exhaust)
  then show ?thesis
  proof cases
    case 3
    then have "m \<in> set (methods d) \<and> mt_session m = sid \<and> mt_address m = ib_method body \<and>
        snd (get_by_address sid (ib_method body) X d) = d\<lparr>statements := Suc (statements d)\<rparr>"
      by (auto simp: get_by_address_def statement_def Let_def find_Some_iff split: if_splits)
    then show ?thesis
      using assms 3 by (auto simp: method_gate_def attempt_eq db_return_def split: if_splits)
  qed (use assms in \<open>auto simp: method_gate_def attempt_eq db_return_def dest: internal_refuses\<close>)
qed

lemma read_epoch_ok: "read_epoch sid X d = (Inr n, e) \<Longrightarrow> n = current_epoch d sid \<and> e = d\<lparr>statements := Suc (statements d)\<rparr>"
  by (auto simp: read_epoch_def statement_def current_epoch_def Let_def split: if_splits)

lemma get_cap_ok:
  "get_cap i X d = (Inr t, e) \<Longrightarrow>
   \<exists>u. find_token d i = Some u \<and> t = listed u \<and> e = d\<lparr>statements := Suc (statements d)\<rparr>"
  by (auto simp: get_cap_def statement_def Let_def split: if_splits option.splits)

lemma listed_fields [simp]:
  "tk_session (listed u) = tk_session u" "tk_epoch (listed u) = tk_epoch u"
  "tk_expires (listed u) = tk_expires u" "tk_revoked (listed u) = tk_revoked u"
  "tk_actor (listed u) = tk_actor u" "parse_permissions X (listed u) = parse_permissions X u"
  by (simp_all add: listed_def parse_permissions_def)

lemma cap_gate_ok:
  assumes "cap_gate ps sid body X d = (Inr reply, e)" and "\<nexists>y. reply = Invoke_refused y"
  shows "\<exists>u. find_token d (ib_cap body) = Some u \<and> tk_session u = sid \<and> tk_revoked u = None \<and>
    pg_now X (Suc (statements d)) \<le> tk_expires u \<and> tk_epoch u = current_epoch d sid \<and>
    method_gate ps sid body (listed u) X (d\<lparr>statements := Suc (Suc (statements d))\<rparr>) = (Inr reply, e)"
proof -
  obtain r d1 where g: "get_cap (ib_cap body) X d = (r, d1)" by force
  show ?thesis
  proof (cases r)
    case (Inl x)
    then show ?thesis
      using assms g
      by (cases x) (auto simp: cap_gate_def db_attempt_def db_return_def dest: internal_refuses)
  next
    case (Inr t)
    obtain u where u: "find_token d (ib_cap body) = Some u" "t = listed u" "d1 = d\<lparr>statements := Suc (statements d)\<rparr>"
      using get_cap_ok g Inr by blast
    have live: "tk_session u = sid" "pg_now X (Suc (statements d)) \<le> tk_expires u" "tk_revoked u = None"
      and e: "db_attempt (read_epoch sid)
        (case_sum (internal Invoke_refused) (\<lambda>ep.
           if tk_epoch u \<noteq> ep then db_return (Invoke_refused (Status 410))
           else method_gate ps sid body (listed u))) X d1 = (Inr reply, e)"
      using assms g Inr u(2,3)
      by (auto simp: cap_gate_def db_attempt_def [of "get_cap (ib_cap body)"] db_return_def split: if_splits)
    obtain q d2 where q: "read_epoch sid X d1 = (q, d2)" by force
    show ?thesis
    proof (cases q)
      case (Inl x)
      then show ?thesis using e q assms(2) by (auto simp: db_attempt_def dest: internal_refuses)
    next
      case (Inr n)
      have "n = current_epoch d sid \<and> d2 = d\<lparr>statements := Suc (Suc (statements d))\<rparr>"
        using read_epoch_ok q Inr u(3) by (fastforce simp: current_epoch_def)
      then show ?thesis
        using e q Inr u live assms(2)
        by (auto simp: db_attempt_def db_return_def split: if_splits)
    qed
  qed
qed

section \<open>Soundness of an invocation\<close>

text \<open>The capability with which a tool may be called: live, of the session and of its epoch.\<close>

definition authorizes :: "'j pg \<Rightarrow> 'j store \<Rightarrow> string \<Rightarrow> 'j invoke_body \<Rightarrow> 'j token_row \<Rightarrow> bool" where
  "authorizes X d sid body u \<longleftrightarrow>
     find_token d (ib_cap body) = Some u \<and> tk_session u = sid \<and> tk_revoked u = None \<and>
     pg_now X (Suc (statements d)) \<le> tk_expires u \<and> tk_epoch u = current_epoch d sid \<and>
     permitted (parse_permissions X u) (ib_method body)"

lemma policy_gate_approved:
  assumes "policy_gate ps sid body cap m X d = (Inr (Invoke_approved i p), e)"
  shows "(if p then standing_decision ps (tk_actor cap) (ib_method body) = Some AutoApprove
     else standing_decision ps (tk_actor cap) (ib_method body) = None \<and> \<not> mt_requires_approval m) \<and>
    (\<exists>r. i = rx_id r \<and> binds r sid body None \<and> receipts e = receipts d @ [r])"
  using assms
  by (auto simp: policy_gate_def db_return_def split: option.splits policy_decision.splits
      dest: issue_ok approval_gate_approved)

lemma policy_gate_pending:
  assumes "policy_gate ps sid body cap m X d = (Inr (Invoke_pending a i), e)"
  shows "standing_decision ps (tk_actor cap) (ib_method body) = None \<and>
    approval_gate sid body cap m X d = (Inr (Invoke_pending a i), e)"
  using assms
  by (auto simp: policy_gate_def db_return_def split: option.splits policy_decision.splits dest: issue_ok)

text \<open>
  C24 (An approved invocation is authorized): when an invocation is answered with a receipt that can
  be used at once, its capability is live, in the session and of the current epoch, its permissions
  cover the method, the method is registered in the session, either a standing policy approves it
  or no policy speaks about it and the method needs no approval, and the receipt that is added is
  bound to the session, capability, method and arguments of the request.
\<close>

theorem approved_invocation_authorized:
  assumes "cap_gate ps sid body X d = (Inr (Invoke_approved i p), e)"
  shows "\<exists>u m. authorizes X d sid body u \<and>
    m \<in> set (methods d) \<and> mt_session m = sid \<and> mt_address m = ib_method body \<and>
    (if p then standing_decision ps (tk_actor u) (ib_method body) = Some AutoApprove
     else standing_decision ps (tk_actor u) (ib_method body) = None \<and> \<not> mt_requires_approval m) \<and>
    (\<exists>r. i = rx_id r \<and> binds r sid body None \<and> receipts e = receipts d @ [r])"
proof -
  obtain u where u: "find_token d (ib_cap body) = Some u" "tk_session u = sid" "tk_revoked u = None"
    "pg_now X (Suc (statements d)) \<le> tk_expires u" "tk_epoch u = current_epoch d sid"
    and m: "method_gate ps sid body (listed u) X (d\<lparr>statements := Suc (Suc (statements d))\<rparr>)
      = (Inr (Invoke_approved i p), e)"
    using cap_gate_ok [OF assms] by auto
  from method_gate_ok [OF m] show ?thesis
    using u by (auto simp: authorizes_def dest!: policy_gate_approved)
qed

text \<open>
  A pending invocation has asked: when an invocation is answered with an approval to wait for,
  the same checks have passed, no standing policy speaks about the call and the method needs
  approval; the receipt that is added is bound to the request and waits for that approval, and the
  approval request shows the people who vote the very arguments that the receipt is bound to.
\<close>

theorem pending_invocation_asked:
  assumes "cap_gate ps sid body X d = (Inr (Invoke_pending a i), e)"
    and "\<forall>q \<in> set (approval_rows d). aq_id q \<noteq> a"
  shows "\<exists>u m. authorizes X d sid body u \<and>
    m \<in> set (methods d) \<and> mt_session m = sid \<and> mt_address m = ib_method body \<and>
    standing_decision ps (tk_actor u) (ib_method body) = None \<and> mt_requires_approval m \<and>
    (\<exists>r. i = rx_id r \<and> binds r sid body (Some a) \<and> receipts e = receipts d @ [r]) \<and>
    (\<exists>q. approval_rows e = approval_rows d @ [q] \<and> aq_id q = a \<and> aq_session q = sid \<and>
       aq_actor q = tk_actor u \<and> aq_tool q = mt_name m \<and> aq_args q = ib_args body \<and>
       aq_state q = ''Pending'')"
proof -
  obtain u where u: "find_token d (ib_cap body) = Some u" "tk_session u = sid" "tk_revoked u = None"
    "pg_now X (Suc (statements d)) \<le> tk_expires u" "tk_epoch u = current_epoch d sid"
    and m: "method_gate ps sid body (listed u) X (d\<lparr>statements := Suc (Suc (statements d))\<rparr>)
      = (Inr (Invoke_pending a i), e)"
    using cap_gate_ok [OF assms(1)] by auto
  obtain r where r: "r \<in> set (methods d)" "mt_session r = sid" "mt_address r = ib_method body"
    "permitted (parse_permissions X u) (ib_method body)"
    and p: "policy_gate ps sid body (listed u) r X (d\<lparr>statements := Suc (Suc (Suc (statements d)))\<rparr>) =
      (Inr (Invoke_pending a i), e)"
    using method_gate_ok [OF m] by auto
  have "authorizes X d sid body u" using u r by (simp add: authorizes_def)
  then show ?thesis
    using r policy_gate_pending [OF p] approval_gate_pending [of sid body "listed u" r X _ a i e] assms(2)
    by (intro exI [of _ u] exI [of _ r]) fastforce
qed

section \<open>A denied invocation\<close>

lemma pending_waits:
  assumes "cap_gate ps sid body X d = (Inr (Invoke_pending a i), e)"
  shows "waits_for e i a"
proof -
  obtain u where m: "method_gate ps sid body (listed u) X (d\<lparr>statements := Suc (Suc (statements d))\<rparr>)
      = (Inr (Invoke_pending a i), e)"
    using cap_gate_ok [OF assms] by auto
  obtain r where "policy_gate ps sid body (listed u) r X (d\<lparr>statements := Suc (Suc (Suc (statements d)))\<rparr>) =
      (Inr (Invoke_pending a i), e)"
    using method_gate_ok [OF m] by auto
  from policy_gate_pending [OF this] show ?thesis
    by (auto simp: waits_for_def binds_def dest!: approval_gate_pending)
qed

text \<open>
  C21 (A call that was not approved never runs): if the approval that an invocation waits for is
  resolved with any other answer than approval, whether denied, expired or withdrawn, then its
  receipt can never be consumed, whatever requests are served before and after, provided that
  identifiers drawn later differ from the receipt's.
\<close>

theorem refused_never_runs:
  assumes "wf_store d" and "cap_gate ps sid body X d = (Inr (Invoke_pending a i), e)"
    and "store_run X e f" and "resolved f a st" and "st \<noteq> ''Approved''" and "store_run X f g"
    and "\<forall>n \<ge> statements e. ulid X n \<noteq> i"
  shows "consume sid' i X g \<noteq> (Inr (Consume_ok r c m args b), h)"
proof
  assume ok: "consume sid' i X g = (Inr (Consume_ok r c m args b), h)"
  have "goes X 0 d (snd (cap_gate ps sid body X d))"
    using assms(1) by (intro implementsD implements_intros) simp_all
  then have e: "wf_store e" using goes_wf assms(1,2) by fastforce
  have run: "goes X (statements e) e g" using run_goes [OF rtranclp_trans [OF assms(3,6)] e] .
  have "i \<notin> ulid X ` {statements e..}" using assms(7) by auto
  then have w: "waits_for g i a" using goes_waits_for [OF run] pending_waits [OF assms(2)] by blast
  have "resolved g a st" using goes_resolved run_goes [OF assms(6) run_wf [OF assms(3) e]] assms(4) by blast
  moreover obtain q where "q \<in> set (receipts g)" "consumable (pg_now X (statements g)) g sid' i q"
    using consume_ok [OF ok] consume_receipt_ok by blast
  ultimately show False
    using w assms(5) by (auto simp: waits_for_def consumable_def resolved_def)
qed

end
