(* ===== verification/Cap_Trees.thy ===== *)
theory Cap_Trees
  imports Cap_Refinement
begin

text \<open>
  The recursive queries over the tree of capabilities (\<open>revoke_cap_subtree\<close> and \<open>lineage\<close> of
  \<open>Cap_Store\<close>): they end on well-formed tables, and what they return.
\<close>

section \<open>Down the tree\<close>

text \<open>\<open>live_below rows c i\<close>: \<open>i\<close> is \<open>c\<close> or hangs under it by links to capabilities not revoked.\<close>

inductive live_below :: "'j token_row list \<Rightarrow> string \<Rightarrow> string \<Rightarrow> bool" for rows c where
  self: "live_below rows c c"
| child:
    "live_below rows c p \<Longrightarrow> t \<in> set rows \<Longrightarrow> tk_parent t = Some p \<Longrightarrow> tk_revoked t = None \<Longrightarrow>
     live_below rows c (tk_id t)"

lemma live_children_iff:
  "q \<in> set (live_children rows ps) \<longleftrightarrow>
     (\<exists>p \<in> set ps. \<exists>t \<in> set rows. tk_parent t = Some p \<and> tk_revoked t = None \<and> q = tk_id t)"
  by (auto simp: live_children_def)

lemma live_below_trans:
  assumes "live_below rows q i" and "t \<in> set rows" and "tk_parent t = Some p" and "tk_revoked t = None"
    and "q = tk_id t"
  shows "live_below rows p i"
  using assms
  by (induction rule: live_below.induct) (auto intro: live_below.intros)

lemma live_below_first:
  assumes "live_below rows p i"
  shows "i = p \<or> (\<exists>t \<in> set rows. tk_parent t = Some p \<and> tk_revoked t = None \<and> live_below rows (tk_id t) i)"
  using assms
  by (induction rule: live_below.induct) (auto intro: live_below.intros)

lemma live_below_front:
  "{i. \<exists>p \<in> set ps. live_below rows p i} =
     set ps \<union> {i. \<exists>q \<in> set (live_children rows ps). live_below rows q i}" (is "?L = ?R")
proof
  show "?L \<subseteq> ?R"
    using live_below_first by (fastforce simp: live_children_iff)
  show "?R \<subseteq> ?L"
    using live_below_trans live_below.self by (fastforce simp: live_children_iff)
qed

lemma descend_spec:
  assumes "descend rows front acc = Some res"
  shows "set res = set acc \<union> {i. \<exists>p \<in> set front. live_below rows p i}"
  using assms
proof (rule descend.raw_induct [rotated])
  fix self and rows :: "'a token_row list" and front acc res
  assume IH: "\<And>rows front acc res. self rows front acc = Some res \<Longrightarrow>
      set res = set acc \<union> {i. \<exists>p \<in> set front. live_below (rows :: 'a token_row list) p i}"
    and eq: "(if front = [] then Some acc else self rows (live_children rows front) (acc @ front)) = Some res"
  show "set res = set acc \<union> {i. \<exists>p \<in> set front. live_below rows p i}"
  proof (cases "front = []")
    case False
    then have "set res = set (acc @ front) \<union> {i. \<exists>p \<in> set (live_children rows front). live_below rows p i}"
      using IH eq by auto
    then show ?thesis by (simp add: live_below_front [of front] Un_assoc)
  qed (use eq in simp)
qed

text \<open>Strata grow along the links, so every round of the query starts deeper than the one before.\<close>

definition deeper :: "'j token_row list \<Rightarrow> nat \<Rightarrow> string list \<Rightarrow> bool" where
  "deeper rows n front \<longleftrightarrow>
     (\<forall>p \<in> set front. \<forall>t \<in> set rows. tk_parent t = Some p \<longrightarrow> int n \<le> tk_stratum t)"

lemma child_stratum:
  assumes "wf_store d" and "t \<in> set (tokens d)" and "tk_parent t = Some p"
  shows "\<exists>r. find_token d p = Some r \<and> tk_stratum r < tk_stratum t"
  using assms by (auto simp: wf_store_def wf_token_def parent_ok_def split: option.splits)

lemma deeper_step:
  assumes wf: "wf_store d" and "deeper (tokens d) n front"
  shows "deeper (tokens d) (Suc n) (live_children (tokens d) front)"
  unfolding deeper_def
proof (intro ballI impI)
  fix q u assume q: "q \<in> set (live_children (tokens d) front)" and u: "u \<in> set (tokens d)" "tk_parent u = Some q"
  obtain p t where t: "p \<in> set front" "t \<in> set (tokens d)" "tk_parent t = Some p" "q = tk_id t"
    using q by (auto simp: live_children_iff)
  have "find_token d q = Some t"
    using wf t(2,4) find_token_unique by (auto simp: wf_store_def)
  then have "tk_stratum t < tk_stratum u" using child_stratum [OF wf u] by simp
  moreover have "int n \<le> tk_stratum t" using assms(2) t by (auto simp: deeper_def)
  ultimately show "int (Suc n) \<le> tk_stratum u" by simp
qed

lemma descend_ends:
  assumes wf: "wf_store d" and m: "\<forall>t \<in> set (tokens d). tk_stratum t < int m"
  shows "deeper (tokens d) n front \<Longrightarrow> n \<le> m \<Longrightarrow> \<exists>res. descend (tokens d) front acc = Some res"
proof (induction "m - n" arbitrary: n front acc)
  case 0
  have "live_children (tokens d) front = []"
  proof (rule ccontr)
    assume "live_children (tokens d) front \<noteq> []"
    then obtain q where "q \<in> set (live_children (tokens d) front)" using list.set_intros(1) neq_Nil_conv by metis
    then obtain t where "t \<in> set (tokens d)" "int n \<le> tk_stratum t"
      using 0(2) by (auto simp: live_children_iff deeper_def)
    then show False using m 0(1,3) by fastforce
  qed
  then show ?case by (subst descend.simps) (simp add: descend.simps)
next
  case (Suc k)
  show ?case
  proof (cases "front = []")
    case True
    then show ?thesis by (simp add: descend.simps)
  next
    case False
    have "\<exists>res. descend (tokens d) (live_children (tokens d) front) (acc @ front) = Some res"
      by (rule Suc(1) [of "Suc n"]) (use Suc(2-4) deeper_step [OF wf Suc(3)] in auto)
    then show ?thesis using False by (simp add: descend.simps [of _ front])
  qed
qed

lemma stratum_bound: "\<exists>m. \<forall>t \<in> set ts. tk_stratum t < int m"
proof -
  have "tk_stratum t < int (nat (Max (tk_stratum ` set ts)) + 1)" if "t \<in> set ts" for t
  proof -
    have "tk_stratum t \<le> Max (tk_stratum ` set ts)" using that by simp
    then show ?thesis by linarith
  qed
  then show ?thesis by blast
qed

lemma descend_total:
  assumes "wf_store d"
  shows "\<exists>res. descend (tokens d) front [] = Some res"
proof -
  obtain m where "\<forall>t \<in> set (tokens d). tk_stratum t < int m" using stratum_bound by blast
  then show ?thesis
    using descend_ends [OF assms, of m 0 front "[]"] assms
    by (auto simp: deeper_def wf_store_def wf_token_def)
qed

section \<open>Up the tree\<close>

inductive ancestor :: "'j token_row list \<Rightarrow> 'j token_row \<Rightarrow> 'j token_row \<Rightarrow> bool" for rows where
  itself: "ancestor rows t t"
| parent: "ancestor rows t u \<Longrightarrow> v \<in> set rows \<Longrightarrow> tk_parent u = Some (tk_id v) \<Longrightarrow> ancestor rows t v"

definition parents :: "'j token_row list \<Rightarrow> 'j token_row list \<Rightarrow> 'j token_row list" where
  "parents rows front = concat (map (\<lambda>l. filter (\<lambda>t. Some (tk_id t) = tk_parent l) rows) front)"

lemma ascend_step:
  "ascend rows front acc = (if front = [] then Some acc else ascend rows (parents rows front) (acc @ front))"
  by (subst ascend.simps) (simp add: parents_def)

lemma parents_iff: "v \<in> set (parents rows front) \<longleftrightarrow> v \<in> set rows \<and> (\<exists>u \<in> set front. tk_parent u = Some (tk_id v))"
  by (auto simp: parents_def) force

lemma ancestor_first:
  assumes "ancestor rows t v"
  shows "v = t \<or> (\<exists>u \<in> set rows. tk_parent t = Some (tk_id u) \<and> ancestor rows u v)"
  using assms by (induction rule: ancestor.induct) (auto intro: ancestor.intros)

lemma ancestor_trans:
  assumes "ancestor rows u v" and "u \<in> set rows" and "tk_parent t = Some (tk_id u)"
  shows "ancestor rows t v"
  using assms by (induction rule: ancestor.induct) (auto intro: ancestor.intros)

lemma ancestor_front:
  "{v. \<exists>t \<in> set ts. ancestor rows t v} = set ts \<union> {v. \<exists>u \<in> set (parents rows ts). ancestor rows u v}"
  (is "?L = ?R")
proof
  show "?L \<subseteq> ?R" using ancestor_first by (fastforce simp: parents_iff)
  show "?R \<subseteq> ?L" using ancestor_trans ancestor.itself by (fastforce simp: parents_iff)
qed

lemma ascend_spec:
  assumes "ascend rows front acc = Some res"
  shows "set res = set acc \<union> {v. \<exists>t \<in> set front. ancestor rows t v}"
  using assms
proof (rule ascend.raw_induct [rotated])
  fix self and rows front acc res :: "'a token_row list"
  assume IH: "\<And>rows front acc res. self rows front acc = Some res \<Longrightarrow>
      set res = set acc \<union> {v. \<exists>t \<in> set front. ancestor rows t (v :: 'a token_row)}"
    and eq: "(if front = [] then Some acc
      else self rows (concat (map (\<lambda>l. filter (\<lambda>t. Some (tk_id t) = tk_parent l) rows) front)) (acc @ front))
      = Some res"
  show "set res = set acc \<union> {v. \<exists>t \<in> set front. ancestor rows t v}"
  proof (cases "front = []")
    case False
    then have "set res = set (acc @ front) \<union> {v. \<exists>u \<in> set (parents rows front). ancestor rows u v}"
      using IH eq by (auto simp: parents_def)
    then show ?thesis by (simp add: ancestor_front [of front] Un_assoc)
  qed (use eq in simp)
qed

lemma ascend_ends:
  assumes wf: "wf_store d"
  shows "\<forall>t \<in> set front. t \<in> set (tokens d) \<and> tk_stratum t < int n \<Longrightarrow> \<exists>res. ascend (tokens d) front acc = Some res"
proof (induction n arbitrary: front acc)
  case 0
  then have "front = []" using wf by (cases front) (auto simp: wf_store_def wf_token_def)
  then show ?case by (simp add: ascend_step)
next
  case (Suc n)
  have "v \<in> set (tokens d) \<and> tk_stratum v < int n" if v: "v \<in> set (parents (tokens d) front)" for v
  proof -
    obtain u where u: "u \<in> set front" "tk_parent u = Some (tk_id v)" and vt: "v \<in> set (tokens d)"
      using v by (auto simp: parents_iff)
    have "find_token d (tk_id v) = Some v" using wf vt find_token_unique by (auto simp: wf_store_def)
    then have "tk_stratum v < tk_stratum u" using child_stratum [OF wf _ u(2)] u(1) Suc(2) by auto
    then show ?thesis using Suc(2) u(1) vt by force
  qed
  then have "\<exists>res. ascend (tokens d) (parents (tokens d) front) (acc @ front) = Some res"
    using Suc(1) by blast
  then show ?case by (simp add: ascend_step [of _ front])
qed

lemma ascend_total:
  assumes "wf_store d" and "set front \<subseteq> set (tokens d)"
  shows "\<exists>res. ascend (tokens d) front [] = Some res"
proof -
  obtain m where "\<forall>t \<in> set (tokens d). tk_stratum t < int m" using stratum_bound by blast
  then show ?thesis using ascend_ends [OF assms(1), of front m "[]"] assms(2) by blast
qed

end
