(* ===== verification/Authority_Properties.thy ===== *)
theory Authority_Properties
  imports Cap_Trees Broker_Runs
begin

text \<open>
  The tree of capabilities: revocation of a subtree, attenuation of delegated authority, transfer of
  a root; and the agreement of the two places that evaluate standing policies.
\<close>

section \<open>Revocation of a subtree\<close>

lemma find_token_mark:
  "find_token (d\<lparr>tokens := map (\<lambda>t. if P t then t\<lparr>tk_revoked := w\<rparr> else t) (tokens d)\<rparr>) i =
     map_option (\<lambda>t. if P t then t\<lparr>tk_revoked := w\<rparr> else t) (find_token d i)"
  unfolding find_token_def by (simp add: find_map_id)

text \<open>
  C25 (Revocation of a subtree is exact): on well-formed tables the recursive query ends, and it
  revokes exactly the capabilities that were not revoked and that are the target or hang under it by
  links to capabilities not revoked; their identifiers are the answer, and nothing else changes. The
  query does not look behind a capability below the target that is revoked already.
\<close>

theorem subtree_revocation_exact:
  assumes "wf_store d" and "\<not> down X (statements d)"
  shows "\<exists>ids e. revoke_cap_subtree cap X d = (Inr ids, e) \<and>
    set ids = {i. live_below (tokens d) cap i \<and> (\<exists>t. find_token d i = Some t \<and> tk_revoked t = None)} \<and>
    (\<forall>i. find_token e i = map_option
       (\<lambda>t. if i \<in> set ids then t\<lparr>tk_revoked := Some (pg_now X (statements d))\<rparr> else t) (find_token d i)) \<and>
    epochs e = epochs d \<and> receipts e = receipts d"
proof -
  let ?root = "map tk_id (filter (\<lambda>t. tk_id t = cap) (tokens d))"
  let ?now = "pg_now X (statements d)"
  obtain hits where hits: "descend (tokens d) ?root [] = Some hits"
    using descend_total [OF assms(1)] by blast
  let ?P = "\<lambda>t. tk_id t \<in> set hits \<and> tk_revoked t = None"
  let ?d = "d\<lparr>statements := Suc (statements d)\<rparr>"
  let ?e = "snd (update_tokens ?P (\<lambda>t. t\<lparr>tk_revoked := Some ?now\<rparr>) ?d)"
  have run: "revoke_cap_subtree cap X d = (Inr (map tk_id (filter ?P (tokens d))), ?e)"
    using assms(2) hits by (simp add: revoke_cap_subtree_def statement_def update_tokens_def Let_def)
  have found: "find_token d (tk_id t) = Some t" if "t \<in> set (tokens d)" for t
    using assms(1) that find_token_unique by (auto simp: wf_store_def)
  have "i \<in> set hits \<longleftrightarrow> live_below (tokens d) cap i" if "t \<in> set (tokens d)" "tk_id t = i" for i t
  proof
    assume "i \<in> set hits"
    then show "live_below (tokens d) cap i" using descend_spec [OF hits] by auto
  next
    assume i: "live_below (tokens d) cap i"
    have "\<exists>r. find_token d cap = Some r"
    proof (cases "i = cap")
      case True
      then show ?thesis using found that by blast
    next
      case False
      then obtain u where "u \<in> set (tokens d)" "tk_parent u = Some cap" using live_below_first [OF i] by blast
      then show ?thesis using child_stratum [OF assms(1)] by blast
    qed
    then have "cap \<in> set ?root" using find_token_set by fastforce
    then show "i \<in> set hits" using descend_spec [OF hits] i by auto
  qed
  then have ids: "i \<in> set (map tk_id (filter ?P (tokens d))) \<longleftrightarrow>
      live_below (tokens d) cap i \<and> (\<exists>t. find_token d i = Some t \<and> tk_revoked t = None)" for i
    using found find_token_set by fastforce
  have "find_token ?e i = map_option (\<lambda>t. if ?P t then t\<lparr>tk_revoked := Some ?now\<rparr> else t) (find_token d i)" for i
    using find_token_mark [where d = ?d and P = ?P and w = "Some ?now" and i = i] by (simp add: update_tokens_def)
  moreover have "?P t \<longleftrightarrow> i \<in> set (map tk_id (filter ?P (tokens d)))" if "find_token d i = Some t" for i t
    using found find_token_set that by fastforce
  ultimately have "find_token ?e i = map_option (\<lambda>t. if i \<in> set (map tk_id (filter ?P (tokens d)))
      then t\<lparr>tk_revoked := Some ?now\<rparr> else t) (find_token d i)" for i
    by (cases "find_token d i") (simp_all del: set_map set_filter)
  then show ?thesis
    using run ids
    by (intro exI [of _ "map tk_id (filter ?P (tokens d))"] exI [of _ ?e] conjI)
      (blast | simp add: update_tokens_def del: set_map set_filter)+
qed

text \<open>
  C26 (The recursive queries end): on well-formed tables, which every run of requests keeps, neither
  the revocation of a subtree nor the query for the lineage of a capability runs for ever, and the
  lineage of a capability consists of it and of its ancestors.
\<close>

theorem recursive_queries_end:
  assumes "wf_store d" and "store_run X d e"
  shows "fst (revoke_cap_subtree cap X e) \<noteq> Inl Hung \<and> fst (lineage i X e) \<noteq> Inl Hung \<and>
    (\<forall>ts f t. find_token e i = Some t \<and> lineage i X e = (Inr ts, f) \<longrightarrow>
       set ts = listed ` {u. ancestor (tokens e) t u})"
proof -
  have wf: "wf_store e" using run_wf [OF assms(2,1)] .
  let ?from = "filter (\<lambda>t. tk_id t = i) (tokens e)"
  obtain hits where hits: "descend (tokens e) (map tk_id (filter (\<lambda>t. tk_id t = cap) (tokens e))) [] = Some hits"
    using descend_total [OF wf] by blast
  obtain ups where ups: "ascend (tokens e) ?from [] = Some ups"
    using ascend_total [OF wf, of ?from] by auto
  have "set ?from = {t}" if t: "find_token e i = Some t" for t
  proof -
    have "u = t" if "u \<in> set (tokens e)" "tk_id u = i" for u
      using find_token_unique [of e u] wf that t by (simp add: wf_store_def)
    then show ?thesis using find_token_set [OF t] by auto
  qed
  then have "set ups = {u. ancestor (tokens e) t u}" if "find_token e i = Some t" for t
    using ascend_spec [OF ups] that by simp
  then show ?thesis
    using hits ups
    by (auto simp: revoke_cap_subtree_def lineage_def statement_def update_tokens_def Let_def split: if_splits)
qed

section \<open>Attenuation\<close>

definition json_strings :: "'j pg \<Rightarrow> bool" where
  "json_strings X \<longleftrightarrow> (\<forall>ps. \<exists>vs. json_array X (strings_json X ps) = Some vs \<and> map (json_text X) vs = map Some ps)"

lemma parse_insert:
  assumes "json_strings X"
  shows "tk_perms t = strings_json X ps \<Longrightarrow> parse_permissions X t = ps"
proof -
  assume p: "tk_perms t = strings_json X ps"
  obtain vs where vs: "json_array X (strings_json X ps) = Some vs" "map (json_text X) vs = map Some ps"
    using assms unfolding json_strings_def by blast
  have "List.map_filter f vs = ps" if "map f vs = map Some ps" for f and vs :: "'a list"
    using that by (induction vs arbitrary: ps) (auto simp: List.map_filter_simps)
  then show ?thesis using vs by (simp add: parse_permissions_def p)
qed

lemma insert_token_ok:
  assumes "insert_token i sid actor expires parent observed perms X d = (Inr row, e)"
  shows "tk_perms row = strings_json X perms \<and> tk_actor row = actor \<and> tk_session row = sid"
  using assms
  by (auto simp: insert_token_def statement_def insert_row_def listed_def Let_def split: if_splits)

lemma delegate_ok:
  assumes "json_strings X" and "delegate au grantee perms ttl X d = (Inr child, e)"
  shows "au_perms child = perms \<and> (au_perms au = [] \<or> set perms \<subseteq> set (au_perms au))"
proof -
  have "expanding au perms = None"
    using assms(2) by (auto simp: delegate_def db_fail_def split: option.splits)
  then have "au_perms au = [] \<or> set perms \<subseteq> set (au_perms au)"
    by (auto simp: expanding_def find_None_iff split: if_splits)
  moreover have "au_perms child = perms"
    using assms(2) parse_insert [OF assms(1)]
    by (auto simp: delegate_def db_bind_def db_attempt_def db_fail_def db_return_def with_expiry_def authority_of_def
        dest!: insert_token_ok split: option.splits prod.splits sum.splits if_splits)
  ultimately show ?thesis by blast
qed

text \<open>
  C27 (What delegation may grant): the authority of a delegated capability is within that of its
  parent exactly when it names its permissions or the parent is unrestricted. A parent with a
  restricted list can delegate the empty list, which means every method.
\<close>

theorem delegation_attenuates:
  assumes "json_strings X" and "delegate au grantee perms ttl X d = (Inr child, e)"
  shows "(\<forall>m. permitted (au_perms child) m \<longrightarrow> permitted (au_perms au) m) \<longleftrightarrow>
    (perms \<noteq> [] \<or> au_perms au = [])"
proof -
  have child: "au_perms child = perms" "au_perms au = [] \<or> set perms \<subseteq> set (au_perms au)"
    using delegate_ok [OF assms] by auto
  have "\<exists>m. m \<notin> set (au_perms au)"
    using ex_new_if_finite [OF infinite_UNIV_listI finite_set] by blast
  then show ?thesis using child by (auto simp: permitted_def)
qed

section \<open>Transfer of a root\<close>

lemma bind_okE:
  assumes "db_bind m k X d = (Inr y, e)"
  obtains x d1 where "m X d = (Inr x, d1)" and "k x X d1 = (Inr y, e)"
  using assms by (auto simp: db_bind_def split: prod.splits sum.splits)

lemma transfer_rows:
  assumes "transfer_root_in_tx sid old actor h X d = (Inr (root, moved), e)"
    and "find_token d old = Some r"
  shows "\<exists>n w. find_token d root = None \<and> tk_id n = root \<and> tk_actor n = actor \<and> tk_session n = sid \<and>
    tk_perms n = tk_perms r \<and> tk_stratum n = 0 \<and> tk_parent n = None \<and> tk_revoked n = None \<and>
    tk_epoch n = current_epoch d sid \<and>
    tokens e = map (\<lambda>t. if tk_id t = old then t\<lparr>tk_revoked := Some w, tk_transferred := Some root\<rparr> else t)
      (map (\<lambda>t. if tk_parent t = Some old \<and> tk_revoked t = None then t\<lparr>tk_parent := Some root\<rparr> else t)
        (tokens d @ [n]))"
proof -
  obtain perms d1 where 1: "read_perms old X d = (Inr perms, d1)"
    and r1: "with_expiry (h * 3600) (\<lambda>i expires. db_bind (insert_root i sid actor expires perms) (\<lambda>row.
      db_bind (move_children old (tk_id row)) (\<lambda>moved. db_bind (retire_root old (tk_id row)) (\<lambda>_.
        db_return (tk_id row, moved))))) X d1 = (Inr (root, moved), e)"
    using assms(1) unfolding transfer_root_in_tx_def by (rule bind_okE)
  obtain i expires where "db_bind (insert_root i sid actor expires perms) (\<lambda>row.
      db_bind (move_children old (tk_id row)) (\<lambda>moved. db_bind (retire_root old (tk_id row)) (\<lambda>_.
        db_return (tk_id row, moved)))) X d1 = (Inr (root, moved), e)"
    using r1 by (auto simp: with_expiry_def split: option.splits)
  then obtain row d2 where 2: "insert_root i sid actor expires perms X d1 = (Inr row, d2)"
    and "db_bind (move_children old (tk_id row)) (\<lambda>moved. db_bind (retire_root old (tk_id row)) (\<lambda>_.
        db_return (tk_id row, moved))) X d2 = (Inr (root, moved), e)"
    by (rule bind_okE)
  then obtain k d3 where 3: "move_children old (tk_id row) X d2 = (Inr k, d3)"
    and 4: "retire_root old (tk_id row) X d3 = (Inr (), e)" and root: "root = tk_id row"
    by (elim bind_okE) (auto simp: db_return_def)
  have t1: "tokens d1 = tokens d \<and> epochs d1 = epochs d \<and> perms = tk_perms r"
    using 1 assms(2)
    by (auto simp: read_perms_def statement_def find_token_def Let_def split: if_splits)
  have t2: "\<exists>n. find_token d1 (tk_id n) = None \<and> tokens d2 = tokens d1 @ [n] \<and> tk_id n = tk_id row \<and>
      tk_actor n = actor \<and> tk_session n = sid \<and> tk_perms n = perms \<and> tk_stratum n = 0 \<and>
      tk_parent n = None \<and> tk_revoked n = None \<and> tk_epoch n = current_epoch d1 sid"
    using 2
    by (auto simp: insert_root_def statement_def insert_row_def listed_def find_token_def current_epoch_def Let_def
        split: if_splits)
  have t3: "tokens d3 = map (\<lambda>t. if tk_parent t = Some old \<and> tk_revoked t = None
      then t\<lparr>tk_parent := Some (tk_id row)\<rparr> else t) (tokens d2)"
    using 3 by (auto simp: move_children_def statement_def update_tokens_def Let_def split: if_splits)
  have t4: "\<exists>w. tokens e = map (\<lambda>t. if tk_id t = old
      then t\<lparr>tk_revoked := Some w, tk_transferred := Some (tk_id row)\<rparr> else t) (tokens d3)"
    using 4 by (auto simp: retire_root_def statement_def update_tokens_def Let_def split: if_splits)
  obtain n where n: "find_token d1 (tk_id n) = None" "tokens d2 = tokens d1 @ [n]" "tk_id n = tk_id row"
      "tk_actor n = actor" "tk_session n = sid" "tk_perms n = perms" "tk_stratum n = 0"
      "tk_parent n = None" "tk_revoked n = None" "tk_epoch n = current_epoch d1 sid"
    using t2 by blast
  moreover have "find_token d1 i = find_token d i" and "current_epoch d1 sid = current_epoch d sid" for i
    using t1 by (simp_all add: find_token_def current_epoch_def)
  moreover obtain w where "tokens e = map (\<lambda>t. if tk_id t = old
      then t\<lparr>tk_revoked := Some w, tk_transferred := Some (tk_id row)\<rparr> else t) (tokens d3)"
    using t4 by blast
  ultimately show ?thesis
    using t1 by (intro exI [of _ n] exI [of _ w]) (simp only: t3 root simp_thms)
qed

text \<open>
  C28 (Transfer of a root): a transfer that succeeds adds a root of the current epoch for the new
  actor with the permissions of the old one, retires the old root with a link to its successor, moves
  exactly the live children of the old root under the new one, and changes no other capability.
\<close>

theorem root_transfer:
  assumes "transfer_root_in_tx sid old actor h X d = (Inr (root, moved), e)"
    and "find_token d old = Some r"
  shows "(\<exists>n. find_token e root = Some n \<and> tk_actor n = actor \<and> tk_session n = sid \<and>
      tk_perms n = tk_perms r \<and> tk_stratum n = 0 \<and> tk_parent n = None \<and> tk_revoked n = None \<and>
      tk_epoch n = current_epoch d sid) \<and>
    (\<exists>t. find_token e old = Some t \<and> tk_revoked t \<noteq> None \<and> tk_transferred t = Some root) \<and>
    (\<forall>i. i \<noteq> old \<and> i \<noteq> root \<longrightarrow> find_token e i = map_option
       (\<lambda>t. if tk_parent t = Some old \<and> tk_revoked t = None then t\<lparr>tk_parent := Some root\<rparr> else t)
       (find_token d i))"
proof -
  obtain n w where n: "find_token d root = None" "tk_id n = root" "tk_actor n = actor" "tk_session n = sid"
    "tk_perms n = tk_perms r" "tk_stratum n = 0" "tk_parent n = None" "tk_revoked n = None"
    "tk_epoch n = current_epoch d sid"
    and e: "tokens e = map (\<lambda>t. if tk_id t = old then t\<lparr>tk_revoked := Some w, tk_transferred := Some root\<rparr> else t)
      (map (\<lambda>t. if tk_parent t = Some old \<and> tk_revoked t = None then t\<lparr>tk_parent := Some root\<rparr> else t)
        (tokens d @ [n]))"
    using transfer_rows [OF assms] by blast
  let ?move = "\<lambda>t. if tk_parent t = Some old \<and> tk_revoked t = None then t\<lparr>tk_parent := Some root\<rparr> else t"
  let ?retire = "\<lambda>t. if tk_id t = old then t\<lparr>tk_revoked := Some w, tk_transferred := Some root\<rparr> else t"
  have found: "find_token e i = map_option ?retire (map_option ?move
      (case find_token d i of Some u \<Rightarrow> Some u | None \<Rightarrow> if tk_id n = i then Some n else None))" for i
  proof -
    have "find_token e i = map_option ?retire (find (\<lambda>t. tk_id t = i) (map ?move (tokens d @ [n])))"
      unfolding find_token_def e by (rule find_map_id) simp
    also have "find (\<lambda>t. tk_id t = i) (map ?move (tokens d @ [n])) =
        map_option ?move (find (\<lambda>t. tk_id t = i) (tokens d @ [n]))"
      by (rule find_map_id) simp
    finally show ?thesis by (simp only: find_append find_token_def find.simps)
  qed
  have "old \<noteq> root" using n(1) assms(2) by auto
  then have "find_token e root = Some n" using found [of root] n by simp
  moreover have "tk_id r = old" using find_token_set [OF assms(2)] by simp
  then have "find_token e old = Some (?retire (?move r))" using found [of old] assms(2) by simp
  moreover have "find_token e i = map_option ?move (find_token d i)" if "i \<noteq> old" "i \<noteq> root" for i
    using found [of i] that n(2) find_token_set [of d i] by (cases "find_token d i") auto
  ultimately show ?thesis using n \<open>tk_id r = old\<close> by auto
qed

section \<open>The two evaluators of standing policies\<close>

text \<open>
  C29 (The shim and the server agree): for policies that the shim has read from the server and whose
  patterns have at most one star at the end, the shim asks for an approval exactly when the server's
  first matching policy denies, or when none matches and the tool is not on the shim's own list.
\<close>

theorem shim_agrees_with_server:
  assumes "server_policies P = map as_server_policy ps" and "\<forall>p \<in> set ps. plain_pattern (sp_pattern p)"
  shows "requires_approval P actor m \<longleftrightarrow>
    (case standing_decision ps actor m of
       Some AutoApprove \<Rightarrow> False | Some AlwaysDeny \<Rightarrow> True | None \<Rightarrow> m \<notin> auto_approve P)"
  using server_requires_standing [OF assms(2), of actor m]
  by (auto simp: requires_approval_def assms(1) local_asks split: option.split policy_decision.split)

end
