(* ===== verification/Broker_Sample.thy ===== *)
theory Broker_Sample
  imports Invoke_Properties Authority_Properties
begin

text \<open>
  A small broker on which the hypotheses of the properties hold: one session with an owner, her root
  capability and two registered methods, one of which needs approval.
\<close>

definition sample_pg :: "string list pg" where
  "sample_pg =
     \<lparr>down = (\<lambda>_. False), pg_now = int, ulid = (\<lambda>n. replicate n (CHR ''i'')),
      add_secs = (\<lambda>t k. Some (t + k)), strings_json = (\<lambda>ps. ps),
      json_array = (\<lambda>j. Some (map (\<lambda>s. [s]) j)),
      json_text = (\<lambda>j. case j of [s] \<Rightarrow> Some s | _ \<Rightarrow> None)\<rparr>"

definition sample_cap :: "string \<Rightarrow> string option \<Rightarrow> int \<Rightarrow> string list \<Rightarrow> string list token_row" where
  "sample_cap i parent stratum perms =
     \<lparr>tk_id = i, tk_session = ''s'', tk_actor = ''ann'', tk_expires = 1000, tk_used = None, tk_created = 0,
      tk_parent = parent, tk_observed = 0, tk_perms = perms, tk_epoch = 0, tk_stratum = stratum,
      tk_revoked = None, tk_transferred = None\<rparr>"

definition sample_method :: "string \<Rightarrow> bool \<Rightarrow> string list method_row" where
  "sample_method n asks =
     \<lparr>mt_id = n, mt_session = ''s'', mt_slug = ''fs'', mt_name = n, mt_address = ''mcp.fs.'' @ n,
      mt_schema = [], mt_description = None, mt_requires_approval = asks, mt_registered_at = 0\<rparr>"

definition sample_store :: "string list store" where
  "sample_store =
     \<lparr>tokens = [sample_cap ''c'' None 0 [''mcp.fs.r'', ''mcp.fs.w''], sample_cap ''k'' (Some ''c'') 1 [''mcp.fs.r'']],
      epochs = [''s'' \<mapsto> 0], revocations = [], receipts = [],
      methods = [sample_method ''r'' False, sample_method ''w'' True], approval_rows = [],
      descriptors = [], memberships = [(''s'', ''ann'', ''owner'')], event_seqs = Map.empty,
      next_seqs = [''s'' \<mapsto> 1], statements = 2\<rparr>"

definition sample_call :: "string \<Rightarrow> string \<Rightarrow> string list invoke_body" where
  "sample_call c n = \<lparr>ib_cap = c, ib_method = ''mcp.fs.'' @ n, ib_args = [''x''], ib_timeout_secs = 60\<rparr>"

lemma sample_wf: "wf_store sample_store"
  by (simp add: wf_store_def sample_store_def wf_token_def sample_cap_def parent_ok_def find_token_def
      current_epoch_def)

section \<open>Invocation, approval and consumption\<close>

definition sample_receipt :: string where
  "sample_receipt = replicate 11 (CHR ''i'')"

definition sample_pending :: "string list store" where
  "sample_pending = snd (cap_gate [] ''s'' (sample_call ''c'' ''w'') sample_pg sample_store)"

lemma sample_invoked:
  "cap_gate [] ''s'' (sample_call ''c'' ''w'') sample_pg sample_store =
     (Inr (Invoke_pending ''iiiii'' sample_receipt), sample_pending)"
proof -
  have "fst (cap_gate [] ''s'' (sample_call ''c'' ''w'') sample_pg sample_store) =
    Inr (Invoke_pending ''iiiii'' sample_receipt)" by code_simp
  then show ?thesis by (simp add: sample_pending_def prod_eq_iff)
qed

definition sample_resolved :: "string \<Rightarrow> string list store" where
  "sample_resolved st = snd (resolve_in_tx ''iiiii'' ''s'' st ''bob'' sample_pg sample_pending)"

lemma sample_pending_run: "store_run sample_pg sample_store sample_pending"
  unfolding sample_pending_def by (rule r_into_rtranclp, rule store_step.invoked)

lemma sample_resolved_run: "store_run sample_pg sample_pending (sample_resolved st)"
  unfolding sample_resolved_def by (rule r_into_rtranclp, rule store_step.approval_resolved)

lemma sample_resolved_wf: "wf_store (sample_resolved st)"
  using run_wf [OF rtranclp_trans [OF sample_pending_run sample_resolved_run] sample_wf] .

lemma sample_consumed:
  "consume ''s'' sample_receipt sample_pg (sample_resolved ''Approved'') =
     (Inr (Consume_ok sample_receipt ''c'' ''mcp.fs.w'' [''x''] (Some ''iiiii'')),
      snd (consume ''s'' sample_receipt sample_pg (sample_resolved ''Approved'')))"
proof -
  have "fst (consume ''s'' sample_receipt sample_pg (sample_resolved ''Approved'')) =
    Inr (Consume_ok sample_receipt ''c'' ''mcp.fs.w'' [''x''] (Some ''iiiii''))" by code_simp
  then show ?thesis by (simp add: prod_eq_iff)
qed

lemma requests_refine_witness:
  "goes sample_pg (statements sample_store) sample_store sample_pending \<and>
   outlives sample_store sample_pending \<and> wf_store sample_pending"
  unfolding sample_pending_def using requests_refine [OF sample_wf store_step.invoked] .

lemma consume_sound_witness:
  "\<exists>t. find_token (sample_resolved ''Approved'') ''c'' = Some t \<and> tk_revoked t = None"
  using consume_sound [OF sample_resolved_wf sample_consumed] by (auto simp: unexpired_token_def)

lemma replicate_later: "\<forall>n \<ge> m. ulid sample_pg n \<noteq> sample_receipt" if "11 < m"
  using that by (auto simp: sample_pg_def sample_receipt_def dest: arg_cong [where f = length])

lemma receipt_used_once_witness:
  "\<nexists>r c m args a g. consume ''s'' sample_receipt sample_pg
      (snd (consume ''s'' sample_receipt sample_pg (sample_resolved ''Approved''))) = (Inr (Consume_ok r c m args a), g)"
proof -
  have "statements (snd (consume ''s'' sample_receipt sample_pg (sample_resolved ''Approved''))) = 14" by code_simp
  then show ?thesis
    using receipt_used_once [OF sample_resolved_wf sample_consumed rtranclp.rtrancl_refl] replicate_later [of 14]
    by simp
qed

lemma approved_invocation_authorized_witness:
  "\<exists>u. authorizes sample_pg sample_store ''s'' (sample_call ''c'' ''r'') u"
proof -
  have "fst (cap_gate [] ''s'' (sample_call ''c'' ''r'') sample_pg sample_store) = Inr (Invoke_approved ''iiiii'' False)"
    by code_simp
  then have "cap_gate [] ''s'' (sample_call ''c'' ''r'') sample_pg sample_store =
      (Inr (Invoke_approved ''iiiii'' False), snd (cap_gate [] ''s'' (sample_call ''c'' ''r'') sample_pg sample_store))"
    by (simp add: prod_eq_iff)
  from approved_invocation_authorized [OF this] show ?thesis by blast
qed

lemma pending_invocation_asked_witness:
  "\<exists>q. approval_rows sample_pending = approval_rows sample_store @ [q] \<and> aq_args q = [''x'']"
  using pending_invocation_asked [OF sample_invoked] by (simp add: sample_store_def sample_call_def) blast

lemma refused_never_runs_witness:
  "\<forall>r c m args a g.
     consume ''s'' sample_receipt sample_pg (sample_resolved ''Denied'') \<noteq> (Inr (Consume_ok r c m args a), g)"
proof -
  have "resolved (sample_resolved ''Denied'') ''iiiii'' ''Denied''"
    by code_simp
  moreover have "statements sample_pending = 12" by code_simp
  ultimately show ?thesis
    using refused_never_runs [OF sample_wf sample_invoked sample_resolved_run _ _ rtranclp.rtrancl_refl]
      replicate_later [of 12]
    by simp
qed

section \<open>Revocation\<close>

definition sample_revocation :: revoke_body where
  "sample_revocation =
     \<lparr>vb_by = ''ann'', vb_strategy = ''cap'', vb_target_cap = Some ''k'', vb_target_stratum = None,
      vb_drain_secs = 5, vb_reroot = False\<rparr>"

text \<open>Revoking one leaf closes the epoch for the root as well.\<close>

lemma revocation_closes_epoch_witness:
  "\<not> let_through (fst (cap_gate [] ''s'' (sample_call ''c'' ''r'') sample_pg
      (snd (revoke ''s'' sample_revocation False sample_pg sample_store))))"
proof -
  have "fst (revoke ''s'' sample_revocation False sample_pg sample_store) = Inr (Revoke_ok 1 0 1 0 10, [])"
    by code_simp
  then have "revoke ''s'' sample_revocation False sample_pg sample_store =
      (Inr (Revoke_ok 1 0 1 0 10, []), snd (revoke ''s'' sample_revocation False sample_pg sample_store))"
    by (simp add: prod_eq_iff)
  moreover have "find_token sample_store (ib_cap (sample_call ''c'' ''r'')) = Some (sample_cap ''c'' None 0 [''mcp.fs.r'', ''mcp.fs.w''])"
    by (simp add: find_token_def sample_store_def sample_call_def sample_cap_def)
  ultimately show ?thesis
    using revocation_closes_epoch [OF sample_wf _ _ _ rtranclp.rtrancl_refl] by (fastforce simp: sample_cap_def)
qed

lemma subtree_revocation_exact_witness:
  "\<exists>ids e. revoke_cap_subtree ''c'' sample_pg sample_store = (Inr ids, e) \<and> ''k'' \<in> set ids"
proof -
  have k: "sample_cap ''k'' (Some ''c'') 1 [''mcp.fs.r''] \<in> set (tokens sample_store)"
    by (simp add: sample_store_def)
  have "live_below (tokens sample_store) ''c'' (tk_id (sample_cap ''k'' (Some ''c'') 1 [''mcp.fs.r'']))"
    using live_below.child [OF live_below.self k] by (simp add: sample_cap_def)
  then have "live_below (tokens sample_store) ''c'' ''k''" by (simp add: sample_cap_def)
  moreover have "\<exists>t. find_token sample_store ''k'' = Some t \<and> tk_revoked t = None"
    by (simp add: find_token_def sample_store_def sample_cap_def)
  moreover have "\<not> down sample_pg (statements sample_store)" by (simp add: sample_pg_def)
  ultimately show ?thesis using subtree_revocation_exact [OF sample_wf] by blast
qed

lemma recursive_queries_end_witness: "fst (lineage ''k'' sample_pg sample_pending) \<noteq> Inl Hung"
  using recursive_queries_end [OF sample_wf sample_pending_run] by blast

section \<open>Delegation and transfer\<close>

definition sample_authority :: authority where
  "sample_authority =
     \<lparr>au_session = ''s'', au_id = ''c'', au_epoch = 0, au_stratum = 0, au_perms = [''mcp.fs.r''],
      au_expires = 1000\<rparr>"

lemma sample_json: "json_strings sample_pg"
  by (auto simp: json_strings_def sample_pg_def)

text \<open>A restricted capability delegates the empty list: its child may call what it may not.\<close>

lemma delegation_attenuates_witness:
  "\<exists>child e. delegate sample_authority ''bob'' [] 60 sample_pg sample_store = (Inr child, e) \<and>
     \<not> (\<forall>m. permitted (au_perms child) m \<longrightarrow> permitted (au_perms sample_authority) m)"
proof -
  have "\<exists>child. fst (delegate sample_authority ''bob'' [] 60 sample_pg sample_store) = Inr child"
  proof
    show "fst (delegate sample_authority ''bob'' [] 60 sample_pg sample_store) =
      Inr \<lparr>au_session = ''s'', au_id = ''ii'', au_epoch = 0, au_stratum = 1, au_perms = [], au_expires = 62\<rparr>"
      by code_simp
  qed
  then obtain child e where d: "delegate sample_authority ''bob'' [] 60 sample_pg sample_store = (Inr child, e)"
    by (metis prod.collapse)
  then show ?thesis
    using delegation_attenuates [OF sample_json d] by (auto simp: sample_authority_def)
qed

lemma root_transfer_witness:
  "\<exists>t. find_token (snd (transfer_root_in_tx ''s'' ''c'' ''bob'' 24 sample_pg sample_store)) ''c'' = Some t \<and>
     tk_transferred t = Some ''iii''"
proof -
  have "fst (transfer_root_in_tx ''s'' ''c'' ''bob'' 24 sample_pg sample_store) = Inr (''iii'', 1)" by code_simp
  then have "transfer_root_in_tx ''s'' ''c'' ''bob'' 24 sample_pg sample_store =
      (Inr (''iii'', 1), snd (transfer_root_in_tx ''s'' ''c'' ''bob'' 24 sample_pg sample_store))"
    by (simp add: prod_eq_iff)
  moreover have "\<exists>r. find_token sample_store ''c'' = Some r"
    by (simp add: find_token_def sample_store_def sample_cap_def)
  ultimately show ?thesis using root_transfer by blast
qed

text \<open>
  A handle on a capability can be delegated after the capability was revoked, as long as the epoch is
  the same: \<open>authority_for_cap\<close> and \<open>delegate\<close> do not look at \<open>revoked_at\<close>. The child is live.
\<close>

definition sample_revoked :: "string list store" where
  "sample_revoked = snd (revoke_mine ''ann'' ''c'' sample_pg sample_store)"

lemma delegation_after_revocation:
  "map_option (\<lambda>t. tk_revoked t \<noteq> None) (find_token sample_revoked ''c'') = Some True \<and>
   (case fst (db_bind (authority_for_cap \<lparr>ar_session = ''s'', ar_epoch = 0\<rparr> ''c'')
       (\<lambda>au. delegate au ''eve'' [''mcp.fs.w''] 60) sample_pg sample_revoked) of
      Inl _ \<Rightarrow> False
    | Inr child \<Rightarrow>
        fst (authority_is_live child sample_pg
          (snd (db_bind (authority_for_cap \<lparr>ar_session = ''s'', ar_epoch = 0\<rparr> ''c'')
            (\<lambda>au. delegate au ''eve'' [''mcp.fs.w''] 60) sample_pg sample_revoked))) = Inr True)"
  by code_simp

text \<open>A member of one session revokes a capability of another by naming it.\<close>

lemma revocation_crosses_sessions:
  "map_option (\<lambda>t. tk_revoked t \<noteq> None)
     (find_token (snd (revoke ''z'' sample_revocation False sample_pg
        (sample_store\<lparr>memberships := [(''z'', ''ann'', ''owner'')], epochs := [''s'' \<mapsto> 0, ''z'' \<mapsto> 0]\<rparr>))) ''k'') =
   Some True"
  by code_simp

definition sample_policy :: standing_policy where
  "sample_policy = \<lparr>sp_id = ''p'', sp_actor = None, sp_pattern = ''mcp.fs.*'', sp_decision = AutoApprove\<rparr>"

lemma shim_agrees_with_server_witness:
  "\<not> requires_approval (default_policy_data\<lparr>server_policies := map as_server_policy [sample_policy]\<rparr>)
     ''ann'' ''mcp.fs.r''"
proof -
  have "standing_decision [sample_policy] ''ann'' ''mcp.fs.r'' = Some AutoApprove" by code_simp
  then show ?thesis
    by (subst shim_agrees_with_server [where ps = "[sample_policy]"])
      (simp_all add: sample_policy_def plain_pattern_def ends_with_star_def star_def)
qed

end
