(* ===== verification/Runtime_Invariants.thy ===== *)
theory Runtime_Invariants
  imports Runtime
begin

text \<open>
  Invariants of the session actor. The locale \<open>task_invariant\<close> lifts what the elementary
  actions of the interpreter keep to \<open>run_effects\<close>, cold start and the receive loop; it is
  interpreted for three invariants: the memory mirrors the journal, no drain timer exists, and only
  machine-owned events are appended to the log.
\<close>

section \<open>The recursion of the interpreter is shallow\<close>

lemma run_effect_plain:
  "\<not> is_persist e \<Longrightarrow> run_effect X run e t = run_effect X run' e t"
  by (cases e) simp_all

lemma run_list_plain:
  "list_all (\<lambda>e. \<not> is_persist e) effs \<Longrightarrow>
   run_list (run_effect X run) effs t = run_list (run_effect X run') effs t"
proof (induction effs arbitrary: t)
  case Nil
  then show ?case by simp
next
  case (Cons e effs)
  then have "run_effect X run e t = run_effect X run' e t" by (intro run_effect_plain) simp
  with Cons show ?case by (auto simp: bind_result_def split: sum.splits)
qed

lemma run_effects_upto_plain:
  "list_all (\<lambda>e. \<not> is_persist e) effs \<Longrightarrow>
   run_effects_upto (Suc d) X effs t = run_effects_upto (Suc d') X effs t"
  by (simp add: run_list_plain)

lemma fold_event_plain:
  "fold_event X orig sq ev t = Inr (t', effs) \<Longrightarrow> list_all (\<lambda>e. \<not> is_persist e) effs"
  by (auto simp: fold_event_def bind_result_Inr dest: replay_emits_no_persist)

lemma persist_depth:
  assumes "\<And>effs t. list_all (\<lambda>e. \<not> is_persist e) effs \<Longrightarrow> run effs t = run' effs t"
  shows "handle_persist X run ev t = handle_persist X run' ev t"
proof -
  have "real_persist X run sq ev u = real_persist X run' sq ev u" for sq u
    using assms by (auto simp: real_persist_def Let_def bind_result_def dest: fold_event_plain
        split: sum.splits)
  moreover have "shadow_persist X run ev u = shadow_persist X run' ev u" for u
    using assms by (auto simp: shadow_persist_def Let_def bind_result_def dest: fold_event_plain
        split: sum.splits)
  ultimately show ?thesis by (auto simp: handle_persist_def Let_def split: option.split)
qed

lemma run_effect_depth:
  "run_effect X (run_effects_upto (Suc d) X) e t = run_effect X (run_effects_upto (Suc d') X) e t"
proof (cases e)
  case (Persist ev)
  then show ?thesis
    by (simp del: run_effects_upto.simps)
      (rule persist_depth, rule run_effects_upto_plain)
qed (simp_all del: run_effects_upto.simps)

lemma run_effects_upto_stable:
  "run_effects_upto (Suc (Suc d)) X effs t = run_effects X effs t"
proof -
  have "run_effect X (run_effects_upto (Suc d) X) = run_effect X (run_effects_upto (Suc 0) X)"
    by (intro ext) (rule run_effect_depth)
  then show ?thesis
    unfolding run_effects_def numeral_2_eq_2 run_effects_upto.simps(2) [of "Suc d"]
      run_effects_upto.simps(2) [of "Suc 0"] by simp
qed

lemma bind_result_pair:
  "bind_result r (\<lambda>(a, b). f a b) = Inr y \<longleftrightarrow> (\<exists>a b. r = Inr (a, b) \<and> f a b = Inr y)"
  by (cases r) auto

section \<open>Lifting invariants\<close>

definition admissible :: "journal_origin \<Rightarrow> 'j session_event \<Rightarrow> bool" where
  "admissible orig ev \<longleftrightarrow> (orig = Appended \<longrightarrow> is_machine_autonomous ev)"

locale task_invariant =
  fixes X :: "'j runtime"
    and inv :: "'j task \<Rightarrow> bool"
    and fine :: "'j effect \<Rightarrow> bool"
  assumes inv_emit: "inv t \<Longrightarrow> inv (emit x t)"
    and inv_snapshot: "inv t \<Longrightarrow> inv (t\<lparr>hub_snapshot := snap\<rparr>)"
    and inv_cancel: "inv t \<Longrightarrow> inv (cancel_timer i t)"
    and inv_arm: "inv t \<Longrightarrow> fine (SetTimer i d) \<Longrightarrow> inv (arm_timer i d t)"
    and inv_send: "inv t \<Longrightarrow> \<not> is_timer_fired lev \<Longrightarrow> inv (t\<lparr>mailbox := mailbox t @ [Live lev]\<rparr>)"
    and inv_fold: "inv t \<Longrightarrow> admissible orig ev \<Longrightarrow> fold_event X orig sq ev t = Inr (t', effs) \<Longrightarrow>
        inv t' \<and> list_all fine effs"
begin

lemma inv_send_self:
  "inv t \<Longrightarrow> \<not> is_timer_fired ev \<Longrightarrow> send_self (Live ev) t = Inr t' \<Longrightarrow> inv t'"
  by (auto simp: send_self_def inv_send split: if_splits)

lemma inv_plain_effect:
  assumes "run_effect X run e t = Inr t'" and "\<not> is_persist e" and "fine e" and "inv t"
  shows "inv t'"
  using assms
  by (cases e) (auto simp: inv_emit inv_cancel inv_arm persist_snapshot_def inv_snapshot
      dest: inv_send_self [rotated 2])

lemma inv_plain_list:
  "run_list (run_effect X run) effs t = Inr t' \<Longrightarrow> list_all (\<lambda>e. \<not> is_persist e) effs \<Longrightarrow>
   list_all fine effs \<Longrightarrow> inv t \<Longrightarrow> inv t'"
  by (induction effs arbitrary: t) (auto simp: bind_result_Inr dest: inv_plain_effect)

lemma inv_after_fold:
  assumes "fold_event X orig sq ev t = Inr (t1, effs)" and "admissible orig ev" and "inv t"
    and "inv t1 \<Longrightarrow> inv t2"
    and "run_effects_upto (Suc d) X effs t2 = Inr t'"
  shows "inv t'"
  using inv_fold [OF assms(3,2,1)] fold_event_plain [OF assms(1)] assms(4,5)
  by (auto elim: inv_plain_list)

lemma inv_publish: "inv t \<Longrightarrow> inv (publish_snapshot X sq ev t)"
  by (simp add: publish_snapshot_def inv_snapshot Let_def)

lemma inv_real_persist:
  assumes "real_persist X (run_effects_upto (Suc d) X) sq ev t = Inr t'"
    and "is_machine_autonomous ev" and "inv t"
  shows "inv t'"
proof -
  define t1 where "t1 =
    (case to_ws_payload (task_session t) sq ev of None \<Rightarrow> t | Some p \<Rightarrow> emit (Out_typed p) t)"
  have "inv t1" using assms(3) by (simp add: t1_def inv_emit split: option.split)
  moreover obtain t2 effs where f: "fold_event X Appended sq ev t1 = Inr (t2, effs)"
    and "run_effects_upto (Suc d) X effs (publish_snapshot X sq ev t2) = Inr t'"
    using assms(1) unfolding real_persist_def Let_def t1_def [symmetric] bind_result_pair by blast
  ultimately show ?thesis
    using assms(2) inv_after_fold [OF f _ _ inv_publish] by (simp add: admissible_def)
qed

lemma inv_shadow_persist:
  assumes "shadow_persist X (run_effects_upto (Suc d) X) ev t = Inr t'" and "inv t"
  shows "inv t'"
proof -
  obtain sq t2 effs where f: "fold_event X Shadowed sq ev t = Inr (t2, effs)"
    and "run_effects_upto (Suc d) X effs t2 = Inr t'"
    using assms(1) unfolding shadow_persist_def Let_def bind_result_pair by blast
  then show ?thesis
    using assms(2) inv_after_fold [OF f, of t2] by (simp add: admissible_def)
qed

lemma inv_persist:
  assumes "handle_persist X (run_effects_upto (Suc d) X) ev t = Inr t'" and "inv t"
  shows "inv t'"
proof -
  have "inv (if has_side_effects ev then emit (Out_side_effects ev) t else t)"
    using assms(2) by (simp add: inv_emit)
  then show ?thesis
    using assms(1) unfolding handle_persist_def Let_def
    by (auto split: if_splits option.splits elim: inv_real_persist inv_shadow_persist
        simp del: run_effects_upto.simps)
qed

lemma inv_run_list:
  "run_list (run_effect X (run_effects_upto (Suc d) X)) effs t = Inr t' \<Longrightarrow>
   list_all fine effs \<Longrightarrow> inv t \<Longrightarrow> inv t'"
proof (induction effs arbitrary: t)
  case Nil
  then show ?case by simp
next
  case (Cons e effs)
  then obtain u where u: "run_effect X (run_effects_upto (Suc d) X) e t = Inr u"
    and rest: "run_list (run_effect X (run_effects_upto (Suc d) X)) effs u = Inr t'"
    by (auto simp: bind_result_Inr simp del: run_effects_upto.simps)
  have "inv u"
  proof (cases "is_persist e")
    case True
    then obtain ev where "e = Persist ev" by (cases e) simp_all
    with u Cons.prems(3) show ?thesis by (auto dest: inv_persist simp del: run_effects_upto.simps)
  next
    case False
    with u Cons.prems(2,3) show ?thesis by (auto intro: inv_plain_effect)
  qed
  with Cons.prems(2) show ?case using Cons.IH [OF rest] by simp
qed

lemma inv_run_effects:
  "run_effects X effs t = Inr t' \<Longrightarrow> list_all fine effs \<Longrightarrow> inv t \<Longrightarrow> inv t'"
  unfolding run_effects_def numeral_2_eq_2
  unfolding run_effects_upto.simps(2) [of "Suc 0"] by (rule inv_run_list)

lemma inv_replay_rows: "replay_rows X rows t = Inr t' \<Longrightarrow> inv t \<Longrightarrow> inv t'"
proof (induction rows arbitrary: t)
  case Nil
  then show ?case by simp
next
  case (Cons row rows)
  obtain sq o_ev where row: "row = (sq, o_ev)" by (cases row)
  show ?case
  proof (cases o_ev)
    case None
    with Cons row show ?thesis by simp
  next
    case (Some ev)
    then obtain t2 effs u where f: "fold_event X From_log sq ev t = Inr (t2, effs)"
      and run: "run_effects X effs t2 = Inr u" and rest: "replay_rows X rows u = Inr t'"
      using Cons.prems(1) row by (auto simp: bind_result_Inr)
    have "inv t2 \<and> list_all fine effs"
      using inv_fold [OF Cons.prems(2) _ f] by (simp add: admissible_def)
    then have "inv u" using run by (blast intro: inv_run_effects)
    then show ?thesis using rest by (intro Cons.IH)
  qed
qed

lemma inv_queue_backlog: "queue_backlog backlog t = Inr t' \<Longrightarrow> inv t \<Longrightarrow> inv t'"
proof (induction backlog arbitrary: t)
  case Nil
  then show ?case by simp
next
  case (Cons e backlog)
  obtain rc b where e: "e = (rc, b)" by (cases e)
  show ?case
  proof (cases "to_session b = task_session t")
    case True
    then obtain u where u: "send_self (intercept_message rc b) t = Inr u"
      and rest: "queue_backlog backlog u = Inr t'"
      using Cons.prems(1) by (auto simp: e bind_result_Inr)
    have "inv u" using inv_send_self [OF Cons.prems(2) _ u [unfolded intercept_message_def]] by simp
    then show ?thesis using rest by (intro Cons.IH)
  next
    case False
    with Cons e show ?thesis by simp
  qed
qed

lemma inv_start:
  "start_task X sid owner log backlog = Inr t \<Longrightarrow> inv (new_task sid owner) \<Longrightarrow> inv t"
  by (auto simp: start_task_def replay_history_def drain_reflector_backlog_def bind_result_Inr Let_def
      split: option.splits if_splits intro: inv_emit dest: inv_replay_rows inv_queue_backlog)

end

text \<open>
  With what the loop adds, an invariant of the actions is an invariant of every reachable task.
\<close>

locale loop_invariant = task_invariant X inv fine
  for X :: "'j runtime" and inv and fine +
  assumes inv_elapse: "inv t \<Longrightarrow> bt_get (armed t) i = Some d \<Longrightarrow>
      inv (t\<lparr>armed := bt_remove i (armed t), in_flight := in_flight t @ [i]\<rparr>)"
    and inv_land: "inv t \<Longrightarrow> i \<in> set (in_flight t) \<Longrightarrow>
      inv (t\<lparr>in_flight := remove1 i (in_flight t), mailbox := mailbox t @ [Live (TimerFired i)]\<rparr>)"
    and inv_apply: "inv t \<Longrightarrow> mailbox t = ev # rest \<Longrightarrow>
      transition (host_at X (ticks t)) (task_state t) (task_memory t) ev = Inr (st, m, effs) \<Longrightarrow>
      inv (t\<lparr>mailbox := rest, task_state := st, task_memory := m, ticks := Suc (ticks t)\<rparr>)
      \<and> list_all fine effs"
    and inv_shut_down: "inv t \<Longrightarrow> inv (shut_down t)"
begin

lemma inv_serve:
  assumes "serve X ev (t\<lparr>mailbox := rest\<rparr>) = Inr t'" and "mailbox t = ev # rest" and "inv t"
  shows "inv t'"
proof -
  obtain st m effs u
    where tr: "transition (host_at X (ticks t)) (task_state t) (task_memory t) ev = Inr (st, m, effs)"
      and run: "run_effects X effs
        (t\<lparr>mailbox := rest, task_state := st, task_memory := m, ticks := Suc (ticks t)\<rparr>) = Inr u"
      and t': "t' = (if is_terminal (task_state u) then shut_down u else u)"
    using assms(1) by (auto simp: serve_def bind_result_Inr)
  have "inv u" using inv_apply [OF assms(3,2) tr] run by (blast intro: inv_run_effects)
  then show ?thesis by (simp add: t' inv_shut_down)
qed

lemma inv_step: "task_step X t t' \<Longrightarrow> inv t \<Longrightarrow> inv t'"
  by (induction rule: task_step.induct)
    (auto intro: inv_send inv_elapse inv_land inv_snapshot inv_serve)

lemma inv_reachable:
  assumes "inv (new_task sid owner)"
  shows "reachable X sid owner t \<Longrightarrow> inv t"
  by (induction rule: reachable.induct) (auto intro: inv_start inv_step assms)

end


section \<open>Three invariants of the task\<close>

text \<open>
  The channel carries live events only, and every timer that is armed, elapsing or delivered has a
  name that the transition function gave it.
\<close>

definition channel_ok :: "'j task \<Rightarrow> bool" where
  "channel_ok t \<longleftrightarrow>
     (\<forall>i \<in> fst ` set (armed t). timer_name i) \<and>
     (\<forall>i \<in> set (in_flight t). timer_name i) \<and>
     (\<forall>ev \<in> set (mailbox t). case ev of
        Replayed sq e \<Rightarrow> False
      | Live lev \<Rightarrow> (case lev of TimerFired i \<Rightarrow> timer_name i | _ \<Rightarrow> True))"

definition entries :: "'j task \<Rightarrow> (int \<times> 'j session_event) list" where
  "entries t = map (\<lambda>e. (je_seq e, je_event e)) (journal t)"

text \<open>Replaying the journal from nothing gives the control state and the durable memory.\<close>

definition mirrors :: "'j runtime \<Rightarrow> string \<Rightarrow> string \<Rightarrow> 'j task \<Rightarrow> bool" where
  "mirrors X sid owner t \<longleftrightarrow>
     (\<exists>m. replay_log (lib X) sid owner (entries t) = Inr (task_state t, m) \<and>
          durable m = durable (task_memory t))"

definition log_discipline :: "'j task \<Rightarrow> bool" where
  "log_discipline t \<longleftrightarrow>
     (\<forall>e \<in> set (journal t). je_origin e = Appended \<longrightarrow> is_machine_autonomous (je_event e))"

lemma mem_bt_remove: "e \<in> set (bt_remove k m) \<longleftrightarrow> e \<in> set m \<and> fst e \<noteq> k"
  by (auto simp: bt_remove_def)

lemma fst_bt_insert: "fst ` set (bt_insert k v m) = insert k (fst ` set m)"
  using set_keys_insert [of k v m] by simp

lemma timer_fired_fine: "\<not> is_timer_fired lev \<Longrightarrow> (case lev of TimerFired i \<Rightarrow> P i | _ \<Rightarrow> True)"
  by (cases lev) simp_all

lemma channel_ok_fold:
  assumes "fold_event X orig sq ev t = Inr (t', effs)"
  shows "armed t' = armed t" and "in_flight t' = in_flight t" and "mailbox t' = mailbox t"
    and "list_all well_named effs"
  using assms by (auto simp: fold_event_def bind_result_Inr dest: logged_timers)

interpretation channel: loop_invariant X channel_ok well_named for X :: "'j runtime"
proof
  fix t :: "'j task" and x snap i d
  assume inv: "channel_ok t"
  show "channel_ok (emit x t)" and "channel_ok (t\<lparr>hub_snapshot := snap\<rparr>)"
    using inv by (simp_all add: channel_ok_def emit_def)
  show "channel_ok (cancel_timer i t)"
    using inv by (auto simp: channel_ok_def cancel_timer_def mem_bt_remove)
  show "well_named (SetTimer i d) \<Longrightarrow> channel_ok (arm_timer i d t)"
    using inv by (auto simp: channel_ok_def arm_timer_def fst_bt_insert mem_bt_remove)
  show "channel_ok (shut_down t)"
    using inv by (simp add: channel_ok_def shut_down_def)
next
  fix t :: "'j task" and lev :: "'j live_event"
  assume "channel_ok t" and "\<not> is_timer_fired lev"
  then show "channel_ok (t\<lparr>mailbox := mailbox t @ [Live lev]\<rparr>)"
    by (simp add: channel_ok_def timer_fired_fine)
next
  fix t t' :: "'j task" and orig ev sq effs
  assume "channel_ok t" and "fold_event X orig sq ev t = Inr (t', effs)"
  then show "channel_ok t' \<and> list_all well_named effs"
    by (simp add: channel_ok_def channel_ok_fold)
next
  fix t :: "'j task" and i d
  assume "channel_ok t" and "bt_get (armed t) i = Some d"
  then show "channel_ok (t\<lparr>armed := bt_remove i (armed t), in_flight := in_flight t @ [i]\<rparr>)"
    using bt_get_entry [of "armed t" i d]
    by (auto simp: channel_ok_def image_iff mem_bt_remove)
next
  fix t :: "'j task" and i
  assume "channel_ok t" and "i \<in> set (in_flight t)"
  then show "channel_ok
      (t\<lparr>in_flight := remove1 i (in_flight t), mailbox := mailbox t @ [Live (TimerFired i)]\<rparr>)"
    using set_remove1_subset [of i "in_flight t"] by (auto simp: channel_ok_def)
next
  fix t :: "'j task" and ev rest st m effs
  assume "channel_ok t" and "mailbox t = ev # rest"
    and "transition (host_at X (ticks t)) (task_state t) (task_memory t) ev = Inr (st, m, effs)"
  then show "channel_ok (t\<lparr>mailbox := rest, task_state := st, task_memory := m, ticks := Suc (ticks t)\<rparr>)
      \<and> list_all well_named effs"
    by (auto simp: channel_ok_def dest: transition_timers)
qed

interpretation discipline: loop_invariant X log_discipline "\<lambda>_. True" for X :: "'j runtime"
proof
  fix t t' :: "'j task" and orig ev sq and effs :: "'j effect list"
  assume "log_discipline t" and "admissible orig ev"
    and "fold_event X orig sq ev t = Inr (t', effs)"
  then show "log_discipline t' \<and> list_all (\<lambda>_. True) effs"
    by (auto simp: log_discipline_def admissible_def fold_event_def bind_result_Inr list_all_iff)
qed (simp_all add: log_discipline_def emit_def cancel_timer_def arm_timer_def shut_down_def list_all_iff)

lemma host_at_dates [simp]: "date_add_ms (host_at X k) = date_add_ms (lib X)"
  by (simp add: host_at_def)

lemma mirrors_fold:
  assumes "mirrors X sid owner t" and "fold_event X orig sq ev t = Inr (t', effs)"
  shows "mirrors X sid owner t'"
proof -
  obtain m where log: "replay_log (lib X) sid owner (entries t) = Inr (task_state t, m)"
    and same: "durable m = durable (task_memory t)"
    using assms(1) by (auto simp: mirrors_def)
  obtain st m' where tr: "apply_logged (host_at X (ticks t)) (task_state t) (task_memory t) sq ev
      = Inr (st, m', effs)"
    and t': "task_state t' = st" "task_memory t' = m'" "entries t' = entries t @ [(sq, ev)]"
    using assms(2) by (auto simp: fold_event_def bind_result_Inr entries_def)
  have "durable_of (apply_logged (lib X) (task_state t) m sq ev) = Inr (st, durable m')"
    using apply_logged_durable [of "host_at X (ticks t)" "lib X" m "task_memory t" "task_state t" sq ev]
    by (simp add: same tr)
  then obtain m2 effs2 where "apply_logged (lib X) (task_state t) m sq ev = Inr (st, m2, effs2)"
    and "durable m2 = durable m'"
    by (auto simp: durable_of_def bind_result_Inr)
  then show ?thesis
    by (simp add: mirrors_def t' replay_log_snoc log replay_step_def)
qed

lemma live_transition_mirrors:
  assumes "transition E st m (Live lev) = Inr (st', m', effs)"
    and "\<And>i. lev = TimerFired i \<Longrightarrow> timer_name i"
  shows "st' = st" and "durable m' = durable m"
proof -
  have "st' = st \<and> durable m' = durable m"
  proof (cases "is_terminal st")
    case True
    with assms(1) show ?thesis by simp
  next
    case False
    with assms(1) have "apply_live E st m lev = Inr (st', m', effs)" by simp
    from live_apply [OF this] show ?thesis
      using assms(2) timer_name_not_drain live_write_durable by blast
  qed
  then show "st' = st" and "durable m' = durable m" by simp_all
qed

definition healthy :: "'j runtime \<Rightarrow> string \<Rightarrow> string \<Rightarrow> 'j task \<Rightarrow> bool" where
  "healthy X sid owner t \<longleftrightarrow> channel_ok t \<and> mirrors X sid owner t"

lemma mirrors_cong:
  "task_state t' = task_state t \<Longrightarrow> durable (task_memory t') = durable (task_memory t) \<Longrightarrow>
   journal t' = journal t \<Longrightarrow> mirrors X sid owner t \<Longrightarrow> mirrors X sid owner t'"
  by (simp add: mirrors_def entries_def)

interpretation mirror: loop_invariant X "healthy X sid owner" well_named
  for X :: "'j runtime" and sid owner
proof
  fix t :: "'j task" and x snap i d
  assume inv: "healthy X sid owner t"
  show "healthy X sid owner (emit x t)" and "healthy X sid owner (t\<lparr>hub_snapshot := snap\<rparr>)"
    and "healthy X sid owner (cancel_timer i t)"
    using inv channel.inv_emit [of t x] channel.inv_snapshot [of t snap] channel.inv_cancel [of t i]
    by (auto simp: healthy_def emit_def cancel_timer_def elim: mirrors_cong [rotated 3])
  show "well_named (SetTimer i d) \<Longrightarrow> healthy X sid owner (arm_timer i d t)"
    using inv channel.inv_arm [of t i d]
    by (auto simp: healthy_def arm_timer_def elim: mirrors_cong [rotated 3])
  show "healthy X sid owner (shut_down t)"
    using inv channel.inv_shut_down [of t]
    by (auto simp: healthy_def shut_down_def elim: mirrors_cong [rotated 3])
next
  fix t :: "'j task" and lev :: "'j live_event"
  assume "healthy X sid owner t" and "\<not> is_timer_fired lev"
  then show "healthy X sid owner (t\<lparr>mailbox := mailbox t @ [Live lev]\<rparr>)"
    using channel.inv_send [of t lev] by (auto simp: healthy_def elim: mirrors_cong [rotated 3])
next
  fix t t' :: "'j task" and orig ev sq effs
  assume "healthy X sid owner t" and "admissible orig ev"
    and "fold_event X orig sq ev t = Inr (t', effs)"
  then show "healthy X sid owner t' \<and> list_all well_named effs"
    using channel.inv_fold [of t orig ev X sq t' effs] mirrors_fold [of X sid owner t orig sq ev t' effs]
    by (simp add: healthy_def)
next
  fix t :: "'j task" and i d
  assume "healthy X sid owner t" and "bt_get (armed t) i = Some d"
  then show "healthy X sid owner (t\<lparr>armed := bt_remove i (armed t), in_flight := in_flight t @ [i]\<rparr>)"
    using channel.inv_elapse [of t i d] by (auto simp: healthy_def elim: mirrors_cong [rotated 3])
next
  fix t :: "'j task" and i
  assume "healthy X sid owner t" and "i \<in> set (in_flight t)"
  then show "healthy X sid owner
      (t\<lparr>in_flight := remove1 i (in_flight t), mailbox := mailbox t @ [Live (TimerFired i)]\<rparr>)"
    using channel.inv_land [of t i] by (auto simp: healthy_def elim: mirrors_cong [rotated 3])
next
  fix t :: "'j task" and ev rest st m effs
  assume inv: "healthy X sid owner t" and box: "mailbox t = ev # rest"
    and tr: "transition (host_at X (ticks t)) (task_state t) (task_memory t) ev = Inr (st, m, effs)"
  have "\<exists>lev. ev = Live lev \<and> (\<forall>i. lev = TimerFired i \<longrightarrow> timer_name i)"
    using inv box by (cases ev) (auto simp: healthy_def channel_ok_def)
  then have "st = task_state t" and "durable m = durable (task_memory t)"
    using live_transition_mirrors tr by blast+
  then show "healthy X sid owner
      (t\<lparr>mailbox := rest, task_state := st, task_memory := m, ticks := Suc (ticks t)\<rparr>)
      \<and> list_all well_named effs"
    using inv channel.inv_apply [of t ev rest X st m effs] box tr
    by (auto simp: healthy_def elim: mirrors_cong [rotated 3])
qed

interpretation running: task_invariant X "\<lambda>t. \<not> stopped t" "\<lambda>_. True" for X :: "'j runtime"
  by unfold_locales (auto simp: emit_def cancel_timer_def arm_timer_def fold_event_def bind_result_Inr
      list_all_iff)

lemma new_task_invariants:
  "channel_ok (new_task sid owner)" "log_discipline (new_task sid owner)"
  "healthy X sid owner (new_task sid owner)" "\<not> stopped (new_task sid owner)"
  by (simp_all add: channel_ok_def log_discipline_def healthy_def mirrors_def new_task_def
      entries_def replay_log_def)

end
