(* ===== verification/Served.thy ===== *)
theory Served
  imports Runtime_Invariants
begin

text \<open>
  From the effects of one transition to the memory the task ends with. The events among the effects
  are folded into the memory in order, whichever way they are persisted (\<open>served_folds\<close>); and
  the iteration returns if every fold does and the bundles released fit into the channel
  (\<open>serve_returns\<close>). Properties of the running task are proved through these two lemmas.
\<close>

definition persisted :: "'j effect list \<Rightarrow> 'j session_event list" where
  "persisted effs = List.map_filter (\<lambda>e. case e of Persist ev \<Rightarrow> Some ev | _ \<Rightarrow> None) effs"

definition deliveries :: "'j effect list \<Rightarrow> nat" where
  "deliveries effs = length (filter is_bundle_deliver effs)"

lemma persisted_simps [simp]:
  "persisted [] = []"
  "persisted (Persist ev # effs) = ev # persisted effs"
  "\<not> is_persist e \<Longrightarrow> persisted (e # effs) = persisted effs"
  by (simp_all add: persisted_def List.map_filter_def) (cases e; simp)

lemma persisted_append [simp]: "persisted (xs @ ys) = persisted xs @ persisted ys"
  by (simp add: persisted_def List.map_filter_def)

lemma deliveries_simps [simp]:
  "deliveries [] = 0"
  "deliveries (e # effs) = (if is_bundle_deliver e then Suc (deliveries effs) else deliveries effs)"
  "deliveries (xs @ ys) = deliveries xs + deliveries ys"
  by (simp_all add: deliveries_def)

section \<open>The memory after the effects\<close>

type_synonym 'j control = "session_state \<times> 'j session_memory"

abbreviation control :: "'j task \<Rightarrow> 'j control" where
  "control t \<equiv> (task_state t, task_memory t)"

fun folds :: "'j runtime \<Rightarrow> 'j session_event list \<Rightarrow> 'j control \<Rightarrow> 'j control \<Rightarrow> bool" where
  "folds X [] s s' \<longleftrightarrow> s' = s"
| "folds X (ev # evs) s s' \<longleftrightarrow>
     (\<exists>k sq st m effs. apply_logged (host_at X k) (fst s) (snd s) sq ev = Inr (st, m, effs) \<and>
        folds X evs (st, m) s')"

lemma plain_effect_control:
  "run_effect X run e t = Inr t' \<Longrightarrow> \<not> is_persist e \<Longrightarrow> control t' = control t"
  by (cases e) (auto simp: emit_def arm_timer_def cancel_timer_def persist_snapshot_def send_self_def
      split: if_splits)

lemma plain_list_control:
  "run_list (run_effect X run) effs t = Inr t' \<Longrightarrow> list_all (\<lambda>e. \<not> is_persist e) effs \<Longrightarrow>
   control t' = control t"
  by (induction effs arbitrary: t) (auto simp: bind_result_Inr dest: plain_effect_control)

lemma fold_event_control:
  "fold_event X orig sq ev t = Inr (t', effs) \<Longrightarrow>
   apply_logged (host_at X (ticks t)) (task_state t) (task_memory t) sq ev
     = Inr (task_state t', task_memory t', effs)"
  by (auto simp: fold_event_def bind_result_Inr)

lemma after_fold_control:
  assumes "fold_event X orig sq ev t = Inr (t1, effs)"
    and "run_list (run_effect X run) effs t2 = Inr t'" and "control t2 = control t1"
  shows "folds X [ev] (control t) (control t')"
proof -
  have "control t' = control t1"
    using plain_list_control [OF assms(2)] fold_event_plain [OF assms(1)] assms(3) by simp
  then show ?thesis using fold_event_control [OF assms(1)] by auto
qed

lemma persist_control:
  assumes "handle_persist X (run_effects_upto (Suc d) X) ev t = Inr t'"
  shows "folds X [ev] (control t) (control t')"
proof -
  have real: "folds X [ev] (control u) (control t')"
    if persist: "real_persist X (run_effects_upto (Suc d) X) sq ev u = Inr t'" for sq u
  proof -
    define v where "v =
      (case to_ws_payload (task_session u) sq ev of None \<Rightarrow> u | Some p \<Rightarrow> emit (Out_typed p) u)"
    have v: "control v = control u" by (simp add: v_def emit_def split: option.split)
    obtain t1 effs where f: "fold_event X Appended sq ev v = Inr (t1, effs)"
      and r: "run_list (run_effect X (run_effects_upto d X)) effs (publish_snapshot X sq ev t1) = Inr t'"
      using persist unfolding real_persist_def Let_def v_def [symmetric] bind_result_pair
        run_effects_upto.simps by blast
    have "folds X [ev] (control v) (control t')"
      using f r by (rule after_fold_control) (simp add: publish_snapshot_def Let_def)
    then show ?thesis by (simp only: v)
  qed
  have shadow: "folds X [ev] (control u) (control t')"
    if "shadow_persist X (run_effects_upto (Suc d) X) ev u = Inr t'" for u
    using that unfolding shadow_persist_def Let_def bind_result_pair run_effects_upto.simps
    by (blast intro: after_fold_control)
  have emitted: "control (if has_side_effects ev then emit (Out_side_effects ev) t else t) = control t"
    by (simp add: emit_def)
  then show ?thesis
    using assms real shadow unfolding handle_persist_def Let_def
    by (metis (no_types, lifting) option.case_eq_if)
qed

lemma folds_append:
  "folds X (xs @ ys) s s'' \<longleftrightarrow> (\<exists>s'. folds X xs s s' \<and> folds X ys s' s'')"
  by (induction xs arbitrary: s) (auto, metis+)

lemma run_list_folds:
  "run_list (run_effect X (run_effects_upto (Suc d) X)) effs t = Inr t' \<Longrightarrow>
   folds X (persisted effs) (control t) (control t')"
proof (induction effs arbitrary: t)
  case Nil
  then show ?case by simp
next
  case (Cons e effs)
  then obtain u where u: "run_effect X (run_effects_upto (Suc d) X) e t = Inr u"
    and rest: "run_list (run_effect X (run_effects_upto (Suc d) X)) effs u = Inr t'"
    by (auto simp: bind_result_Inr simp del: run_effects_upto.simps)
  have IH: "folds X (persisted effs) (control u) (control t')" using rest by (rule Cons.IH)
  show ?case
  proof (cases "is_persist e")
    case True
    then obtain ev where e: "e = Persist ev" by (cases e) simp_all
    then have "folds X [ev] (control t) (control u)"
      using u persist_control by (simp del: run_effects_upto.simps folds.simps)
    then show ?thesis
      using IH folds_append [of X "[ev]" "persisted effs"] by (auto simp: e simp del: folds.simps)
  next
    case False
    then have "control u = control t" using u by (rule plain_effect_control [rotated])
    with IH False show ?thesis by simp
  qed
qed

lemma run_effects_folds:
  "run_effects X effs t = Inr t' \<Longrightarrow> folds X (persisted effs) (control t) (control t')"
  unfolding run_effects_def numeral_2_eq_2 run_effects_upto.simps(2) [of "Suc 0"]
  by (rule run_list_folds)

lemma served_folds:
  assumes "serve X ev t = Inr t'"
    and "transition (host_at X (ticks t)) (task_state t) (task_memory t) ev = Inr (st, m, effs)"
  shows "folds X (persisted effs) (st, m) (control t')"
proof -
  obtain u where run: "run_effects X effs
      (t\<lparr>task_state := st, task_memory := m, ticks := Suc (ticks t)\<rparr>) = Inr u"
    and t': "t' = (if is_terminal (task_state u) then shut_down u else u)"
    using assms by (auto simp: serve_def bind_result_Inr)
  have "control t' = control u" by (simp add: t' shut_down_def)
  then show ?thesis using run_effects_folds [OF run] by simp
qed


section \<open>The iteration returns\<close>

text \<open>
  Every event of the list folds, under any clock and sequence number, and together the folds release
  at most \<open>n\<close> bundles.
\<close>

fun foldable :: "'j runtime \<Rightarrow> 'j session_event list \<Rightarrow> nat \<Rightarrow> 'j control \<Rightarrow> bool" where
  "foldable X [] n s = True"
| "foldable X (ev # evs) n s \<longleftrightarrow>
     (\<forall>k sq. \<exists>st m effs. apply_logged (host_at X k) (fst s) (snd s) sq ev = Inr (st, m, effs) \<and>
        deliveries effs \<le> n \<and> foldable X evs (n - deliveries effs) (st, m))"

lemma plain_effect_returns:
  assumes "\<not> is_persist e" and "length (mailbox t) + deliveries [e] \<le> channel_capacity"
  shows "\<exists>t'. run_effect X run e t = Inr t' \<and> length (mailbox t') = length (mailbox t) + deliveries [e]"
  using assms
  by (cases e) (auto simp: emit_def arm_timer_def cancel_timer_def persist_snapshot_def send_self_def)

lemma plain_list_returns:
  "list_all (\<lambda>e. \<not> is_persist e) effs \<Longrightarrow> length (mailbox t) + deliveries effs \<le> channel_capacity \<Longrightarrow>
   \<exists>t'. run_list (run_effect X run) effs t = Inr t' \<and>
     length (mailbox t') = length (mailbox t) + deliveries effs"
proof (induction effs arbitrary: t)
  case Nil
  then show ?case by simp
next
  case (Cons e effs)
  then obtain u where u: "run_effect X run e t = Inr u"
    and box: "length (mailbox u) = length (mailbox t) + deliveries [e]"
    using plain_effect_returns [of e t X run] by (auto split: if_splits)
  have "length (mailbox u) + deliveries effs \<le> channel_capacity"
    using Cons.prems(2) box by (auto split: if_splits)
  then obtain t' where "run_list (run_effect X run) effs u = Inr t'"
    and "length (mailbox t') = length (mailbox u) + deliveries effs"
    using Cons.IH [of u] Cons.prems(1) by auto
  with u box show ?case by simp
qed

lemma fold_event_returns:
  assumes "apply_logged (host_at X (ticks t)) (task_state t) (task_memory t) sq ev = Inr (st, m, effs)"
    and "mailbox t2 = mailbox t" and "length (mailbox t) + deliveries effs \<le> channel_capacity"
    and "control t2 = (st, m)"
  shows "\<exists>t'. run_list (run_effect X run) effs t2 = Inr t' \<and> control t' = (st, m) \<and>
    length (mailbox t') = length (mailbox t) + deliveries effs"
proof -
  have plain: "list_all (\<lambda>e. \<not> is_persist e) effs" using assms(1) by (rule replay_emits_no_persist)
  then obtain t' where "run_list (run_effect X run) effs t2 = Inr t'"
    and "length (mailbox t') = length (mailbox t) + deliveries effs"
    using plain_list_returns [of effs t2 X run] assms(2,3) by auto
  then show ?thesis using plain_list_control [OF _ plain] assms(4) by metis
qed

lemma persist_returns:
  assumes "foldable X (ev # evs) n (control t)" and "length (mailbox t) + n \<le> channel_capacity"
  shows "\<exists>t' n'. handle_persist X (run_effects_upto (Suc d) X) ev t = Inr t' \<and>
    foldable X evs n' (control t') \<and> length (mailbox t') + n' \<le> length (mailbox t) + n"
proof -
  define u where "u = (if has_side_effects ev then emit (Out_side_effects ev) t else t)"
  have u: "control u = control t" "mailbox u = mailbox t" by (simp_all add: u_def emit_def)
  have real: "\<exists>t' n'. real_persist X (run_effects_upto (Suc d) X) sq ev u = Inr t' \<and>
      foldable X evs n' (control t') \<and> length (mailbox t') + n' \<le> length (mailbox t) + n" for sq
  proof -
    define v where "v =
      (case to_ws_payload (task_session u) sq ev of None \<Rightarrow> u | Some p \<Rightarrow> emit (Out_typed p) u)"
    have v: "control v = control t" "mailbox v = mailbox t"
      using u by (simp_all add: v_def emit_def split: option.split)
    obtain st m effs where app: "apply_logged (host_at X (ticks v)) (task_state t) (task_memory t) sq ev
        = Inr (st, m, effs)" and le: "deliveries effs \<le> n" and fold: "foldable X evs (n - deliveries effs) (st, m)"
      using assms(1) by fastforce
    obtain t1 where f: "fold_event X Appended sq ev v = Inr (t1, effs)"
      and t1: "control t1 = (st, m)" "mailbox t1 = mailbox t"
      using app v by (simp add: fold_event_def)
    obtain t' where "run_list (run_effect X (run_effects_upto d X)) effs (publish_snapshot X sq ev t1) = Inr t'"
      and "control t' = (st, m)" and "length (mailbox t') = length (mailbox t) + deliveries effs"
      using fold_event_returns [of X v sq ev st m effs "publish_snapshot X sq ev t1"] app v t1 le assms(2)
      by (auto simp: publish_snapshot_def Let_def)
    then show ?thesis
      using f fold le assms(2)
      by (intro exI [of _ t'] exI [of _ "n - deliveries effs"])
        (simp add: real_persist_def Let_def v_def [symmetric])
  qed
  have shadow: "\<exists>t' n'. shadow_persist X (run_effects_upto (Suc d) X) ev u = Inr t' \<and>
      foldable X evs n' (control t') \<and> length (mailbox t') + n' \<le> length (mailbox t) + n"
  proof -
    define sq where "sq = (case alloc_reply X (ticks u) of Some s \<Rightarrow> s | None \<Rightarrow> cursor (task_memory u) + 1)"
    obtain st m effs where app: "apply_logged (host_at X (ticks u)) (task_state t) (task_memory t) sq ev
        = Inr (st, m, effs)" and le: "deliveries effs \<le> n" and fold: "foldable X evs (n - deliveries effs) (st, m)"
      using assms(1) by fastforce
    obtain t1 where f: "fold_event X Shadowed sq ev u = Inr (t1, effs)"
      and t1: "control t1 = (st, m)" "mailbox t1 = mailbox t"
      using app u by (simp add: fold_event_def)
    obtain t' where "run_list (run_effect X (run_effects_upto d X)) effs t1 = Inr t'"
      and "control t' = (st, m)" and "length (mailbox t') = length (mailbox t) + deliveries effs"
      using fold_event_returns [of X u sq ev st m effs t1] app u t1 le assms(2) by auto
    then show ?thesis
      using f fold le assms(2)
      by (intro exI [of _ t'] exI [of _ "n - deliveries effs"])
        (simp add: shadow_persist_def Let_def sq_def [symmetric])
  qed
  show ?thesis
    using real shadow unfolding handle_persist_def Let_def u_def [symmetric]
    by (cases "append_reply X (ticks u)") simp_all
qed

lemma run_list_returns:
  "foldable X (persisted effs) n (control t) \<Longrightarrow>
   length (mailbox t) + deliveries effs + n \<le> channel_capacity \<Longrightarrow>
   \<exists>t'. run_list (run_effect X (run_effects_upto (Suc d) X)) effs t = Inr t' \<and>
     length (mailbox t') \<le> length (mailbox t) + deliveries effs + n"
proof (induction effs arbitrary: t n)
  case Nil
  then show ?case by simp
next
  case (Cons e effs)
  let ?run = "run_effects_upto (Suc d) X"
  show ?case
  proof (cases "is_persist e")
    case True
    then obtain ev where e: "e = Persist ev" by (cases e) simp_all
    have "length (mailbox t) + n \<le> channel_capacity" using Cons.prems(2) by simp
    then obtain u n' where u: "handle_persist X ?run ev t = Inr u"
      and fold: "foldable X (persisted effs) n' (control u)"
      and box: "length (mailbox u) + n' \<le> length (mailbox t) + n"
      using persist_returns [of X ev "persisted effs" n t d] Cons.prems(1) by (auto simp: e)
    have "\<exists>t'. run_list (run_effect X ?run) effs u = Inr t' \<and>
        length (mailbox t') \<le> length (mailbox u) + deliveries effs + n'"
      using Cons.prems(2) box by (intro Cons.IH [OF fold]) (simp add: e)
    with u box show ?thesis by (auto simp: e simp del: run_effects_upto.simps)
  next
    case False
    then obtain u where u: "run_effect X ?run e t = Inr u"
      and box: "length (mailbox u) = length (mailbox t) + deliveries [e]"
      using plain_effect_returns [of e t X ?run] Cons.prems(2) by (auto split: if_splits)
    have "control u = control t" using plain_effect_control [OF u False] .
    then have "\<exists>t'. run_list (run_effect X ?run) effs u = Inr t' \<and>
        length (mailbox t') \<le> length (mailbox u) + deliveries effs + n"
      using Cons.prems False box by (intro Cons.IH [of n]) (auto split: if_splits simp del: run_effects_upto.simps)
    with u box show ?thesis by (auto simp del: run_effects_upto.simps)
  qed
qed


lemma serve_returns:
  assumes "transition (host_at X (ticks t)) (task_state t) (task_memory t) ev = Inr (st, m, effs)"
    and "foldable X (persisted effs) n (st, m)"
    and "length (mailbox t) + deliveries effs + n \<le> channel_capacity"
  shows "\<exists>t'. serve X ev t = Inr t' \<and> length (mailbox t') \<le> length (mailbox t) + deliveries effs + n"
proof -
  let ?t = "t\<lparr>task_state := st, task_memory := m, ticks := Suc (ticks t)\<rparr>"
  have "\<exists>u. run_effects X effs ?t = Inr u \<and> length (mailbox u) \<le> length (mailbox ?t) + deliveries effs + n"
    unfolding run_effects_def numeral_2_eq_2 run_effects_upto.simps(2) [of "Suc 0"]
    by (rule run_list_returns) (use assms in simp_all)
  then show ?thesis using assms(1) by (auto simp: serve_def shut_down_def)
qed

end
