(* ===== verification/Approval_Properties.thy ===== *)
theory Approval_Properties
  imports Served Authority Sample
begin

text \<open>
  Approvals: the quorum rules and how the three implementations of them relate, what a vote, a
  timeout and a disconnect do to an approval in the running task, and that a closed approval stays
  closed.
\<close>

section \<open>Quorum\<close>

lemma count_votes_Cons: "count_votes w ((k, v) # t) = (if v = w then Suc (count_votes w t) else count_votes w t)"
  by (simp add: count_votes_def bt_values_def)

lemma count_votes_Nil [simp]: "count_votes w [] = 0"
  by (simp add: count_votes_def bt_values_def)

lemma count_votes_insert:
  "bt_ok t \<Longrightarrow> bt_get t k = None \<Longrightarrow>
   count_votes w (bt_insert k v t) = (if v = w then Suc (count_votes w t) else count_votes w t)"
proof (induction k v t rule: bt_insert.induct)
  case (1 k v)
  then show ?case by (simp add: count_votes_Cons)
next
  case (2 k v k' v' m)
  then have "bt_ok m" and "k \<noteq> k'" and "bt_get m k = None"
    by (auto simp: bt_ok_def bt_get_def split: if_splits)
  with 2 show ?case by (auto simp: count_votes_Cons)
qed

lemma count_votes_two:
  "w \<noteq> w' \<Longrightarrow> count_votes w t + count_votes w' t \<le> length t"
  by (induction t) (auto simp: count_votes_Cons)

lemma length_bt_insert:
  "bt_get t k = None \<Longrightarrow> bt_ok t \<Longrightarrow> length (bt_insert k v t) = Suc (length t)"
proof (induction k v t rule: bt_insert.induct)
  case (1 k v)
  then show ?case by simp
next
  case (2 k v k' v' m)
  then have "bt_ok m" and "k \<noteq> k'" and "bt_get m k = None"
    by (auto simp: bt_ok_def bt_get_def split: if_splits)
  with 2 show ?case by auto
qed

fun is_grant :: "policy_outcome \<Rightarrow> bool" where
  "is_grant (Grant _) = True"
| "is_grant _ = False"

fun is_deny :: "policy_outcome \<Rightarrow> bool" where
  "is_deny (PolicyDeny _) = True"
| "is_deny _ = False"

text \<open>
  Majority is a quorum: under the majority policy a grant means that more than half of the
  eligible approvers approved, and, as long as no more ballots than eligible approvers are cast, a
  decided ballot is not overturned by the vote of a further member, whatever it is.
\<close>

theorem majority_is_final:
  assumes "bt_ok vs" and "bt_get vs voter = None" and "Suc (length vs) \<le> n"
  shows "(is_grant (evaluate_policy ''majority'' vs n) \<longrightarrow>
      n < 2 * count_votes ''approve'' vs \<and>
      is_grant (evaluate_policy ''majority'' (bt_insert voter d vs) n)) \<and>
    (is_deny (evaluate_policy ''majority'' vs n) \<longrightarrow>
      n < 2 * count_votes ''deny'' vs \<and>
      is_deny (evaluate_policy ''majority'' (bt_insert voter d vs) n))"
proof -
  let ?new = "bt_insert voter d vs"
  have "count_votes ''approve'' ?new + count_votes ''deny'' ?new \<le> n"
    using count_votes_two [of "''approve''" "''deny''" ?new] length_bt_insert [OF assms(2,1), of d]
      assms(3) by simp
  moreover have "count_votes w vs \<le> count_votes w ?new" for w
    using count_votes_insert [OF assms(1,2), of w d] by simp
  then have "count_votes ''approve'' vs \<le> count_votes ''approve'' ?new"
    and "count_votes ''deny'' vs \<le> count_votes ''deny'' ?new" by simp_all
  ultimately show ?thesis
    by (auto simp: evaluate_policy_def Let_def)
qed

lemma majority_is_final_witness:
  "is_grant (evaluate_policy ''majority''
     (bt_insert ''cid'' ''deny'' [(''ann'', ''approve''), (''bob'', ''approve'')]) 3)"
  using majority_is_final [of "[(''ann'', ''approve''), (''bob'', ''approve'')]" "''cid''" 3 "''deny''"]
  by (simp add: bt_ok_def evaluate_policy_def count_votes_Cons)

section \<open>Three implementations of the quorum rules\<close>

text \<open>The vote the hub stores for a decision string.\<close>

definition hub_vote :: "string \<Rightarrow> vote" where
  "hub_vote d = (if d = ''approve'' then Approve else Deny)"

lemma count_hub_votes:
  "\<forall>v \<in> set (bt_values vs). v = ''approve'' \<or> v = ''deny'' \<Longrightarrow>
   count_votes Approve (bt_map_values hub_vote vs) = count_votes ''approve'' vs \<and>
   count_votes Deny (bt_map_values hub_vote vs) = count_votes ''deny'' vs"
  by (induction vs) (auto simp: count_votes_Cons bt_map_values_def hub_vote_def bt_values_def)

fun policy_slug :: "approval_policy \<Rightarrow> string" where
  "policy_slug SingleVote = ''single_vote''"
| "policy_slug Majority = ''majority''"
| "policy_slug Unanimous = ''unanimous''"

text \<open>
  C37 (the session machine agrees with the hub): on a ballot of approve and deny votes, with at least
  one eligible approver, the machine grants, denies or waits as \<open>ApprovalPolicy::evaluate\<close> says,
  except on the ballots the hub calls contested, where the machine grants under the single-vote
  policy and waits under majority.
\<close>

theorem machine_agrees_with_hub:
  assumes "\<forall>v \<in> set (bt_values vs). v = ''approve'' \<or> v = ''deny''" and "0 < n"
  shows "case evaluate p (bt_map_values hub_vote vs) n of
      ASApproved \<Rightarrow> is_grant (evaluate_policy (policy_slug p) vs n)
    | ASDenied \<Rightarrow> is_deny (evaluate_policy (policy_slug p) vs n)
    | ASContested \<Rightarrow>
        (if p = SingleVote then is_grant (evaluate_policy (policy_slug p) vs n)
         else evaluate_policy (policy_slug p) vs n = PolicyPending)
    | _ \<Rightarrow> evaluate_policy (policy_slug p) vs n = PolicyPending"
  using count_hub_votes [OF assms(1)] assms(2)
  by (cases p) (auto simp: evaluate_def evaluate_policy_def Let_def)

lemma machine_agrees_with_hub_witness:
  "is_deny (evaluate_policy ''unanimous'' [(''ann'', ''approve''), (''bob'', ''deny'')] 2)"
  using machine_agrees_with_hub [of "[(''ann'', ''approve''), (''bob'', ''deny'')]" 2 Unanimous]
  by (simp add: bt_values_def evaluate_def evaluate_policy_def count_votes_Cons bt_map_values_def
      hub_vote_def)

text \<open>Without eligible approvers the two disagree on an empty unanimous ballot.\<close>

lemma unanimous_without_approvers:
  "evaluate Unanimous [] 0 = ASApproved \<and> evaluate_policy ''unanimous'' [] 0 = PolicyPending"
  by (simp add: evaluate_def evaluate_policy_def)

text \<open>The ack a vote amounts to.\<close>

definition vote_ack :: "string \<Rightarrow> saga_outcome" where
  "vote_ack d = (if d = ''approve'' then Committed else Rejected d)"

lemma count_vote_acks:
  "\<forall>v \<in> set (bt_values vs). v = ''approve'' \<or> v = ''deny'' \<Longrightarrow>
   committed_acks (map vote_ack (bt_values vs)) = count_votes ''approve'' vs \<and>
   rejected_acks (map vote_ack (bt_values vs)) = count_votes ''deny'' vs"
  by (induction vs)
    (auto simp: count_votes_Cons vote_ack_def bt_values_def committed_acks_def rejected_acks_def)

fun same_verdict :: "policy_outcome \<Rightarrow> protocol_outcome \<Rightarrow> bool" where
  "same_verdict (Grant _) Advance = True"
| "same_verdict (PolicyDeny _) (Abort _) = True"
| "same_verdict PolicyPending PendingAcks = True"
| "same_verdict _ _ = False"

text \<open>
  The approval saga agrees with the session machine: for the three named policies, reducing the
  acks that the votes of a ballot amount to gives the verdict of the approval policy on that ballot.
\<close>

theorem approval_saga_agrees:
  assumes "\<forall>v \<in> set (bt_values vs). v = ''approve'' \<or> v = ''deny''"
    and "as_policy s \<in> {''single_vote'', ''majority'', ''unanimous''}"
  shows "same_verdict (evaluate_policy (as_policy s) vs (as_eligible s))
    (approval_reduce s i (map vote_ack (bt_values vs)))"
  using count_vote_acks [OF assms(1)] assms(2)
  by (auto simp: approval_reduce_def evaluate_policy_def Let_def)

lemma approval_saga_agrees_witness:
  "same_verdict (evaluate_policy ''majority'' [(''ann'', ''approve''), (''bob'', ''approve'')] 3)
     (approval_reduce
        \<lparr>as_approval_id = ''ap'', as_policy = ''majority'', as_eligible = 3, as_step = default_step sample_host\<rparr>
        0 [Committed, Committed])"
  using approval_saga_agrees [of "[(''ann'', ''approve''), (''bob'', ''approve'')]"
      "\<lparr>as_approval_id = ''ap'', as_policy = ''majority'', as_eligible = 3, as_step = default_step sample_host\<rparr>" 0]
  by (simp add: bt_values_def vote_ack_def)

text \<open>On an unknown policy they differ: the saga aborts on a denial, the machine waits.\<close>

lemma unknown_policy_differs:
  "evaluate_policy ''quorum'' [(''ann'', ''deny'')] 1 = PolicyPending \<and>
   approval_reduce \<lparr>as_approval_id = ''ap'', as_policy = ''quorum'', as_eligible = 1, as_step = default_step sample_host\<rparr>
     0 [Rejected ''deny''] = Abort ''deny''"
  by (simp add: evaluate_policy_def count_votes_Cons approval_reduce_def committed_acks_def rejected_acks_def)


section \<open>A vote in the running task\<close>

definition status_of :: "string \<Rightarrow> 'j session_memory \<Rightarrow> approval_status option" where
  "status_of aid m = map_option ap_status (bt_get (approvals m) aid)"

lemma released_gates [simp]: "approvals (fold (\<lambda>(i, _). remove_gate i) held m) = approvals m"
  by (induction held arbitrary: m) (auto simp: remove_gate_def)

lemma approvals_updates [simp]:
  "approvals (drop_timer t m) = approvals m" "approvals (advance_cursor sq m) = approvals m"
  "gated_on aid (drop_timer t m) = gated_on aid m" "gated_on aid (advance_cursor sq m) = gated_on aid m"
  "gated_on aid (set_status st aid' m) = gated_on aid m"
  "gated_on aid (logged_approval_voted m aid' voter d) = gated_on aid m"
  by (simp_all add: drop_timer_def advance_cursor_def gated_on_def set_status_def logged_approval_voted_def)

lemma deliveries_of_held: "deliveries (map BundleDeliver (List.map_filter snd held)) \<le> length held"
  by (induction held) (auto simp: List.map_filter_def)

definition verdict_status :: "policy_outcome \<Rightarrow> approval_status \<Rightarrow> approval_status" where
  "verdict_status v old =
     (case v of Grant _ \<Rightarrow> Granted | PolicyDeny _ \<Rightarrow> Denied | PolicyPending \<Rightarrow> old)"

text \<open>What the effects of a vote log.\<close>

definition vote_log ::
  "policy_outcome \<Rightarrow> string \<Rightarrow> string \<Rightarrow> string \<Rightarrow> datetime \<Rightarrow> datetime \<Rightarrow> 'j session_event list" where
  "vote_log v aid voter decision t0 t1 =
     ApprovalVoted aid voter decision t0 #
       (case v of
          Grant by_actor \<Rightarrow> [ApprovalGranted aid by_actor t1]
        | PolicyDeny by_actor \<Rightarrow> [ApprovalDenied aid by_actor None t1]
        | PolicyPending \<Rightarrow> [])"

lemma vote_transition:
  assumes "\<not> is_terminal st" and "can_vote m voter" and "bt_get (approvals m) aid = Some a"
    and "is_open a"
  shows "\<exists>effs. transition E st m (Live (VoteCast aid voter d)) = Inr (st, m, effs) \<and>
    deliveries effs = 0 \<and>
    persisted effs = vote_log
      (evaluate_policy (session_policy m) (bt_insert voter (decision_str d) (votes a)) (eligible_approvers m))
      aid voter (decision_str d) (clock E 0) (clock E 1)"
  using assms by (simp add: live_vote_cast_def Let_def vote_log_def session_updated_broadcast_def
      split: policy_outcome.split)

lemma vote_foldable:
  "length (gated_on aid m) \<le> n \<Longrightarrow> foldable X (vote_log v aid voter decision t0 t1) n (st, m)"
  using deliveries_of_held [of "gated_on aid m"]
  by (auto simp: vote_log_def apply_logged_def logged_approval_granted_def logged_approval_denied_def
      Let_def split: policy_outcome.split intro: order_trans)

lemma vote_folds:
  assumes "folds X (vote_log v aid voter decision t0 t1) (st, m) (st', m')"
    and "bt_get (approvals m) aid = Some a"
  shows "bt_get (approvals m') aid =
    Some (a\<lparr>ap_status := verdict_status v (ap_status a), votes := bt_insert voter decision (votes a)\<rparr>)"
  using assms
  by (auto simp: vote_log_def apply_logged_def logged_approval_voted_def logged_approval_granted_def
      logged_approval_denied_def Let_def set_status_def verdict_status_def split: policy_outcome.splits)

text \<open>
  C1 (a vote end to end): when the task receives a vote of a member who may vote on an open approval,
  and the channel has room for the bundles held on it, the iteration returns; the vote is then on
  record, and the approval is granted, denied or left as it was according to the session's policy
  evaluated with that vote.
\<close>

theorem vote_decides:
  assumes "\<not> is_terminal (task_state t)" and "can_vote (task_memory t) voter"
    and "bt_get (approvals (task_memory t)) aid = Some a" and "is_open a"
    and "length (mailbox t) + length (gated_on aid (task_memory t)) \<le> channel_capacity"
  shows "\<exists>t'. serve X (Live (VoteCast aid voter d)) t = Inr t' \<and>
    bt_get (approvals (task_memory t')) aid =
      Some (a\<lparr>ap_status := verdict_status
                (evaluate_policy (session_policy (task_memory t))
                  (bt_insert voter (decision_str d) (votes a)) (eligible_approvers (task_memory t)))
                (ap_status a),
              votes := bt_insert voter (decision_str d) (votes a)\<rparr>)"
proof -
  obtain effs where tr: "transition (host_at X (ticks t)) (task_state t) (task_memory t)
        (Live (VoteCast aid voter d)) = Inr (task_state t, task_memory t, effs)"
    and "deliveries effs = 0" and log: "persisted effs = vote_log
      (evaluate_policy (session_policy (task_memory t)) (bt_insert voter (decision_str d) (votes a))
        (eligible_approvers (task_memory t)))
      aid voter (decision_str d) (clock (host_at X (ticks t)) 0) (clock (host_at X (ticks t)) 1)"
    using vote_transition [OF assms(1-4)] by blast
  then obtain t' where run: "serve X (Live (VoteCast aid voter d)) t = Inr t'"
    using serve_returns [OF tr, of "length (gated_on aid (task_memory t))"] vote_foldable assms(5)
    by fastforce
  from served_folds [OF run tr] show ?thesis
    using run vote_folds assms(3) unfolding log by blast
qed

lemma vote_decides_witness:
  "\<exists>t'. serve sample_runtime (Live (VoteCast ''ap'' ''bob'' VoteApprove)) (sample_task sample_memory) = Inr t' \<and>
     status_of ''ap'' (task_memory t') = Some Granted"
  using vote_decides [of "sample_task sample_memory" "''bob''" "''ap''" sample_approval sample_runtime VoteApprove]
  by (auto simp: sample_task_def sample_memory_def sample_member_def sample_approval_def new_task_def
      new_memory_def can_vote_def can_approve_def is_open_def gated_on_def channel_capacity_def
      status_of_def evaluate_policy_def count_votes_Cons verdict_status_def)

section \<open>Timeouts and disconnects\<close>

lemma strip_approval_timer [simp]: "strip_prefix ''approval:'' (approval_timer aid) = Some aid"
  by (simp add: approval_timer_def strip_prefix_def)

lemma timer_kinds [simp]:
  "starts_with ''drain:'' (approval_timer aid) = False"
  "strip_prefix ''bundle_defer:'' (approval_timer aid) = None"
  "saga_timer_target (approval_timer aid) = None"
  by (simp_all add: approval_timer_def starts_with_def strip_prefix_def saga_timer_target_def)

definition closed_status :: "approval_status \<Rightarrow> approval_status \<Rightarrow> approval_status" where
  "closed_status s old = (if approval_is_terminal old then old else s)"

lemma timeout_transition:
  assumes "\<not> is_terminal st"
  shows "\<exists>effs. transition E st m (Live (TimerFired (approval_timer aid)))
        = Inr (st, drop_timer (approval_timer aid) m, effs) \<and> deliveries effs = 0 \<and>
    persisted effs = (if approval_still_open (drop_timer (approval_timer aid) m) aid
      then [ApprovalExpired aid (clock E 0)] else [])"
  using assms
  by (simp add: live_timer_fired_def persist_and_notify_def fire_saga_def Let_def
      session_updated_broadcast_def)

text \<open>
  Approval timeout: when the timer of an approval fires, the iteration returns and an approval
  that is pending or claimed ends as expired, while a closed one keeps its status; no other approval
  changes.
\<close>

theorem approval_times_out:
  assumes "\<not> is_terminal (task_state t)" and "length (mailbox t) \<le> channel_capacity"
  shows "\<exists>t'. serve X (Live (TimerFired (approval_timer aid))) t = Inr t' \<and>
    (\<forall>x. status_of x (task_memory t') =
       map_option (\<lambda>s. if x = aid then closed_status Expired s else s) (status_of x (task_memory t)))"
proof -
  let ?m = "drop_timer (approval_timer aid) (task_memory t)"
  let ?E = "host_at X (ticks t)"
  let ?log = "if approval_still_open ?m aid then [ApprovalExpired aid (clock ?E 0)] else []"
  obtain effs where tr: "transition ?E (task_state t) (task_memory t)
        (Live (TimerFired (approval_timer aid))) = Inr (task_state t, ?m, effs)"
    and "deliveries effs = 0" and log: "persisted effs = ?log"
    using timeout_transition [OF assms(1), of ?E "task_memory t" aid] by blast
  moreover have "foldable X ?log 0 (task_state t, ?m)"
    by (simp add: apply_logged_def logged_approval_closed_def)
  ultimately obtain t' where run: "serve X (Live (TimerFired (approval_timer aid))) t = Inr t'"
    using serve_returns [OF tr, of 0] assms(2) by auto
  have "folds X ?log (task_state t, ?m) (control t')"
    using served_folds [OF run tr] unfolding log .
  then have "status_of x (task_memory t') =
      map_option (\<lambda>s. if x = aid then closed_status Expired s else s) (status_of x (task_memory t))" for x
    by (cases "bt_get (approvals (task_memory t)) x")
      (auto simp: apply_logged_def logged_approval_closed_def set_status_if_open_def status_of_def
        approval_still_open_def closed_status_def split: if_splits option.splits)
  with run show ?thesis by blast
qed

lemma sample_status: "status_of ''ap'' sample_memory = Some Pending"
  by (simp add: status_of_def sample_memory_def sample_approval_def)

lemma approval_times_out_witness:
  "\<exists>t'. serve sample_runtime (Live (TimerFired (approval_timer ''ap''))) (sample_task sample_memory) = Inr t' \<and>
     status_of ''ap'' (task_memory t') = Some Expired"
  using approval_times_out [of "sample_task sample_memory" sample_runtime "''ap''"] sample_status
  by (auto simp: sample_task_def new_task_def closed_status_def)


definition interruptions :: "(nat \<Rightarrow> datetime) \<Rightarrow> (nat \<times> string) list \<Rightarrow> 'j session_event list" where
  "interruptions c xs = map (\<lambda>(i, aid). ApprovalInterrupted aid ''agent disconnected'' (c i)) xs"

lemma interruptions_foldable: "foldable X (interruptions c xs) 0 (st, m)"
  by (induction xs arbitrary: m)
    (auto simp: interruptions_def apply_logged_def logged_approval_closed_def)

lemma interruptions_fold:
  "folds X (interruptions c xs) (st, m) s' \<Longrightarrow>
   status_of x (snd s') =
     map_option (\<lambda>s. if x \<in> snd ` set xs then closed_status Interrupted s else s) (status_of x m)"
proof (induction xs arbitrary: m)
  case Nil
  then show ?case by (simp add: interruptions_def option.map_ident)
next
  case (Cons e xs)
  obtain i aid where e: "e = (i, aid)" by (cases e)
  from Cons.prems obtain m1 where rest: "folds X (interruptions c xs) (st, m1) s'"
    and app: "approvals m1 = bt_modify aid
      (\<lambda>a. if approval_is_terminal (ap_status a) then a else a\<lparr>ap_status := Interrupted\<rparr>) (approvals m)"
    by (auto simp: e interruptions_def apply_logged_def logged_approval_closed_def set_status_if_open_def)
  have m1: "status_of x m1 =
      map_option (\<lambda>s. if x = aid then closed_status Interrupted s else s) (status_of x m)"
    by (cases "bt_get (approvals m) x") (auto simp: app status_of_def closed_status_def)
  show ?case
    using Cons.IH [OF rest] unfolding m1
    by (cases "status_of x m") (auto simp: e closed_status_def)
qed

lemma to_interrupt_iff:
  "bt_ok (approvals m) \<Longrightarrow> x \<in> set (to_interrupt m actor) \<longleftrightarrow>
     (\<exists>a. bt_get (approvals m) x = Some a \<and> ap_actor_id a = actor \<and> is_open a)"
  by (force simp: to_interrupt_def dest: bt_get_entry bt_entry_get)

lemma is_open_terminal: "is_open a \<longleftrightarrow> \<not> approval_is_terminal (ap_status a)"
  by (cases "ap_status a") (auto simp: is_open_def)

lemma persisted_interruptions:
  "persisted (map (\<lambda>(i, aid). Persist (ApprovalInterrupted aid ''agent disconnected'' (c i))) xs) =
   interruptions c xs"
  by (induction xs) (auto simp: interruptions_def)

lemma deliveries_interruptions:
  "deliveries (map (\<lambda>(i, aid). Persist (ApprovalInterrupted aid ''agent disconnected'' (c i))) xs) = 0"
  by (induction xs) auto

text \<open>
  Disconnect: when an actor's connection closes, the iteration returns, and exactly the open
  approvals that this actor requested end as interrupted; every other approval keeps its status.
\<close>

theorem disconnect_interrupts:
  assumes "\<not> is_terminal (task_state t)" and "bt_ok (approvals (task_memory t))"
    and "length (mailbox t) \<le> channel_capacity"
  shows "\<exists>t'. serve X (Live (ActorDisconnected actor conn reason)) t = Inr t' \<and>
    (\<forall>x a. bt_get (approvals (task_memory t)) x = Some a \<longrightarrow>
       status_of x (task_memory t') =
         Some (if ap_actor_id a = actor \<and> is_open a then Interrupted else ap_status a))"
proof -
  let ?E = "host_at X (ticks t)"
  let ?m = "(task_memory t)\<lparr>members :=
      bt_modify actor (\<lambda>r. r\<lparr>connection := None\<rparr>) (members (task_memory t))\<rparr>"
  let ?log = "interruptions (clock ?E) (List.enumerate 0 (to_interrupt ?m actor))"
  obtain effs where tr: "transition ?E (task_state t) (task_memory t)
        (Live (ActorDisconnected actor conn reason)) = Inr (task_state t, ?m, effs)"
    and "deliveries effs = 0" and log: "persisted effs = ?log"
    using assms(1)
    by (simp add: live_actor_disconnected_def Let_def session_updated_broadcast_def
        persisted_interruptions deliveries_interruptions)
  then obtain t' where run: "serve X (Live (ActorDisconnected actor conn reason)) t = Inr t'"
    using serve_returns [OF tr, of 0] assms(3) interruptions_foldable by fastforce
  have folded: "folds X ?log (task_state t, ?m) (control t')"
    using served_folds [OF run tr] unfolding log .
  have "status_of x (task_memory t') =
      Some (if ap_actor_id a = actor \<and> is_open a then Interrupted else ap_status a)"
    if "bt_get (approvals (task_memory t)) x = Some a" for x a
    using interruptions_fold [OF folded, of x] that assms(2) to_interrupt_iff [of ?m x actor]
    by (auto simp: status_of_def closed_status_def is_open_terminal simp flip: set_map)
  with run show ?thesis by blast
qed

lemma disconnect_interrupts_witness:
  "\<exists>t'. serve sample_runtime (Live (ActorDisconnected ''bot'' ''c'' NetworkError)) (sample_task sample_memory)
      = Inr t' \<and> status_of ''ap'' (task_memory t') = Some Interrupted"
  using disconnect_interrupts [of "sample_task sample_memory" sample_runtime "''bot''" "''c''" NetworkError]
  by (auto simp: sample_task_def new_task_def sample_memory_def sample_approval_def bt_ok_def is_open_def)

section \<open>Closed approvals\<close>

text \<open>The events that may move an approval out of a terminal status.\<close>

definition reopens :: "string \<Rightarrow> 'j session_event \<Rightarrow> bool" where
  "reopens aid ev \<longleftrightarrow>
     (case ev of
        ApprovalRequested a b c d e f \<Rightarrow> a = aid
      | ApprovalGranted a b c \<Rightarrow> a = aid
      | ApprovalDenied a b c d \<Rightarrow> a = aid
      | _ \<Rightarrow> False)"

definition closed :: "string \<Rightarrow> approval_status \<Rightarrow> 'j session_memory \<Rightarrow> bool" where
  "closed aid s m \<longleftrightarrow> status_of aid m = Some s \<and> approval_is_terminal s"

lemma closed_iff:
  "closed aid s m \<longleftrightarrow>
     (case bt_get (approvals m) aid of None \<Rightarrow> False | Some a \<Rightarrow> ap_status a = s \<and> approval_is_terminal s)"
  by (auto simp: closed_def status_of_def split: option.split)

lemma approvals_of_revoked [simp]: "approvals (fold revoke_cap ids m) = approvals m"
  by (induction ids arbitrary: m) (auto simp: revoke_cap_def)

lemma logged_keeps_closed:
  assumes "apply_logged E st m sq ev = Inr (st', m', effs)" and "\<not> reopens aid ev"
    and "closed aid s m"
  shows "closed aid s m'"
proof -
  obtain a where a: "bt_get (approvals m) aid = Some a" "ap_status a = s" "approval_is_terminal s"
    using assms(3) by (auto simp: closed_def status_of_def)
  show ?thesis
  proof (cases ev)
    case (CapRevoked cid strategy by_actor at)
    then show ?thesis
      using assms by (auto simp: apply_logged_def logged_cap_revoked_def bind_result_Inr closed_def
          status_of_def revoke_cap_def split: if_splits)
  next
    case (EpochAdvanced old_epoch new_epoch strategy dl fenced by_actor at)
    then show ?thesis
      using assms by (auto simp: apply_logged_def logged_epoch_advanced_def Let_def closed_def
          status_of_def advance_cursor_def split: if_splits option.splits)
  next
    case (ApprovalGranted a by_actor at)
    then show ?thesis
      using assms by (auto simp: apply_logged_def logged_approval_granted_def Let_def closed_def
          status_of_def set_status_def reopens_def)
  qed (use assms(1,2) a in \<open>auto simp: apply_logged_def logged_memory_defs logged_outcome_defs Let_def
        closed_iff reopens_def split: if_splits\<close>)
qed

interpretation closed_approval: monotone_machine "replay_step E" "\<lambda>e. \<not> reopens aid (snd e)"
    "\<lambda>s t. closed aid u (snd s) \<longrightarrow> closed aid u (snd t)" for E :: "'j host" and aid u
  by unfold_locales (auto simp: replay_step_def bind_result_Inr dest: logged_keeps_closed)

lemma folds_keep_closed:
  "folds X evs s s' \<Longrightarrow> \<forall>ev \<in> set evs. \<not> reopens aid ev \<Longrightarrow> closed aid u (snd s) \<Longrightarrow>
   closed aid u (snd s')"
  by (induction evs arbitrary: s) (auto dest!: logged_keeps_closed)

lemma live_keeps_approvals: "live_write m m' \<Longrightarrow> approvals m' = approvals m"
  by (induction rule: live_write.induct)
    (auto simp: attach_connection_def drop_timer_def remove_gate_def hold_bundle_def)

lemma not_sensitive_persisted:
  "list_all (\<lambda>e. \<not> sensitive e) effs \<Longrightarrow> ev \<in> set (persisted effs) \<Longrightarrow> \<not> reopens aid ev"
proof (induction effs)
  case Nil
  then show ?case by simp
next
  case (Cons e effs)
  then show ?case
    by (cases e) (auto simp: reopens_def split: session_event.splits)
qed

lemma live_never_reopens:
  assumes "apply_live E st m ev = Inr (st', m', effs)" and "closed aid u m"
    and "\<And>a tname args ms. ev \<noteq> ApprovalCreate aid a tname args ms"
    and "x \<in> set (persisted effs)"
  shows "\<not> reopens aid x"
proof -
  have "list_all (\<lambda>e. \<not> sensitive e) effs \<or> (\<exists>aid voter d. ev = VoteCast aid voter d) \<or>
    (\<exists>aid a tname args ms. ev = ApprovalCreate aid a tname args ms) \<or> (\<exists>a c. ev = SidecarAttach a c)"
    using assms(1) by (rule live_sensitive)
  moreover have ?thesis if "ev = VoteCast b voter d" for b voter d
    using that assms(1,2,4)
    by (cases "b = aid")
      (auto simp: live_vote_cast_def closed_def status_of_def is_open_terminal reopens_def Let_def
        session_updated_broadcast_def split: if_splits option.splits policy_outcome.splits)
  moreover have ?thesis if "ev = ApprovalCreate b a tname args ms" for b a tname args ms
  proof -
    have "b \<noteq> aid" using that assms(3) by blast
    then show ?thesis
      using that assms(1,4)
      by (auto simp: live_approval_create_def reopens_def session_updated_broadcast_def
          split: if_splits option.splits)
  qed
  moreover have ?thesis if "ev = SidecarAttach a c" for a c
    using that assms(1,4) by (auto simp: live_sidecar_attach_def reopens_def split: if_splits option.splits)
  ultimately show ?thesis
    using not_sensitive_persisted assms(4) by blast
qed

text \<open>
  Closed approvals stay closed: no live event served by the task changes the status of an
  approval that is granted, denied, expired or interrupted, except one that creates an approval
  under the same identifier.
\<close>

theorem closed_stays_closed:
  assumes "serve X (Live ev) t = Inr t'" and "closed aid u (task_memory t)"
    and "\<forall>a tname args ms. ev \<noteq> ApprovalCreate aid a tname args ms"
  shows "closed aid u (task_memory t')"
proof (cases "is_terminal (task_state t)")
  case True
  then have tr: "transition (host_at X (ticks t)) (task_state t) (task_memory t) (Live ev)
      = Inr (task_state t, task_memory t, [])" by simp
  show ?thesis using served_folds [OF assms(1) tr] assms(2) by simp
next
  case False
  obtain st m effs where tr: "transition (host_at X (ticks t)) (task_state t) (task_memory t) (Live ev)
      = Inr (st, m, effs)"
    using assms(1) by (auto simp: serve_def bind_result_Inr)
  then have live: "apply_live (host_at X (ticks t)) (task_state t) (task_memory t) ev = Inr (st, m, effs)"
    using False by simp
  have "approvals m = approvals (task_memory t)"
    using live_apply [OF live] live_keeps_approvals by blast
  then have "closed aid u m" using assms(2) by (simp add: closed_def status_of_def)
  then show ?thesis
    using folds_keep_closed [OF served_folds [OF assms(1) tr], of aid u]
      live_never_reopens [OF live assms(2)] assms(3) by auto
qed

lemma sample_closed: "closed ''ap'' Denied (set_status Denied ''ap'' sample_memory)"
  by (simp add: closed_def status_of_def set_status_def sample_memory_def sample_approval_def)

lemma closed_stays_closed_witness:
  "\<exists>t'. serve sample_runtime (Live (VoteCast ''ap'' ''bob'' VoteApprove))
      (sample_task (set_status Denied ''ap'' sample_memory)) = Inr t' \<and> closed ''ap'' Denied (task_memory t')"
proof -
  obtain t' where run: "serve sample_runtime (Live (VoteCast ''ap'' ''bob'' VoteApprove))
      (sample_task (set_status Denied ''ap'' sample_memory)) = Inr t'"
    using serve_returns [of sample_runtime "sample_task (set_status Denied ''ap'' sample_memory)"
        "Live (VoteCast ''ap'' ''bob'' VoteApprove)" Active "set_status Denied ''ap'' sample_memory" "[]" 0]
    by (auto simp: live_vote_cast_def sample_task_def new_task_def channel_capacity_def set_status_def
        sample_memory_def sample_approval_def is_open_def new_memory_def sample_member_def can_vote_def
        can_approve_def)
  then show ?thesis
    using closed_stays_closed [OF run, of "''ap''" Denied] sample_closed
    by (auto simp: sample_task_def)
qed

text \<open>The log itself can reopen a verdict: a grant that follows a denial wins.\<close>

lemma denied_then_granted:
  "\<exists>st m. run_steps (replay_step sample_host) (Active, sample_memory)
      [(1, ApprovalDenied ''ap'' ''ann'' None 0), (2, ApprovalGranted ''ap'' ''bob'' 0)] = Inr (st, m) \<and>
     status_of ''ap'' m = Some Granted"
  by (simp add: replay_step_def apply_logged_def logged_approval_denied_def logged_approval_granted_def
      Let_def status_of_def set_status_def sample_memory_def sample_approval_def)

end
