(* ===== verification/Saga_Properties.thy ===== *)
theory Saga_Properties
  imports Served Sample
begin

text \<open>
  Sagas: names of their timers, the effects of an ack (advance, or compensation in reverse order),
  what an ack does in the running task, completion of a whole saga, timeouts, and the delegation of
  an approval to another session.
\<close>

section \<open>Timer names\<close>

lemma saga_timer_target_timer:
  assumes "i < 2 ^ 64"
  shows "saga_timer_target (saga_timer sid i) = Some (sid, i)"
proof -
  have "strip_prefix ''saga:'' (saga_timer sid i) = Some (sid @ CHR '':'' # nat_str i)"
    by (simp add: saga_timer_def strip_prefix_def)
  then show ?thesis
    using assms by (simp add: saga_timer_target_def rsplit_colon_nat parse_usize_nat_str)
qed

text \<open>
  Saga timers: the name under which the timer of a saga step is armed leads back to exactly that
  saga and step when it fires, also for a saga identifier that itself contains colons.
\<close>

theorem saga_timer_roundtrip:
  assumes "i < 2 ^ 64"
  shows "saga_timer_target (saga_timer sid i) = Some (sid, i)"
  using assms by (rule saga_timer_target_timer)

lemma saga_timer_roundtrip_witness: "saga_timer_target (saga_timer ''a:1'' 12) = Some (''a:1'', 12)"
  by (rule saga_timer_roundtrip) simp

section \<open>The effects of an ack\<close>

definition bundles :: "'j effect list \<Rightarrow> 'j saga_bundle list" where
  "bundles effs = List.map_filter (\<lambda>e. case e of Bundle b \<Rightarrow> Some b | _ \<Rightarrow> None) effs"

lemma bundles_simps [simp]:
  "bundles [] = []"
  "bundles (Bundle b # effs) = b # bundles effs"
  "\<not> is_bundle e \<Longrightarrow> bundles (e # effs) = bundles effs"
  by (simp_all add: bundles_def List.map_filter_def) (cases e; simp)

lemma bundles_append [simp]: "bundles (xs @ ys) = bundles xs @ bundles ys"
  by (simp add: bundles_def List.map_filter_def)

lemma compensate_spec:
  assumes "\<forall>k \<in> set is. k < length ss"
  shows "\<exists>effs. compensate E m sid ss now r is = Inr effs \<and>
    persisted effs = map (\<lambda>k. SagaCompensated sid k now) is \<and> deliveries effs = 0 \<and>
    bundles effs = map (\<lambda>(j, k). comp_bundle m sid k (ss ! k) (now_ms E j)) (List.enumerate r is)"
  using assms
proof (induction "is" arbitrary: r)
  case Nil
  then show ?case by simp
next
  case (Cons k "is")
  then have below: "k < length ss" "\<forall>k \<in> set is. k < length ss" by simp_all
  from Cons.IH [OF below(2), of "Suc r"] below(1) show ?case by (auto simp: nth_step_def)
qed

definition resolved_log ::
  "'j host \<Rightarrow> 'j \<Rightarrow> string \<Rightarrow> string \<Rightarrow> datetime \<Rightarrow> 'j session_event list" where
  "resolved_log E md sid decision now =
     (case delegation_approval_id E md of
        None \<Rightarrow> []
      | Some aid \<Rightarrow> [CrossSessionDelegationResolved sid aid decision now])"

lemma resolved_effects_log:
  "persisted (resolved_effects E md sid decision now) = resolved_log E md sid decision now"
  "deliveries (resolved_effects E md sid decision now) = 0"
  "bundles (resolved_effects E md sid decision now) = []"
  by (simp_all add: resolved_effects_def resolved_log_def split: option.split)

text \<open>What an ack of step \<open>i\<close> logs.\<close>

definition ack_log ::
  "'j host \<Rightarrow> 'j saga_record \<Rightarrow> string \<Rightarrow> nat \<Rightarrow> saga_outcome \<Rightarrow> 'j session_event list" where
  "ack_log E s sid i out =
     (let now = clock E 0
      in SagaStepAcked sid i out now #
        (case out of
           Committed \<Rightarrow>
             if Suc i < length (steps s)
             then [SagaStepSent sid (Suc i) (participant (steps s ! Suc i)) now]
             else SagaTerminated sid SagaCompleted now
                  # resolved_log E (saga_metadata s) sid ''granted'' now
         | Rejected reason \<Rightarrow>
             map (\<lambda>k. SagaCompensated sid k now) (rev [0..<i])
             @ SagaTerminated sid (SagaAborted reason) now
             # resolved_log E (saga_metadata s) sid ''denied'' now))"

text \<open>The bundles an ack sends.\<close>

definition ack_bundles ::
  "'j host \<Rightarrow> 'j session_memory \<Rightarrow> 'j saga_record \<Rightarrow> string \<Rightarrow> nat \<Rightarrow> saga_outcome \<Rightarrow> 'j saga_bundle list" where
  "ack_bundles E m s sid i out =
     (case out of
        Committed \<Rightarrow>
          if Suc i < length (steps s)
          then [step_bundle m sid (Suc i) (steps s ! Suc i) (now_ms E 1)] else []
      | Rejected reason \<Rightarrow>
          map (\<lambda>(j, k). comp_bundle m sid k (steps s ! k) (now_ms E j))
            (List.enumerate 1 (rev [0..<i])))"

lemma saga_ack_effects:
  assumes "bt_get (sagas m) sid = Some s" and "is_waiting_on s i" and "saga_type s \<noteq> ''approval''"
    and "i < length (steps s)" and "length (steps s) < 2 ^ 64"
  shows "\<exists>effs. live_saga_ack E st m sid i out = Inr (st, m, effs) \<and>
    persisted effs = ack_log E s sid i out \<and> deliveries effs = 0 \<and> bundles effs = ack_bundles E m s sid i out"
proof (cases out)
  case Committed
  have "usize_add i 1 = Suc i" using assms(4,5) usize_add_small [of i 1] by simp
  then show ?thesis
    using assms Committed
    by (simp add: live_saga_ack_def custom_single_ack advance_effects_def ack_log_def ack_bundles_def
        resolved_effects_log session_updated_broadcast_def Let_def)
next
  case (Rejected reason)
  obtain comps where "compensate E m sid (steps s) (clock E 0) 1 (rev [0..<i]) = Inr comps"
    and "persisted comps = map (\<lambda>k. SagaCompensated sid k (clock E 0)) (rev [0..<i])"
    and "deliveries comps = 0"
    and "bundles comps = map (\<lambda>(j, k). comp_bundle m sid k (steps s ! k) (now_ms E j))
      (List.enumerate 1 (rev [0..<i]))"
    using compensate_spec [of "rev [0..<i]" "steps s" E m sid "clock E 0" 1] assms(4) by auto
  then show ?thesis
    using assms Rejected
    by (simp add: live_saga_ack_def custom_single_ack abort_effects_def ack_log_def ack_bundles_def
        resolved_effects_log session_updated_broadcast_def Let_def)
qed

text \<open>
  C4 (compensation): when step \<open>i\<close> of a running custom or transfer saga is rejected, the task does not
  panic and sends one compensation bundle for each of the steps before it, in strictly descending
  order, each to the participant of its step and with that step's compensation; nothing else is sent.
\<close>

theorem compensation_descends:
  assumes "\<not> is_terminal st" and "bt_get (sagas m) sid = Some s" and "is_waiting_on s i"
    and "saga_type s \<noteq> ''approval''" and "i < length (steps s)" and "length (steps s) < 2 ^ 64"
  shows "\<exists>effs. transition E st m (Live (SagaAck sid i (Rejected reason))) = Inr (st, m, effs) \<and>
    map bundle_step_idx (bundles effs) = rev [0..<i] \<and>
    (\<forall>b \<in> set (bundles effs). bundle_saga_id b = sid \<and>
       to_session b = participant (steps s ! bundle_step_idx b) \<and>
       bundle_kind b = Compensation (step_compensation (steps s ! bundle_step_idx b)))"
proof -
  obtain effs where "live_saga_ack E st m sid i (Rejected reason) = Inr (st, m, effs)"
    and "bundles effs = ack_bundles E m s sid i (Rejected reason)"
    using saga_ack_effects [OF assms(2-6)] by blast
  then show ?thesis
    using assms(1)
    by (auto simp: ack_bundles_def comp_bundle_def split_def comp_def simp flip: map_map
        [of bundle_step_idx] intro!: exI [of _ effs])
qed


definition sample_step :: "nat \<Rightarrow> string \<Rightarrow> json saga_step_spec" where
  "sample_step i p =
     \<lparr>step_idx = i, participant = p, step_message = JStr ''do'', step_compensation = JStr ''undo'',
      timeout_ms = 1000\<rparr>"

definition sample_saga :: "nat \<Rightarrow> json saga_record" where
  "sample_saga i =
     \<lparr>saga_id = ''sg'', saga_type = ''custom'',
      steps = [sample_step 0 ''p0'', sample_step 1 ''p1'', sample_step 2 ''p2''],
      saga_status = Saga_Waiting i (saga_timer ''sg'' i), begun_at = 0, saga_metadata = JNull\<rparr>"

definition sample_coordinator :: "nat \<Rightarrow> json session_memory" where
  "sample_coordinator i = (new_memory ''s'' ''ann'')\<lparr>sagas := [(''sg'', sample_saga i)]\<rparr>"

lemma sample_saga_facts [simp]:
  "bt_get (sagas (sample_coordinator i)) ''sg'' = Some (sample_saga i)"
  "is_waiting_on (sample_saga i) i" "saga_type (sample_saga i) = ''custom''"
  "length (steps (sample_saga i)) = 3"
  by (simp_all add: sample_coordinator_def sample_saga_def is_waiting_on_def)

lemma compensation_descends_witness:
  "\<exists>effs. transition sample_host Active (sample_coordinator 2) (Live (SagaAck ''sg'' 2 (Rejected ''no'')))
      = Inr (Active, sample_coordinator 2, effs) \<and> map bundle_step_idx (bundles effs) = [1, 0]"
  using compensation_descends [of Active "sample_coordinator 2" "''sg''" "sample_saga 2" 2 sample_host "''no''"]
  by (auto simp: upt_rec)

section \<open>An ack in the running task\<close>

definition next_status :: "string \<Rightarrow> 'j saga_record \<Rightarrow> nat \<Rightarrow> saga_outcome \<Rightarrow> saga_status" where
  "next_status sid s i out =
     (case out of
        Committed \<Rightarrow>
          if Suc i < length (steps s) then Saga_Waiting (Suc i) (saga_timer sid (Suc i))
          else Saga_Completed
      | Rejected reason \<Rightarrow> Saga_Aborted reason)"

text \<open>Log entries that fold without moving the control state or releasing bundles.\<close>

definition saga_entry :: "'j session_event \<Rightarrow> bool" where
  "saga_entry ev \<longleftrightarrow>
     (case ev of
        SagaBegun a b c d e \<Rightarrow> True
      | SagaStepSent a b c d \<Rightarrow> True
      | SagaStepAcked a b c d \<Rightarrow> True
      | SagaCompensated a b c \<Rightarrow> True
      | SagaTerminated a b c \<Rightarrow> True
      | CrossSessionDelegationResolved a b c d \<Rightarrow> True
      | _ \<Rightarrow> False)"

lemma saga_entry_outcome:
  assumes "saga_entry ev"
  shows "\<exists>m' effs. apply_logged E st m sq ev = Inr (st, m', effs) \<and> deliveries effs = 0"
  using assms
  by (cases ev) (auto simp: saga_entry_def apply_logged_def logged_saga_step_acked_def)

lemma saga_log_foldable: "\<forall>ev \<in> set evs. saga_entry ev \<Longrightarrow> foldable X evs 0 (st, m)"
proof (induction evs arbitrary: m)
  case Nil
  then show ?case by simp
next
  case (Cons ev evs)
  then have entry: "saga_entry ev" and rest: "\<And>m. foldable X evs 0 (st, m)" by simp_all
  have "\<exists>st' m' effs. apply_logged (host_at X k) st m sq ev = Inr (st', m', effs) \<and>
      deliveries effs \<le> 0 \<and> foldable X evs (0 - deliveries effs) (st', m')" for k sq
    using saga_entry_outcome [OF entry, of "host_at X k" st m sq] rest by fastforce
  then show ?case by simp
qed

lemma saga_log_state:
  "folds X evs s s' \<Longrightarrow> \<forall>ev \<in> set evs. saga_entry ev \<Longrightarrow> fst s' = fst s"
proof (induction evs arbitrary: s)
  case Nil
  then show ?case by simp
next
  case (Cons ev evs)
  then obtain k sq st m effs where app: "apply_logged (host_at X k) (fst s) (snd s) sq ev = Inr (st, m, effs)"
    and rest: "folds X evs (st, m) s'" by auto
  have "st = fst s"
    using saga_entry_outcome [of ev "host_at X k" "fst s" "snd s" sq] Cons.prems(2) app by auto
  with Cons.IH [OF rest] Cons.prems(2) show ?case by simp
qed

lemma ack_log_entries: "\<forall>ev \<in> set (ack_log E s sid i out). saga_entry ev"
  by (auto simp: ack_log_def Let_def saga_entry_def resolved_log_def
      split: saga_outcome.splits option.splits)

text \<open>How the entries of an ack change the sagas.\<close>

definition saga_effect ::
  "'j session_event \<Rightarrow> (string, 'j saga_record) btree \<Rightarrow> (string, 'j saga_record) btree" where
  "saga_effect ev t =
     (case ev of
        SagaBegun sid ty ss begun md \<Rightarrow>
          bt_insert sid
            \<lparr>saga_id = sid, saga_type = ty, steps = ss, saga_status = Saga_Running,
             begun_at = begun, saga_metadata = md\<rparr> t
      | SagaStepSent sid i p at \<Rightarrow>
          bt_modify sid (\<lambda>s. s\<lparr>saga_status := Saga_Waiting i (saga_timer sid i)\<rparr>) t
      | SagaStepAcked sid i out at \<Rightarrow>
          bt_modify sid
            (\<lambda>s. if is_waiting_on s i then s\<lparr>saga_status := acked_status i out\<rparr> else s) t
      | SagaTerminated sid out at \<Rightarrow>
          bt_modify sid (\<lambda>s. s\<lparr>saga_status := terminated_status out\<rparr>) t
      | _ \<Rightarrow> t)"

lemma saga_entry_sagas:
  "saga_entry ev \<Longrightarrow> apply_logged E st m sq ev = Inr (st', m', effs) \<Longrightarrow>
   sagas m' = saga_effect ev (sagas m)"
  by (cases ev) (auto simp: saga_entry_def saga_effect_def apply_logged_def logged_saga_step_acked_def
      logged_saga_begun_def logged_saga_step_sent_def logged_saga_terminated_def advance_cursor_def)

lemma saga_log_sagas:
  "folds X evs s s' \<Longrightarrow> \<forall>ev \<in> set evs. saga_entry ev \<Longrightarrow>
   sagas (snd s') = fold saga_effect evs (sagas (snd s))"
  by (induction evs arbitrary: s) (auto dest: saga_entry_sagas)

lemma fold_compensated: "fold saga_effect (map (\<lambda>k. SagaCompensated sid k now) ks) t = t"
  by (induction ks arbitrary: t) (simp_all add: saga_effect_def)

lemma fold_resolved: "fold saga_effect (resolved_log E md sid d now) t = t"
  by (simp add: resolved_log_def saga_effect_def split: option.split)

lemma ack_log_sagas:
  assumes "bt_get t sid = Some s" and "is_waiting_on s i"
  shows "bt_get (fold saga_effect (ack_log E s sid i out) t) x =
    (if x = sid then Some (s\<lparr>saga_status := next_status sid s i out\<rparr>) else bt_get t x)"
  using assms
  by (auto simp: ack_log_def Let_def fold_compensated fold_resolved saga_effect_def next_status_def
      terminated_status_def split: saga_outcome.split)

lemma ack_served:
  assumes "\<not> is_terminal (task_state t)" and "bt_get (sagas (task_memory t)) sid = Some s"
    and "is_waiting_on s i" and "saga_type s \<noteq> ''approval''" and "i < length (steps s)"
    and "length (steps s) < 2 ^ 64" and "length (mailbox t) \<le> channel_capacity"
  shows "\<exists>t'. serve X (Live (SagaAck sid i out)) t = Inr t' \<and> task_state t' = task_state t \<and>
    length (mailbox t') \<le> length (mailbox t) \<and>
    (\<forall>x. bt_get (sagas (task_memory t')) x =
       (if x = sid then Some (s\<lparr>saga_status := next_status sid s i out\<rparr>)
        else bt_get (sagas (task_memory t)) x)) \<and>
    (\<forall>E out'. transition E (task_state t') (task_memory t') (Live (SagaAck sid i out'))
       = Inr (task_state t', task_memory t', []))"
proof -
  let ?E = "host_at X (ticks t)"
  obtain effs where ack: "live_saga_ack ?E (task_state t) (task_memory t) sid i out
        = Inr (task_state t, task_memory t, effs)"
    and log: "persisted effs = ack_log ?E s sid i out" and none: "deliveries effs = 0"
    using saga_ack_effects [OF assms(2-6)] by blast
  have tr: "transition ?E (task_state t) (task_memory t) (Live (SagaAck sid i out))
      = Inr (task_state t, task_memory t, effs)"
    using ack assms(1) by simp
  obtain t' where run: "serve X (Live (SagaAck sid i out)) t = Inr t'"
    and box: "length (mailbox t') \<le> length (mailbox t)"
    using serve_returns [OF tr, of 0] assms(7)
    by (auto simp: log none saga_log_foldable [OF ack_log_entries])
  have folded: "folds X (ack_log ?E s sid i out) (task_state t, task_memory t) (control t')"
    using served_folds [OF run tr] unfolding log .
  have state: "task_state t' = task_state t"
    using saga_log_state [OF folded ack_log_entries] by simp
  have after: "bt_get (sagas (task_memory t')) x =
      (if x = sid then Some (s\<lparr>saga_status := next_status sid s i out\<rparr>)
       else bt_get (sagas (task_memory t)) x)" for x
    using saga_log_sagas [OF folded ack_log_entries] ack_log_sagas [OF assms(2,3)] by simp
  have "\<not> is_waiting_on (s\<lparr>saga_status := next_status sid s i out\<rparr>) i"
    by (simp add: is_waiting_on_def next_status_def split: saga_outcome.split)
  then have "transition E (task_state t') (task_memory t') (Live (SagaAck sid i out'))
      = Inr (task_state t', task_memory t', [])" for E out'
    using assms(1) after [of sid] by (simp add: state live_saga_ack_def)
  with run box state after show ?thesis by blast
qed

text \<open>
  C2 (an ack end to end): an ack for the step a custom or transfer saga waits on is processed without
  failure; the saga then waits on the next step, is completed after the last one, or is aborted with
  the reason given, no other saga changes, and the same ack arriving again, with any outcome, does
  nothing.
\<close>

theorem ack_moves_saga:
  assumes "\<not> is_terminal (task_state t)" and "bt_get (sagas (task_memory t)) sid = Some s"
    and "is_waiting_on s i" and "saga_type s \<noteq> ''approval''" and "i < length (steps s)"
    and "length (steps s) < 2 ^ 64" and "length (mailbox t) \<le> channel_capacity"
  shows "\<exists>t'. serve X (Live (SagaAck sid i out)) t = Inr t' \<and> task_state t' = task_state t \<and>
    length (mailbox t') \<le> length (mailbox t) \<and>
    (\<forall>x. bt_get (sagas (task_memory t')) x =
       (if x = sid then Some (s\<lparr>saga_status := next_status sid s i out\<rparr>)
        else bt_get (sagas (task_memory t)) x)) \<and>
    (\<forall>E out'. transition E (task_state t') (task_memory t') (Live (SagaAck sid i out'))
       = Inr (task_state t', task_memory t', []))"
  using assms by (rule ack_served)

lemma ack_moves_saga_witness:
  "\<exists>t'. serve sample_runtime (Live (SagaAck ''sg'' 1 Committed)) (sample_task (sample_coordinator 1)) = Inr t' \<and>
     map_option saga_status (bt_get (sagas (task_memory t')) ''sg'')
       = Some (Saga_Waiting (Suc 1) (saga_timer ''sg'' (Suc 1)))"
  using ack_moves_saga [of "sample_task (sample_coordinator 1)" "''sg''" "sample_saga 1" 1 sample_runtime Committed]
  by (auto simp: sample_task_def new_task_def next_status_def)

section \<open>A whole saga\<close>

fun serve_all :: "'j runtime \<Rightarrow> 'j inbound_event list \<Rightarrow> 'j task \<Rightarrow> 'j task result" where
  "serve_all X [] t = Inr t"
| "serve_all X (ev # evs) t = bind_result (serve X ev t) (serve_all X evs)"

lemma acks_complete:
  "\<not> is_terminal (task_state t) \<Longrightarrow> bt_get (sagas (task_memory t)) sid = Some s \<Longrightarrow>
   is_waiting_on s i \<Longrightarrow> saga_type s \<noteq> ''approval'' \<Longrightarrow> i < length (steps s) \<Longrightarrow>
   length (steps s) < 2 ^ 64 \<Longrightarrow> length (mailbox t) \<le> channel_capacity \<Longrightarrow>
   \<exists>t'. serve_all X (map (\<lambda>k. Live (SagaAck sid k Committed)) [i..<length (steps s)]) t = Inr t' \<and>
     bt_get (sagas (task_memory t')) sid = Some (s\<lparr>saga_status := Saga_Completed\<rparr>)"
proof (induction "length (steps s) - Suc i" arbitrary: i s t)
  case 0
  then have last: "[i..<length (steps s)] = [i]" "\<not> Suc i < length (steps s)"
    by (simp_all add: upt_rec)
  show ?case
    using ack_served [OF 0(2-8), of X Committed] last by (auto simp: next_status_def)
next
  case (Suc n)
  then have more: "Suc i < length (steps s)" by simp
  let ?s = "s\<lparr>saga_status := Saga_Waiting (Suc i) (saga_timer sid (Suc i))\<rparr>"
  obtain u where u: "serve X (Live (SagaAck sid i Committed)) t = Inr u"
    and "task_state u = task_state t" and "length (mailbox u) \<le> channel_capacity"
    and "bt_get (sagas (task_memory u)) sid = Some ?s"
    using ack_served [OF Suc(3-9), of X Committed] Suc(9) more by (auto simp: next_status_def)
  then have "\<exists>t'. serve_all X (map (\<lambda>k. Live (SagaAck sid k Committed)) [Suc i..<length (steps ?s)]) u = Inr t' \<and>
      bt_get (sagas (task_memory t')) sid = Some (?s\<lparr>saga_status := Saga_Completed\<rparr>)"
    using Suc(2-9) more by (intro Suc(1)) (auto simp: is_waiting_on_def)
  moreover have "[i..<length (steps s)] = i # [Suc i..<length (steps s)]"
    using more by (simp add: upt_conv_Cons)
  ultimately show ?case using u by simp
qed

text \<open>
  C3 (a saga completes): in a running task, beginning a custom or transfer saga with at least one step
  and then acking every step in order ends, without failure, in a completed saga with the steps it was
  begun with.
\<close>

theorem saga_completes:
  assumes "\<not> is_terminal (task_state t)" and "ss \<noteq> []" and "ty \<noteq> ''approval''"
    and "length ss < 2 ^ 64" and "length (mailbox t) \<le> channel_capacity"
  shows "\<exists>t' s. serve_all X
      (Live (SagaBegin sid ty ss md) # map (\<lambda>k. Live (SagaAck sid k Committed)) [0..<length ss]) t = Inr t' \<and>
    bt_get (sagas (task_memory t')) sid = Some s \<and> saga_status s = Saga_Completed \<and> steps s = ss"
proof -
  let ?E = "host_at X (ticks t)"
  let ?log = "[SagaBegun sid ty ss (clock ?E 0) md, SagaStepSent sid 0 (participant (hd ss)) (clock ?E 0)]"
  obtain effs where tr: "transition ?E (task_state t) (task_memory t) (Live (SagaBegin sid ty ss md))
      = Inr (task_state t, task_memory t, effs)"
    and log: "persisted effs = ?log" and none: "deliveries effs = 0"
    using assms(1,2) by (cases ss) (auto simp: live_saga_begin_def session_updated_broadcast_def Let_def)
  have entries: "\<forall>ev \<in> set ?log. saga_entry ev" by (simp add: saga_entry_def)
  obtain u where u: "serve X (Live (SagaBegin sid ty ss md)) t = Inr u"
    and box: "length (mailbox u) \<le> channel_capacity"
    using serve_returns [OF tr, of 0] saga_log_foldable [OF entries] assms(5)
    unfolding log none by fastforce
  have folded: "folds X ?log (task_state t, task_memory t) (control u)"
    using served_folds [OF u tr] unfolding log .
  let ?s = "\<lparr>saga_id = sid, saga_type = ty, steps = ss, saga_status = Saga_Waiting 0 (saga_timer sid 0),
      begun_at = clock ?E 0, saga_metadata = md\<rparr>"
  have "bt_get (sagas (task_memory u)) sid = Some ?s"
    using saga_log_sagas [OF folded entries] by (simp add: saga_effect_def)
  moreover have "task_state u = task_state t"
    using saga_log_state [OF folded entries] by simp
  ultimately show ?thesis
    using acks_complete [of u sid ?s 0 X] assms box u by (auto simp: is_waiting_on_def)
qed

lemma saga_completes_witness:
  "\<exists>t' s. serve_all sample_runtime
      (Live (SagaBegin ''sg'' ''custom'' [sample_step 0 ''p0''] JNull)
       # map (\<lambda>k. Live (SagaAck ''sg'' k Committed)) [0..<length [sample_step 0 ''p0'']]) (sample_task (new_memory ''s'' ''ann'')) = Inr t' \<and>
    bt_get (sagas (task_memory t')) ''sg'' = Some s \<and> saga_status s = Saga_Completed \<and>
    steps s = [sample_step 0 ''p0'']"
  by (rule saga_completes) (simp_all add: sample_task_def new_task_def)


section \<open>Timeouts and stuck sagas\<close>

lemma saga_timer_kinds [simp]:
  "strip_prefix ''approval:'' (saga_timer sid i) = None"
  "starts_with ''drain:'' (saga_timer sid i) = False"
  "strip_prefix ''bundle_defer:'' (saga_timer sid i) = None"
  by (simp_all add: saga_timer_def starts_with_def strip_prefix_def)

text \<open>
  Step timeout: the timer of the step a saga waits on acts as a rejection of that step, and the
  timer of any other step of it does nothing but clear itself.
\<close>

theorem step_timeout:
  assumes "\<not> is_terminal st" and "i < 2 ^ 64" and "bt_get (sagas m) sid = Some s"
  shows "transition E st m (Live (TimerFired (saga_timer sid i))) =
    (let m' = drop_timer (saga_timer sid i) m
     in if is_waiting_on s i
        then transition E st m'
          (Live (SagaAck sid i (Rejected (''step '' @ nat_str i @ '' timed out''))))
        else Inr (st, m', []))"
proof -
  have "bt_get (sagas (drop_timer (saga_timer sid i) m)) sid = Some s"
    using assms(3) by (simp add: drop_timer_def)
  then show ?thesis
    using assms(1) saga_timer_target_timer [OF assms(2), of sid]
    by (simp add: live_timer_fired_def fire_saga_def saga_is_waiting_def Let_def)
qed

lemma step_timeout_witness:
  "transition sample_host Active (sample_coordinator 1) (Live (TimerFired (saga_timer ''sg'' 0))) =
     Inr (Active, drop_timer (saga_timer ''sg'' 0) (sample_coordinator 1), [])"
proof -
  have "\<not> is_waiting_on (sample_saga 1) 0" by (simp add: is_waiting_on_def sample_saga_def)
  then show ?thesis
    using step_timeout [of Active 0 "sample_coordinator 1" "''sg''" "sample_saga 1" sample_host]
    by (simp add: Let_def)
qed

text \<open>
  An approval saga under the majority policy with two or more approvers never decides: each ack is
  reduced on its own, its timer is cancelled, and nothing is recorded.
\<close>

lemma quorum_saga_stuck:
  assumes "bt_get (sagas m) sid = Some s" and "is_waiting_on s i" and "saga_type s = ''approval''"
    and "j_as_str E (j_index E (saga_metadata s) ''policy'') = Some ''majority''"
    and "j_as_u64 E (j_index E (saga_metadata s) ''eligible'') = Some n" and "2 \<le> unat n"
  shows "live_saga_ack E st m sid i out =
    Inr (st, m, [CancelTimer (saga_timer sid i), session_updated_broadcast E m])"
  using assms
  by (cases out)
    (auto simp: live_saga_ack_def build_session_saga_def approval_reduce_def str_or_def Let_def
      committed_acks_def rejected_acks_def)

section \<open>Delegating an approval to another session\<close>

text \<open>
  C5 (delegation round trip): the bundle that delegates an approval is addressed to the target session
  and, received there before it expires, is recorded as a request from the delegating session with the
  same saga, approval and arguments. It relies on \<open>serde_json\<close> reading back the fields of an object.
\<close>

theorem delegation_arrives:
  assumes "json_laws E" and "\<not> is_terminal st" and "\<not> is_terminal st2"
    and "transition E st m (Live (CrossSessionDelegate sid aid target by_actor args)) = Inr (st', m', effs)"
    and "b \<in> set (bundles effs)" and "E2 = E\<lparr>clock := c\<rparr>" and "now_ms E2 0 \<le> ttl_ms b"
  shows "to_session b = target \<and>
    transition E2 st2 m2 (Live (BundleReceived b)) =
      Inr (st2, m2,
        [Persist (CrossSessionDelegationReceived sid (session_id m) aid args None (c 1)),
         session_updated_broadcast E2 m2])"
proof -
  have b: "b = step_bundle m sid 0 (delegation_step E aid target args) (now_ms (after_reading E) 1)"
    using assms(2,4,5)
    by (auto simp: live_cross_session_delegate_def live_saga_begin_def bind_result_Inr Let_def
        session_updated_broadcast_def)
  have field: "j_get E (j_obj E kvs) k = map_of (rev kvs) k" "j_as_str E (j_str E x) = Some x" for kvs k x
    using assms(1) by (simp_all add: json_laws_def)
  have fresh: "\<not> ttl_ms b < now_ms E2 0" using assms(7) by (simp add: not_less)
  show ?thesis
    using b fresh assms(3,6)
    by (auto simp: step_bundle_def delegation_step_def Let_def live_bundle_received_def receive_step_def
        delegation_received_def persist_and_notify_def str_field_def str_field_or_empty_def str_or_def field)
qed

lemma delegation_arrives_witness:
  "\<exists>b. to_session b = ''t'' \<and>
     transition sample_host Active (new_memory ''t'' ''zoe'') (Live (BundleReceived b)) =
      Inr (Active, new_memory ''t'' ''zoe'',
        [Persist (CrossSessionDelegationReceived ''sg'' ''s'' ''ap'' (JInt 7) None 0),
         session_updated_broadcast sample_host (new_memory ''t'' ''zoe'')])"
proof -
  let ?b = "step_bundle sample_memory ''sg'' 0 (delegation_step sample_host ''ap'' ''t'' (JInt 7)) 0"
  obtain effs where tr: "transition sample_host Active sample_memory
      (Live (CrossSessionDelegate ''sg'' ''ap'' ''t'' ''ann'' (JInt 7))) = Inr (Active, sample_memory, effs)"
    and b: "bundles effs = [?b]"
    by (simp add: live_cross_session_delegate_def live_saga_begin_def session_updated_broadcast_def Let_def
        after_reading_def now_ms_def) (simp add: sample_host_def)
  have "now_ms sample_host 0 \<le> ttl_ms ?b"
    by (simp add: now_ms_def sample_host_def step_bundle_def)
  then show ?thesis
    using delegation_arrives [OF sample_host_laws _ _ tr, of Active ?b sample_host "clock sample_host" "new_memory ''t'' ''zoe''"] b
    by (auto simp: sample_memory_def new_memory_def sample_host_def)
qed

end
