(* ===== verification/Well_Formed.thy ===== *)
theory Well_Formed
  imports Durable
begin

text \<open>
  Well-formedness of the session memory: every ordered map is in key order, every record is filed
  under its own identifier, the votes of every approval form an ordered map, and a held bundle is
  filed under its bundle identifier. Every transition keeps it, so a replay of any log and every
  memory of a running task has it.
\<close>

section \<open>Maps whose entries satisfy a predicate\<close>

definition bt_all :: "('k::linorder \<Rightarrow> 'v \<Rightarrow> bool) \<Rightarrow> ('k, 'v) btree \<Rightarrow> bool" where
  "bt_all P t \<longleftrightarrow> bt_ok t \<and> (\<forall>(k, v) \<in> set t. P k v)"

lemma set_bt_insert: "e \<in> set (bt_insert k v t) \<Longrightarrow> e = (k, v) \<or> e \<in> set t"
  by (induction k v t rule: bt_insert.induct) (auto split: if_splits)

lemma bt_all_Nil [simp]: "bt_all P []"
  by (simp add: bt_all_def)

lemma bt_all_insert [intro]: "bt_all P t \<Longrightarrow> P k v \<Longrightarrow> bt_all P (bt_insert k v t)"
  by (auto simp: bt_all_def dest!: set_bt_insert)

lemma bt_all_remove [intro]: "bt_all P t \<Longrightarrow> bt_all P (bt_remove k t)"
  by (auto simp: bt_all_def) (auto simp: bt_remove_def)

lemma bt_all_modify [intro]:
  "bt_all P t \<Longrightarrow> (\<And>v. P k v \<Longrightarrow> P k (f v)) \<Longrightarrow> bt_all P (bt_modify k f t)"
  by (simp add: bt_all_def) (fastforce simp: bt_modify_def)

lemma bt_all_map_values [intro]:
  "bt_all P t \<Longrightarrow> (\<And>k v. P k v \<Longrightarrow> P k (f v)) \<Longrightarrow> bt_all P (bt_map_values f t)"
  by (simp add: bt_all_def) (fastforce simp: bt_map_values_def)

lemma bt_all_or_insert [intro]: "bt_all P t \<Longrightarrow> P k v \<Longrightarrow> bt_all P (bt_or_insert k v t)"
  by (auto simp: bt_or_insert_def split: option.splits)

lemma bt_all_modify_or_insert [intro]:
  "bt_all P t \<Longrightarrow> P k w \<Longrightarrow> (\<And>v. P k v \<Longrightarrow> P k (f v)) \<Longrightarrow> bt_all P (bt_modify_or_insert k f w t)"
  by (auto simp: bt_modify_or_insert_def split: option.splits)

lemma bt_all_get: "bt_all P t \<Longrightarrow> bt_get t k = Some v \<Longrightarrow> P k v"
  by (auto simp: bt_all_def dest: bt_get_entry)

lemma bt_all_ok: "bt_all P t \<Longrightarrow> bt_ok t"
  by (simp add: bt_all_def)

section \<open>The invariant\<close>

definition held_ok :: "string \<Rightarrow> 'j gated_bundle \<Rightarrow> bool" where
  "held_ok k g \<longleftrightarrow> (case gated g of None \<Rightarrow> True | Some b \<Rightarrow> bundle_id b = k)"

definition approval_ok :: "string \<Rightarrow> approval_record \<Rightarrow> bool" where
  "approval_ok k a \<longleftrightarrow> approval_id a = k \<and> bt_ok (votes a)"

definition wf_memory :: "'j session_memory \<Rightarrow> bool" where
  "wf_memory m \<longleftrightarrow>
     bt_all (\<lambda>k r. mr_actor_id r = k) (members m) \<and>
     bt_all (\<lambda>k c. cap_id c = k) (caps m) \<and>
     bt_ok (cap_children m) \<and>
     bt_all approval_ok (approvals m) \<and>
     bt_all (\<lambda>k p. proposal_id p = k) (proposals m) \<and>
     bt_all (\<lambda>k a. as_id a = k) (artifacts m) \<and>
     bt_all (\<lambda>k e. ce_id e = k) (context_entries m) \<and>
     bt_ok (timers m) \<and>
     bt_all (\<lambda>k s. saga_id s = k) (sagas m) \<and>
     bt_all held_ok (gated_bundles m) \<and>
     bt_ok (policies m)"

lemma wf_new_memory: "wf_memory (new_memory sid owner)"
  by (simp add: wf_memory_def new_memory_def)

lemma wf_advance_cursor [simp]: "wf_memory (advance_cursor sq m) = wf_memory m"
  by (simp add: wf_memory_def advance_cursor_def)

lemma wf_revoke_cap: "wf_memory m \<Longrightarrow> wf_memory (revoke_cap c m)"
  by (auto simp: wf_memory_def revoke_cap_def)

lemma wf_revoke_caps: "wf_memory m \<Longrightarrow> wf_memory (fold revoke_cap ids m)"
  by (induction ids arbitrary: m) (simp_all add: wf_revoke_cap)

lemma wf_remove_gate: "wf_memory m \<Longrightarrow> wf_memory (remove_gate i m)"
  by (auto simp: wf_memory_def remove_gate_def)

lemma wf_remove_gates: "wf_memory m \<Longrightarrow> wf_memory (fold (\<lambda>(i, _). remove_gate i) held m)"
  by (induction held arbitrary: m) (auto simp: wf_remove_gate)

lemma wf_drop_timer: "wf_memory m \<Longrightarrow> wf_memory (drop_timer t m)"
  by (auto simp: wf_memory_def drop_timer_def)

lemma wf_set_status: "wf_memory m \<Longrightarrow> wf_memory (set_status s aid m)"
  by (auto simp: wf_memory_def set_status_def approval_ok_def)

lemma wf_effect_diverged: "wf_memory m \<Longrightarrow> wf_memory (logged_effect_diverged m)"
  by (cases "proposals m")
    (auto simp: wf_memory_def logged_effect_diverged_def, auto simp: bt_all_def bt_ok_def)

lemma wf_fields:
  "wf_memory m \<Longrightarrow> bt_all (\<lambda>k r. mr_actor_id r = k) x \<Longrightarrow> wf_memory (m\<lparr>members := x\<rparr>)"
  "wf_memory m \<Longrightarrow> bt_all (\<lambda>k c. cap_id c = k) y \<Longrightarrow> wf_memory (m\<lparr>caps := y\<rparr>)"
  "wf_memory m \<Longrightarrow> bt_ok ch \<Longrightarrow> wf_memory (m\<lparr>cap_children := ch\<rparr>)"
  "wf_memory m \<Longrightarrow> bt_all approval_ok z \<Longrightarrow> wf_memory (m\<lparr>approvals := z\<rparr>)"
  "wf_memory m \<Longrightarrow> bt_all (\<lambda>k p. proposal_id p = k) p \<Longrightarrow> wf_memory (m\<lparr>proposals := p\<rparr>)"
  "wf_memory m \<Longrightarrow> bt_all (\<lambda>k a. as_id a = k) a \<Longrightarrow> wf_memory (m\<lparr>artifacts := a\<rparr>)"
  "wf_memory m \<Longrightarrow> bt_all (\<lambda>k e. ce_id e = k) c \<Longrightarrow> wf_memory (m\<lparr>context_entries := c\<rparr>)"
  "wf_memory m \<Longrightarrow> bt_ok ts \<Longrightarrow> wf_memory (m\<lparr>timers := ts\<rparr>)"
  "wf_memory m \<Longrightarrow> bt_all (\<lambda>k s. saga_id s = k) sg \<Longrightarrow> wf_memory (m\<lparr>sagas := sg\<rparr>)"
  "wf_memory m \<Longrightarrow> bt_all held_ok g \<Longrightarrow> wf_memory (m\<lparr>gated_bundles := g\<rparr>)"
  "wf_memory m \<Longrightarrow> bt_ok ps \<Longrightarrow> wf_memory (m\<lparr>policies := ps\<rparr>)"
  "wf_memory m \<Longrightarrow> wf_memory (m\<lparr>session_name := n\<rparr>)"
  "wf_memory m \<Longrightarrow> wf_memory (m\<lparr>session_policy := n\<rparr>)"
  "wf_memory m \<Longrightarrow> wf_memory (m\<lparr>owner_id := n\<rparr>)"
  "wf_memory m \<Longrightarrow> wf_memory (m\<lparr>epoch := e\<rparr>)"
  "wf_memory m \<Longrightarrow> wf_memory (m\<lparr>snapshot_seq := e\<rparr>)"
  "wf_memory m \<Longrightarrow> wf_memory (m\<lparr>eligible_approvers := w\<rparr>)"
  by (simp_all add: wf_memory_def)

lemma wf_parts:
  assumes "wf_memory m"
  shows "bt_all (\<lambda>k r. mr_actor_id r = k) (members m)" "bt_all (\<lambda>k c. cap_id c = k) (caps m)"
    "bt_ok (cap_children m)" "bt_all approval_ok (approvals m)"
    "bt_all (\<lambda>k p. proposal_id p = k) (proposals m)" "bt_all (\<lambda>k a. as_id a = k) (artifacts m)"
    "bt_all (\<lambda>k e. ce_id e = k) (context_entries m)" "bt_ok (timers m)"
    "bt_all (\<lambda>k s. saga_id s = k) (sagas m)" "bt_all held_ok (gated_bundles m)" "bt_ok (policies m)"
  using assms by (simp_all add: wf_memory_def)

lemma wf_participation:
  assumes "wf_memory m"
  shows "wf_memory (logged_session_created E m owner name policy)"
    and "wf_memory (logged_participant_joined m actor r joined)"
    and "wf_memory (logged_participant_left m actor)"
    and "wf_memory (logged_ownership_transferred m from_actor to_actor)"
    and "wf_memory (logged_cap_delegated m cid parent actor perms ep strat issued)"
    and "wf_memory (detach_member actor m)"
  using wf_parts [OF assms] assms
  by (auto simp: logged_session_created_def logged_participant_joined_def
      logged_participant_left_def logged_ownership_transferred_def logged_cap_delegated_def
      recount_eligible_def detach_member_def fresh_member_def
      intro!: wf_fields bt_all_modify split: option.split)

lemma wf_approvals:
  assumes "wf_memory m"
  shows "wf_memory (logged_approval_requested m aid actor tname expires requested)"
    and "wf_memory (logged_approval_voted m aid voter decision)"
    and "wf_memory (set_status_if_open s aid m)"
  using wf_parts(4) [OF assms] assms
  by (auto simp: logged_approval_requested_def logged_approval_voted_def set_status_if_open_def
      approval_ok_def intro!: wf_fields)

lemma wf_content:
  assumes "wf_memory m"
  shows "wf_memory (logged_effect_proposed m pid receipt ety hb ha)"
    and "wf_memory (logged_effect_committed m pid h1 h2)"
    and "wf_memory (logged_context_added m sq eid actor kind content added)"
    and "wf_memory (logged_context_resolved m eid by_actor note_text)"
    and "wf_memory (logged_artifact_created m aid name ty)"
    and "wf_memory (logged_artifact_updated m aid name)"
    and "wf_memory (logged_artifact_deleted m aid)"
    and "wf_memory (logged_saga_begun m sid sty ss begun md)"
    and "wf_memory (logged_saga_step_sent m sid i)"
    and "wf_memory (logged_saga_terminated m sid t)"
    and "wf_memory (logged_bundle_approval_gated m bid aid)"
    and "wf_memory (logged_policy_set m target con)"
  using wf_parts [OF assms] assms
  by (auto simp: logged_effect_proposed_def logged_effect_committed_def logged_context_added_def
      logged_context_resolved_def logged_artifact_created_def logged_artifact_updated_def
      logged_artifact_deleted_def logged_saga_begun_def logged_saga_step_sent_def
      logged_saga_terminated_def logged_bundle_approval_gated_def logged_policy_set_def held_ok_def
      intro!: wf_fields)

lemma wf_outcomes:
  assumes "wf_memory m"
  shows "logged_agent_attached E st m actor = Inr (st', m', effs) \<Longrightarrow> wf_memory m'"
    and "logged_agent_detached E st m actor = Inr (st', m', effs) \<Longrightarrow> wf_memory m'"
    and "logged_epoch_advanced E st m sq ep dl fenced at = Inr (st', m', effs) \<Longrightarrow> wf_memory m'"
    and "logged_approval_granted st m aid = Inr (st', m', effs) \<Longrightarrow> wf_memory m'"
    and "logged_approval_closed st m s aid = Inr (st', m', effs) \<Longrightarrow> wf_memory m'"
    and "logged_approval_denied st m aid = Inr (st', m', effs) \<Longrightarrow> wf_memory m'"
    and "logged_saga_step_acked st m sid i out = Inr (st', m', effs) \<Longrightarrow> wf_memory m'"
    and "logged_bundle_deferred E st m bid until = Inr (st', m', effs) \<Longrightarrow> wf_memory m'"
  using wf_parts [OF assms] assms
  by (auto simp: logged_outcome_defs Let_def fresh_member_def held_ok_def wf_participation wf_approvals
      wf_remove_gates wf_drop_timer wf_set_status intro!: wf_fields split: if_splits option.splits)

lemma logged_arm_wf:
  assumes "logged_arm E st m sq ev = Inr (st', m', effs)" and "wf_memory m"
  shows "wf_memory m'"
  using assms
  by (cases ev) (auto simp: wf_participation wf_approvals wf_content wf_effect_diverged wf_remove_gate
      wf_fields logged_cap_revoked_def bind_result_Inr wf_revoke_cap wf_revoke_caps
      split: if_splits dest: wf_outcomes)

lemma live_write_wf: "live_write m m' \<Longrightarrow> wf_memory m \<Longrightarrow> wf_memory m'"
  by (induction rule: live_write.induct)
    (auto simp: wf_memory_def attach_connection_def drop_timer_def remove_gate_def hold_bundle_def
      held_ok_def)

lemma transition_wf:
  assumes "transition E st m ev = Inr (st', m', effs)" and "wf_memory m"
  shows "wf_memory m'"
proof (cases ev)
  case (Replayed sq e)
  then show ?thesis
    using assms logged_arm_wf [of E st "advance_cursor sq m" sq e] by (simp add: apply_logged_def)
next
  case (Live e)
  then show ?thesis
    using assms live_apply [of E st m e st' m' effs] live_write_wf [of m m'] by (auto split: if_splits)
qed

text \<open>Replaying a log is a machine that keeps it.\<close>

interpretation replayed: invariant_machine "replay_step E" "\<lambda>_ _. True" "\<lambda>s. wf_memory (snd s)"
  for E :: "'j host"
  by unfold_locales (auto simp: replay_step_def bind_result_Inr simp del: transition.simps
      dest: transition_wf)

lemma replay_log_wf:
  assumes "replay_log E sid owner log = Inr (st, m)"
  shows "wf_memory m"
proof -
  have "wf_memory (snd (st, m))"
    using assms replayed.run_inv [of "(Active, new_memory sid owner)" E log "(st, m)"]
      replayed.accepts_everything [of E "(Active, new_memory sid owner)" log]
    by (simp add: replay_log_def wf_new_memory)
  then show ?thesis by simp
qed

end
