(* ===== verification/Bundle_Properties.thy ===== *)
theory Bundle_Properties
  imports Well_Formed Sample Served
begin

text \<open>
  Bundles on their way into a session: which policy applies, what is held and when it is let go, and
  what a cold start makes of the gates and of the reflector's backlog.
\<close>

section \<open>Policies\<close>

text \<open>
  Setting a policy: recording a policy has no other effect, decides every bundle of its kind from
  then on, and a policy for all kinds decides a bundle only if no policy for its own kind is set.
\<close>

theorem policy_set_decides:
  "\<exists>m'. transition E st m (Replayed sq (PolicySet target con by_cap at)) = Inr (st, m', []) \<and>
     effective_constraint m' b =
       (if target = specific_target (bundle_kind b) then Some con
        else if target = TargetAll \<and> bt_get (policies m) (specific_target (bundle_kind b)) = None
        then Some con else effective_constraint m b)"
  by (cases "bundle_kind b")
    (auto simp: apply_logged_def logged_policy_set_def effective_constraint_def advance_cursor_def
      split: option.split)

section \<open>Holding\<close>

definition held :: "'j session_memory \<Rightarrow> string \<Rightarrow> 'j saga_bundle option" where
  "held m bid = Option.bind (bt_get (gated_bundles m) bid) gated"

definition delivered :: "'j effect list \<Rightarrow> 'j saga_bundle list" where
  "delivered effs = List.map_filter (\<lambda>e. case e of BundleDeliver b \<Rightarrow> Some b | _ \<Rightarrow> None) effs"

lemma delivered_simps [simp]:
  "delivered [] = []"
  "delivered (BundleDeliver b # effs) = b # delivered effs"
  "\<not> is_bundle_deliver e \<Longrightarrow> delivered (e # effs) = delivered effs"
  by (simp_all add: delivered_def List.map_filter_def) (cases e; simp)

lemma delivered_append [simp]: "delivered (xs @ ys) = delivered xs @ delivered ys"
  by (simp add: delivered_def List.map_filter_def)

lemma delivered_map [simp]: "delivered (map BundleDeliver bs) = bs"
  by (induction bs) simp_all

text \<open>
  A gate holds: a bundle that arrives in time under a policy that requires approval or defers is
  not delivered; it is held under its identifier, the gate and its kind are logged, and nothing else
  is.
\<close>

theorem gate_holds_bundle:
  assumes "\<not> is_terminal st" and "now_ms E 0 \<le> ttl_ms b"
    and "effective_constraint m b = Some RequireApproval \<or>
      (\<exists>d. effective_constraint m b = Some (DeferConstraint d))"
  shows "\<exists>m' effs. transition E st m (Live (BundleIntercepted b icap rc)) = Inr (st, m', effs) \<and>
    delivered effs = [] \<and> held m' (bundle_id b) = Some b \<and> durable m' = durable m \<and>
    (persisted effs = [BundleApprovalGated (bundle_id b) (''gate:'' @ bundle_id b) icap] \<or>
     (\<exists>until. persisted effs = [BundleDeferred (bundle_id b) until icap]))"
  using assms
  by (auto simp: live_bundle_intercepted_def resolve_bundle_disposition_def apply_bundle_disposition_def
      held_def hold_bundle_def durable_def not_less [symmetric])

definition gated_memory :: "json session_memory" where
  "gated_memory =
     (new_memory ''s'' ''ann'')
       \<lparr>policies := [(TargetAll, RequireApproval)],
        gated_bundles := [(''b'', \<lparr>gate_kind = Gate_Approval ''gate:b'', gated = Some (sample_bundle ''b''),
          gate_cursor = None\<rparr>)]\<rparr>"

lemma gated_memory_simps [simp]:
  "bt_get (gated_bundles gated_memory) i = (if i = ''b'' then Some
     \<lparr>gate_kind = Gate_Approval ''gate:b'', gated = Some (sample_bundle ''b''), gate_cursor = None\<rparr> else None)"
  "held gated_memory ''b'' = Some (sample_bundle ''b'')" "wf_memory gated_memory"
  "bundle_id (sample_bundle i) = i" "now_ms sample_host k \<le> ttl_ms (sample_bundle i)"
  by (simp_all add: gated_memory_def held_def wf_memory_def new_memory_def bt_all_def bt_ok_def held_ok_def
      sample_bundle_def now_ms_def sample_host_def)

lemma gate_holds_bundle_witness:
  "\<exists>m' effs. transition sample_host Active gated_memory
      (Live (BundleIntercepted (sample_bundle ''c'') ''cap'' \<lparr>rc_seq = 1, rc_epoch = 0, rc_view = 0\<rparr>))
      = Inr (Active, m', effs) \<and> delivered effs = [] \<and> held m' ''c'' = Some (sample_bundle ''c'')"
proof -
  have "effective_constraint gated_memory (sample_bundle ''c'') = Some RequireApproval"
    by (simp add: effective_constraint_def gated_memory_def sample_bundle_def new_memory_def)
  then show ?thesis
    using gate_holds_bundle [of Active sample_host "sample_bundle ''c''" gated_memory "''cap''"
        "\<lparr>rc_seq = 1, rc_epoch = 0, rc_view = 0\<rparr>"] by auto
qed

text \<open>What lets go of the bundle held under \<open>bid\<close>, or replaces it.\<close>

definition lets_go :: "'j session_memory \<Rightarrow> string \<Rightarrow> 'j inbound_event \<Rightarrow> bool" where
  "lets_go m bid ev =
     (case ev of
        Replayed sq e \<Rightarrow>
          (case e of
             ApprovalGranted aid x y \<Rightarrow>
               map_option gate_kind (bt_get (gated_bundles m) bid) = Some (Gate_Approval aid)
           | BundleRejected i x y \<Rightarrow> i = bid
           | _ \<Rightarrow> False)
      | Live e \<Rightarrow>
          (case e of
             TimerFired t \<Rightarrow> t = defer_timer bid
           | BundleIntercepted b x y \<Rightarrow> bundle_id b = bid
           | _ \<Rightarrow> False))"

lemma get_remove_gates:
  "bt_get (gated_bundles (fold (\<lambda>(i, _). remove_gate i) xs m)) bid =
     (if bid \<in> fst ` set xs then None else bt_get (gated_bundles m) bid)"
  by (induction xs arbitrary: m) (auto simp: remove_gate_def)

lemma mem_gated_on:
  assumes "wf_memory m"
  shows "(bid, o_b) \<in> set (gated_on aid m) \<longleftrightarrow>
    (\<exists>g. bt_get (gated_bundles m) bid = Some g \<and> gate_kind g = Gate_Approval aid \<and> o_b = gated g)"
proof -
  have ok: "bt_ok (gated_bundles m)" using wf_parts(10) [OF assms] by (rule bt_all_ok)
  have "(bid, g) \<in> set (gated_bundles m) \<longleftrightarrow> bt_get (gated_bundles m) bid = Some g" for g
    using bt_entry_get [OF ok] bt_get_entry by fast
  then show ?thesis by (force simp: gated_on_def)
qed

lemma gated_on_keys:
  assumes "wf_memory m"
  shows "bid \<in> fst ` set (gated_on aid m) \<longleftrightarrow>
    map_option gate_kind (bt_get (gated_bundles m) bid) = Some (Gate_Approval aid)"
proof -
  have "bid \<in> fst ` set (gated_on aid m) \<longleftrightarrow> (\<exists>o_b. (bid, o_b) \<in> set (gated_on aid m))" by force
  then show ?thesis by (auto simp: mem_gated_on [OF assms])
qed

lemma held_id: "wf_memory m \<Longrightarrow> held m bid = Some b \<Longrightarrow> bundle_id b = bid"
  by (auto simp: held_def bind_eq_Some_conv held_ok_def dest!: wf_parts(10) bt_all_get)

lemma set_map_filter_snd: "b \<in> set (List.map_filter snd xs) \<longleftrightarrow> (\<exists>k. (k, Some b) \<in> set xs)"
  by (induction xs) (auto simp: List.map_filter_def)

lemma map_filter_ids:
  "\<forall>(i, o_b) \<in> set xs. \<forall>b. o_b = Some b \<longrightarrow> f b = i \<Longrightarrow>
   map f (List.map_filter snd xs) = map fst (filter (\<lambda>x. snd x \<noteq> None) xs)"
  by (induction xs) (auto simp: List.map_filter_def)

lemma gated_on_ids:
  assumes "wf_memory m"
  shows "map bundle_id (List.map_filter snd (gated_on aid m)) =
    map fst (filter (\<lambda>x. snd x \<noteq> None) (gated_on aid m))"
proof (rule map_filter_ids)
  show "\<forall>(i, o_b) \<in> set (gated_on aid m). \<forall>b. o_b = Some b \<longrightarrow> bundle_id b = i"
    using held_id [OF assms] by (auto simp: mem_gated_on [OF assms] held_def)
qed

lemma distinct_gated_on:
  assumes "wf_memory m"
  shows "distinct (map fst (gated_on aid m))"
proof -
  have "distinct (map fst (gated_bundles m))"
    using wf_parts(10) [OF assms] by (simp add: bt_all_def bt_ok_def strict_sorted_iff)
  then show ?thesis by (simp add: gated_on_def split_def comp_def distinct_map inj_on_def)
qed

definition granted_memory :: "int \<Rightarrow> string \<Rightarrow> 'j session_memory \<Rightarrow> 'j session_memory" where
  "granted_memory sq aid m = drop_timer (approval_timer aid) (set_status Granted aid (advance_cursor sq m))"

lemma granted_memory_gates [simp]:
  "gated_bundles (granted_memory sq aid m) = gated_bundles m"
  "gated_on x (granted_memory sq aid m) = gated_on x m"
  by (simp_all add: granted_memory_def drop_timer_def set_status_def advance_cursor_def gated_on_def)

lemma grant_outcome:
  "transition E st m (Replayed sq (ApprovalGranted aid by_actor at)) =
     Inr (st, fold (\<lambda>(i, _). remove_gate i) (gated_on aid m) (granted_memory sq aid m),
       CancelTimer (approval_timer aid) # map BundleDeliver (List.map_filter snd (gated_on aid m)))"
  by (simp add: apply_logged_def logged_approval_granted_def Let_def
      granted_memory_gates [unfolded granted_memory_def] granted_memory_def)

text \<open>
  A grant lets go: folding the grant of an approval delivers every bundle held on it exactly once
  and no other bundle, and holds none of them afterwards; bundles held on other gates stay.
\<close>

theorem grant_delivers_once:
  assumes "wf_memory m"
  shows "\<exists>m' effs. transition E st m (Replayed sq (ApprovalGranted aid by_actor at)) = Inr (st, m', effs) \<and>
    distinct (map bundle_id (delivered effs)) \<and>
    set (delivered effs) = {b. \<exists>bid g. bt_get (gated_bundles m) bid = Some g \<and>
        gate_kind g = Gate_Approval aid \<and> gated g = Some b} \<and>
    (\<forall>bid. bt_get (gated_bundles m') bid =
       (if map_option gate_kind (bt_get (gated_bundles m) bid) = Some (Gate_Approval aid) then None
        else bt_get (gated_bundles m) bid))"
proof -
  let ?m' = "fold (\<lambda>(i, _). remove_gate i) (gated_on aid m) (granted_memory sq aid m)"
  let ?bs = "List.map_filter snd (gated_on aid m)"
  have "distinct (map bundle_id ?bs)"
    using distinct_gated_on [OF assms, of aid] unfolding gated_on_ids [OF assms]
    by (rule distinct_map_filter)
  moreover have "set ?bs = {b. \<exists>bid g. bt_get (gated_bundles m) bid = Some g \<and>
        gate_kind g = Gate_Approval aid \<and> gated g = Some b}"
    by (auto simp: set_map_filter_snd mem_gated_on [OF assms], metis+)
  ultimately show ?thesis
    unfolding grant_outcome by (auto simp: get_remove_gates gated_on_keys [OF assms])
qed

lemma grant_delivers_once_witness:
  "\<exists>m' effs. transition sample_host Active gated_memory (Replayed 2 (ApprovalGranted ''gate:b'' ''ann'' 0))
      = Inr (Active, m', effs) \<and> set (delivered effs) = {sample_bundle ''b''}"
  using grant_delivers_once [of gated_memory sample_host Active 2 "''gate:b''" "''ann''" 0] by auto

abbreviation no_delivery :: "'j effect list \<Rightarrow> bool" where
  "no_delivery effs \<equiv> \<forall>e \<in> set effs. \<not> is_bundle_deliver e"

lemma compensate_delivers: "compensate E m sid ss now r is = Inr xs \<Longrightarrow> no_delivery xs"
  by (induction E m sid ss now r "is" arbitrary: xs rule: compensate.induct) (auto simp: bind_result_Inr)

lemma saga_ack_delivers:
  "live_saga_ack E st m sid i out = Inr (st', m', effs) \<Longrightarrow> no_delivery effs"
  by (auto simp: live_saga_ack_def advance_effects_def abort_effects_def resolved_effects_def
      session_updated_broadcast_def Let_def bind_result_Inr
      split: option.splits if_splits protocol_outcome.splits dest: compensate_delivers [rule_format])

lemma bundle_received_delivers:
  "live_bundle_received E st m b = Inr (st', m', effs) \<Longrightarrow> no_delivery effs"
  by (auto simp: live_bundle_received_def receive_step_def persist_and_notify_def Let_def
      session_updated_broadcast_def split: if_splits bundle_kind.splits dest: saga_ack_delivers [rule_format])

lemma saga_begin_delivers:
  "live_saga_begin E st m sid ty ss md = Inr (st', m', effs) \<Longrightarrow> no_delivery effs"
  by (auto simp: live_saga_begin_def session_updated_broadcast_def Let_def split: list.splits)

lemma delivered_none: "no_delivery effs \<Longrightarrow> delivered effs = []"
  by (induction effs) simp_all

lemma live_frame:
  assumes "apply_live E st m ev = Inr (st', m', effs)"
    and "\<And>b icap rc. ev \<noteq> BundleIntercepted b icap rc" and "\<not> is_timer_fired ev"
  shows "gated_bundles m' = gated_bundles m \<and> no_delivery effs"
  using assms
  by (cases ev)
    (auto simp: persist_and_notify_handlers live_sidecar_attach_def live_actor_connected_def
      live_actor_reconnected_def live_actor_disconnected_def live_vote_cast_def attach_connection_def
      live_approval_create_def live_cross_session_delegate_def
      live_sidecar_detach_def live_admin_archive_def live_forwarded_message_def
      session_updated_broadcast_def bind_result_Inr Let_def
      split: if_splits option.splits session_state.splits policy_outcome.splits
      dest: saga_ack_delivers [rule_format] saga_begin_delivers [rule_format]
        bundle_received_delivers [rule_format] saga_ack_keeps
        saga_begin_keeps bundle_received_keeps)

lemma gates_revoke_caps [simp]: "gated_bundles (fold revoke_cap ids m) = gated_bundles m"
  by (induction ids arbitrary: m) (simp_all add: revoke_cap_def)

lemma logged_gates:
  assumes "apply_logged E st m sq ev = Inr (st', m', effs)" and "\<And>aid x y. ev \<noteq> ApprovalGranted aid x y"
  shows "no_delivery effs \<and> (held m bid = Some b \<longrightarrow> (\<forall>r c. ev \<noteq> BundleRejected bid r c) \<longrightarrow> held m' bid = Some b)"
  using assms unfolding apply_logged_def
  by (cases ev) (auto simp: logged_outcome_defs logged_memory_defs logged_cap_revoked_def held_def bind_eq_Some_conv
      session_updated_broadcast_def Let_def bind_result_Inr
      split: if_splits option.splits)


lemma defer_timer_kinds [simp]:
  "strip_prefix ''approval:'' (defer_timer bid) = None"
  "starts_with ''drain:'' (defer_timer bid) = False"
  "strip_prefix ''bundle_defer:'' (defer_timer bid) = Some bid"
  by (simp_all add: defer_timer_def starts_with_def strip_prefix_def)

lemma strip_prefix_Some: "strip_prefix p s = Some r \<longleftrightarrow> s = p @ r"
  by (auto simp: strip_prefix_def) (metis append_take_drop_id)

lemma held_fields [simp]:
  "held (drop_timer t m) = held m"
  "held (remove_gate i m) = (\<lambda>bid. if bid = i then None else held m bid)"
  by (auto simp: held_def drop_timer_def remove_gate_def)

lemmas saga_ack_delivered = delivered_none [OF saga_ack_delivers]

lemma timer_gates:
  assumes "live_timer_fired E st m t = Inr (st', m', effs)" and "wf_memory m"
    and "held m bid = Some b" and "t \<noteq> defer_timer bid"
  shows "held m' bid = Some b \<and> (\<forall>x \<in> set (delivered effs). bundle_id x \<noteq> bid)"
proof -
  have other: "i \<noteq> bid" if "strip_prefix ''bundle_defer:'' t = Some i" for i
    using that assms(4) by (auto simp: strip_prefix_Some defer_timer_def)
  have ids: "bundle_id x = i" if "bt_get (gated_bundles m) i = Some g" "gated g = Some x" for i g x
    using held_id [OF assms(2), of i x] that by (simp add: held_def)
  have same: "gated_bundles (drop_timer t m) = gated_bundles m" by (simp add: drop_timer_def)
  show ?thesis
    using assms(1,3) other
    by (auto simp: live_timer_fired_def persist_and_notify_def fire_deferred_def fire_saga_def Let_def
        session_updated_broadcast_def same ids
        split: if_splits option.splits prod.splits dest: saga_ack_keeps saga_ack_delivered)
qed

lemma intercepted_gates:
  assumes "live_bundle_intercepted E st m b icap rc = Inr (st', m', effs)" and "held m bid = Some c"
    and "bundle_id b \<noteq> bid"
  shows "held m' bid = Some c \<and> (\<forall>x \<in> set (delivered effs). bundle_id x \<noteq> bid)"
  using assms
  by (auto simp: live_bundle_intercepted_def apply_bundle_disposition_def resolve_bundle_disposition_def
      hold_bundle_def held_def split: if_splits option.splits policy_constraint.splits)

text \<open>
  C36 (held until let go): as long as neither its gate is granted, nor its rejection logged, nor its
  timer fires, nor a bundle with the same identifier arrives, a held bundle stays held, and no bundle
  with its identifier is delivered, whatever other events are processed.
\<close>

theorem held_until_let_go:
  assumes "wf_memory m" and "transition E st m ev = Inr (st', m', effs)" and "held m bid = Some b"
    and "\<not> lets_go m bid ev"
  shows "held m' bid = Some b \<and> (\<forall>x \<in> set (delivered effs). bundle_id x \<noteq> bid)"
proof (cases ev)
  case (Replayed sq e)
  show ?thesis
  proof (cases "\<exists>aid x y. e = ApprovalGranted aid x y")
    case True
    then obtain aid x y where e: "e = ApprovalGranted aid x y" by blast
    have kept: "\<not> bid \<in> fst ` set (gated_on aid m)"
      using assms(4) by (simp add: Replayed e lets_go_def gated_on_keys [OF assms(1)])
    then have "held m' bid = Some b"
      using assms(2,3) unfolding Replayed e grant_outcome
      by (auto simp: held_def get_remove_gates)
    moreover have "bundle_id z \<noteq> bid" if "z \<in> set (delivered effs)" for z
    proof -
      have "z \<in> set (List.map_filter snd (gated_on aid m))"
        using that assms(2) unfolding Replayed e grant_outcome by auto
      then obtain k where k: "(k, Some z) \<in> set (gated_on aid m)" by (auto simp: set_map_filter_snd)
      then have "bundle_id z = k" using held_id [OF assms(1)] by (auto simp: mem_gated_on [OF assms(1)] held_def)
      then show ?thesis using k kept by force
    qed
    ultimately show ?thesis by blast
  next
    case False
    then show ?thesis
      using logged_gates [of E st m sq e st' m' effs bid b] assms(2-4)
      by (auto simp: Replayed lets_go_def dest: delivered_none)
  qed
next
  case (Live e)
  show ?thesis
  proof (cases "is_terminal st")
    case True
    with assms(2,3) Live show ?thesis by auto
  next
    case False
    with assms(2) Live have app: "apply_live E st m e = Inr (st', m', effs)" by simp
    show ?thesis
    proof (cases e)
      case (TimerFired t)
      then show ?thesis using app timer_gates [OF _ assms(1,3)] assms(4) by (auto simp: Live lets_go_def)
    next
      case (BundleIntercepted x icap rc)
      then show ?thesis using app intercepted_gates [OF _ assms(3)] assms(4) by (auto simp: Live lets_go_def)
    qed (use live_frame [OF app] assms(3) in \<open>auto simp: held_def dest: delivered_none\<close>)
  qed
qed

lemma held_until_let_go_witness:
  "held (advance_cursor 2 gated_memory) ''b'' = Some (sample_bundle ''b'')"
  using held_until_let_go [of gated_memory sample_host Active "Replayed 2 (MessagePosted ''ann'' ''hi'' 0)"
      Active "advance_cursor 2 gated_memory" "[]" "''b''" "sample_bundle ''b''"]
  by (simp add: apply_logged_def lets_go_def)

text \<open>
  A deferred bundle: the timer of a held bundle delivers it exactly when it has not expired by
  then, and in both cases lets go of it, so it is never delivered twice.
\<close>

theorem defer_timer_delivers:
  assumes "\<not> is_terminal st" and "held m bid = Some b"
  shows "\<exists>m'. transition E st m (Live (TimerFired (defer_timer bid))) =
      Inr (st, m', if now_ms E 0 \<le> ttl_ms b then [BundleDeliver b] else []) \<and>
    held m' bid = None \<and>
    transition E2 st m' (Live (TimerFired (defer_timer bid))) = Inr (st, drop_timer (defer_timer bid) m', [])"
proof -
  obtain g where g: "bt_get (gated_bundles m) bid = Some g" "gated g = Some b"
    using assms(2) by (auto simp: held_def bind_eq_Some_conv)
  have same: "gated_bundles (drop_timer t x) = gated_bundles x" for t and x :: "'a session_memory"
    by (simp add: drop_timer_def)
  let ?m' = "remove_gate bid (drop_timer (defer_timer bid) m)"
  have "bt_get (gated_bundles ?m') bid = None" by (simp add: remove_gate_def)
  then show ?thesis
    using assms(1) g
    by (intro exI [of _ ?m']) (simp add: live_timer_fired_def fire_deferred_def Let_def same)
qed

lemma defer_timer_delivers_witness:
  "\<exists>m'. transition sample_host Active gated_memory (Live (TimerFired (defer_timer ''b''))) =
     Inr (Active, m', [BundleDeliver (sample_bundle ''b'')])"
  using defer_timer_delivers [of Active gated_memory "''b''" "sample_bundle ''b''" sample_host sample_host]
  by auto

text \<open>
  The timer does not look at the gate: a bundle that is held for an approval is delivered without it
  when a defer timer with its identifier fires.
\<close>

lemma defer_timer_ignores_gate:
  assumes "\<not> is_terminal st" and "bt_get (gated_bundles m) bid = Some g"
    and "gate_kind g = Gate_Approval aid" and "gated g = Some b" and "now_ms E 0 \<le> ttl_ms b"
  shows "\<exists>m'. transition E st m (Live (TimerFired (defer_timer bid))) = Inr (st, m', [BundleDeliver b])"
  using assms by (auto simp: live_timer_fired_def fire_deferred_def Let_def drop_timer_def)

section \<open>Cold start\<close>

text \<open>What a cold start knows about the gates it finds in the log: that they exist, not what they hold.\<close>

definition empty_gate :: "string \<Rightarrow> 'j gated_bundle \<Rightarrow> bool" where
  "empty_gate bid g \<longleftrightarrow> gated g = None"

definition hollow :: "'j session_memory \<Rightarrow> bool" where
  "hollow m \<longleftrightarrow> bt_all empty_gate (gated_bundles m)"

lemma hollow_cong: "gated_bundles m' = gated_bundles m \<Longrightarrow> hollow m \<Longrightarrow> hollow m'"
  by (simp add: hollow_def)

lemma hollow_remove_gates: "hollow m \<Longrightarrow> hollow (fold (\<lambda>(i, _). remove_gate i) xs m)"
proof (induction xs arbitrary: m)
  case Nil
  then show ?case by simp
next
  case (Cons x xs)
  have "hollow (remove_gate (fst x) m)" using Cons.prems by (auto simp: hollow_def remove_gate_def)
  then show ?case using Cons.IH by (simp add: split_def)
qed

lemma hollow_gated_on: "hollow m \<Longrightarrow> List.map_filter snd (gated_on aid m) = []"
  by (auto simp: hollow_def bt_all_def empty_gate_def gated_on_def List.map_filter_def filter_empty_conv)

lemma logged_hollow:
  assumes "apply_logged E st m sq ev = Inr (st', m', effs)" and "hollow m"
  shows "hollow m' \<and> no_delivery effs"
proof (cases "\<exists>aid x y. ev = ApprovalGranted aid x y")
  case True
  then obtain aid x y where ev: "ev = ApprovalGranted aid x y" by blast
  have "hollow (granted_memory sq aid m)" using assms(2) by (rule hollow_cong [rotated]) simp
  then show ?thesis
    using assms grant_outcome [of E st m sq aid x y]
    by (auto simp: ev hollow_gated_on hollow_remove_gates)
next
  case False
  have "bt_all empty_gate (gated_bundles m)" using assms(2) by (simp add: hollow_def)
  then show ?thesis
    using assms(1) False unfolding apply_logged_def
    by (cases ev) (auto simp: logged_outcome_defs logged_memory_defs logged_cap_revoked_def hollow_def empty_gate_def
        intro!: bt_all_or_insert simp:
        session_updated_broadcast_def Let_def bind_result_Inr split: if_splits option.splits)
qed

lemma plain_mailbox:
  "run_list (run_effect X run) effs t = Inr t' \<Longrightarrow> list_all (\<lambda>e. \<not> is_persist e) effs \<Longrightarrow>
   no_delivery effs \<Longrightarrow>
   mailbox t' = mailbox t \<and> task_memory t' = task_memory t \<and> task_session t' = task_session t"
proof (induction effs arbitrary: t)
  case Nil
  then show ?case by simp
next
  case (Cons e effs)
  then obtain u where u: "run_effect X run e t = Inr u" and rest: "run_list (run_effect X run) effs u = Inr t'"
    by (auto simp: bind_result_Inr)
  have "mailbox u = mailbox t \<and> task_memory u = task_memory t \<and> task_session u = task_session t"
    using u Cons.prems(2,3)
    by (cases e) (auto simp: emit_def arm_timer_def cancel_timer_def persist_snapshot_def)
  then show ?case using Cons.IH [OF rest] Cons.prems(2,3) by simp
qed

lemma replay_rows_hollow:
  "replay_rows X rows t = Inr t' \<Longrightarrow> hollow (task_memory t) \<Longrightarrow> mailbox t = [] \<Longrightarrow>
   hollow (task_memory t') \<and> mailbox t' = [] \<and> task_session t' = task_session t"
proof (induction rows arbitrary: t)
  case Nil
  then show ?case by simp
next
  case (Cons row rows)
  obtain sq o_ev where row: "row = (sq, o_ev)" by (cases row)
  show ?case
  proof (cases o_ev)
    case None
    with Cons row show ?thesis by simp
  next
    case (Some ev)
    then obtain t2 effs u where f: "fold_event X From_log sq ev t = Inr (t2, effs)"
      and run: "run_effects X effs t2 = Inr u" and rest: "replay_rows X rows u = Inr t'"
      using Cons.prems(1) row by (auto simp: bind_result_Inr)
    have t2: "hollow (task_memory t2)" "no_delivery effs"
      using logged_hollow [OF fold_event_control [OF f] Cons.prems(2)] by simp_all
    have "mailbox t2 = mailbox t" "task_session t2 = task_session t"
      using f by (auto simp: fold_event_def bind_result_Inr)
    moreover have "mailbox u = mailbox t2 \<and> task_memory u = task_memory t2 \<and> task_session u = task_session t2"
      using run fold_event_plain [OF f] t2(2)
      unfolding run_effects_def numeral_2_eq_2 run_effects_upto.simps by (rule plain_mailbox)
    ultimately show ?thesis using Cons.IH [OF rest] Cons.prems(3) t2(1) by simp
  qed
qed

definition addressed ::
  "string \<Rightarrow> (reflector_cursor \<times> 'j saga_bundle) list \<Rightarrow> 'j inbound_event list" where
  "addressed sid backlog =
     map (\<lambda>(rc, b). intercept_message rc b) (filter (\<lambda>(rc, b). to_session b = sid) backlog)"

lemma queue_backlog_spec:
  "queue_backlog backlog t =
     (if addressed (task_session t) backlog = [] \<or>
         length (mailbox t) + length (addressed (task_session t) backlog) \<le> channel_capacity
      then Inr (t\<lparr>mailbox := mailbox t @ addressed (task_session t) backlog\<rparr>) else Inl Deadlocked)"
proof (induction backlog arbitrary: t)
  case Nil
  then show ?case by (simp add: addressed_def)
next
  case (Cons e backlog)
  obtain rc b where e: "e = (rc, b)" by (cases e)
  show ?case
  proof (cases "to_session b = task_session t")
    case False
    then show ?thesis using Cons by (simp add: e addressed_def)
  next
    case True
    have mine: "addressed (task_session t) (e # backlog) =
        intercept_message rc b # addressed (task_session t) backlog"
      using True by (simp add: e addressed_def)
    show ?thesis
      using True Cons.IH [of "t\<lparr>mailbox := mailbox t @ [intercept_message rc b]\<rparr>"]
      unfolding mine by (auto simp: e send_self_def)
  qed
qed

text \<open>
  Cold start: replaying the log leaves the mailbox empty and every gate without its bundle; then
  each bundle of the backlog that is addressed to the session enters the mailbox once, in order,
  unless there are more of them than the channel holds, in which case the start never returns.
\<close>

theorem cold_start:
  assumes "replay_history X log (new_task sid owner) = Inr t"
  shows "mailbox t = [] \<and> (\<forall>bid. held (task_memory t) bid = None) \<and>
    (if length (addressed sid backlog) \<le> channel_capacity
     then \<exists>t'. start_task X sid owner log backlog = Inr t' \<and> mailbox t' = addressed sid backlog \<and>
            control t' = control t
     else start_task X sid owner log backlog = Inl Deadlocked)"
proof -
  have "hollow (task_memory (new_task sid owner))" "mailbox (new_task sid owner) = []"
    by (simp_all add: new_task_def new_memory_def hollow_def)
  then have t: "hollow (task_memory t)" "mailbox t = []" "task_session t = sid"
    using assms replay_rows_hollow
    by (fastforce simp: replay_history_def new_task_def new_memory_def hollow_def split: option.splits)+
  have "held (task_memory t) bid = None" for bid
    using t(1) bt_all_get [of empty_gate "gated_bundles (task_memory t)" bid]
    by (cases "bt_get (gated_bundles (task_memory t)) bid") (auto simp: held_def hollow_def empty_gate_def)
  moreover have "queue_backlog backlog t = (if length (addressed sid backlog) \<le> channel_capacity
      then Inr (t\<lparr>mailbox := addressed sid backlog\<rparr>) else Inl Deadlocked)"
    using t(2,3) by (auto simp: queue_backlog_spec)
  moreover have "addressed sid [] = []" by (simp add: addressed_def)
  ultimately show ?thesis
    using assms t(2)
    by (cases "backlog = []")
      (auto simp: start_task_def drain_reflector_backlog_def emit_def Let_def)
qed

lemma cold_start_witness:
  "\<exists>t'. start_task sample_runtime ''s'' ''ann'' None [(\<lparr>rc_seq = 1, rc_epoch = 0, rc_view = 0\<rparr>, sample_bundle ''b'')]
     = Inr t' \<and> length (mailbox t') = 1"
  using cold_start [of sample_runtime None "''s''" "''ann''" "new_task ''s'' ''ann''"
      "[(\<lparr>rc_seq = 1, rc_epoch = 0, rc_view = 0\<rparr>, sample_bundle ''b'')]"]
  by (auto simp: replay_history_def addressed_def channel_capacity_def sample_bundle_def)

end
