(* ===== verification/Runtime_Properties.thy ===== *)
theory Runtime_Properties
  imports Runtime_Invariants Session_Properties Well_Formed Sample
begin

text \<open>
  Properties of the session actor: its memory mirrors its journal, what reaches the log, how it
  stops, that no drain timer exists, that the recursion of the interpreter is shallow, and what a
  cold start puts into the mailbox.
\<close>

section \<open>A sample task\<close>

definition paused_row :: "(int \<times> json session_event option) list" where
  "paused_row = [(1, Some (SessionPaused ''ann'' None 0)), (2, None)]"

definition paused_task :: "json task" where
  "paused_task =
     (new_task ''s'' ''ann'')
       \<lparr>task_state := Suspended ''ann'' None 0, task_memory := advance_cursor 1 (new_memory ''s'' ''ann''),
        ticks := 1,
        journal := [\<lparr>je_origin = From_log, je_seq = 1, je_type = ''session_paused'',
          je_actor = ''ann'', je_event = SessionPaused ''ann'' None 0\<rparr>]\<rparr>"

lemma paused_start: "start_task sample_runtime ''s'' ''ann'' (Some paused_row) [] = Inr paused_task"
  by (simp add: start_task_def paused_row_def replay_history_def fold_event_def apply_logged_def
      new_task_def run_effects_def numeral_2_eq_2 drain_reflector_backlog_def paused_task_def actor_of_def)

lemma paused_reachable: "reachable sample_runtime ''s'' ''ann'' paused_task"
  using paused_start by (rule reachable.start)

section \<open>Event sourcing of the running task\<close>

text \<open>
  C9 (the memory mirrors the journal): in every task that can be reached, whatever connections,
  timers, other tasks and the database did, replaying the journal from nothing succeeds and gives
  the control state and the durable memory of the task.
\<close>

theorem memory_mirrors_journal:
  assumes "reachable X sid owner t"
  shows "\<exists>m. replay_log (lib X) sid owner (entries t) = Inr (task_state t, m) \<and>
    durable m = durable (task_memory t)"
  using mirror.inv_reachable [OF new_task_invariants(3) assms] by (simp add: healthy_def mirrors_def)

lemma memory_mirrors_journal_witness:
  "\<exists>m. replay_log sample_host ''s'' ''ann'' [(1, SessionPaused ''ann'' None 0)]
      = Inr (Suspended ''ann'' None 0, m)"
  using memory_mirrors_journal [OF paused_reachable]
  by (auto simp: paused_task_def entries_def new_task_def sample_runtime_def)

text \<open>
  What reaches the log: in every reachable task, each journal entry that the task itself
  appended to \<open>session_events\<close> is of a kind that the machine owns; the route-owned events are
  folded into the memory only.
\<close>

theorem appends_only_autonomous:
  assumes "reachable X sid owner t" and "e \<in> set (journal t)" and "je_origin e = Appended"
  shows "is_machine_autonomous (je_event e)"
  using discipline.inv_reachable [OF new_task_invariants(2) assms(1)] assms(2,3)
  by (simp add: log_discipline_def)

lemma fresh_reachable: "reachable sample_runtime ''s'' ''ann'' (new_task ''s'' ''ann'')"
  by (rule reachable.start [of _ _ _ None "[]"])
    (simp add: start_task_def replay_history_def drain_reflector_backlog_def)

text \<open>A fresh task takes in one live event and serves it.\<close>

lemma one_event:
  assumes "serve sample_runtime (Live ev) (new_task ''s'' ''ann'') = Inr t'" and "\<not> is_timer_fired ev"
  shows "\<exists>t. reachable sample_runtime ''s'' ''ann'' t \<and> task_step sample_runtime t t' \<and>
    task_state t = Active \<and> journal t = []"
proof -
  let ?t = "(new_task ''s'' ''ann'')\<lparr>mailbox := [Live ev]\<rparr>"
  have "task_step sample_runtime (new_task ''s'' ''ann'') ?t"
    using task_step.arrive [of "new_task ''s'' ''ann''" ev sample_runtime] assms(2)
    by (simp add: new_task_def channel_capacity_def)
  then have "reachable sample_runtime ''s'' ''ann'' ?t" by (rule reachable.step [OF fresh_reachable])
  moreover have "?t\<lparr>mailbox := []\<rparr> = new_task ''s'' ''ann''" by (simp add: new_task_def)
  then have "task_step sample_runtime ?t t'"
    using assms(1) by (intro task_step.receive [of ?t "Live ev" "[]"]) (simp_all add: new_task_def)
  ultimately show ?thesis by (intro exI [of _ ?t]) (simp add: new_task_def)
qed

lemma appends_only_autonomous_witness:
  "is_machine_autonomous (AgentDetached ''bot'' None 0 :: json session_event)"
proof -
  let ?e = "\<lparr>je_origin = Appended, je_seq = 2, je_type = ''agent_detached'', je_actor = ''bot'',
    je_event = AgentDetached ''bot'' None 0\<rparr>"
  have "\<exists>t'. serve sample_runtime (Live (SidecarDetach ''bot'' None)) (new_task ''s'' ''ann'') = Inr t' \<and>
      ?e \<in> set (journal t')"
    by (simp add: serve_def live_sidecar_detach_def run_effects_def numeral_2_eq_2 handle_persist_def
        real_persist_def fold_event_def apply_logged_def logged_agent_detached_def new_task_def
        is_machine_autonomous_def sample_runtime_def host_at_def Let_def has_side_effects_def
        to_ws_payload_def emit_def session_updated_broadcast_def publish_snapshot_def actor_of_def
        sample_host_def)
  then obtain t' where served: "serve sample_runtime (Live (SidecarDetach ''bot'' None)) (new_task ''s'' ''ann'') = Inr t'"
    and "?e \<in> set (journal t')" by blast
  moreover have "reachable sample_runtime ''s'' ''ann'' t'"
    using one_event [OF served] by (auto intro: reachable.step)
  ultimately have "reachable sample_runtime ''s'' ''ann'' t'" "?e \<in> set (journal t')" by simp_all
  then show ?thesis using appends_only_autonomous [of sample_runtime "''s''" "''ann''" t' ?e] by simp
qed

section \<open>Well-formedness\<close>

interpretation formed: loop_invariant X "\<lambda>t. wf_memory (task_memory t)" "\<lambda>_. True"
  for X :: "'j runtime"
proof
  fix t t' :: "'j task" and orig ev sq and effs :: "'j effect list"
  assume "wf_memory (task_memory t)" and "fold_event X orig sq ev t = Inr (t', effs)"
  then show "wf_memory (task_memory t') \<and> list_all (\<lambda>_. True) effs"
    by (auto simp: fold_event_def bind_result_Inr list_all_iff simp del: transition.simps
        dest: transition_wf)
next
  fix t :: "'j task" and ev rest st m and effs :: "'j effect list"
  assume "wf_memory (task_memory t)"
    and "transition (host_at X (ticks t)) (task_state t) (task_memory t) ev = Inr (st, m, effs)"
  then show "wf_memory (task_memory
      (t\<lparr>mailbox := rest, task_state := st, task_memory := m, ticks := Suc (ticks t)\<rparr>)) \<and>
      list_all (\<lambda>_. True) effs"
    by (auto simp: list_all_iff simp del: transition.simps dest: transition_wf)
qed (simp_all add: emit_def cancel_timer_def arm_timer_def shut_down_def)

text \<open>
  C10 (well-formed memory): in every reachable task each map of the memory is in key order, every
  record is filed under its own identifier, the votes of each approval form an ordered map, and a
  held bundle is filed under its bundle identifier.
\<close>

theorem memory_well_formed:
  assumes "reachable X sid owner t"
  shows "wf_memory (task_memory t)"
  using formed.inv_reachable [OF _ assms] by (simp add: new_task_def wf_new_memory)

lemma memory_well_formed_witness: "wf_memory (task_memory paused_task)"
  by (rule memory_well_formed [OF paused_reachable])

section \<open>Stopping\<close>

definition at_rest :: "'j task \<Rightarrow> bool" where
  "at_rest t \<longleftrightarrow> is_terminal (task_state t) \<and> mailbox t = [] \<and> armed t = []"

lemma stopped_step: "task_step X t t' \<Longrightarrow> stopped t' \<Longrightarrow> at_rest t'"
proof (induction rule: task_step.induct)
  case (receive t ev rest t')
  then obtain st m effs u where run: "run_effects X effs
      (t\<lparr>mailbox := rest, task_state := st, task_memory := m, ticks := Suc (ticks t)\<rparr>) = Inr u"
    and t': "t' = (if is_terminal (task_state u) then shut_down u else u)"
    by (auto simp: serve_def bind_result_Inr)
  have "\<not> stopped u"
    using running.inv_run_effects [OF run] receive.hyps(1) by (simp add: list_all_iff)
  with t' receive.prems show ?case by (auto simp: shut_down_def at_rest_def split: if_splits)
qed simp_all

lemma stopped_at_rest: "reachable X sid owner t \<Longrightarrow> stopped t \<Longrightarrow> at_rest t"
proof (induction rule: reachable.induct)
  case (start log backlog t)
  then show ?case using running.inv_start [OF start(1)] by (simp add: new_task_invariants)
qed (rule stopped_step)

text \<open>
  Stopping: a reachable task has stopped only when its session is archived, with nothing left
  in its mailbox and no timer armed, and a stopped task never moves again.
\<close>

theorem stops_when_archived:
  assumes "reachable X sid owner t" and "stopped t"
  shows "is_terminal (task_state t) \<and> mailbox t = [] \<and> armed t = [] \<and> (\<forall>t'. \<not> task_step X t t')"
  using stopped_at_rest [OF assms] assms(2) by (auto simp: at_rest_def elim: task_stepE)


definition archived_task :: "json task" where
  "archived_task =
     (new_task ''s'' ''ann'')
       \<lparr>task_state := Archived 0, task_memory := advance_cursor 1 (new_memory ''s'' ''ann''),
        ticks := 1,
        journal := [\<lparr>je_origin = From_log, je_seq = 1, je_type = ''session_archived'',
          je_actor = ''ann'', je_event = SessionArchived ''ann'' 0\<rparr>]\<rparr>"

lemma archived_start:
  "start_task sample_runtime ''s'' ''ann'' (Some [(1, Some (SessionArchived ''ann'' 0))]) [] = Inr archived_task"
  by (simp add: start_task_def replay_history_def fold_event_def apply_logged_def
      new_task_def run_effects_def numeral_2_eq_2 drain_reflector_backlog_def archived_task_def actor_of_def)

lemma stops_when_archived_witness:
  "\<exists>t. reachable sample_runtime ''s'' ''ann'' t \<and> stopped t \<and> (\<forall>t'. \<not> task_step sample_runtime t t')"
proof -
  let ?ev = "MessagePost ''ann'' ''hello''"
  let ?u = "archived_task\<lparr>mailbox := [Live ?ev]\<rparr>"
  let ?t = "shut_down (archived_task\<lparr>ticks := 2\<rparr>)"
  have "reachable sample_runtime ''s'' ''ann'' archived_task" using archived_start by (rule reachable.start)
  moreover have "task_step sample_runtime archived_task ?u"
    using task_step.arrive [of archived_task ?ev sample_runtime]
    by (simp add: archived_task_def new_task_def channel_capacity_def)
  ultimately have "reachable sample_runtime ''s'' ''ann'' ?u" by (rule reachable.step)
  moreover have "serve sample_runtime (Live ?ev) (?u\<lparr>mailbox := []\<rparr>) = Inr ?t"
    by (simp add: serve_def archived_task_def new_task_def run_effects_def numeral_2_eq_2)
  then have "task_step sample_runtime ?u ?t"
    by (intro task_step.receive) (simp_all add: archived_task_def new_task_def)
  ultimately have "reachable sample_runtime ''s'' ''ann'' ?t" by (rule reachable.step)
  moreover have "stopped ?t" by (simp add: shut_down_def)
  ultimately show ?thesis using stops_when_archived by blast
qed

section \<open>What moves the control state\<close>

definition announced_since :: "'j journal_entry list \<Rightarrow> session_state \<Rightarrow> 'j task \<Rightarrow> bool" where
  "announced_since J st t \<longleftrightarrow> channel_ok t \<and>
     (\<exists>es. journal t = J @ es \<and>
        (task_state t = st \<or> (\<exists>e \<in> set es. is_lifecycle_change (je_event e))))"

lemma announced_cong:
  "task_state t' = task_state t \<Longrightarrow> journal t' = journal t \<Longrightarrow> channel_ok t' \<Longrightarrow>
   announced_since J st t \<Longrightarrow> announced_since J st t'"
  by (simp add: announced_since_def)

lemma announced_channel: "announced_since J st t \<Longrightarrow> channel_ok t"
  by (simp add: announced_since_def)

lemma announced_fold:
  assumes "announced_since J st t" and "fold_event X orig sq ev t = Inr (t', effs)" and "channel_ok t'"
  shows "announced_since J st t'"
proof -
  obtain es where es: "journal t = J @ es"
    "task_state t = st \<or> (\<exists>e \<in> set es. is_lifecycle_change (je_event e))"
    using assms(1) by (auto simp: announced_since_def)
  obtain m where tr: "apply_logged (host_at X (ticks t)) (task_state t) (task_memory t) sq ev
      = Inr (task_state t', m, effs)"
    and t': "\<exists>e. journal t' = J @ es @ [e] \<and> je_event e = ev"
    using assms(2) es(1) by (auto simp: fold_event_def bind_result_Inr)
  have "task_state t' = task_state t \<or> is_lifecycle_change ev"
    using lifecycle_announced [OF tr] by blast
  then show ?thesis using es t' assms(3) by (fastforce simp: announced_since_def)
qed

interpretation moved: loop_invariant X "announced_since J st" well_named for X :: "'j runtime" and J st
proof
  fix t :: "'j task" and x snap i d
  assume inv: "announced_since J st t"
  note ok = announced_channel [OF inv]
  show "announced_since J st (emit x t)" "announced_since J st (t\<lparr>hub_snapshot := snap\<rparr>)"
    "announced_since J st (cancel_timer i t)" "announced_since J st (shut_down t)"
    using inv channel.inv_emit [OF ok] channel.inv_snapshot [OF ok] channel.inv_cancel [OF ok]
      channel.inv_shut_down [OF ok]
    by (auto simp: emit_def cancel_timer_def shut_down_def elim!: announced_cong [rotated 3])
  show "well_named (SetTimer i d) \<Longrightarrow> announced_since J st (arm_timer i d t)"
    using inv channel.inv_arm [OF ok] by (auto simp: arm_timer_def elim!: announced_cong [rotated 3])
next
  fix t :: "'j task" and lev :: "'j live_event"
  assume inv: "announced_since J st t" and new: "\<not> is_timer_fired lev"
  show "announced_since J st (t\<lparr>mailbox := mailbox t @ [Live lev]\<rparr>)"
    by (rule announced_cong [OF _ _ channel.inv_send [OF announced_channel [OF inv] new] inv]) simp_all
next
  fix t t' :: "'j task" and orig ev sq effs
  assume "announced_since J st t" and "admissible orig ev"
    and "fold_event X orig sq ev t = Inr (t', effs)"
  then show "announced_since J st t' \<and> list_all well_named effs"
    using channel.inv_fold [OF announced_channel] announced_fold by blast
next
  fix t :: "'j task" and i d
  assume inv: "announced_since J st t" and new: "bt_get (armed t) i = Some d"
  show "announced_since J st (t\<lparr>armed := bt_remove i (armed t), in_flight := in_flight t @ [i]\<rparr>)"
    by (rule announced_cong [OF _ _ channel.inv_elapse [OF announced_channel [OF inv] new] inv]) simp_all
next
  fix t :: "'j task" and i
  assume inv: "announced_since J st t" and new: "i \<in> set (in_flight t)"
  show "announced_since J st
      (t\<lparr>in_flight := remove1 i (in_flight t), mailbox := mailbox t @ [Live (TimerFired i)]\<rparr>)"
    by (rule announced_cong [OF _ _ channel.inv_land [OF announced_channel [OF inv] new] inv]) simp_all
next
  fix t :: "'j task" and ev rest s m effs
  assume inv: "announced_since J st t" and box: "mailbox t = ev # rest"
    and tr: "transition (host_at X (ticks t)) (task_state t) (task_memory t) ev = Inr (s, m, effs)"
  have "\<exists>lev. ev = Live lev \<and> (\<forall>i. lev = TimerFired i \<longrightarrow> timer_name i)"
    using announced_channel [OF inv] box by (cases ev) (auto simp: channel_ok_def)
  then have "s = task_state t" using live_transition_mirrors tr by blast
  then show "announced_since J st
      (t\<lparr>mailbox := rest, task_state := s, task_memory := m, ticks := Suc (ticks t)\<rparr>)
      \<and> list_all well_named effs"
    using channel.inv_apply [OF announced_channel [OF inv] box tr]
    by (intro conjI announced_cong [OF _ _ _ inv]) simp_all
qed

text \<open>A task whose timers all bear names that the transition function gave has none for a drain.\<close>

lemma no_drain_timer:
  assumes "channel_ok t" and "starts_with ''drain:'' i"
  shows "bt_get (armed t) i = None \<and> i \<notin> set (in_flight t) \<and> Live (TimerFired i) \<notin> set (mailbox t)"
proof -
  have foreign: "\<not> timer_name i" using timer_name_not_drain assms(2) by blast
  then have "i \<notin> fst ` set (armed t)" using assms(1) by (auto simp: channel_ok_def)
  then have "bt_get (armed t) i = None" by (simp add: bt_get_def map_of_eq_None_iff)
  with assms(1) foreign show ?thesis by (auto simp: channel_ok_def)
qed

text \<open>
  C11 (only the log moves the control state): when a step of a reachable task changes the control
  state, it has folded a lifecycle event. The drain deadline moves nothing: after the step no timer
  for it is armed or has elapsed and waits for room in the channel, and the channel holds none that
  fired, so the branch of \<open>live_timer_fired\<close> that would end the draining is never taken and a session
  leaves draining by an event of the log only.
\<close>

theorem only_log_moves_state:
  assumes "reachable X sid owner t" and "task_step X t t'"
  shows "(task_state t' \<noteq> task_state t \<longrightarrow>
      (\<exists>es. journal t' = journal t @ es \<and> (\<exists>e \<in> set es. is_lifecycle_change (je_event e)))) \<and>
    (\<forall>i. starts_with ''drain:'' i \<longrightarrow>
      bt_get (armed t') i = None \<and> i \<notin> set (in_flight t') \<and> Live (TimerFired i) \<notin> set (mailbox t'))"
proof -
  have "channel_ok t" using channel.inv_reachable [OF new_task_invariants(1) assms(1)] .
  then have "announced_since (journal t) (task_state t) t" by (simp add: announced_since_def)
  then have new: "announced_since (journal t) (task_state t) t'" using moved.inv_step [OF assms(2)] by blast
  have "bt_get (armed t') i = None \<and> i \<notin> set (in_flight t') \<and> Live (TimerFired i) \<notin> set (mailbox t')"
    if "starts_with ''drain:'' i" for i
    using that by (rule no_drain_timer [OF announced_channel [OF new]])
  with new show ?thesis by (auto simp: announced_since_def)
qed

lemma only_log_moves_state_witness:
  "\<exists>t t' es. task_step sample_runtime t t' \<and> journal t' = journal t @ es \<and>
     (\<exists>e \<in> set es. is_lifecycle_change (je_event e))"
proof -
  have "\<exists>t'. serve sample_runtime (Live (AdminPause ''ann'' None)) (new_task ''s'' ''ann'') = Inr t' \<and>
      task_state t' = Suspended ''ann'' None 0"
    by (simp add: serve_def live_admin_pause_def persist_and_notify_def run_effects_def numeral_2_eq_2
        handle_persist_def shadow_persist_def fold_event_def apply_logged_def new_task_def
        is_machine_autonomous_def sample_runtime_def host_at_def Let_def has_side_effects_def
        emit_def session_updated_broadcast_def sample_host_def)
  then obtain t' where served: "serve sample_runtime (Live (AdminPause ''ann'' None)) (new_task ''s'' ''ann'') = Inr t'"
    and moved: "task_state t' = Suspended ''ann'' None 0" by blast
  obtain t where t: "reachable sample_runtime ''s'' ''ann'' t" "task_step sample_runtime t t'"
    "task_state t = Active"
    using one_event [OF served] by auto
  have "task_state t' \<noteq> task_state t" using moved t(3) by simp
  then show ?thesis using only_log_moves_state [OF t(1,2)] t(2) by blast
qed

section \<open>The interpreter\<close>

text \<open>
  The recursion of the interpreter is shallow: persisting an event runs the effects of folding it
  and nothing nested deeper, so any recursion bound of two or more gives the same result and the
  bound of the model is never reached.
\<close>

theorem depth_irrelevant: "run_effects_upto (Suc (Suc d)) X effs t = run_effects X effs t"
  by (rule run_effects_upto_stable)

end
