(* ===== verification/Lease_Properties.thy ===== *)
theory Lease_Properties
  imports Lease
begin

text \<open>
  Leases over runs of operations: exclusion, fencing tokens, what a plan promises, and what a guard
  that outlives its lease does.
\<close>

section \<open>Runs\<close>

text \<open>
  What threads and replicas do to one table: acquire (at an instant, for a holder) and drop a guard.
\<close>

datatype lease_op = Acquire nat conflict_class string | Release guard

fun lease_step :: "lease_op \<Rightarrow> lease_manager \<Rightarrow> lease_manager" where
  "lease_step (Acquire now c h) lm = fst (try_acquire now c h lm)"
| "lease_step (Release g) lm = drop_guard g lm"

text \<open>
  The operation neither drops a guard of the class, current or stale, nor comes after the instant.
\<close>

fun spares :: "conflict_class \<Rightarrow> nat \<Rightarrow> lease_op \<Rightarrow> bool" where
  "spares c until (Acquire now d h) \<longleftrightarrow> now \<le> until"
| "spares c until (Release g) \<longleftrightarrow> guard_class g \<noteq> c"

lemma try_acquire_kept:
  "leases lm c = Some r \<Longrightarrow> \<not> expired now r \<Longrightarrow> leases (fst (try_acquire now d h lm)) c = Some r"
  by (auto simp: try_acquire_def Let_def)

lemma expired_mono: "\<not> expired later r \<Longrightarrow> now \<le> later \<Longrightarrow> \<not> expired now r"
  by (auto simp: expired_def)

lemma lease_kept:
  "leases lm c = Some r \<Longrightarrow> \<not> expired until r \<Longrightarrow> \<forall>op \<in> set ops. spares c until op \<Longrightarrow>
   leases (fold lease_step ops lm) c = Some r"
proof (induction ops arbitrary: lm)
  case Nil
  then show ?case by simp
next
  case (Cons op ops)
  have "leases (lease_step op lm) c = Some r"
    using Cons.prems expired_mono [of until r]
    by (cases op) (auto simp: try_acquire_kept drop_guard_def)
  then show ?case using Cons by simp
qed

text \<open>
  C39 (exclusion): once a holder has acquired a class, then until a guard of that class is dropped -
  its own, or a stale one of an earlier holder, which evicts it (\<open>stale_guard_evicts\<close>) - or its time
  to live has passed, it stays the holder on record and nobody, itself included, acquires that class,
  whatever is acquired, and whatever guards of other classes are dropped, in the meantime.
\<close>

theorem lease_excludes:
  assumes "try_acquire now c h lm = (lm', Some g)" and "\<forall>op \<in> set ops. spares c later op"
    and "later \<le> now + DEFAULT_LEASE_TTL"
  shows "holder_of later c (fold lease_step ops lm') = Some h \<and>
    snd (try_acquire later c h' (fold lease_step ops lm')) = None"
proof -
  obtain r where r: "leases lm' c = Some r" "holder r = h" "acquired_at r = now" "lease_ttl r = DEFAULT_LEASE_TTL"
    using assms(1) by (auto simp: try_acquire_def new_lease_def Let_def split: if_splits)
  have fresh: "\<not> expired later r" using assms(3) r by (auto simp: expired_def)
  have "leases (fold lease_step ops lm') c = Some r" using r(1) fresh assms(2) by (rule lease_kept)
  then show ?thesis using fresh r(2) by (simp add: holder_of_def try_acquire_def Let_def)
qed

lemma lease_excludes_witness:
  "holder_of 20 ReflectorEpoch
     (fold lease_step [Acquire 10 ReflectorEpoch ''b''] (fst (try_acquire 5 ReflectorEpoch ''a'' new_manager)))
   = Some ''a''"
proof -
  obtain lm g where t: "try_acquire 5 ReflectorEpoch ''a'' new_manager = (lm, Some g)"
    by (simp add: try_acquire_def new_manager_def Let_def)
  show ?thesis
    using lease_excludes [OF t, of "[Acquire 10 ReflectorEpoch ''b'']" 20] t
    by (simp add: DEFAULT_LEASE_TTL_def del: fold_simps)
qed

section \<open>Fencing\<close>

lemma next_token_step:
  "unat (next_fencing_token lm) < 2 ^ 64 - 1 \<Longrightarrow>
   unat (next_fencing_token (lease_step op lm)) \<in> {unat (next_fencing_token lm), Suc (unat (next_fencing_token lm))}"
  by (cases op) (auto simp: try_acquire_def drop_guard_def Let_def unat_word_ariths)

lemma next_token_run:
  "unat (next_fencing_token lm) + length ops < 2 ^ 64 \<Longrightarrow>
   unat (next_fencing_token lm) \<le> unat (next_fencing_token (fold lease_step ops lm)) \<and>
   unat (next_fencing_token (fold lease_step ops lm)) \<le> unat (next_fencing_token lm) + length ops"
proof (induction ops arbitrary: lm)
  case Nil
  then show ?case by simp
next
  case (Cons op ops)
  have "unat (next_fencing_token (lease_step op lm)) \<in>
      {unat (next_fencing_token lm), Suc (unat (next_fencing_token lm))}"
    using Cons.prems by (intro next_token_step) simp
  then show ?case using Cons.IH [of "lease_step op lm"] Cons.prems by auto
qed

text \<open>
  Fencing tokens: as long as fewer tokens have been drawn than fit into 64 bits, a lease acquired
  after another, of whatever class and after whatever operations in between, carries a greater
  token.
\<close>

theorem tokens_increase:
  assumes "try_acquire now c h lm = (lm', Some g)"
    and "try_acquire later d h' (fold lease_step ops lm') = (lm'', Some g')"
    and "unat (next_fencing_token lm) + length ops + 2 < 2 ^ 64"
  shows "guard_token g < guard_token g'"
proof -
  have g: "guard_token g = next_fencing_token lm + 1" "next_fencing_token lm' = next_fencing_token lm + 1"
    and g': "guard_token g' = next_fencing_token (fold lease_step ops lm') + 1"
    using assms(1,2) by (auto simp: try_acquire_def Let_def split: if_splits)
  have first: "unat (next_fencing_token lm') = Suc (unat (next_fencing_token lm))"
    using assms(3) by (simp add: g unat_word_ariths)
  have "unat (next_fencing_token lm') + length ops < 2 ^ 64" using assms(3) first by simp
  from next_token_run [OF this] show ?thesis
    using assms(3) first by (simp add: word_less_nat_alt g g' unat_word_ariths)
qed

lemma tokens_increase_witness: "(1 :: u64) < 2"
  using tokens_increase [of 0 ReflectorEpoch "''a''" new_manager _ "\<lparr>guard_class = ReflectorEpoch, guard_token = 1\<rparr>"
      1 "ClassSaga ''s''" "''b''" "[]" _ "\<lparr>guard_class = ClassSaga ''s'', guard_token = 2\<rparr>"]
  by (simp add: try_acquire_def new_manager_def Let_def)

section \<open>Plans\<close>

text \<open>
  Plans: work is local only when the caller holds every claimed class, forwarding names a live
  foreign holder of one of them, and the classes to acquire are exactly those without a live holder.
\<close>

theorem plan_sound:
  "(case plan now claims me lm of
      ExecuteLocal \<Rightarrow> \<forall>c \<in> set claims. holder_of now c lm = Some me
    | AcquireLeases missing \<Rightarrow> missing = filter (\<lambda>c. holder_of now c lm = None) claims \<and>
        (\<forall>c \<in> set claims. holder_of now c lm \<in> {None, Some me})
    | PlanForward owner \<Rightarrow> owner \<noteq> me \<and> (\<exists>c \<in> set claims. holder_of now c lm = Some owner))"
  using plan_loop_sound [of now lm me "[]" claims]
  by (auto simp: plan_def split: lease_plan.split)

section \<open>Guards that outlive their lease\<close>

text \<open>
  Dropping a guard whose lease has expired and been taken by another holder throws that holder out,
  and a third holder acquires the class while the second still works.
\<close>

lemma stale_guard_evicts:
  assumes "try_acquire t0 c ''a'' lm = (lm1, Some g1)" and "t0 + DEFAULT_LEASE_TTL < t1"
    and "try_acquire t1 c ''b'' lm1 = (lm2, Some g2)"
  shows "holder_of t1 c lm2 = Some ''b'' \<and>
    (\<exists>g3. snd (try_acquire t1 c ''c'' (drop_guard g1 lm2)) = Some g3)"
proof -
  have "guard_class g1 = c" using assms(1) by (auto simp: try_acquire_def Let_def split: if_splits)
  moreover have "holder_of t1 c lm2 = Some ''b''"
    using assms(3) by (auto simp: try_acquire_def Let_def new_lease_def holder_of_def expired_def split: if_splits)
  ultimately show ?thesis by (simp add: drop_guard_def try_acquire_def Let_def)
qed

end
