(* ===== verification/Reflector_Properties.thy ===== *)
theory Reflector_Properties
  imports Reflector Sample
begin

text \<open>
  The reflector: no bundle is lost on the way into the log or to another replica, a dispatch leaves no
  lease behind, a returning session catches up from its cursor, and compaction drops only what is old.
\<close>

section \<open>Routing\<close>

text \<open>The bundle is in the log once more, or was handed to another replica once more; nothing else moved.\<close>

definition stored :: "'j saga_bundle \<Rightarrow> 'j reflector \<Rightarrow> 'j reflector \<Rightarrow> bool" where
  "stored b r r' \<longleftrightarrow>
     (\<exists>e. refl_log r' = refl_log r @ [e] \<and> le_bundle e = b \<and> le_seq e = next_seq r) \<and>
     forwarded r' = forwarded r"

definition handed_over :: "'j saga_bundle \<Rightarrow> 'j reflector \<Rightarrow> 'j reflector \<Rightarrow> bool" where
  "handed_over b r r' \<longleftrightarrow>
     refl_log r' = refl_log r \<and> (\<exists>owner. forwarded r' = forwarded r @ [(owner, b)])"

definition same_bundles :: "'j reflector \<Rightarrow> 'j reflector \<Rightarrow> bool" where
  "same_bundles r r' \<longleftrightarrow>
     refl_log r' = refl_log r \<and> forwarded r' = forwarded r \<and> next_seq r' = next_seq r"

lemma append_stores: "append_bundle now b r = (r', rc) \<Longrightarrow> stored b r r'"
  by (auto simp: append_bundle_def stored_def Let_def)

lemma forward_outcome:
  "forward_bundle D b owner r = (r', out) \<Longrightarrow>
   out = DForwarded \<and> lease_table r' = lease_table r \<and> (stored b r r' \<or> handed_over b r r')"
  by (auto simp: forward_bundle_def handed_over_def append_bundle_def stored_def Let_def split: if_splits)

lemma stored_lease_table: "stored b r (r'\<lparr>lease_table := lm\<rparr>) = stored b r r'"
  by (simp add: stored_def)

lemma dispatch_outcome:
  assumes "dispatch D b claims r = (r', out)"
  shows "(out = DRetry \<and> same_bundles r r') \<or> (out = DForwarded \<and> (stored b r r' \<or> handed_over b r r')) \<or>
    (\<exists>rc. out = DCommitted rc \<and> stored b r r')"
  using assms
  by (auto simp: dispatch_def Let_def same_bundles_def stored_lease_table
      split: option.splits lease_plan.splits prod.splits if_splits
      dest: forward_outcome append_stores)

lemma attempts_outcome:
  "dispatch_attempts Ds b r = (r', out) \<Longrightarrow>
   (out = DRetry \<and> same_bundles r r') \<or> (out = DForwarded \<and> (stored b r r' \<or> handed_over b r r')) \<or>
    (\<exists>rc. out = DCommitted rc \<and> stored b r r')"
proof (induction Ds arbitrary: r)
  case Nil
  then show ?case by (auto simp: same_bundles_def)
next
  case (Cons D Ds)
  obtain u out1 where d: "dispatch D b (bundle_claims b) r = (u, out1)" by fastforce
  show ?case
  proof (cases "out1 = DRetry")
    case True
    then have same: "same_bundles r u" using dispatch_outcome [OF d] by auto
    have "dispatch_attempts Ds b u = (r', out)" using Cons.prems d True by simp
    from Cons.IH [OF this] same show ?thesis
      by (auto simp: same_bundles_def stored_def handed_over_def)
  next
    case False
    then have "(r', out) = (u, out1)" using Cons.prems d by (auto split: dispatch_outcome.splits)
    then show ?thesis using dispatch_outcome [OF d] by simp
  qed
qed

text \<open>
  No bundle is lost: however the lease races and the placement directory go, routing a bundle
  ends with the bundle in the log exactly once more or handed to another replica exactly once more,
  and a message to the target's mailbox is sent only for a bundle that is in the log.
\<close>

theorem route_never_loses:
  assumes "route_bundle Ds live b r = (r', msg)"
  shows "(stored b r r' \<or> handed_over b r r') \<and>
    (\<forall>target ev. msg = Some (target, ev) \<longrightarrow>
       stored b r r' \<and> target = to_session b \<and> (\<exists>rc. ev = intercept_message rc b))"
proof -
  obtain u out where a: "dispatch_attempts (map Ds [0..<MAX_DISPATCH_ATTEMPTS]) b r = (u, out)" by fastforce
  have after: "stored b u v \<Longrightarrow> same_bundles r u \<Longrightarrow> stored b r v" for v
    by (simp add: stored_def same_bundles_def)
  show ?thesis
    using assms attempts_outcome [OF a]
    by (auto simp: route_bundle_def a deliver_or_queue_def split: prod.splits if_splits
        dest!: append_stores dest: after)
qed

definition sample_env :: dispatch_env where
  "sample_env =
     \<lparr>wall_ms = 1, instant = 0, current_owner = (\<lambda>_. None), forward_written = False, meanwhile = (\<lambda>lm. lm)\<rparr>"

lemma route_never_loses_witness:
  "\<exists>r' msg. route_bundle (\<lambda>_. sample_env) (\<lambda>_. True) (sample_bundle ''b'') (new_reflector ''me'' False) = (r', msg) \<and>
     (stored (sample_bundle ''b'') (new_reflector ''me'' False) r' \<or>
      handed_over (sample_bundle ''b'') (new_reflector ''me'' False) r')"
proof -
  obtain r' msg where "route_bundle (\<lambda>_. sample_env) (\<lambda>_. True) (sample_bundle ''b'') (new_reflector ''me'' False)
      = (r', msg)" by fastforce
  with route_never_loses [OF this] show ?thesis by blast
qed

lemma dispatch_leases:
  assumes "dispatch D b claims r = (r', out)" and "leases (lease_table r') c = Some l"
  shows "leases (lease_table r) c = Some l \<or> leases (meanwhile D (lease_table r)) c = Some l"
proof (cases "durable_session_owner_conflict D claims r")
  case (Some owner)
  with assms forward_outcome [of D b owner r r' out] show ?thesis by (simp add: dispatch_def)
next
  case none: None
  show ?thesis
  proof (cases "plan (instant D) claims (replica_id r) (lease_table r)")
    case ExecuteLocal
    with assms none show ?thesis by (auto simp: dispatch_def append_bundle_def Let_def)
  next
    case (PlanForward owner)
    with assms none forward_outcome [of D b owner r r' out] show ?thesis by (simp add: dispatch_def)
  next
    case (AcquireLeases missing)
    obtain lm gs raced where a: "acquire_all (instant D) (replica_id r) missing (meanwhile D (lease_table r))
        = (lm, gs, raced)" by (cases "acquire_all (instant D) (replica_id r) missing (meanwhile D (lease_table r))")
    have "lease_table r' = fold drop_guard gs lm"
      using assms(1) none AcquireLeases a by (auto simp: dispatch_def Let_def split: if_splits prod.splits)
    with assms(2) acquire_release [OF a] show ?thesis by simp
  qed
qed

text \<open>
  No lease is left behind: a dispatch, also one that loses a race half-way through its
  acquisitions, leaves in the table only leases that stood there before, or that another thread put
  there meanwhile.
\<close>

theorem dispatch_leaves_no_lease:
  assumes "dispatch D b claims r = (r', out)" and "leases (lease_table r') c = Some l"
  shows "leases (lease_table r) c = Some l \<or> leases (meanwhile D (lease_table r)) c = Some l"
  using assms by (rule dispatch_leases)

lemma dispatch_leaves_no_lease_witness:
  "leases (lease_table (fst (dispatch sample_env (sample_bundle ''b'') [ReflectorEpoch]
     (new_reflector ''me'' False)))) ReflectorEpoch = None"
proof -
  obtain r' out where d: "dispatch sample_env (sample_bundle ''b'') [ReflectorEpoch] (new_reflector ''me'' False)
      = (r', out)" by fastforce
  have "leases (lease_table r') ReflectorEpoch \<noteq> Some l" for l
    using dispatch_leaves_no_lease [OF d, of ReflectorEpoch l]
    by (auto simp: sample_env_def new_reflector_def new_manager_def)
  then have "leases (lease_table r') ReflectorEpoch = None" by blast
  then show ?thesis by (simp add: d)
qed

section \<open>A single replica\<close>

text \<open>Every lease on record is this replica's own.\<close>

definition all_own :: "string \<Rightarrow> lease_manager \<Rightarrow> bool" where
  "all_own me lm \<longleftrightarrow> (\<forall>c l. leases lm c = Some l \<longrightarrow> holder l = me)"

lemma plan_own:
  assumes "all_own me lm"
  shows "plan now claims me lm \<noteq> PlanForward owner"
proof
  assume "plan now claims me lm = PlanForward owner"
  then obtain c where "owner \<noteq> me" and "holder_of now c lm = Some owner"
    using plan_loop_sound(3) [of now lm me "[]" claims owner] by (auto simp: plan_def)
  then show False using assms by (auto simp: holder_of_def all_own_def split: option.splits if_splits)
qed

lemma dispatch_local:
  assumes "dispatch D b claims r = (r', out)" and "\<not> has_pool r" and "all_own (replica_id r) (lease_table r)"
    and "\<And>lm. all_own (replica_id r) lm \<Longrightarrow> all_own (replica_id r) (meanwhile D lm)"
  shows "out \<noteq> DForwarded \<and> \<not> has_pool r' \<and> replica_id r' = replica_id r \<and>
    all_own (replica_id r) (lease_table r')"
proof -
  have "all_own (replica_id r) (lease_table r')"
    using dispatch_leases [OF assms(1)] assms(3) assms(4) [OF assms(3)] unfolding all_own_def by blast
  moreover have "out \<noteq> DForwarded \<and> \<not> has_pool r' \<and> replica_id r' = replica_id r"
    using assms(1,2) plan_own [OF assms(3), of "instant D" claims]
    by (auto simp: dispatch_def durable_session_owner_conflict_def append_bundle_def Let_def
        split: lease_plan.splits prod.splits if_splits)
  ultimately show ?thesis by blast
qed

lemma attempts_local:
  "dispatch_attempts Ds b r = (r', out) \<Longrightarrow> \<not> has_pool r \<Longrightarrow> all_own (replica_id r) (lease_table r) \<Longrightarrow>
   \<forall>D \<in> set Ds. \<forall>lm. all_own (replica_id r) lm \<longrightarrow> all_own (replica_id r) (meanwhile D lm) \<Longrightarrow>
   out \<noteq> DForwarded"
proof (induction Ds arbitrary: r)
  case Nil
  then show ?case by simp
next
  case (Cons D Ds)
  obtain u out1 where d: "dispatch D b (bundle_claims b) r = (u, out1)" by fastforce
  have loc: "out1 \<noteq> DForwarded \<and> \<not> has_pool u \<and> replica_id u = replica_id r \<and>
      all_own (replica_id r) (lease_table u)"
    using dispatch_local [OF d] Cons.prems by simp
  show ?case
  proof (cases "out1 = DRetry")
    case True
    then have "dispatch_attempts Ds b u = (r', out)" using Cons.prems(1) d by simp
    from Cons.IH [OF this] loc Cons.prems(4) show ?thesis by simp
  next
    case False
    then have "out = out1" using Cons.prems(1) d by (auto split: dispatch_outcome.splits)
    with loc show ?thesis by simp
  qed
qed

text \<open>
  A single replica delivers: with no database pool and no lease of another holder, every bundle
  for a session with a running task is put into that task's mailbox, whatever races its own threads
  run.
\<close>

theorem single_replica_delivers:
  assumes "\<not> has_pool r" and "all_own (replica_id r) (lease_table r)"
    and "\<And>k lm. all_own (replica_id r) lm \<Longrightarrow> all_own (replica_id r) (meanwhile (Ds k) lm)"
    and "live (to_session b)"
  shows "\<exists>rc. snd (route_bundle Ds live b r) = Some (to_session b, intercept_message rc b)"
proof -
  obtain u out where a: "dispatch_attempts (map Ds [0..<MAX_DISPATCH_ATTEMPTS]) b r = (u, out)" by fastforce
  then have "out \<noteq> DForwarded" using attempts_local [OF a assms(1,2)] assms(3) by auto
  then show ?thesis
    using assms(4) by (cases out) (auto simp: route_bundle_def a deliver_or_queue_def split: prod.split)
qed

lemma single_replica_delivers_witness:
  "\<exists>rc. snd (route_bundle (\<lambda>_. sample_env) (\<lambda>_. True) (sample_bundle ''b'') (new_reflector ''me'' False))
     = Some (''s'', intercept_message rc (sample_bundle ''b''))"
  using single_replica_delivers [of "new_reflector ''me'' False" "\<lambda>_. sample_env" "\<lambda>_. True" "sample_bundle ''b''"]
  by (simp add: new_reflector_def sample_env_def all_own_def new_manager_def sample_bundle_def)

section \<open>Catching up\<close>

text \<open>
  Catching up: whatever is appended after a bundle whose cursor a session has stored, replaying
  from that cursor gives exactly those bundles, in order and without the expired ones.
\<close>

theorem drain_catches_up:
  assumes "log_ok r"
  shows "map snd (replay now (snd (append_bundle at b r))
      (fold (\<lambda>b r. fst (append_bundle at b r)) bs (fst (append_bundle at b r))))
    = filter (\<lambda>b. now \<le> ttl_ms b) bs"
  using assms by (rule reader.catch_up)

lemma drain_catches_up_witness:
  "map snd (replay 5 (snd (append_bundle 1 (sample_bundle ''a'') (new_reflector ''me'' False)))
      (fold (\<lambda>b r. fst (append_bundle 1 b r)) [sample_bundle ''b'', sample_bundle ''c'']
        (fst (append_bundle 1 (sample_bundle ''a'') (new_reflector ''me'' False)))))
    = [sample_bundle ''b'', sample_bundle ''c'']"
  by (subst drain_catches_up [OF log_ok_new]) (simp add: sample_bundle_def)

section \<open>Compaction\<close>

lemma compact_result:
  assumes "compact inst1 inst2 now r = (r', n)"
  shows "(n = 0 \<and> refl_log r' = refl_log r \<and> log_epoch r' = log_epoch r) \<or>
    (0 < n \<and> refl_log r' = filter (\<lambda>e. sat_sub now MAX_AGE_MS \<le> le_created_ms e) (refl_log r) \<and>
     log_epoch r' = log_epoch r + 1)"
proof -
  have "filter P xs = xs" if "\<not> length (filter P xs) < length xs" for P and xs :: "'a log_entry list"
    using that by (metis filter_id_conv length_filter_less)
  then show ?thesis
    using assms by (auto simp: compact_def Let_def split: prod.splits option.splits if_splits)
qed

text \<open>
  Compaction: a reader whose cursor belongs to the current epoch still gets, after a compaction,
  every entry it had not seen that has neither expired nor passed the maximal age.
\<close>

theorem compaction_keeps_unseen:
  assumes "log_ok r" and "compact inst1 inst2 now r = (r', n)"
    and "e \<in> set (refl_log r)" and "sat_sub now MAX_AGE_MS \<le> le_created_ms e"
    and "rc_epoch rc = log_epoch r" and "rc_seq rc < le_seq e" and "later \<le> ttl_ms (le_bundle e)"
  shows "le_bundle e \<in> set (map snd (replay later rc r'))"
proof -
  have here: "e \<in> set (refl_log r')" and "log_epoch r' = log_epoch r \<or> log_epoch r' = log_epoch r + 1"
    using compact_result [OF assms(2)] assms(3,4) by auto
  moreover have "0 < le_seq e" using assms(1,3) by (simp add: log_ok_def)
  ultimately show ?thesis
    using assms(5-7) unfolding replay_bundles by auto
qed


lemma compaction_keeps_unseen_witness:
  "\<exists>r' n. compact 0 0 2000000 (fst (append_bundle 1999999 (sample_bundle ''b'')
       (fst (append_bundle 1 (sample_bundle ''a'') (new_reflector ''me'' False))))) = (r', n) \<and>
     sample_bundle ''b'' \<in> set (map snd (replay 5 \<lparr>rc_seq = 1, rc_epoch = 0, rc_view = 0\<rparr> r'))"
proof -
  let ?r = "fst (append_bundle 1999999 (sample_bundle ''b'')
       (fst (append_bundle 1 (sample_bundle ''a'') (new_reflector ''me'' False))))"
  let ?e = "\<lparr>le_seq = 2, le_bundle = sample_bundle ''b'', le_created_ms = 1999999\<rparr>"
  obtain r' n where c: "compact 0 0 2000000 ?r = (r', n)" by fastforce
  have "log_ok ?r" by (intro log_ok_append log_ok_new)
  moreover have "?e \<in> set (refl_log ?r)" and "log_epoch ?r = 0"
    by (simp_all add: append_bundle_def new_reflector_def Let_def)
  moreover have "sat_sub 2000000 MAX_AGE_MS \<le> le_created_ms ?e" by (simp add: sat_sub_def MAX_AGE_MS_def)
  ultimately have "sample_bundle ''b'' \<in> set (map snd (replay 5 \<lparr>rc_seq = 1, rc_epoch = 0, rc_view = 0\<rparr> r'))"
    using compaction_keeps_unseen [of ?r 0 0 2000000 r' n ?e "\<lparr>rc_seq = 1, rc_epoch = 0, rc_view = 0\<rparr>" 5] c
    by (simp add: sample_bundle_def)
  with c show ?thesis by blast
qed

text \<open>
  The price: a cursor from before a compaction that dropped anything is no longer of the current
  epoch, so everything left is replayed, whether or not the reader has seen it.
\<close>

lemma compaction_replays_seen:
  assumes "log_ok r" and "compact inst1 inst2 now r = (r', n)" and "0 < n" and "rc_epoch rc = log_epoch r"
  shows "map snd (replay later rc r') = filter (\<lambda>b. later \<le> ttl_ms b) (map le_bundle (refl_log r'))"
proof -
  have "log_epoch r' = log_epoch r + 1" and "set (refl_log r') \<subseteq> set (refl_log r)"
    using compact_result [OF assms(2)] assms(3) by auto
  moreover have "\<forall>e \<in> set (refl_log r). 0 < le_seq e" using assms(1) by (simp add: log_ok_def)
  ultimately have "\<forall>e \<in> set (refl_log r'). 0 < le_seq e" and "rc_epoch rc \<noteq> log_epoch r'"
    using assms(4) by auto
  then show ?thesis
    unfolding replay_bundles by (simp add: filter_map comp_def cong: filter_cong)
qed

end
