(* ===== verification/Rate_Limit_Properties.thy ===== *)
theory Rate_Limit_Properties
  imports Rate_Limit
begin

text \<open>
  What the two limiter tiers guarantee: the bound on admissions in any interval of one window, the
  advice given with a refusal, and that the idle sweep is invisible.
\<close>

section \<open>A limiter over time\<close>

text \<open>The checks on one key at the given instants, and how many of them were allowed.\<close>

fun run_checks :: "policy option \<Rightarrow> 'k \<Rightarrow> nat list \<Rightarrow> 'k buckets \<Rightarrow> nat" where
  "run_checks pol k [] m = 0"
| "run_checks pol k (t # ts) m =
     (case limiter_check pol k t m of
        (m', Allowed, _) \<Rightarrow> Suc (run_checks pol k ts m')
      | (m', RateDenied _, _) \<Rightarrow> run_checks pol k ts m')"

definition bucket_at :: "'k \<Rightarrow> nat \<Rightarrow> 'k buckets \<Rightarrow> bucket" where
  "bucket_at k now m = (case m k of None \<Rightarrow> fresh_bucket now | Some b \<Rightarrow> b)"

lemma run_checks_bucket:
  "m k = Some b \<Longrightarrow> run_checks (Some p) k ts m = admitted p ts b"
proof (induction ts arbitrary: m b)
  case Nil
  then show ?case by simp
next
  case (Cons t ts)
  obtain b' a where c: "check_and_consume p t b = (b', a)" by fastforce
  have "run_checks (Some p) k ts (m(k \<mapsto> b')) = admitted p ts b'" by (rule Cons.IH) simp
  then show ?case using Cons.prems c by (cases a) (simp_all add: limiter_check_def)
qed

lemma run_checks_admitted: "run_checks (Some p) k (t # ts) m = admitted p (t # ts) (bucket_at k t m)"
proof -
  let ?b = "bucket_at k t m"
  have "run_checks (Some p) k (t # ts) m = run_checks (Some p) k (t # ts) (m(k \<mapsto> ?b))"
    by (simp add: limiter_check_def bucket_at_def Let_def split: option.split)
  then show ?thesis using run_checks_bucket [of "m(k \<mapsto> ?b)" k ?b p "t # ts"] by simp
qed

lemma capacity_kept: "bk_count b \<le> capacity p \<Longrightarrow> bk_count (fst (check_and_consume p now b)) \<le> capacity p"
  using word_suc_below [of "bk_count b" "capacity p"] word_suc_below [of 0 "capacity p"]
  by (auto simp: check_and_consume_def Let_def word_le_nat_alt word_less_nat_alt)

text \<open>The tables a tier can have: from empty, by checks of any keys at any times and by sweeps.\<close>

inductive used :: "('k \<Rightarrow> policy option) \<Rightarrow> 'k buckets \<Rightarrow> bool" for pol where
  fresh: "used pol Map.empty"
| check: "used pol m \<Longrightarrow> used pol (fst (limiter_check (pol k) k now m))"
| sweep: "used pol m \<Longrightarrow> used pol (sweep_idle now idle_for m)"

lemma used_capacity: "used pol m \<Longrightarrow> m k = Some b \<Longrightarrow> pol k = Some p \<Longrightarrow> bk_count b \<le> capacity p"
proof (induction arbitrary: b rule: used.induct)
  case fresh
  then show ?case by simp
next
  case (check m k' now)
  show ?case
  proof (cases "k' = k")
    case True
    have "bk_count (bucket_at k now m) \<le> capacity p"
      using check.IH check.prems(2) by (auto simp: bucket_at_def fresh_bucket_def split: option.split)
    then have "bk_count (fst (check_and_consume p now (bucket_at k now m))) \<le> capacity p"
      by (rule capacity_kept)
    then show ?thesis
      using check.prems True by (auto simp: limiter_check_def bucket_at_def Let_def split: prod.splits)
  next
    case False
    then show ?thesis
      using check by (auto simp: limiter_check_def Let_def split: option.splits prod.splits)
  qed
next
  case (sweep m now idle_for)
  then show ?case by (auto simp: sweep_idle_def split: option.splits if_splits)
qed

text \<open>
  C40 (the quota): in any interval as long as the window of a key, the checks of that key admit at most
  twice its capacity, however the tier was used before, and at most the capacity itself when the
  key has no bucket yet.
\<close>

theorem quota_bound:
  assumes "used pol m" and "pol k = Some p" and "sorted (t # ts)" and "\<forall>u \<in> set (t # ts). u < t + window p"
  shows "run_checks (pol k) k (t # ts) m \<le> 2 * unat (capacity p) \<and>
    (m k = None \<longrightarrow> run_checks (pol k) k (t # ts) m \<le> unat (capacity p))"
proof -
  have "bk_count (bucket_at k t m) \<le> capacity p"
    using used_capacity [OF assms(1)] assms(2) by (auto simp: bucket_at_def fresh_bucket_def split: option.split)
  then have "admitted p (t # ts) (bucket_at k t m) \<le> 2 * unat (capacity p)"
    using admitted_twice [OF assms(3), of t p "bucket_at k t m"] assms(3,4) by auto
  moreover have "admitted p (t # ts) (fresh_bucket t) \<le> unat (capacity p)"
  proof -
    have "\<forall>u \<in> set (t # ts). u - window_started_at (fresh_bucket t) < window p"
      using assms(3,4) by (auto simp: fresh_bucket_def)
    then show ?thesis using admitted_in_window [of "t # ts" "fresh_bucket t" p] by (simp add: fresh_bucket_def)
  qed
  ultimately show ?thesis
    unfolding assms(2) run_checks_admitted by (simp add: bucket_at_def)
qed

lemma quota_bound_witness:
  "run_checks (global_policy (ActorCreateKey ''u'' ''p'')) (ActorCreateKey ''u'' ''p'') [0, 1, 2, 3, 4] Map.empty \<le> 3"
  using quota_bound [OF used.fresh, of global_policy "ActorCreateKey ''u'' ''p''" _ 0 "[1, 2, 3, 4]"]
  by (simp add: from_secs_def)

text \<open>
  Retry after: a caller that is refused and comes back no earlier than it was told, with nobody
  else using its key in between, is admitted.
\<close>

theorem retry_after_honoured:
  assumes "check_and_consume p now b = (b', RateDenied d)" and "window_started_at b \<le> now"
    and "now + d \<le> later" and "0 < capacity p"
  shows "snd (check_and_consume p later b') = Allowed"
  using assms by (auto simp: check_and_consume_def Let_def word_less_nat_alt split: if_splits)


lemma retry_after_honoured_witness:
  "snd (check_and_consume (Count 1 60) 60 \<lparr>bk_count = 1, window_started_at = 0\<rparr>) = Allowed"
  by (rule retry_after_honoured [of _ 10 "\<lparr>bk_count = 1, window_started_at = 0\<rparr>" _ 50])
    (simp_all add: check_and_consume_def)

section \<open>The sweep\<close>

text \<open>What a caller sees of a sequence of checks of any keys.\<close>

fun answers :: "('k \<Rightarrow> policy option) \<Rightarrow> ('k \<times> nat) list \<Rightarrow> 'k buckets \<Rightarrow> (admission \<times> policy option) list" where
  "answers pol [] m = []"
| "answers pol ((k, t) # cs) m =
     (let (m', r) = limiter_check (pol k) k t m in r # answers pol cs m')"

text \<open>The tables agree up to buckets that nobody can tell from a fresh one any more.\<close>

definition similar :: "('k \<Rightarrow> policy option) \<Rightarrow> nat \<Rightarrow> 'k buckets \<Rightarrow> 'k buckets \<Rightarrow> bool" where
  "similar pol now m m' \<longleftrightarrow>
     (\<forall>k p. pol k = Some p \<longrightarrow> (\<forall>t \<ge> now. check_and_consume p t (bucket_at k t m) = check_and_consume p t (bucket_at k t m')))"

lemma similar_check:
  assumes "similar pol now m m'" and "now \<le> t"
  shows "snd (limiter_check (pol k) k t m) = snd (limiter_check (pol k) k t m') \<and>
    similar pol t (fst (limiter_check (pol k) k t m)) (fst (limiter_check (pol k) k t m'))"
  using assms
  by (cases "pol k")
    (auto simp: similar_def limiter_check_def bucket_at_def Let_def split: prod.splits)

lemma similar_answers:
  "similar pol now m m' \<Longrightarrow> \<forall>(k, t) \<in> set cs. now \<le> t \<Longrightarrow> sorted (map snd cs) \<Longrightarrow>
   answers pol cs m = answers pol cs m'"
proof (induction cs arbitrary: now m m')
  case Nil
  then show ?case by simp
next
  case (Cons c cs)
  obtain k t where c: "c = (k, t)" by (cases c)
  have step: "snd (limiter_check (pol k) k t m) = snd (limiter_check (pol k) k t m')"
    "similar pol t (fst (limiter_check (pol k) k t m)) (fst (limiter_check (pol k) k t m'))"
    using similar_check [OF Cons.prems(1), of t k] Cons.prems(2) by (auto simp: c)
  have "answers pol cs (fst (limiter_check (pol k) k t m)) = answers pol cs (fst (limiter_check (pol k) k t m'))"
    using Cons.prems(3) by (intro Cons.IH [OF step(2)]) (auto simp: c)
  with step(1) show ?case by (simp add: c split_def Let_def)
qed

lemma sweep_similar:
  assumes "\<And>k p. pol k = Some p \<Longrightarrow> window p \<le> idle_for \<and> 0 < capacity p"
  shows "similar pol now (sweep_idle now idle_for m) m"
  using assms idle_like_fresh [of now idle_for]
  by (auto simp: similar_def bucket_at_def sweep_idle_def split: option.split)

text \<open>
  The sweep is invisible: forgetting the idle buckets changes no answer of either tier, to any
  later sequence of checks of any keys.
\<close>

theorem sweep_invisible:
  assumes "\<forall>(k, t) \<in> set gs. now \<le> t" and "sorted (map snd gs)"
    and "\<forall>(k, t) \<in> set ss. now \<le> t" and "sorted (map snd ss)"
  shows "answers global_policy gs (fst (sweep_rate_limits now (g, s))) = answers global_policy gs g \<and>
    answers (\<lambda>(sid, k). default_policy k) ss (snd (sweep_rate_limits now (g, s)))
      = answers (\<lambda>(sid, k). default_policy k) ss s"
proof -
  have g: "similar global_policy now (sweep_idle now IDLE_BUCKET_TTL g) g"
    using global_policy_sweepable by (intro sweep_similar) (simp add: sweepable_def)
  have s: "similar (\<lambda>(sid, k). default_policy k) now (sweep_idle now IDLE_BUCKET_TTL s) s"
    using default_policy_sweepable by (intro sweep_similar) (auto simp: sweepable_def)
  show ?thesis
    using similar_answers [OF g assms(1,2)] similar_answers [OF s assms(3,4)]
    by (simp add: sweep_rate_limits_def)
qed

lemma sweep_invisible_witness:
  "answers global_policy [(OidcAttemptKey ''ip'', 5)] (fst (sweep_rate_limits 5 (Map.empty, Map.empty)))
     = answers global_policy [(OidcAttemptKey ''ip'', 5)] Map.empty"
  using sweep_invisible [of "[(OidcAttemptKey ''ip'', 5)]" 5 "[]" Map.empty Map.empty] by simp

end
