(* ===== verification/Splx.thy ===== *)
theory Splx
  imports Prelude
begin

text \<open>
  The reader of the authority language's wire format (\<open>crates/splx-ir/src\<close>): tagged lists
  \<open>(:tag :key value \<dots>)\<close> become capabilities, delegations, deltas and saga logs. The values
  themselves belong to the crate \<open>lexpr\<close>; \<open>'v sexp\<close> is the record of the accessors that the
  reader calls on them.
\<close>

record 'v sexp =
  as_keyword :: "'v \<Rightarrow> string option"
  as_symbol :: "'v \<Rightarrow> string option"
  as_str :: "'v \<Rightarrow> string option"
  as_i64 :: "'v \<Rightarrow> int option"
  is_string :: "'v \<Rightarrow> bool"
  is_nil :: "'v \<Rightarrow> bool"
  is_null :: "'v \<Rightarrow> bool"
  list_iter :: "'v \<Rightarrow> 'v list option"
  display :: "'v \<Rightarrow> string"
  lexpr_from_str :: "string \<Rightarrow> string + 'v"

section \<open>Errors\<close>

datatype ir_error =
    Ir_parse string
  | Not_a_tagged_list string
  | Wrong_tag string string     \<comment> \<open>expected, actual\<close>
  | Missing_key string
  | Bad_value string string     \<comment> \<open>key, detail\<close>
  | Unwrap_failed               \<comment> \<open>not an \<open>IrError\<close>: the \<open>unwrap\<close> in \<open>Delta::from_value\<close>\<close>

type_synonym 'a ir = "ir_error + 'a"

text \<open>The operator \<open>?\<close>, \<open>ok_or\<close>, and \<open>collect::<Result<Vec<_>, _>>\<close>.\<close>

definition attempt :: "'a ir \<Rightarrow> ('a \<Rightarrow> 'b ir) \<Rightarrow> 'b ir" where
  "attempt r f = (case r of Inl e \<Rightarrow> Inl e | Inr x \<Rightarrow> f x)"

definition ok_or :: "'a option \<Rightarrow> ir_error \<Rightarrow> 'a ir" where
  "ok_or x e = (case x of None \<Rightarrow> Inl e | Some y \<Rightarrow> Inr y)"

fun collect_results :: "('a \<Rightarrow> 'b ir) \<Rightarrow> 'a list \<Rightarrow> 'b list ir" where
  "collect_results f [] = Inr []"
| "collect_results f (x # xs) =
     attempt (f x) (\<lambda>y. attempt (collect_results f xs) (\<lambda>ys. Inr (y # ys)))"

lemma attempt_simps [simp]:
  "attempt (Inl e) f = Inl e"
  "attempt (Inr x) f = f x"
  by (simp_all add: attempt_def)

lemma ok_or_simps [simp]:
  "ok_or None e = Inl e"
  "ok_or (Some x) e = Inr x"
  by (simp_all add: ok_or_def)

lemma attempt_ok: "attempt r f = Inr y \<longleftrightarrow> (\<exists>x. r = Inr x \<and> f x = Inr y)"
  by (cases r) auto

lemma collect_results_map:
  "(\<And>x. x \<in> set xs \<Longrightarrow> f (g x) = Inr x) \<Longrightarrow> collect_results f (map g xs) = Inr xs"
  by (induction xs) auto

section \<open>Tagged lists (\<open>parse.rs\<close>)\<close>

definition as_kw :: "'v sexp \<Rightarrow> 'v \<Rightarrow> string option" where
  "as_kw X v =
     (case as_keyword X v of
        Some k \<Rightarrow> Some k
      | None \<Rightarrow> Option.bind (as_symbol X v) (strip_prefix '':''))"

definition is_lisp_nil :: "'v sexp \<Rightarrow> 'v \<Rightarrow> bool" where
  "is_lisp_nil X v \<longleftrightarrow> is_nil X v \<or> is_null X v \<or> as_symbol X v = Some ''nil''"

record 'v tagged_list =
  tl_tag :: string
  tl_pairs :: "(string \<times> 'v) list"

text \<open>\<open>chunks(2)\<close> of a list of even length.\<close>

fun chunks2 :: "'a list \<Rightarrow> ('a \<times> 'a) list" where
  "chunks2 (a # b # xs) = (a, b) # chunks2 xs"
| "chunks2 _ = []"

definition parse_tagged :: "'v sexp \<Rightarrow> 'v \<Rightarrow> 'v tagged_list ir" where
  "parse_tagged X v =
     attempt (ok_or (list_iter X v) (Not_a_tagged_list (display X v))) (\<lambda>items.
     attempt
       (ok_or (case items of [] \<Rightarrow> None | t # _ \<Rightarrow> as_kw X t) (Not_a_tagged_list (display X v))) (\<lambda>tag.
       if odd (length (drop 1 items))
       then Inl (Not_a_tagged_list (''odd number of plist elements after tag :'' @ tag))
       else
         attempt
           (collect_results
              (\<lambda>(k, w). attempt
                 (ok_or (as_kw X k) (Not_a_tagged_list (''non-keyword plist key: '' @ display X k)))
                 (\<lambda>key. Inr (key, w)))
              (chunks2 (drop 1 items)))
           (\<lambda>pairs. Inr \<lparr>tl_tag = tag, tl_pairs = pairs\<rparr>)))"

definition expect_tag :: "'v tagged_list \<Rightarrow> string \<Rightarrow> unit ir" where
  "expect_tag l expected = (if tl_tag l \<noteq> expected then Inl (Wrong_tag expected (tl_tag l)) else Inr ())"

definition tl_get :: "'v tagged_list \<Rightarrow> string \<Rightarrow> 'v option" where
  "tl_get l key = map_option snd (find (\<lambda>(k, _). k = key) (tl_pairs l))"

definition tl_require :: "'v tagged_list \<Rightarrow> string \<Rightarrow> 'v ir" where
  "tl_require l key = ok_or (tl_get l key) (Missing_key key)"

definition require_str :: "'v sexp \<Rightarrow> 'v \<Rightarrow> string \<Rightarrow> string ir" where
  "require_str X v key = ok_or (as_str X v) (Bad_value key (''expected string, got '' @ display X v))"

definition require_i64 :: "'v sexp \<Rightarrow> 'v \<Rightarrow> string \<Rightarrow> int ir" where
  "require_i64 X v key = ok_or (as_i64 X v) (Bad_value key (''expected integer, got '' @ display X v))"

definition keyword_list :: "'v sexp \<Rightarrow> 'v \<Rightarrow> string \<Rightarrow> string list ir" where
  "keyword_list X v key =
     (if is_lisp_nil X v then Inr []
      else attempt (ok_or (list_iter X v) (Bad_value key (''expected a list, got '' @ display X v)))
        (collect_results (\<lambda>item.
           ok_or (as_kw X item) (Bad_value key (''expected keyword in list, got '' @ display X item)))))"

datatype any_or_int = Any_ref | Id_ref int

definition any_or_int_from_value :: "'v sexp \<Rightarrow> 'v \<Rightarrow> any_or_int ir" where
  "any_or_int_from_value X v =
     (if as_kw X v = Some ''any'' then Inr Any_ref
      else ok_or (map_option Id_ref (as_i64 X v))
        (Bad_value ''ref/fd'' (''expected :any or integer, got '' @ display X v)))"

text \<open>The two fields that every tagged form starts from.\<close>

definition tagged :: "'v sexp \<Rightarrow> string \<Rightarrow> 'v \<Rightarrow> ('v tagged_list \<Rightarrow> 'a ir) \<Rightarrow> 'a ir" where
  "tagged X tag v f = attempt (parse_tagged X v) (\<lambda>l. attempt (expect_tag l tag) (\<lambda>_. f l))"

definition text_field :: "'v sexp \<Rightarrow> 'v tagged_list \<Rightarrow> string \<Rightarrow> string ir" where
  "text_field X l key = attempt (tl_require l key) (\<lambda>v. require_str X v key)"

definition i64_field :: "'v sexp \<Rightarrow> 'v tagged_list \<Rightarrow> string \<Rightarrow> int ir" where
  "i64_field X l key = attempt (tl_require l key) (\<lambda>v. require_i64 X v key)"

definition kw_field :: "'v sexp \<Rightarrow> 'v tagged_list \<Rightarrow> string \<Rightarrow> string ir" where
  "kw_field X l key =
     attempt (tl_require l key) (\<lambda>v. ok_or (as_kw X v) (Bad_value key ''expected keyword''))"

text \<open>An optional field: absent when its key is missing or its value is \<open>nil\<close>.\<close>

definition present :: "'v sexp \<Rightarrow> 'v tagged_list \<Rightarrow> string \<Rightarrow> 'v option" where
  "present X l key = (case tl_get l key of Some v \<Rightarrow> if is_lisp_nil X v then None else Some v | None \<Rightarrow> None)"

definition when_present :: "'v option \<Rightarrow> ('v \<Rightarrow> 'a ir) \<Rightarrow> 'a option ir" where
  "when_present x f = (case x of None \<Rightarrow> Inr None | Some v \<Rightarrow> attempt (f v) (\<lambda>y. Inr (Some y)))"

section \<open>Op sets and conditions (\<open>algebra.rs\<close>)\<close>

type_synonym op_set = "string list"

definition op_set_from_value :: "'v sexp \<Rightarrow> 'v \<Rightarrow> op_set ir" where
  "op_set_from_value X v = keyword_list X v ''ops''"

definition op_set_contains :: "op_set \<Rightarrow> string \<Rightarrow> bool" where
  "op_set_contains ops op \<longleftrightarrow> list_ex (\<lambda>k. k = op) ops"

datatype condition_value = Cond_int int | Cond_symbol string | Cond_symbols "string list" | Cond_nil

definition symbol_text :: "'v sexp \<Rightarrow> 'v \<Rightarrow> string option" where
  "symbol_text X v = (case as_kw X v of Some k \<Rightarrow> Some k | None \<Rightarrow> as_symbol X v)"

definition condition_value_from_value :: "'v sexp \<Rightarrow> 'v \<Rightarrow> condition_value ir" where
  "condition_value_from_value X v =
     (if is_lisp_nil X v then Inr Cond_nil
      else case as_i64 X v of
        Some i \<Rightarrow> Inr (Cond_int i)
      | None \<Rightarrow>
          (case symbol_text X v of
             Some s \<Rightarrow> Inr (Cond_symbol s)
           | None \<Rightarrow>
               (case list_iter X v of
                  Some items \<Rightarrow>
                    attempt
                      (collect_results (\<lambda>item.
                         ok_or (symbol_text X item)
                           (Bad_value ''condition-value'' (''expected symbol in list, got '' @ display X item)))
                         items)
                      (\<lambda>syms. Inr (Cond_symbols syms))
                | None \<Rightarrow> Inl (Bad_value ''condition-value'' (''unrecognized shape: '' @ display X v)))))"

definition cond_is_true :: "condition_value \<Rightarrow> bool" where
  "cond_is_true c \<longleftrightarrow> c = Cond_symbol ''t''"

type_synonym condition_set = "(string \<times> condition_value) list"

definition condition_set_from_plist :: "'v sexp \<Rightarrow> 'v \<Rightarrow> condition_set ir" where
  "condition_set_from_plist X v =
     (if is_lisp_nil X v then Inr []
      else
        attempt (ok_or (list_iter X v) (Bad_value ''conditions'' (''expected a plist, got '' @ display X v)))
          (\<lambda>items.
            if odd (length items) then Inl (Bad_value ''conditions'' ''odd-length condition plist'')
            else
              collect_results
                (\<lambda>(k, w).
                   attempt
                     (ok_or (as_kw X k)
                        (Bad_value ''conditions'' (''non-keyword condition key: '' @ display X k)))
                     (\<lambda>key. attempt (condition_value_from_value X w) (\<lambda>c. Inr (key, c))))
                (chunks2 items)))"

definition condition_get :: "condition_set \<Rightarrow> string \<Rightarrow> condition_value option" where
  "condition_get cs key = map_option snd (find (\<lambda>(k, _). k = key) cs)"

section \<open>Resources (\<open>resource.rs\<close>)\<close>

datatype resource =
    Fs string
  | Net string int int string      \<comment> \<open>host, ports, path prefix\<close>
  | Pid any_or_int
  | Ipc_fd any_or_int
  | Http string "op_set option"
  | Wasm string

fun provider :: "resource \<Rightarrow> string" where
  "provider (Fs _) = ''linux-fs''"
| "provider (Net _ _ _ _) = ''linux-net''"
| "provider (Pid _) = ''linux-pid''"
| "provider (Ipc_fd _) = ''ipc-fd''"
| "provider (Http _ _) = ''http-ucan''"
| "provider (Wasm _) = ''wasm''"

definition or_default :: "'a \<Rightarrow> 'a option ir \<Rightarrow> 'a ir" where
  "or_default d r = attempt r (\<lambda>x. Inr (case x of None \<Rightarrow> d | Some y \<Rightarrow> y))"

definition net_from_list :: "'v sexp \<Rightarrow> 'v tagged_list \<Rightarrow> resource ir" where
  "net_from_list X l =
     attempt (text_field X l ''host'') (\<lambda>host.
     attempt (or_default 0 (when_present (tl_get l ''port-min'') (\<lambda>v. require_i64 X v ''port-min''))) (\<lambda>lo.
     attempt (or_default 65535 (when_present (tl_get l ''port-max'') (\<lambda>v. require_i64 X v ''port-max''))) (\<lambda>hi.
     attempt (or_default ''/'' (when_present (tl_get l ''path-prefix'') (\<lambda>v. require_str X v ''path-prefix'')))
       (\<lambda>pre. Inr (Net host lo hi pre)))))"

definition resource_from_value :: "'v sexp \<Rightarrow> 'v \<Rightarrow> resource ir" where
  "resource_from_value X v =
     attempt (parse_tagged X v) (\<lambda>l.
       if tl_tag l = ''fs'' then attempt (text_field X l ''path'') (\<lambda>p. Inr (Fs p))
       else if tl_tag l = ''net'' then net_from_list X l
       else if tl_tag l = ''pid''
       then attempt (tl_require l ''ref'') (\<lambda>r. attempt (any_or_int_from_value X r) (\<lambda>a. Inr (Pid a)))
       else if tl_tag l = ''ipc-fd''
       then attempt (tl_require l ''fd'') (\<lambda>r. attempt (any_or_int_from_value X r) (\<lambda>a. Inr (Ipc_fd a)))
       else if tl_tag l = ''http''
       then attempt (text_field X l ''url'') (\<lambda>url.
              attempt (when_present (present X l ''methods'') (op_set_from_value X)) (\<lambda>ms.
                Inr (Http url ms)))
       else if tl_tag l = ''wasm'' then attempt (text_field X l ''module'') (\<lambda>m. Inr (Wasm m))
       else Inl (Wrong_tag ''fs|net|pid|ipc-fd|http|wasm'' (tl_tag l)))"

section \<open>Entries, delegations, capabilities (\<open>ir.rs\<close>)\<close>

record authority_entry =
  en_resource :: resource
  en_ops :: op_set
  en_conditions :: "condition_set option"

definition conditions_field :: "'v sexp \<Rightarrow> 'v tagged_list \<Rightarrow> condition_set option ir" where
  "conditions_field X l = when_present (present X l ''conditions'') (condition_set_from_plist X)"

definition entry_from_value :: "'v sexp \<Rightarrow> 'v \<Rightarrow> authority_entry ir" where
  "entry_from_value X v =
     tagged X ''entry'' v (\<lambda>l.
       attempt (conditions_field X l) (\<lambda>cs.
       attempt (tl_require l ''resource'') (\<lambda>rv. attempt (resource_from_value X rv) (\<lambda>r.
       attempt (tl_require l ''ops'') (\<lambda>ov. attempt (op_set_from_value X ov) (\<lambda>ops.
         Inr \<lparr>en_resource = r, en_ops = ops, en_conditions = cs\<rparr>))))))"

definition parse_entry_list :: "'v sexp \<Rightarrow> 'v \<Rightarrow> authority_entry list ir" where
  "parse_entry_list X v =
     (if is_lisp_nil X v then Inr []
      else
        attempt (ok_or (list_iter X v) (Bad_value ''authority'' (''expected a list, got '' @ display X v)))
          (collect_results (entry_from_value X)))"

definition entries_field :: "'v sexp \<Rightarrow> 'v tagged_list \<Rightarrow> authority_entry list ir" where
  "entries_field X l = attempt (tl_require l ''authority'') (parse_entry_list X)"

record ir_delegation =
  dg_grantor :: string
  dg_grantee :: string
  dg_authority :: "authority_entry list"

definition delegation_from_value :: "'v sexp \<Rightarrow> 'v \<Rightarrow> ir_delegation ir" where
  "delegation_from_value X v =
     tagged X ''delegation'' v (\<lambda>l.
       attempt (text_field X l ''grantor'') (\<lambda>a.
       attempt (text_field X l ''grantee'') (\<lambda>b.
       attempt (entries_field X l) (\<lambda>es.
         Inr \<lparr>dg_grantor = a, dg_grantee = b, dg_authority = es\<rparr>))))"

datatype cap_action = Act_delegate | Act_invoke | Act_other string

definition cap_action_from_value :: "'v sexp \<Rightarrow> 'v \<Rightarrow> cap_action ir" where
  "cap_action_from_value X v =
     (case as_kw X v of
        None \<Rightarrow> Inl (Bad_value ''action'' (''expected keyword, got '' @ display X v))
      | Some k \<Rightarrow>
          Inr (if k = ''delegate'' then Act_delegate else if k = ''invoke'' then Act_invoke else Act_other k))"

record 'v ir_capability =
  cp_action :: cap_action
  cp_subject :: string
  cp_authority :: "authority_entry list"
  cp_derived_from :: "string option"
  cp_conditions :: "condition_set option"
  cp_metadata :: "'v option"

definition capability_from_value :: "'v sexp \<Rightarrow> 'v \<Rightarrow> 'v ir_capability ir" where
  "capability_from_value X v =
     tagged X ''capability'' v (\<lambda>l.
       attempt (conditions_field X l) (\<lambda>cs.
       attempt (when_present (present X l ''derived-from'') (\<lambda>d. require_str X d ''derived-from'')) (\<lambda>from_cap.
       attempt (tl_require l ''action'') (\<lambda>av. attempt (cap_action_from_value X av) (\<lambda>act.
       attempt (text_field X l ''subject'') (\<lambda>sub.
       attempt (entries_field X l) (\<lambda>es.
         Inr \<lparr>cp_action = act, cp_subject = sub, cp_authority = es, cp_derived_from = from_cap,
              cp_conditions = cs, cp_metadata = present X l ''metadata''\<rparr>)))))))"

section \<open>Effects and deltas (\<open>operational.rs\<close>)\<close>

record 'v ir_effect =
  ef_kind :: string
  ef_resource_spec :: 'v
  ef_payload :: "'v option"

definition effect_from_value :: "'v sexp \<Rightarrow> 'v \<Rightarrow> 'v ir_effect ir" where
  "effect_from_value X v =
     tagged X ''effect'' v (\<lambda>l.
       attempt (kw_field X l ''kind'') (\<lambda>k.
       attempt (tl_require l ''resource-spec'') (\<lambda>r.
         Inr \<lparr>ef_kind = k, ef_resource_spec = r, ef_payload = present X l ''payload''\<rparr>)))"

record 'v ir_delta =
  dl_effect :: "'v ir_effect"
  dl_authority :: authority_entry
  dl_epoch :: int
  dl_saga_id :: "string option"
  dl_sequence :: int
  dl_before :: 'v
  dl_after :: 'v
  dl_timestamp :: int

definition saga_id_field :: "'v sexp \<Rightarrow> 'v tagged_list \<Rightarrow> string option ir" where
  "saga_id_field X l =
     (case tl_get l ''saga-id'' of
        Some sv \<Rightarrow>
          if is_string X sv then attempt (ok_or (as_str X sv) Unwrap_failed) (\<lambda>s. Inr (Some s)) else Inr None
      | None \<Rightarrow> Inr None)"

definition delta_from_value :: "'v sexp \<Rightarrow> 'v \<Rightarrow> 'v ir_delta ir" where
  "delta_from_value X v =
     tagged X ''delta'' v (\<lambda>l.
       attempt (saga_id_field X l) (\<lambda>sid.
       attempt (tl_require l ''effect'') (\<lambda>ev. attempt (effect_from_value X ev) (\<lambda>e.
       attempt (tl_require l ''authority'') (\<lambda>av. attempt (entry_from_value X av) (\<lambda>a.
       attempt (i64_field X l ''epoch'') (\<lambda>ep.
       attempt (i64_field X l ''sequence'') (\<lambda>sq.
       attempt (tl_require l ''before'') (\<lambda>b.
       attempt (tl_require l ''after'') (\<lambda>af.
       attempt (i64_field X l ''timestamp'') (\<lambda>ts.
         Inr \<lparr>dl_effect = e, dl_authority = a, dl_epoch = ep, dl_saga_id = sid, dl_sequence = sq,
              dl_before = b, dl_after = af, dl_timestamp = ts\<rparr>)))))))))))"

section \<open>Receipts and saga logs (\<open>saga.rs\<close>)\<close>

record ir_transfer =
  tx_saga_id :: string
  tx_sequence :: int
  tx_grantor :: string
  tx_recipient :: string
  tx_authority :: "authority_entry list"
  tx_timestamp :: int

text \<open>Inlined in \<open>TransferReceipt::from_value\<close>: a list of entries with a terser error.\<close>

definition list_field :: "'v sexp \<Rightarrow> 'v tagged_list \<Rightarrow> string \<Rightarrow> ('v \<Rightarrow> 'a ir) \<Rightarrow> 'a list ir" where
  "list_field X l key f =
     attempt (tl_require l key) (\<lambda>v.
       if is_lisp_nil X v then Inr []
       else attempt (ok_or (list_iter X v) (Bad_value key (display X v))) (collect_results f))"

definition transfer_from_value :: "'v sexp \<Rightarrow> 'v \<Rightarrow> ir_transfer ir" where
  "transfer_from_value X v =
     tagged X ''transfer-receipt'' v (\<lambda>l.
       attempt (text_field X l ''saga-id'') (\<lambda>sid.
       attempt (i64_field X l ''sequence'') (\<lambda>sq.
       attempt (text_field X l ''grantor'') (\<lambda>g.
       attempt (text_field X l ''recipient'') (\<lambda>r.
       attempt (list_field X l ''authority'' (entry_from_value X)) (\<lambda>es.
       attempt (i64_field X l ''timestamp'') (\<lambda>ts.
         Inr \<lparr>tx_saga_id = sid, tx_sequence = sq, tx_grantor = g, tx_recipient = r,
              tx_authority = es, tx_timestamp = ts\<rparr>)))))))"

record ir_send =
  sn_saga_id :: string
  sn_sequence :: int
  sn_sender :: string
  sn_recipient :: string
  sn_message_kind :: string
  sn_timestamp :: int

definition send_from_value :: "'v sexp \<Rightarrow> 'v \<Rightarrow> ir_send ir" where
  "send_from_value X v =
     tagged X ''send-receipt'' v (\<lambda>l.
       attempt (kw_field X l ''message-kind'') (\<lambda>k.
       attempt (text_field X l ''saga-id'') (\<lambda>sid.
       attempt (i64_field X l ''sequence'') (\<lambda>sq.
       attempt (text_field X l ''sender'') (\<lambda>s.
       attempt (text_field X l ''recipient'') (\<lambda>r.
       attempt (i64_field X l ''timestamp'') (\<lambda>ts.
         Inr \<lparr>sn_saga_id = sid, sn_sequence = sq, sn_sender = s, sn_recipient = r,
              sn_message_kind = k, sn_timestamp = ts\<rparr>)))))))"

datatype 'v log_payload = Commit "'v ir_delta" | Transfer ir_transfer | Send ir_send

record 'v saga_log_entry =
  le_kind :: string
  le_sequence :: int
  le_payload :: "'v log_payload"
  le_timestamp :: int

definition payload_from_value :: "'v sexp \<Rightarrow> string \<Rightarrow> 'v \<Rightarrow> 'v log_payload ir" where
  "payload_from_value X kind v =
     (if kind = ''commit'' then attempt (delta_from_value X v) (\<lambda>d. Inr (Commit d))
      else if kind = ''transfer'' then attempt (transfer_from_value X v) (\<lambda>t. Inr (Transfer t))
      else if kind = ''send'' then attempt (send_from_value X v) (\<lambda>s. Inr (Send s))
      else Inl (Bad_value ''kind'' (''unknown saga-log-entry kind :'' @ kind)))"

definition log_entry_from_value :: "'v sexp \<Rightarrow> 'v \<Rightarrow> 'v saga_log_entry ir" where
  "log_entry_from_value X v =
     tagged X ''saga-log-entry'' v (\<lambda>l.
       attempt (kw_field X l ''kind'') (\<lambda>k.
       attempt (tl_require l ''payload'') (\<lambda>pv. attempt (payload_from_value X k pv) (\<lambda>p.
       attempt (i64_field X l ''sequence'') (\<lambda>sq.
       attempt (i64_field X l ''timestamp'') (\<lambda>ts.
         Inr \<lparr>le_kind = k, le_sequence = sq, le_payload = p, le_timestamp = ts\<rparr>))))))"

record 'v saga_log =
  sl_saga_id :: string
  sl_entries :: "'v saga_log_entry list"

definition saga_log_from_value :: "'v sexp \<Rightarrow> 'v \<Rightarrow> 'v saga_log ir" where
  "saga_log_from_value X v =
     tagged X ''saga-log'' v (\<lambda>l.
       attempt (list_field X l ''entries'' (log_entry_from_value X)) (\<lambda>es.
       attempt (text_field X l ''saga-id'') (\<lambda>sid.
         Inr \<lparr>sl_saga_id = sid, sl_entries = es\<rparr>)))"

section \<open>Any top-level form (\<open>lib.rs\<close>)\<close>

datatype 'v splx_value =
    Splx_entry authority_entry
  | Splx_delegation ir_delegation
  | Splx_capability "'v ir_capability"
  | Splx_effect "'v ir_effect"
  | Splx_delta "'v ir_delta"
  | Splx_transfer ir_transfer
  | Splx_send ir_send
  | Splx_log_entry "'v saga_log_entry"
  | Splx_log "'v saga_log"

definition known_wire_tag :: string where "known_wire_tag = ''a known splx-ir wire tag''"

definition splx_from_value :: "'v sexp \<Rightarrow> 'v \<Rightarrow> 'v splx_value ir" where
  "splx_from_value X v =
     attempt (parse_tagged X v) (\<lambda>l.
       let tag = tl_tag l in
       if tag = ''entry'' then attempt (entry_from_value X v) (\<lambda>x. Inr (Splx_entry x))
       else if tag = ''delegation'' then attempt (delegation_from_value X v) (\<lambda>x. Inr (Splx_delegation x))
       else if tag = ''capability'' then attempt (capability_from_value X v) (\<lambda>x. Inr (Splx_capability x))
       else if tag = ''effect'' then attempt (effect_from_value X v) (\<lambda>x. Inr (Splx_effect x))
       else if tag = ''delta'' then attempt (delta_from_value X v) (\<lambda>x. Inr (Splx_delta x))
       else if tag = ''transfer-receipt'' then attempt (transfer_from_value X v) (\<lambda>x. Inr (Splx_transfer x))
       else if tag = ''send-receipt'' then attempt (send_from_value X v) (\<lambda>x. Inr (Splx_send x))
       else if tag = ''saga-log-entry'' then attempt (log_entry_from_value X v) (\<lambda>x. Inr (Splx_log_entry x))
       else if tag = ''saga-log'' then attempt (saga_log_from_value X v) (\<lambda>x. Inr (Splx_log x))
       else Inl (Wrong_tag known_wire_tag tag))"

definition splx_from_str :: "'v sexp \<Rightarrow> string \<Rightarrow> 'v splx_value ir" where
  "splx_from_str X s =
     attempt (case lexpr_from_str X s of Inl e \<Rightarrow> Inl (Ir_parse e) | Inr v \<Rightarrow> Inr v) (splx_from_value X)"

end
