(* ===== verification/Authority_Import.thy ===== *)
theory Authority_Import
  imports Splx Invoke
begin

text \<open>
  Capabilities written in the authority language become capabilities of a session:
  \<open>crates/db/src/authority_import.rs\<close>, which turns each pair of a resource and an operation into a
  permission string, and \<open>POST authority/import\<close> (\<open>crates/server/src/routes/authority_import.rs\<close>).
\<close>

section \<open>Permission strings\<close>

text \<open>\<open>format!("{}", i)\<close> for an \<open>i64\<close>.\<close>

definition int_str :: "int \<Rightarrow> string" where
  "int_str i = (if i < 0 then ''-'' @ nat_str (nat (- i)) else nat_str (nat i))"

fun any_or_int_repr :: "any_or_int \<Rightarrow> string" where
  "any_or_int_repr Any_ref = ''any''"
| "any_or_int_repr (Id_ref i) = int_str i"

fun resource_repr :: "resource \<Rightarrow> string" where
  "resource_repr (Fs path) = path"
| "resource_repr (Net host lo hi pre) =
     (let port = if lo = 0 \<and> hi = 65535 then '''' else '':'' @ int_str lo @ ''-'' @ int_str hi
      in host @ port @ pre)"
| "resource_repr (Pid r) = any_or_int_repr r"
| "resource_repr (Ipc_fd r) = ''fd:'' @ any_or_int_repr r"
| "resource_repr (Http url _) = url"
| "resource_repr (Wasm m) = m"

definition entry_to_permissions :: "authority_entry \<Rightarrow> string list" where
  "entry_to_permissions e =
     (let prov = provider (en_resource e); repr = resource_repr (en_resource e)
      in map (\<lambda>op. prov @ '':'' @ repr @ '':'' @ op) (en_ops e))"

text \<open>\<open>sort\<close> and \<open>dedup\<close>: the order is that of the bytes, and only neighbours are compared.\<close>

definition authority_to_permissions :: "authority_entry list \<Rightarrow> string list" where
  "authority_to_permissions es = remdups_adj (sort (concat (map entry_to_permissions es)))"

section \<open>Import\<close>

definition import_capability ::
  "arena \<Rightarrow> string \<Rightarrow> 'v ir_capability \<Rightarrow> int \<Rightarrow> ('j, authority) db_op" where
  "import_capability ar actor cap ttl = alloc ar actor (authority_to_permissions (cp_authority cap)) ttl"

definition import_delegation ::
  "authority \<Rightarrow> string \<Rightarrow> ir_delegation \<Rightarrow> int \<Rightarrow> ('j, authority) db_op" where
  "import_delegation parent grantee dg ttl =
     delegate parent grantee (authority_to_permissions (dg_authority dg)) ttl"

section \<open>The route\<close>

record import_body =
  im_sexpr :: string
  im_actor :: string
  im_parent :: "string option"
  im_ttl_secs :: int

datatype import_reply =
    Import_refused reply_error
  | Imported string "string list" datetime int     \<comment> \<open>capability, permissions, expiry, stratum\<close>

definition default_ttl_secs :: int where "default_ttl_secs = 3600"

text \<open>The audit event, whose failure is ignored, and the answer.\<close>

definition import_answer :: "string \<Rightarrow> authority \<Rightarrow> ('j, import_reply) db_op" where
  "import_answer sid au =
     db_attempt (alloc_seq sid) (\<lambda>r.
       case r of
         Inl _ \<Rightarrow> db_return (Imported (au_id au) (au_perms au) (au_expires au) (au_stratum au))
       | Inr sq \<Rightarrow>
           db_attempt (append_event sid sq) (\<lambda>_.
             db_return (Imported (au_id au) (au_perms au) (au_expires au) (au_stratum au))))"

definition import_or_error ::
  "string \<Rightarrow> (db_error \<Rightarrow> ('j, import_reply) db_op) \<Rightarrow> ('j, authority) db_op \<Rightarrow> ('j, import_reply) db_op" where
  "import_or_error sid refuse m =
     db_attempt m (\<lambda>r. case r of Inl e \<Rightarrow> refuse e | Inr au \<Rightarrow> import_answer sid au)"

definition import_against ::
  "string \<Rightarrow> import_body \<Rightarrow> arena \<Rightarrow> ir_delegation \<Rightarrow> ('j, import_reply) db_op" where
  "import_against sid body ar dg =
     (case im_parent body of
        None \<Rightarrow> db_return (Import_refused (Status 422))
      | Some p \<Rightarrow>
          db_attempt (authority_for_cap ar p) (\<lambda>r.
            case r of
              Inl Not_found \<Rightarrow> db_return (Import_refused (Status 404))
            | Inl e \<Rightarrow> internal Import_refused e
            | Inr parent \<Rightarrow>
                import_or_error sid
                  (\<lambda>e. case e of
                     Db_conflict _ \<Rightarrow> db_return (Import_refused (Status 409))
                   | _ \<Rightarrow> internal Import_refused e)
                  (import_delegation parent (im_actor body) dg (im_ttl_secs body))))"

text \<open>\<open>Duration::seconds\<close> panics when the milliseconds do not fit into 64 bits.\<close>

definition seconds_in_range :: "int \<Rightarrow> bool" where
  "seconds_in_range n \<longleftrightarrow> \<bar>n\<bar> \<le> (2 ^ 63 - 1) div 1000"

text \<open>The handler after the membership check and the rate limit.\<close>

definition import_admitted ::
  "'v sexp \<Rightarrow> string \<Rightarrow> import_body \<Rightarrow> ('j, import_reply) db_op" where
  "import_admitted S sid body =
     (case splx_from_str S (im_sexpr body) of
        Inl Unwrap_failed \<Rightarrow> db_fail Panicked
      | Inl _ \<Rightarrow> db_return (Import_refused (Status 422))
      | Inr parsed \<Rightarrow>
          db_attempt (for_session sid) (\<lambda>a.
            case a of
              Inl e \<Rightarrow> internal Import_refused e
            | Inr ar \<Rightarrow>
                if \<not> seconds_in_range (im_ttl_secs body) then db_fail Panicked
                else
                (case parsed of
                   Splx_capability cap \<Rightarrow>
                     import_or_error sid (internal Import_refused)
                       (import_capability ar (im_actor body) cap (im_ttl_secs body))
                 | Splx_delegation dg \<Rightarrow> import_against sid body ar dg
                 | _ \<Rightarrow> db_return (Import_refused (Status 422)))))"

type_synonym session_buckets = "(string \<times> rate_limit_key) buckets"

text \<open>
  \<open>gate_session\<close>: a denial is recorded as an event of the session, of which these tables see its
  sequence number.
\<close>

definition gate_session ::
  "string \<Rightarrow> rate_limit_key \<Rightarrow> nat \<Rightarrow> session_buckets \<Rightarrow> session_buckets \<times> bool" where
  "gate_session sid k now m =
     (case session_check sid k now m of (m', a, _) \<Rightarrow> (m', a = Allowed))"

definition emit_event :: "string \<Rightarrow> ('j, unit) db_op" where
  "emit_event sid = db_attempt (transaction (stamp_append sid)) (\<lambda>_. db_return ())"

definition import_route ::
  "'v sexp \<Rightarrow> 'j pg \<Rightarrow> nat \<Rightarrow> string \<Rightarrow> string \<Rightarrow> import_body \<Rightarrow> session_buckets \<times> 'j store
   \<Rightarrow> (db_error + import_reply) \<times> session_buckets \<times> 'j store" where
  "import_route S X now sid caller body st =
     (case st of (m, d) \<Rightarrow>
        (case require_membership sid caller Collaborator X d of
           (Inl e, d1) \<Rightarrow>
             if e = Not_found \<or> e = Unauthorized then (Inr (Import_refused (Status 403)), m, d1)
             else (case internal Import_refused e X d1 of (r, d2) \<Rightarrow> (r, m, d2))
         | (Inr _, d1) \<Rightarrow>
             (case gate_session sid (AuthorityImportKey caller) now m of
                (m', False) \<Rightarrow> (Inr (Import_refused (Status 429)), m', snd (emit_event sid X d1))
              | (m', True) \<Rightarrow> (case import_admitted S sid body X d1 of (r, d2) \<Rightarrow> (r, m', d2)))))"

end
