(* ===== verification/Splx_Wire.thy ===== *)
theory Splx_Wire
  imports Splx
begin

text \<open>
  The other side of the wire: \<open>serialize\<close> of \<open>sp-dsl/src/serializer.lisp\<close>, whose output
  \<open>crates/splx-ir\<close> reads. The objects of the Lisp program have the fields of the Rust structs, so
  the reader's types serve for both. \<open>'v lisp\<close> is what \<open>write\<close> followed by \<open>lexpr\<close>'s parser makes of
  a symbol, a string, an integer and a list; \<open>print_case\<close> is how the printer writes the name of a
  symbol (\<open>*print-case*\<close>, by default \<open>:upcase\<close>), given in lower case as the Lisp source has it.
\<close>

record 'v lisp =
  print_case :: "string \<Rightarrow> string"
  mk_sym :: "string \<Rightarrow> 'v"
  mk_str :: "string \<Rightarrow> 'v"
  mk_int :: "int \<Rightarrow> 'v"
  mk_list :: "'v list \<Rightarrow> 'v"

section \<open>The serializer\<close>

definition lisp_symbol :: "'v lisp \<Rightarrow> string \<Rightarrow> 'v" where
  "lisp_symbol L s = mk_sym L (print_case L s)"

definition lisp_keyword :: "'v lisp \<Rightarrow> string \<Rightarrow> 'v" where
  "lisp_keyword L s = mk_sym L ('':'' @ print_case L s)"

definition lisp_nil :: "'v lisp \<Rightarrow> 'v" where
  "lisp_nil L = lisp_symbol L ''nil''"

text \<open>The empty list is the symbol \<open>nil\<close>.\<close>

definition lisp_list :: "'v lisp \<Rightarrow> 'v list \<Rightarrow> 'v" where
  "lisp_list L vs = (if vs = [] then lisp_nil L else mk_list L vs)"

fun plist :: "'v lisp \<Rightarrow> (string \<times> 'v) list \<Rightarrow> 'v list" where
  "plist L [] = []"
| "plist L ((k, v) # kvs) = lisp_keyword L k # v # plist L kvs"

definition form :: "'v lisp \<Rightarrow> string \<Rightarrow> (string \<times> 'v) list \<Rightarrow> 'v" where
  "form L tag kvs = mk_list L (lisp_keyword L tag # plist L kvs)"

definition lisp_when :: "'v lisp \<Rightarrow> ('a \<Rightarrow> 'v) \<Rightarrow> 'a option \<Rightarrow> 'v" where
  "lisp_when L f x = (case x of None \<Rightarrow> lisp_nil L | Some y \<Rightarrow> f y)"

definition serialize_ops :: "'v lisp \<Rightarrow> op_set \<Rightarrow> 'v" where
  "serialize_ops L ops = lisp_list L (map (lisp_keyword L) ops)"

fun serialize_condition :: "'v lisp \<Rightarrow> condition_value \<Rightarrow> 'v" where
  "serialize_condition L (Cond_int i) = mk_int L i"
| "serialize_condition L (Cond_symbol s) = lisp_symbol L s"
| "serialize_condition L (Cond_symbols ss) = lisp_list L (map (lisp_symbol L) ss)"
| "serialize_condition L Cond_nil = lisp_nil L"

definition serialize_conditions :: "'v lisp \<Rightarrow> condition_set \<Rightarrow> 'v" where
  "serialize_conditions L cs =
     lisp_list L (plist L (map (\<lambda>(k, c). (k, serialize_condition L c)) cs))"

fun serialize_ref :: "'v lisp \<Rightarrow> any_or_int \<Rightarrow> 'v" where
  "serialize_ref L Any_ref = lisp_keyword L ''any''"
| "serialize_ref L (Id_ref i) = mk_int L i"

fun serialize_resource :: "'v lisp \<Rightarrow> resource \<Rightarrow> 'v" where
  "serialize_resource L (Fs p) = form L ''fs'' [(''path'', mk_str L p)]"
| "serialize_resource L (Net h lo hi pre) =
     form L ''net'' [(''host'', mk_str L h), (''port-min'', mk_int L lo), (''port-max'', mk_int L hi),
                     (''path-prefix'', mk_str L pre)]"
| "serialize_resource L (Pid r) = form L ''pid'' [(''ref'', serialize_ref L r)]"
| "serialize_resource L (Ipc_fd r) = form L ''ipc-fd'' [(''fd'', serialize_ref L r)]"
| "serialize_resource L (Http u ms) =
     form L ''http'' [(''url'', mk_str L u), (''methods'', lisp_when L (serialize_ops L) ms)]"
| "serialize_resource L (Wasm m) = form L ''wasm'' [(''module'', mk_str L m)]"

definition serialize_entry :: "'v lisp \<Rightarrow> authority_entry \<Rightarrow> 'v" where
  "serialize_entry L e =
     form L ''entry''
       [(''resource'', serialize_resource L (en_resource e)),
        (''ops'', serialize_ops L (en_ops e)),
        (''conditions'', lisp_when L (serialize_conditions L) (en_conditions e))]"

definition serialize_entries :: "'v lisp \<Rightarrow> authority_entry list \<Rightarrow> 'v" where
  "serialize_entries L es = lisp_list L (map (serialize_entry L) es)"

definition serialize_delegation :: "'v lisp \<Rightarrow> ir_delegation \<Rightarrow> 'v" where
  "serialize_delegation L d =
     form L ''delegation''
       [(''grantor'', mk_str L (dg_grantor d)), (''grantee'', mk_str L (dg_grantee d)),
        (''authority'', serialize_entries L (dg_authority d))]"

fun action_name :: "cap_action \<Rightarrow> string" where
  "action_name Act_delegate = ''delegate''"
| "action_name Act_invoke = ''invoke''"
| "action_name (Act_other k) = k"

definition serialize_capability :: "'v lisp \<Rightarrow> 'v ir_capability \<Rightarrow> 'v" where
  "serialize_capability L c =
     form L ''capability''
       [(''action'', lisp_keyword L (action_name (cp_action c))),
        (''subject'', mk_str L (cp_subject c)),
        (''authority'', serialize_entries L (cp_authority c)),
        (''derived-from'', lisp_when L (mk_str L) (cp_derived_from c)),
        (''conditions'', lisp_when L (serialize_conditions L) (cp_conditions c)),
        (''metadata'', lisp_when L (\<lambda>v. v) (cp_metadata c))]"

definition serialize_effect :: "'v lisp \<Rightarrow> 'v ir_effect \<Rightarrow> 'v" where
  "serialize_effect L e =
     form L ''effect''
       [(''kind'', lisp_keyword L (ef_kind e)), (''resource-spec'', ef_resource_spec e),
        (''payload'', lisp_when L (\<lambda>v. v) (ef_payload e))]"

definition serialize_delta :: "'v lisp \<Rightarrow> 'v ir_delta \<Rightarrow> 'v" where
  "serialize_delta L d =
     form L ''delta''
       [(''effect'', serialize_effect L (dl_effect d)),
        (''authority'', serialize_entry L (dl_authority d)),
        (''epoch'', mk_int L (dl_epoch d)),
        (''saga-id'', lisp_when L (mk_str L) (dl_saga_id d)),
        (''sequence'', mk_int L (dl_sequence d)),
        (''before'', dl_before d), (''after'', dl_after d),
        (''timestamp'', mk_int L (dl_timestamp d))]"

definition serialize_transfer :: "'v lisp \<Rightarrow> ir_transfer \<Rightarrow> 'v" where
  "serialize_transfer L t =
     form L ''transfer-receipt''
       [(''saga-id'', mk_str L (tx_saga_id t)), (''sequence'', mk_int L (tx_sequence t)),
        (''grantor'', mk_str L (tx_grantor t)), (''recipient'', mk_str L (tx_recipient t)),
        (''authority'', serialize_entries L (tx_authority t)), (''timestamp'', mk_int L (tx_timestamp t))]"

definition serialize_send :: "'v lisp \<Rightarrow> ir_send \<Rightarrow> 'v" where
  "serialize_send L s =
     form L ''send-receipt''
       [(''saga-id'', mk_str L (sn_saga_id s)), (''sequence'', mk_int L (sn_sequence s)),
        (''sender'', mk_str L (sn_sender s)), (''recipient'', mk_str L (sn_recipient s)),
        (''message-kind'', lisp_keyword L (sn_message_kind s)),
        (''timestamp'', mk_int L (sn_timestamp s))]"

fun serialize_payload :: "'v lisp \<Rightarrow> 'v log_payload \<Rightarrow> 'v" where
  "serialize_payload L (Commit d) = serialize_delta L d"
| "serialize_payload L (Transfer t) = serialize_transfer L t"
| "serialize_payload L (Send s) = serialize_send L s"

definition serialize_log_entry :: "'v lisp \<Rightarrow> 'v saga_log_entry \<Rightarrow> 'v" where
  "serialize_log_entry L e =
     form L ''saga-log-entry''
       [(''kind'', lisp_keyword L (le_kind e)), (''sequence'', mk_int L (le_sequence e)),
        (''payload'', serialize_payload L (le_payload e)), (''timestamp'', mk_int L (le_timestamp e))]"

definition serialize_log :: "'v lisp \<Rightarrow> 'v saga_log \<Rightarrow> 'v" where
  "serialize_log L l =
     form L ''saga-log''
       [(''saga-id'', mk_str L (sl_saga_id l)),
        (''entries'', lisp_list L (map (serialize_log_entry L) (sl_entries l)))]"

fun serialize :: "'v lisp \<Rightarrow> 'v splx_value \<Rightarrow> 'v" where
  "serialize L (Splx_entry x) = serialize_entry L x"
| "serialize L (Splx_delegation x) = serialize_delegation L x"
| "serialize L (Splx_capability x) = serialize_capability L x"
| "serialize L (Splx_effect x) = serialize_effect L x"
| "serialize L (Splx_delta x) = serialize_delta L x"
| "serialize L (Splx_transfer x) = serialize_transfer L x"
| "serialize L (Splx_send x) = serialize_send L x"
| "serialize L (Splx_log_entry x) = serialize_log_entry L x"
| "serialize L (Splx_log x) = serialize_log L x"

section \<open>What \<open>lexpr\<close> reads of a printed value\<close>

definition i64 :: "int \<Rightarrow> bool" where
  "i64 i \<longleftrightarrow> - (2 ^ 63) \<le> i \<and> i < 2 ^ 63"

definition atom_laws :: "'v sexp \<Rightarrow> 'v \<Rightarrow> bool" where
  "atom_laws X v \<longleftrightarrow> as_keyword X v = None \<and> \<not> is_nil X v \<and> \<not> is_null X v"

definition wire_laws :: "'v sexp \<Rightarrow> 'v lisp \<Rightarrow> bool" where
  "wire_laws X L \<longleftrightarrow>
     (\<forall>s. atom_laws X (mk_sym L s) \<and> as_symbol X (mk_sym L s) = Some s \<and> as_str X (mk_sym L s) = None \<and>
          \<not> is_string X (mk_sym L s) \<and> as_i64 X (mk_sym L s) = None \<and> list_iter X (mk_sym L s) = None) \<and>
     (\<forall>s. atom_laws X (mk_str L s) \<and> as_symbol X (mk_str L s) = None \<and> as_str X (mk_str L s) = Some s \<and>
          is_string X (mk_str L s)) \<and>
     (\<forall>i. i64 i \<longrightarrow> atom_laws X (mk_int L i) \<and> as_symbol X (mk_int L i) = None \<and>
          as_i64 X (mk_int L i) = Some i) \<and>
     (\<forall>vs. vs \<noteq> [] \<longrightarrow> atom_laws X (mk_list L vs) \<and> as_symbol X (mk_list L vs) = None \<and>
          as_i64 X (mk_list L vs) = None \<and> list_iter X (mk_list L vs) = Some vs)"

lemma wire_symbol:
  assumes "wire_laws X L"
  shows "as_symbol X (mk_sym L s) = Some s" "as_keyword X (mk_sym L s) = None"
    "as_str X (mk_sym L s) = None" "\<not> is_string X (mk_sym L s)" "as_i64 X (mk_sym L s) = None"
    "list_iter X (mk_sym L s) = None" "\<not> is_nil X (mk_sym L s)" "\<not> is_null X (mk_sym L s)"
  using assms by (simp_all add: wire_laws_def atom_laws_def)

lemma wire_string:
  assumes "wire_laws X L"
  shows "as_str X (mk_str L s) = Some s" "is_string X (mk_str L s)" "as_symbol X (mk_str L s) = None"
    "\<not> is_lisp_nil X (mk_str L s)"
  using assms by (simp_all add: wire_laws_def atom_laws_def is_lisp_nil_def)

lemma wire_int:
  assumes "wire_laws X L" "i64 i"
  shows "as_i64 X (mk_int L i) = Some i" "as_kw X (mk_int L i) = None" "\<not> is_lisp_nil X (mk_int L i)"
  using assms by (simp_all add: wire_laws_def atom_laws_def is_lisp_nil_def as_kw_def)

lemma wire_list:
  assumes "wire_laws X L" "vs \<noteq> []"
  shows "list_iter X (mk_list L vs) = Some vs" "as_kw X (mk_list L vs) = None"
    "as_symbol X (mk_list L vs) = None" "as_i64 X (mk_list L vs) = None" "\<not> is_lisp_nil X (mk_list L vs)"
  using assms by (simp_all add: wire_laws_def atom_laws_def is_lisp_nil_def as_kw_def)

lemma wire_keyword:
  assumes "wire_laws X L"
  shows "as_kw X (lisp_keyword L k) = Some (print_case L k)"
  using wire_symbol [OF assms] by (simp add: as_kw_def lisp_keyword_def strip_prefix_def)

lemma plist_length: "length (plist L kvs) = 2 * length kvs"
  by (induction L kvs rule: plist.induct) simp_all

lemma chunks2_plist: "chunks2 (plist L kvs) = map (\<lambda>(k, v). (lisp_keyword L k, v)) kvs"
  by (induction L kvs rule: plist.induct) simp_all

lemma collect_keys:
  assumes "wire_laws X L"
  shows "collect_results (\<lambda>(k, w). attempt (ok_or (as_kw X k) (e k)) (\<lambda>key. Inr (key, w)))
           (map (\<lambda>(k, v). (lisp_keyword L k, v)) kvs)
         = Inr (map (\<lambda>(k, v). (print_case L k, v)) kvs)"
  by (induction kvs) (auto simp: wire_keyword [OF assms])

text \<open>A printed form reads back as its tag and its fields, whatever the case of the printer.\<close>

lemma parse_tagged_form:
  assumes "wire_laws X L"
  shows "parse_tagged X (form L tag kvs)
         = Inr \<lparr>tl_tag = print_case L tag, tl_pairs = map (\<lambda>(k, v). (print_case L k, v)) kvs\<rparr>"
  by (simp add: parse_tagged_def form_def wire_list [OF assms] wire_keyword [OF assms]
      plist_length chunks2_plist collect_keys [OF assms])

section \<open>Reading back what was printed\<close>

text \<open>
  The objects that can be printed without loss: integers of 64 bits, symbols that are not \<open>nil\<close> and
  not keywords, no empty list where the format cannot tell it from an absent field.
\<close>

definition plain_symbol :: "string \<Rightarrow> bool" where
  "plain_symbol s \<longleftrightarrow> s \<noteq> ''nil'' \<and> strip_prefix '':'' s = None"

fun condition_ok :: "condition_value \<Rightarrow> bool" where
  "condition_ok (Cond_int i) = i64 i"
| "condition_ok (Cond_symbol s) = plain_symbol s"
| "condition_ok (Cond_symbols ss) = (ss \<noteq> [] \<and> list_all plain_symbol ss)"
| "condition_ok Cond_nil = True"

definition conditions_ok :: "condition_set option \<Rightarrow> bool" where
  "conditions_ok x \<longleftrightarrow> (case x of None \<Rightarrow> True | Some cs \<Rightarrow> cs \<noteq> [] \<and> list_all (\<lambda>(k, c). condition_ok c) cs)"

fun ref_ok :: "any_or_int \<Rightarrow> bool" where
  "ref_ok Any_ref = True"
| "ref_ok (Id_ref i) = i64 i"

fun resource_ok :: "resource \<Rightarrow> bool" where
  "resource_ok (Net h lo hi pre) = (i64 lo \<and> i64 hi)"
| "resource_ok (Pid r) = ref_ok r"
| "resource_ok (Ipc_fd r) = ref_ok r"
| "resource_ok (Http u ms) = (ms \<noteq> Some [])"
| "resource_ok _ = True"

definition entry_ok :: "authority_entry \<Rightarrow> bool" where
  "entry_ok e \<longleftrightarrow> resource_ok (en_resource e) \<and> conditions_ok (en_conditions e)"

fun action_ok :: "cap_action \<Rightarrow> bool" where
  "action_ok (Act_other k) = (k \<noteq> ''delegate'' \<and> k \<noteq> ''invoke'')"
| "action_ok _ = True"

definition opaque_ok :: "'v sexp \<Rightarrow> 'v option \<Rightarrow> bool" where
  "opaque_ok X x \<longleftrightarrow> (case x of None \<Rightarrow> True | Some v \<Rightarrow> \<not> is_lisp_nil X v)"

definition delta_ok :: "'v sexp \<Rightarrow> 'v ir_delta \<Rightarrow> bool" where
  "delta_ok X d \<longleftrightarrow>
     opaque_ok X (ef_payload (dl_effect d)) \<and> entry_ok (dl_authority d) \<and>
     i64 (dl_epoch d) \<and> i64 (dl_sequence d) \<and> i64 (dl_timestamp d)"

definition transfer_ok :: "ir_transfer \<Rightarrow> bool" where
  "transfer_ok t \<longleftrightarrow> list_all entry_ok (tx_authority t) \<and> i64 (tx_sequence t) \<and> i64 (tx_timestamp t)"

definition send_ok :: "ir_send \<Rightarrow> bool" where
  "send_ok s \<longleftrightarrow> i64 (sn_sequence s) \<and> i64 (sn_timestamp s)"

fun payload_ok :: "'v sexp \<Rightarrow> string \<Rightarrow> 'v log_payload \<Rightarrow> bool" where
  "payload_ok X k (Commit d) = (k = ''commit'' \<and> delta_ok X d)"
| "payload_ok X k (Transfer t) = (k = ''transfer'' \<and> transfer_ok t)"
| "payload_ok X k (Send s) = (k = ''send'' \<and> send_ok s)"

definition log_entry_ok :: "'v sexp \<Rightarrow> 'v saga_log_entry \<Rightarrow> bool" where
  "log_entry_ok X e \<longleftrightarrow>
     payload_ok X (le_kind e) (le_payload e) \<and> i64 (le_sequence e) \<and> i64 (le_timestamp e)"

fun printable :: "'v sexp \<Rightarrow> 'v splx_value \<Rightarrow> bool" where
  "printable X (Splx_entry e) = entry_ok e"
| "printable X (Splx_delegation d) = list_all entry_ok (dg_authority d)"
| "printable X (Splx_capability c) =
     (action_ok (cp_action c) \<and> list_all entry_ok (cp_authority c) \<and> conditions_ok (cp_conditions c) \<and>
      opaque_ok X (cp_metadata c))"
| "printable X (Splx_effect e) = opaque_ok X (ef_payload e)"
| "printable X (Splx_delta d) = delta_ok X d"
| "printable X (Splx_transfer t) = transfer_ok t"
| "printable X (Splx_send s) = send_ok s"
| "printable X (Splx_log_entry e) = log_entry_ok X e"
| "printable X (Splx_log l) = list_all (log_entry_ok X) (sl_entries l)"

text \<open>A printer that keeps the case of the source.\<close>

definition faithful_wire :: "'v sexp \<Rightarrow> 'v lisp \<Rightarrow> bool" where
  "faithful_wire X L \<longleftrightarrow> wire_laws X L \<and> (\<forall>s. print_case L s = s)"

lemma faithful_laws: "faithful_wire X L \<Longrightarrow> wire_laws X L"
  by (simp add: faithful_wire_def)

lemma faithful_case: "faithful_wire X L \<Longrightarrow> print_case L s = s"
  by (simp add: faithful_wire_def)

lemma parse_form:
  "faithful_wire X L \<Longrightarrow> parse_tagged X (form L tag kvs) = Inr \<lparr>tl_tag = tag, tl_pairs = kvs\<rparr>"
  by (simp add: parse_tagged_form faithful_laws faithful_case)

lemma tagged_form:
  "faithful_wire X L \<Longrightarrow> tagged X tag (form L tag kvs) f = f \<lparr>tl_tag = tag, tl_pairs = kvs\<rparr>"
  by (simp add: tagged_def parse_form expect_tag_def)

lemma form_present: "faithful_wire X L \<Longrightarrow> \<not> is_lisp_nil X (form L tag kvs)"
  by (simp add: form_def wire_list [OF faithful_laws])

lemma read_symbol: "faithful_wire X L \<Longrightarrow> as_symbol X (lisp_symbol L s) = Some s"
  by (simp add: lisp_symbol_def faithful_case wire_symbol [OF faithful_laws])

lemma nil_absent: "faithful_wire X L \<Longrightarrow> is_lisp_nil X (lisp_nil L)"
  by (simp add: is_lisp_nil_def lisp_nil_def read_symbol)

lemma nil_not_string: "faithful_wire X L \<Longrightarrow> \<not> is_string X (lisp_nil L)"
  by (simp add: lisp_nil_def lisp_symbol_def wire_symbol [OF faithful_laws])

lemma keyword_read: "faithful_wire X L \<Longrightarrow> as_kw X (lisp_keyword L k) = Some k"
  by (simp add: wire_keyword [OF faithful_laws] faithful_case)

lemma symbol_present:
  assumes "faithful_wire X L" "plain_symbol s"
  shows "\<not> is_lisp_nil X (lisp_symbol L s)"
  using assms wire_symbol [OF faithful_laws [OF assms(1)]]
  by (simp add: is_lisp_nil_def lisp_symbol_def faithful_case plain_symbol_def)

lemma symbol_atom: "faithful_wire X L \<Longrightarrow> as_i64 X (lisp_symbol L s) = None"
  by (simp add: lisp_symbol_def wire_symbol [OF faithful_laws])

lemma symbol_text_symbol:
  assumes "faithful_wire X L" "plain_symbol s"
  shows "symbol_text X (lisp_symbol L s) = Some s"
  using assms wire_symbol [OF faithful_laws [OF assms(1)]]
  by (simp add: symbol_text_def as_kw_def lisp_symbol_def faithful_case plain_symbol_def)

lemma list_nil: "faithful_wire X L \<Longrightarrow> is_lisp_nil X (lisp_list L vs) \<longleftrightarrow> vs = []"
  by (simp add: lisp_list_def nil_absent wire_list [OF faithful_laws])

lemma list_items: "faithful_wire X L \<Longrightarrow> vs \<noteq> [] \<Longrightarrow> list_iter X (lisp_list L vs) = Some vs"
  by (simp add: lisp_list_def wire_list [OF faithful_laws])

lemma list_atom:
  assumes "faithful_wire X L" "vs \<noteq> []"
  shows "as_i64 X (lisp_list L vs) = None" "symbol_text X (lisp_list L vs) = None"
  using assms by (simp_all add: lisp_list_def symbol_text_def wire_list [OF faithful_laws])

lemmas atoms = wire_string [OF faithful_laws] wire_int [OF faithful_laws] keyword_read nil_absent
  nil_not_string form_present list_nil list_items

lemma keyword_list_ops:
  assumes "faithful_wire X L"
  shows "keyword_list X (serialize_ops L ops) key = Inr ops"
proof -
  have "collect_results (\<lambda>item. ok_or (as_kw X item) (e item)) (map (lisp_keyword L) ops) = Inr ops" for e
    by (rule collect_results_map) (simp add: keyword_read assms)
  then show ?thesis
    by (simp add: keyword_list_def serialize_ops_def atoms assms)
qed

lemma condition_read:
  assumes "faithful_wire X L"
  shows "condition_ok c \<Longrightarrow> condition_value_from_value X (serialize_condition L c) = Inr c"
proof (cases c)
  case (Cond_symbols ss)
  moreover assume ok: "condition_ok c"
  moreover have "collect_results (\<lambda>item. ok_or (symbol_text X item) (e item)) (map (lisp_symbol L) ss) = Inr ss"
    for e
    by (rule collect_results_map)
      (use ok Cond_symbols in \<open>auto simp: symbol_text_symbol [OF assms] list_all_iff\<close>)
  ultimately show ?thesis
    by (simp add: condition_value_from_value_def atoms list_atom assms)
qed (simp_all add: condition_value_from_value_def atoms symbol_present symbol_atom symbol_text_symbol assms)

lemma conditions_read:
  assumes W: "faithful_wire X L" and "conditions_ok (Some cs)"
  shows "condition_set_from_plist X (serialize_conditions L cs) = Inr cs"
proof -
  let ?kvs = "map (\<lambda>(k, c). (k, serialize_condition L c)) cs"
  have ne: "plist L ?kvs \<noteq> []" using assms(2) by (cases cs) (auto simp: conditions_ok_def)
  have ok: "list_all (\<lambda>(k, c). condition_ok c) cs" using assms(2) by (simp add: conditions_ok_def)
  have "collect_results (\<lambda>(k, w). attempt (ok_or (as_kw X k) (e k))
      (\<lambda>key. attempt (condition_value_from_value X w) (\<lambda>c. Inr (key, c))))
      (map (\<lambda>(k, c). (lisp_keyword L k, serialize_condition L c)) cs) = Inr cs" for e
    by (rule collect_results_map) (use ok in \<open>auto simp: atoms W condition_read list_all_iff\<close>)
  moreover have "chunks2 (plist L ?kvs) = map (\<lambda>(k, c). (lisp_keyword L k, serialize_condition L c)) cs"
    by (simp add: chunks2_plist split_def)
  ultimately show ?thesis
    using ne by (simp add: condition_set_from_plist_def serialize_conditions_def atoms W plist_length)
qed

lemma conditions_present:
  "faithful_wire X L \<Longrightarrow> conditions_ok (Some cs) \<Longrightarrow> \<not> is_lisp_nil X (serialize_conditions L cs)"
  by (cases cs) (auto simp: serialize_conditions_def atoms conditions_ok_def)

section \<open>Each form reads back\<close>

lemma present_when:
  assumes "faithful_wire X L" "tl_get l key = Some (lisp_when L f x)" "\<And>y. x = Some y \<Longrightarrow> \<not> is_lisp_nil X (f y)"
  shows "present X l key = map_option f x"
  using assms by (cases x) (auto simp: present_def lisp_when_def atoms)

lemmas fields = tagged_form tl_get_def tl_require_def text_field_def i64_field_def kw_field_def
  require_str_def require_i64_def present_def lisp_when_def when_present_def

lemma ref_read: "faithful_wire X L \<Longrightarrow> ref_ok r \<Longrightarrow> any_or_int_from_value X (serialize_ref L r) = Inr r"
  by (cases r) (simp_all add: any_or_int_from_value_def atoms)

lemma resource_read:
  assumes "faithful_wire X L"
  shows "resource_ok r \<Longrightarrow> resource_from_value X (serialize_resource L r) = Inr r"
proof (cases r)
  case (Http u ms)
  moreover assume "resource_ok r"
  moreover have "\<not> is_lisp_nil X (serialize_ops L ops)" if "ops \<noteq> []" for ops
    using that by (simp add: serialize_ops_def atoms assms)
  ultimately show ?thesis
    by (cases ms) (auto simp: resource_from_value_def parse_form [OF assms] fields atoms assms
        op_set_from_value_def keyword_list_ops)
qed (simp_all add: resource_from_value_def net_from_list_def or_default_def parse_form [OF assms]
    fields atoms assms ref_read)

lemma entry_read:
  assumes "faithful_wire X L" "entry_ok e"
  shows "entry_from_value X (serialize_entry L e) = Inr e"
  using assms conditions_present [OF assms(1)] conditions_read [OF assms(1)]
  by (cases "en_conditions e")
    (auto simp: entry_from_value_def serialize_entry_def conditions_field_def fields atoms entry_ok_def
      resource_read op_set_from_value_def keyword_list_ops)

lemma entries_read:
  assumes "faithful_wire X L" "list_all entry_ok es"
  shows "parse_entry_list X (serialize_entries L es) = Inr es"
    and "collect_results (entry_from_value X) (map (serialize_entry L) es) = Inr es"
proof -
  show items: "collect_results (entry_from_value X) (map (serialize_entry L) es) = Inr es"
    by (rule collect_results_map) (use assms in \<open>auto simp: entry_read list_all_iff\<close>)
  then show "parse_entry_list X (serialize_entries L es) = Inr es"
    by (simp add: parse_entry_list_def serialize_entries_def atoms assms)
qed

lemma list_field_read:
  assumes "faithful_wire X L" "tl_get l key = Some (lisp_list L (map g xs))"
    and "\<And>x. x \<in> set xs \<Longrightarrow> f (g x) = Inr x"
  shows "list_field X l key f = Inr xs"
  using assms by (cases xs) (simp_all add: list_field_def tl_require_def atoms collect_results_map)

lemma delegation_read:
  assumes "faithful_wire X L" "list_all entry_ok (dg_authority d)"
  shows "delegation_from_value X (serialize_delegation L d) = Inr d"
  using assms
  by (simp add: delegation_from_value_def serialize_delegation_def entries_field_def fields atoms entries_read)

lemma opaque_present: "opaque_ok X (Some v) \<Longrightarrow> \<not> is_lisp_nil X v"
  by (simp add: opaque_ok_def)

lemma action_read:
  "faithful_wire X L \<Longrightarrow> action_ok a \<Longrightarrow>
   cap_action_from_value X (lisp_keyword L (action_name a)) = Inr a"
  by (cases a) (simp_all add: cap_action_from_value_def atoms)

lemma opaque_field:
  assumes "faithful_wire X L" "tl_get l key = Some (lisp_when L (\<lambda>v. v) x)" "opaque_ok X x"
  shows "present X l key = x"
  using present_when [OF assms(1,2)] assms(3) by (cases x) (auto simp: opaque_ok_def)

lemma conditions_field_read:
  assumes "faithful_wire X L" "conditions_ok cs"
    and "tl_get l ''conditions'' = Some (lisp_when L (serialize_conditions L) cs)"
  shows "conditions_field X l = Inr cs"
  using assms present_when [OF assms(1,3)] conditions_present [OF assms(1)] conditions_read [OF assms(1)]
  by (cases cs) (auto simp: conditions_field_def when_present_def)

lemma optional_string:
  assumes "faithful_wire X L" "tl_get l key = Some (lisp_when L (mk_str L) x)"
  shows "when_present (present X l key) (\<lambda>d. require_str X d k) = Inr x"
  using present_when [OF assms] assms(1)
  by (cases x) (auto simp: when_present_def require_str_def atoms)

lemma capability_read:
  assumes "faithful_wire X L" "action_ok (cp_action c)" "list_all entry_ok (cp_authority c)"
    "conditions_ok (cp_conditions c)" "opaque_ok X (cp_metadata c)"
  shows "capability_from_value X (serialize_capability L c) = Inr c"
proof -
  let ?kvs = "[(''action'', lisp_keyword L (action_name (cp_action c))),
        (''subject'', mk_str L (cp_subject c)),
        (''authority'', serialize_entries L (cp_authority c)),
        (''derived-from'', lisp_when L (mk_str L) (cp_derived_from c)),
        (''conditions'', lisp_when L (serialize_conditions L) (cp_conditions c)),
        (''metadata'', lisp_when L (\<lambda>v. v) (cp_metadata c))]"
  let ?l = "\<lparr>tl_tag = ''capability'', tl_pairs = ?kvs\<rparr>"
  have "conditions_field X ?l = Inr (cp_conditions c)"
    by (rule conditions_field_read) (use assms in \<open>simp_all add: tl_get_def\<close>)
  moreover have "when_present (present X ?l ''derived-from'') (\<lambda>d. require_str X d ''derived-from'')
      = Inr (cp_derived_from c)"
    by (rule optional_string) (use assms in \<open>simp_all add: tl_get_def\<close>)
  moreover have "present X ?l ''metadata'' = cp_metadata c"
    by (rule opaque_field) (use assms in \<open>simp_all add: tl_get_def\<close>)
  ultimately show ?thesis
    using assms
    by (simp add: capability_from_value_def serialize_capability_def tagged_form entries_field_def
        tl_get_def tl_require_def text_field_def require_str_def atoms action_read entries_read)
qed

lemma effect_read:
  assumes "faithful_wire X L" "opaque_ok X (ef_payload e)"
  shows "effect_from_value X (serialize_effect L e) = Inr e"
  using assms by (cases "ef_payload e")
    (auto simp: effect_from_value_def serialize_effect_def fields atoms opaque_ok_def)

lemma delta_read:
  assumes "faithful_wire X L" "delta_ok X d"
  shows "delta_from_value X (serialize_delta L d) = Inr d"
  using assms by (cases "dl_saga_id d")
    (auto simp: delta_from_value_def serialize_delta_def saga_id_field_def fields atoms delta_ok_def
      effect_read entry_read)

lemma transfer_read:
  assumes "faithful_wire X L" "transfer_ok t"
  shows "transfer_from_value X (serialize_transfer L t) = Inr t"
proof -
  have "list_field X \<lparr>tl_tag = ''transfer-receipt'', tl_pairs =
       [(''saga-id'', mk_str L (tx_saga_id t)), (''sequence'', mk_int L (tx_sequence t)),
        (''grantor'', mk_str L (tx_grantor t)), (''recipient'', mk_str L (tx_recipient t)),
        (''authority'', serialize_entries L (tx_authority t)), (''timestamp'', mk_int L (tx_timestamp t))]\<rparr>
      ''authority'' (entry_from_value X) = Inr (tx_authority t)"
    by (rule list_field_read [where g = "serialize_entry L"])
      (use assms in \<open>auto simp: tl_get_def serialize_entries_def transfer_ok_def entry_read list_all_iff\<close>)
  then show ?thesis
    using assms by (simp add: transfer_from_value_def serialize_transfer_def fields atoms transfer_ok_def)
qed

lemma send_read:
  assumes "faithful_wire X L" "send_ok s"
  shows "send_from_value X (serialize_send L s) = Inr s"
  using assms by (simp add: send_from_value_def serialize_send_def fields atoms send_ok_def)

lemma log_entry_read:
  assumes "faithful_wire X L" "log_entry_ok X e"
  shows "log_entry_from_value X (serialize_log_entry L e) = Inr e"
  using assms by (cases "le_payload e")
    (auto simp: log_entry_from_value_def serialize_log_entry_def payload_from_value_def fields atoms
      log_entry_ok_def delta_read transfer_read send_read)

lemma log_read:
  assumes "faithful_wire X L" "list_all (log_entry_ok X) (sl_entries l)"
  shows "saga_log_from_value X (serialize_log L l) = Inr l"
proof -
  have "list_field X \<lparr>tl_tag = ''saga-log'', tl_pairs =
       [(''saga-id'', mk_str L (sl_saga_id l)),
        (''entries'', lisp_list L (map (serialize_log_entry L) (sl_entries l)))]\<rparr>
      ''entries'' (log_entry_from_value X) = Inr (sl_entries l)"
    by (rule list_field_read [where g = "serialize_log_entry L"])
      (use assms in \<open>auto simp: tl_get_def log_entry_read list_all_iff\<close>)
  then show ?thesis
    using assms by (simp add: saga_log_from_value_def serialize_log_def fields atoms)
qed

lemmas forms_read = entry_read delegation_read capability_read effect_read delta_read transfer_read
  send_read log_entry_read log_read

fun wire_tag :: "'v splx_value \<Rightarrow> string" where
  "wire_tag (Splx_entry _) = ''entry''"
| "wire_tag (Splx_delegation _) = ''delegation''"
| "wire_tag (Splx_capability _) = ''capability''"
| "wire_tag (Splx_effect _) = ''effect''"
| "wire_tag (Splx_delta _) = ''delta''"
| "wire_tag (Splx_transfer _) = ''transfer-receipt''"
| "wire_tag (Splx_send _) = ''send-receipt''"
| "wire_tag (Splx_log_entry _) = ''saga-log-entry''"
| "wire_tag (Splx_log _) = ''saga-log''"

lemma serialize_form: "\<exists>kvs. serialize L x = form L (wire_tag x) kvs"
  by (cases x) (auto simp: serialize_entry_def serialize_delegation_def serialize_capability_def
      serialize_effect_def serialize_delta_def serialize_transfer_def serialize_send_def
      serialize_log_entry_def serialize_log_def)

lemma serialize_tag:
  assumes "wire_laws X L"
  shows "\<exists>ps. parse_tagged X (serialize L x) = Inr \<lparr>tl_tag = print_case L (wire_tag x), tl_pairs = ps\<rparr>"
  using serialize_form [of L x] parse_tagged_form [OF assms] by auto

section \<open>The printer's default case\<close>

definition upcase_char :: "char \<Rightarrow> char" where
  "upcase_char c = (if 97 \<le> (of_char c :: nat) \<and> (of_char c :: nat) \<le> 122 then char_of ((of_char c :: nat) - 32) else c)"

definition upcase :: "string \<Rightarrow> string" where
  "upcase s = map upcase_char s"

lemma upcase_tags:
  "upcase ''entry'' = ''ENTRY''"
  "upcase ''delegation'' = ''DELEGATION''"
  "upcase ''capability'' = ''CAPABILITY''"
  "upcase ''effect'' = ''EFFECT''"
  "upcase ''delta'' = ''DELTA''"
  "upcase ''transfer-receipt'' = ''TRANSFER-RECEIPT''"
  "upcase ''send-receipt'' = ''SEND-RECEIPT''"
  "upcase ''saga-log-entry'' = ''SAGA-LOG-ENTRY''"
  "upcase ''saga-log'' = ''SAGA-LOG''"
  by code_simp+

lemma upcase_wire_tag: "upcase (wire_tag x) \<in>
   {''ENTRY'', ''DELEGATION'', ''CAPABILITY'', ''EFFECT'', ''DELTA'', ''TRANSFER-RECEIPT'',
    ''SEND-RECEIPT'', ''SAGA-LOG-ENTRY'', ''SAGA-LOG''}"
  by (cases x) (simp_all add: upcase_tags)

end
