(* ===== verification/Splx_Properties.thy ===== *)
theory Splx_Properties
  imports Splx_Wire
begin

text \<open>
  The wire format between the authority language (\<open>sp-dsl\<close>) and its reader (\<open>crates/splx-ir\<close>).
\<close>

section \<open>A concrete \<open>lexpr\<close>\<close>

text \<open>Values on which the hypotheses about the two libraries hold, for the witnesses.\<close>

datatype sample_sexp =
    Sample_sym string | Sample_str string | Sample_int int | Sample_list "sample_sexp list"

definition sample_lexpr :: "sample_sexp sexp" where
  "sample_lexpr =
     \<lparr>as_keyword = (\<lambda>_. None),
      as_symbol = (\<lambda>v. case v of Sample_sym s \<Rightarrow> Some s | _ \<Rightarrow> None),
      as_str = (\<lambda>v. case v of Sample_str s \<Rightarrow> Some s | _ \<Rightarrow> None),
      as_i64 = (\<lambda>v. case v of Sample_int i \<Rightarrow> if i64 i then Some i else None | _ \<Rightarrow> None),
      is_string = (\<lambda>v. case v of Sample_str s \<Rightarrow> True | _ \<Rightarrow> False),
      is_nil = (\<lambda>_. False),
      is_null = (\<lambda>v. v = Sample_list []),
      list_iter = (\<lambda>v. case v of Sample_list vs \<Rightarrow> Some vs | _ \<Rightarrow> None),
      display = (\<lambda>_. ''...''),
      lexpr_from_str = (\<lambda>s. if s = ''nil'' then Inr (Sample_sym s) else Inl ''not read'')\<rparr>"

definition sample_printer :: "(string \<Rightarrow> string) \<Rightarrow> sample_sexp lisp" where
  "sample_printer c =
     \<lparr>print_case = c, mk_sym = Sample_sym, mk_str = Sample_str, mk_int = Sample_int, mk_list = Sample_list\<rparr>"

lemma sample_wire: "wire_laws sample_lexpr (sample_printer c)"
  by (simp add: wire_laws_def atom_laws_def sample_lexpr_def sample_printer_def)

lemma sample_faithful: "faithful_wire sample_lexpr (sample_printer (\<lambda>s. s))"
  by (simp add: faithful_wire_def sample_wire) (simp add: sample_printer_def)

definition sample_entry :: authority_entry where
  "sample_entry =
     \<lparr>en_resource = Net ''db.internal'' 5432 5432 ''/'', en_ops = [''connect''],
      en_conditions = Some [(''ttl'', Cond_int 900), (''quorum'', Cond_symbols [''guardian'', ''owner''])]\<rparr>"

definition sample_log :: "sample_sexp saga_log" where
  "sample_log =
     \<lparr>sl_saga_id = ''s-1'', sl_entries =
        [\<lparr>le_kind = ''commit'', le_sequence = 0, le_payload = Commit
            \<lparr>dl_effect = \<lparr>ef_kind = ''write'', ef_resource_spec = Sample_str ''/data/x'', ef_payload = None\<rparr>,
             dl_authority = sample_entry, dl_epoch = 3, dl_saga_id = Some ''s-1'', dl_sequence = 0,
             dl_before = Sample_sym '':unknown'', dl_after = Sample_int 7, dl_timestamp = 100\<rparr>,
          le_timestamp = 100\<rparr>,
         \<lparr>le_kind = ''transfer'', le_sequence = 1, le_payload = Transfer
            \<lparr>tx_saga_id = ''s-1'', tx_sequence = 1, tx_grantor = ''a'', tx_recipient = ''b'',
             tx_authority = [sample_entry], tx_timestamp = 101\<rparr>, le_timestamp = 101\<rparr>]\<rparr>"

lemma sample_log_printable: "printable sample_lexpr (Splx_log sample_log)"
  by code_simp

section \<open>Properties\<close>

text \<open>
  C33 (what the serializer prints is read back): for a printer that keeps the case of the source and
  under the documented behaviour of \<open>lexpr\<close>, the reader returns every printable object, of each of
  the nine wire types and to any depth of nesting, exactly as it was.
\<close>

theorem reader_inverts_serializer:
  assumes "faithful_wire X L" "printable X x"
  shows "splx_from_value X (serialize L x) = Inr x"
proof -
  obtain ps where "parse_tagged X (serialize L x) = Inr \<lparr>tl_tag = wire_tag x, tl_pairs = ps\<rparr>"
    using serialize_tag [OF faithful_laws [OF assms(1)], of x] by (auto simp: faithful_case [OF assms(1)])
  then show ?thesis
    using assms by (cases x) (simp_all add: splx_from_value_def forms_read)
qed

theorem reader_inverts_serializer_witness:
  "splx_from_value sample_lexpr (serialize (sample_printer (\<lambda>s. s)) (Splx_log sample_log))
   = Inr (Splx_log sample_log)"
  by (rule reader_inverts_serializer [OF sample_faithful sample_log_printable])

text \<open>
  A printer in its default state is not understood: Common Lisp prints the names of symbols in
  upper case unless told otherwise, and \<open>serialize-to-string\<close> does not tell it. Whatever it then
  prints, the reader refuses with the upper-case tag, since it compares tags with lower-case literals.
\<close>

theorem default_printer_rejected:
  assumes "wire_laws X L" "print_case L = upcase"
  shows "splx_from_value X (serialize L x) = Inl (Wrong_tag known_wire_tag (upcase (wire_tag x)))"
proof -
  obtain ps where "parse_tagged X (serialize L x) = Inr \<lparr>tl_tag = upcase (wire_tag x), tl_pairs = ps\<rparr>"
    using serialize_tag [OF assms(1), of x] by (auto simp: assms(2))
  then show ?thesis
    using upcase_wire_tag [of x] by (auto simp: splx_from_value_def)
qed

theorem default_printer_rejected_witness:
  "splx_from_value sample_lexpr (serialize (sample_printer upcase) (Splx_log sample_log))
   = Inl (Wrong_tag known_wire_tag ''SAGA-LOG'')"
  using default_printer_rejected [OF sample_wire, of upcase "Splx_log sample_log"]
  by (simp add: sample_printer_def upcase_tags)

end
