(* ===== verification/Import_Properties.thy ===== *)
theory Import_Properties
  imports Authority_Import Splx_Properties Broker_Sample
begin

text \<open>
  What an import grants (\<open>crates/db/src/authority_import.rs\<close>, \<open>server/src/routes/authority_import.rs\<close>).
\<close>

section \<open>Permission strings\<close>

definition grants :: "authority_entry list \<Rightarrow> string set" where
  "grants es =
     (\<Union>e \<in> set es.
        (\<lambda>op. provider (en_resource e) @ '':'' @ resource_repr (en_resource e) @ '':'' @ op) ` set (en_ops e))"

lemma set_permissions: "set (authority_to_permissions es) = grants es"
  by (auto simp: authority_to_permissions_def grants_def entry_to_permissions_def Let_def)

lemma distinct_remdups_adj: "sorted xs \<Longrightarrow> distinct (remdups_adj xs)"
  by (induction xs rule: remdups_adj.induct) (auto simp: order.order_iff_strict)

lemma permissions_canonical:
  "sorted (authority_to_permissions es)" "distinct (authority_to_permissions es)"
  by (simp_all add: authority_to_permissions_def sorted_remdups_adj distinct_remdups_adj)

text \<open>
  C32 (permission lists are canonical): two definitions yield the same list of permissions exactly when
  they grant the same set of permissions, whatever the order and the repetitions of their entries; and
  the list grants what the entries do.
\<close>

theorem permissions_faithful:
  "(authority_to_permissions es = authority_to_permissions es' \<longleftrightarrow> grants es = grants es') \<and>
   set (authority_to_permissions es) = grants es"
proof -
  have "authority_to_permissions es = authority_to_permissions es'" if "grants es = grants es'"
    by (rule sorted_distinct_set_unique) (simp_all add: permissions_canonical set_permissions that)
  then show ?thesis
    using set_permissions [of es] set_permissions [of es'] by auto
qed

lemma provider_not_mcp: "\<not> starts_with ''mcp.'' (provider r @ s)"
  by (cases r) (simp_all add: starts_with_def)

lemma no_method_granted: "method_address slug name \<notin> grants es"
proof
  assume "method_address slug name \<in> grants es"
  then obtain e :: authority_entry and op where "method_address slug name
      = provider (en_resource e) @ '':'' @ resource_repr (en_resource e) @ '':'' @ op"
    unfolding grants_def by blast
  then have "starts_with ''mcp.'' (provider (en_resource e) @ '':'' @ resource_repr (en_resource e) @ '':'' @ op)"
    by (metis method_address_def starts_with_append)
  then show False by (simp add: provider_not_mcp)
qed

text \<open>
  Imported authority over tools is all or nothing: a permission list made from a definition
  permits a registered method only when it is empty, and then it permits every method. So a definition
  that grants anything, however wide, invokes no tool, and one that grants nothing invokes them all.
\<close>

theorem import_all_or_nothing:
  "permitted (authority_to_permissions es) (method_address slug name) \<longleftrightarrow> grants es = {}"
  using no_method_granted [of slug name es] set_permissions [of es]
  by (auto simp: permitted_def)

text \<open>The conditions of an entry and the methods of an HTTP resource leave no trace.\<close>

lemma conditions_dropped:
  "entry_to_permissions (e\<lparr>en_conditions := c\<rparr>) = entry_to_permissions e"
  "entry_to_permissions (e\<lparr>en_resource := Http url ms\<rparr>) = entry_to_permissions (e\<lparr>en_resource := Http url ms'\<rparr>)"
  by (simp_all add: entry_to_permissions_def)

text \<open>A host and a path prefix run together when the port range is the default one.\<close>

lemma permissions_collide:
  "entry_to_permissions \<lparr>en_resource = Net ''db'' 0 65535 ''.internal/'', en_ops = ops, en_conditions = None\<rparr>
   = entry_to_permissions \<lparr>en_resource = Net ''db.internal'' 0 65535 ''/'', en_ops = ops, en_conditions = None\<rparr>"
  by (simp add: entry_to_permissions_def)

section \<open>The route\<close>

lemma attempt_okE:
  assumes "db_attempt m k X d = (Inr y, e)"
  obtains r d1 where "m X d = (r, d1)" "k r X d1 = (Inr y, e)"
  using assms by (auto simp: db_attempt_def split: prod.splits)

lemma internal_ok: "internal f e X d = (Inr y, d') \<Longrightarrow> y = f (Internal e) \<and> d' = d"
  by (auto simp: internal_def db_fail_def db_return_def split: if_splits)

definition same_tokens_after :: "('j, 'a) db_op \<Rightarrow> bool" where
  "same_tokens_after m \<longleftrightarrow> (\<forall>X d. tokens (snd (m X d)) = tokens d)"

lemma same_tokens_queries:
  "same_tokens_after (alloc_seq sid)" "same_tokens_after (append_event sid sq)"
  "same_tokens_after (current_seq sid)" "same_tokens_after (get_cap i)"
  "same_tokens_after (read_epoch sid)" "same_tokens_after (grant_descriptor a u)"
  by (auto simp: same_tokens_after_def alloc_seq_def append_event_def current_seq_def get_cap_def
      read_epoch_def grant_descriptor_def statement_def Let_def split: option.splits)

lemma same_tokens_bind:
  "same_tokens_after m \<Longrightarrow> (\<And>x. same_tokens_after (k x)) \<Longrightarrow> same_tokens_after (db_bind m k)"
  by (auto simp: same_tokens_after_def db_bind_def split: prod.splits sum.splits) (metis snd_conv)+

lemma tokens_kept: "same_tokens_after m \<Longrightarrow> m X d = (r, d') \<Longrightarrow> tokens d' = tokens d"
  unfolding same_tokens_after_def by (metis snd_conv)

lemma find_token_kept: "same_tokens_after m \<Longrightarrow> m X d = (r, d') \<Longrightarrow> find_token d' = find_token d"
  by (simp add: find_token_def tokens_kept fun_eq_iff)

lemma for_session_keeps: "same_tokens_after (for_session sid)"
  unfolding for_session_def
  by (rule same_tokens_bind, rule same_tokens_queries) (simp add: same_tokens_after_def db_return_def)

lemma membership_keeps: "require_membership sid a r X d = (q, d') \<Longrightarrow> tokens d' = tokens d"
  by (auto simp: require_membership_def db_bind_def statement_def db_fail_def db_return_def Let_def
      split: prod.splits sum.splits option.splits if_splits)

lemma insert_token_row:
  assumes "insert_token i sid actor expires parent observed perms X d = (Inr row, e)"
  shows "\<exists>t. find_token e i = Some t \<and> row = listed t \<and> tk_id t = i \<and> tk_actor t = actor \<and>
    tk_session t = sid \<and> tk_parent t = parent \<and> tk_perms t = strings_json X perms \<and> tk_revoked t = None"
proof -
  let ?d = "d\<lparr>statements := Suc (statements d)\<rparr>"
  obtain t where t: "insert_row t ?d = (Inr row, e)" "tk_id t = i" "tk_actor t = actor"
      "tk_session t = sid" "tk_parent t = parent" "tk_perms t = strings_json X perms" "tk_revoked t = None"
    using assms by (auto simp: insert_token_def statement_def Let_def split: if_splits)
  then have new: "find (\<lambda>u. tk_id u = i) (tokens d) = None" and e: "row = listed t" "tokens e = tokens d @ [t]"
    by (auto simp: insert_row_def find_token_def split: if_splits)
  have "find_token e i = Some t"
    using new t(2) by (simp add: find_token_def e find_append)
  then show ?thesis using t e by blast
qed

lemma authority_of_listed [simp]:
  "au_id (authority_of X (listed t)) = tk_id t"
  "au_perms (authority_of X (listed t)) = parse_permissions X t"
  by (simp_all add: authority_of_def listed_def parse_permissions_def)

text \<open>The row that a new capability leaves in the tables.\<close>

definition minted :: "'j pg \<Rightarrow> 'j store \<Rightarrow> authority \<Rightarrow> string \<Rightarrow> string \<Rightarrow> string option \<Rightarrow> bool" where
  "minted X e au sid actor parent \<longleftrightarrow>
     (\<exists>t. find_token e (au_id au) = Some t \<and> tk_session t = sid \<and> tk_actor t = actor \<and>
          tk_parent t = parent \<and> tk_revoked t = None \<and> parse_permissions X t = au_perms au)"

lemma minted_row:
  assumes "insert_token i sid actor expires parent observed perms X d = (Inr row, e)" "json_strings X"
  shows "minted X e ((authority_of X row)\<lparr>au_session := s\<rparr>) sid actor parent \<and>
    au_perms ((authority_of X row)\<lparr>au_session := s\<rparr>) = perms"
  using insert_token_row [OF assms(1)] parse_insert [OF assms(2)] by (auto simp: minted_def)

lemma alloc_mints:
  assumes "json_strings X" "alloc ar actor perms ttl X d = (Inr au, e)"
  shows "minted X e au (ar_session ar) actor None \<and> au_perms au = perms"
  using assms(2) minted_row [OF _ assms(1), where s = "ar_session ar"]
  by (auto simp: alloc_def with_expiry_def db_return_def elim!: bind_okE split: option.splits)

lemma minted_kept: "minted X d au sid a p \<Longrightarrow> same_tokens_after m \<Longrightarrow> m X' d = (r, d') \<Longrightarrow> minted X d' au sid a p"
  unfolding minted_def by (simp add: find_token_kept)

lemma delegate_mints:
  assumes "json_strings X" "delegate parent grantee perms ttl X d = (Inr au, e)"
  shows "minted X e au (au_session parent) grantee (Some (au_id parent))"
proof -
  obtain i expires observed row d1 d2 where
      row: "insert_token i (au_session parent) grantee expires (Some (au_id parent))
        observed perms X d1 = (Inr row, d2)"
    and rest: "db_attempt (grant_descriptor grantee (''cap/'' @ tk_id row))
        (\<lambda>_ X. db_return ((authority_of X row)\<lparr>au_session := au_session parent\<rparr>) X) X d2 = (Inr au, e)"
    using assms(2) that
    by (auto simp: delegate_def db_fail_def with_expiry_def elim!: bind_okE split: option.splits if_splits)
  show ?thesis
    using rest minted_row [OF row assms(1), where s = "au_session parent"]
      minted_kept [OF _ same_tokens_queries(6)]
    by (auto simp: db_return_def elim!: attempt_okE)
qed

lemma answer_ok:
  assumes "import_answer sid au X d = (Inr rep, e)"
  shows "rep = Imported (au_id au) (au_perms au) (au_expires au) (au_stratum au) \<and> tokens e = tokens d"
  using assms
  by (auto simp: import_answer_def db_return_def elim!: attempt_okE split: sum.splits
      dest!: tokens_kept [OF same_tokens_queries(1)] tokens_kept [OF same_tokens_queries(2)])

text \<open>Which definition the request carried, and how far its grant may reach.\<close>

definition import_warrants ::
  "'v sexp \<Rightarrow> 'j pg \<Rightarrow> string \<Rightarrow> import_body \<Rightarrow> 'j store \<Rightarrow> string list \<Rightarrow> string option \<Rightarrow> bool" where
  "import_warrants S X sid body d perms parent \<longleftrightarrow>
     (\<exists>cap. splx_from_str S (im_sexpr body) = Inr (Splx_capability cap) \<and> parent = None \<and>
        perms = authority_to_permissions (cp_authority cap)) \<or>
     (\<exists>dg p t. splx_from_str S (im_sexpr body) = Inr (Splx_delegation dg) \<and> im_parent body = Some p \<and>
        parent = Some p \<and> find_token d p = Some t \<and> tk_session t = sid \<and>
        perms = authority_to_permissions (dg_authority dg) \<and>
        (parse_permissions X t = [] \<or> set perms \<subseteq> set (parse_permissions X t)))"

lemma for_session_ok: "for_session sid X d = (Inr ar, e) \<Longrightarrow> ar_session ar = sid"
  by (auto simp: for_session_def db_return_def elim!: bind_okE)

lemma authority_for_cap_ok:
  assumes "authority_for_cap ar p X d = (Inr au, e)"
  shows "\<exists>t. find_token d p = Some t \<and> tk_session t = ar_session ar \<and> tk_id t = p \<and>
    au_perms au = parse_permissions X t \<and> au_session au = tk_session t \<and> au_id au = p \<and> tokens e = tokens d"
proof -
  obtain row d1 where row: "get_cap p X d = (Inr row, d1)" "tk_session row = ar_session ar"
      "au = authority_of X row" "e = d1"
    using assms by (auto simp: authority_for_cap_def db_fail_def db_return_def elim!: bind_okE split: if_splits)
  obtain t where t: "find_token d p = Some t" "row = listed t"
    using row(1) by (auto simp: get_cap_def statement_def find_token_def Let_def split: option.splits if_splits)
  moreover have "tk_id t = p" using find_token_set [OF t(1)] by simp
  moreover have "tokens e = tokens d" using tokens_kept [OF same_tokens_queries(4) row(1)] row(4) by simp
  ultimately show ?thesis
    using row by (auto simp: authority_of_def listed_def parse_permissions_def)
qed

lemma minted_answer:
  assumes "minted X d au sid a p" "import_answer s au X' d = (Inr (Imported i perms exp st), e)"
  shows "i = au_id au \<and> perms = au_perms au \<and> minted X e au sid a p"
  using assms answer_ok [OF assms(2)] by (simp add: minted_def find_token_def)

lemma refuse_not_imported:
  "internal Import_refused e X d = (Inr r, d') \<Longrightarrow> r = Import_refused (Internal e)"
  by (simp add: internal_ok)

text \<open>The row of an import, as the tables have it afterwards.\<close>

definition imported_row :: "'j pg \<Rightarrow> 'j store \<Rightarrow> string \<Rightarrow> string \<Rightarrow> string \<Rightarrow> string option \<Rightarrow> string list \<Rightarrow> bool" where
  "imported_row X e i sid actor parent perms \<longleftrightarrow>
     (\<exists>t. find_token e i = Some t \<and> tk_session t = sid \<and> tk_actor t = actor \<and> tk_parent t = parent \<and>
          tk_revoked t = None \<and> parse_permissions X t = perms)"

lemma import_capability_sound:
  assumes "json_strings X" "ar_session ar = sid"
    and "import_or_error sid (internal Import_refused) (import_capability ar actor cap ttl) X d
         = (Inr (Imported i perms exp st), e)"
  shows "imported_row X e i sid actor None perms \<and> perms = authority_to_permissions (cp_authority cap)"
proof -
  obtain au d1 where a: "alloc ar actor (authority_to_permissions (cp_authority cap)) ttl X d = (Inr au, d1)"
      and ans: "import_answer sid au X d1 = (Inr (Imported i perms exp st), e)"
    using assms(3) by (auto simp: import_or_error_def import_capability_def elim!: attempt_okE
        split: sum.splits dest: refuse_not_imported)
  show ?thesis
    using alloc_mints [OF assms(1) a] minted_answer [OF _ ans] assms(2)
    by (auto simp: imported_row_def minted_def)
qed

lemma import_against_sound:
  assumes "json_strings X" "ar_session ar = sid"
    and "import_against sid body ar dg X d = (Inr (Imported i perms exp st), e)"
  shows "\<exists>p t. im_parent body = Some p \<and> find_token d p = Some t \<and> tk_session t = sid \<and>
    perms = authority_to_permissions (dg_authority dg) \<and>
    (parse_permissions X t = [] \<or> set perms \<subseteq> set (parse_permissions X t)) \<and>
    imported_row X e i sid (im_actor body) (Some p) perms"
proof -
  obtain p where p: "im_parent body = Some p"
    using assms(3) by (auto simp: import_against_def db_return_def split: option.splits)
  obtain parent d1 where parent: "authority_for_cap ar p X d = (Inr parent, d1)"
    and rest: "db_attempt (import_delegation parent (im_actor body) dg (im_ttl_secs body))
      (\<lambda>r. case r of Inl e \<Rightarrow> (case e of Db_conflict _ \<Rightarrow> db_return (Import_refused (Status 409))
                   | _ \<Rightarrow> internal Import_refused e) | Inr au \<Rightarrow> import_answer sid au) X d1
      = (Inr (Imported i perms exp st), e)"
    using assms(3) p
    by (auto simp: import_against_def import_or_error_def db_return_def elim!: attempt_okE
        split: sum.splits db_error.splits dest: refuse_not_imported)
  obtain au d2 where au: "delegate parent (im_actor body) (authority_to_permissions (dg_authority dg))
        (im_ttl_secs body) X d1 = (Inr au, d2)"
    and ans: "import_answer sid au X d2 = (Inr (Imported i perms exp st), e)"
    using rest by (auto simp: import_delegation_def db_return_def elim!: attempt_okE
        split: sum.splits db_error.splits dest: refuse_not_imported)
  obtain t where t: "find_token d p = Some t" "tk_session t = sid" "au_perms parent = parse_permissions X t"
      "au_session parent = sid" "au_id parent = p"
    using authority_for_cap_ok [OF parent] assms(2) by auto
  have "minted X e au sid (im_actor body) (Some p)" "i = au_id au" "perms = au_perms au"
    using minted_answer [OF _ ans] delegate_mints [OF assms(1) au] t by auto
  then show ?thesis
    using p t delegate_ok [OF assms(1) au] by (auto simp: imported_row_def minted_def)
qed

text \<open>
  C31 (what an import does): when the route answers with a capability, the caller is at least a
  collaborator of the session, the text was a capability or a delegation, the permissions are those of
  its entries, those of a delegation are within a restricted parent of the same session, and the table
  holds the new capability for the requested actor, live, under that parent, with those permissions.
\<close>

theorem import_sound:
  assumes "json_strings X"
    and "import_route S X now sid caller body (m, d) = (Inr (Imported i perms exp st), m', e)"
  shows "(\<exists>r. fst (require_membership sid caller Collaborator X d) = Inr r) \<and>
    (\<exists>parent. import_warrants S X sid body d perms parent \<and>
       imported_row X e i sid (im_actor body) parent perms)"
proof -
  obtain role d1 where member: "require_membership sid caller Collaborator X d = (Inr role, d1)"
    and ran: "import_admitted S sid body X d1 = (Inr (Imported i perms exp st), e)"
    using assms(2) by (auto simp: import_route_def split: prod.splits sum.splits bool.splits if_splits
        dest: refuse_not_imported)
  have same: "find_token d1 = find_token d"
    using membership_keeps [OF member] by (simp add: find_token_def fun_eq_iff)
  obtain v where v: "splx_from_str S (im_sexpr body) = Inr v"
    using ran by (auto simp: import_admitted_def db_return_def db_fail_def split: sum.splits ir_error.splits)
  have range: "seconds_in_range (im_ttl_secs body)"
    using ran v by (rule_tac ccontr) (auto simp: import_admitted_def db_fail_def elim!: attempt_okE
        split: sum.splits dest: refuse_not_imported)
  obtain ar d2 where ar: "for_session sid X d1 = (Inr ar, d2)"
    and rest: "(case v of
         Splx_capability cap \<Rightarrow>
           import_or_error sid (internal Import_refused)
             (import_capability ar (im_actor body) cap (im_ttl_secs body))
       | Splx_delegation dg \<Rightarrow> import_against sid body ar dg
       | _ \<Rightarrow> db_return (Import_refused (Status 422))) X d2 = (Inr (Imported i perms exp st), e)"
    using ran v range by (auto simp: import_admitted_def elim!: attempt_okE split: sum.splits
        dest: refuse_not_imported)
  have tokens: "find_token d2 = find_token d"
    using find_token_kept [OF for_session_keeps ar] same by simp
  have "\<exists>parent. import_warrants S X sid body d perms parent \<and>
       imported_row X e i sid (im_actor body) parent perms"
  proof (cases v)
    case (Splx_capability cap)
    then show ?thesis
      using rest v import_capability_sound
        [OF assms(1) for_session_ok [OF ar], of "im_actor body" cap "im_ttl_secs body" d2 i perms exp st e]
      by (auto simp: import_warrants_def)
  next
    case (Splx_delegation dg)
    then obtain p t where "im_parent body = Some p" "find_token d2 p = Some t" "tk_session t = sid"
        "perms = authority_to_permissions (dg_authority dg)"
        "parse_permissions X t = [] \<or> set perms \<subseteq> set (parse_permissions X t)"
        "imported_row X e i sid (im_actor body) (Some p) perms"
      using rest import_against_sound [OF assms(1) for_session_ok [OF ar], of body dg d2 i perms exp st e]
      by auto
    then show ?thesis
      using v Splx_delegation tokens by (auto simp: import_warrants_def)
  qed (use rest in \<open>auto simp: db_return_def\<close>)
  then show ?thesis using member by auto
qed

text \<open>A delegation of nothing, from the restricted capability \<open>c\<close> of the sample broker.\<close>

definition sample_import :: "sample_sexp sexp" where
  "sample_import = sample_lexpr\<lparr>lexpr_from_str := (\<lambda>_. Inr (serialize (sample_printer (\<lambda>s. s))
     (Splx_delegation \<lparr>dg_grantor = ''ann'', dg_grantee = ''bob'', dg_authority = []\<rparr>)))\<rparr>"

definition sample_request :: import_body where
  "sample_request = \<lparr>im_sexpr = ''(:delegation ...)'', im_actor = ''bob'', im_parent = Some ''c'', im_ttl_secs = 60\<rparr>"

text \<open>
  What it yields, and that the new capability may invoke every method although its parent may not.
\<close>

lemma import_sound_witness:
  "\<exists>i exp st m' e. import_route sample_import sample_pg 0 ''s'' ''ann'' sample_request (Map.empty, sample_store)
     = (Inr (Imported i [] exp st), m', e) \<and>
   (\<exists>parent. imported_row sample_pg e i ''s'' ''bob'' parent [])"
proof -
  let ?r = "import_route sample_import sample_pg 0 ''s'' ''ann'' sample_request (Map.empty, sample_store)"
  let ?m = "require_membership ''s'' ''ann'' Collaborator sample_pg sample_store"
  have "fst ?m = Inr ''owner''" by code_simp
  moreover have "fst (import_admitted sample_import ''s'' sample_request sample_pg (snd ?m))
    = Inr (Imported ''iiiii'' [] 65 1)" by code_simp
  moreover have "snd (gate_session ''s'' (AuthorityImportKey ''ann'') 0 Map.empty)"
    by (simp add: gate_session_def session_check_def limiter_check_def check_and_consume_def
        fresh_bucket_def from_secs_def Let_def)
  ultimately have "fst ?r = Inr (Imported ''iiiii'' [] 65 1)"
    by (auto simp: import_route_def split: prod.split bool.split)
  then obtain m' e where r: "?r = (Inr (Imported ''iiiii'' [] 65 1), m', e)"
    by (metis prod.collapse)
  show ?thesis
    using import_sound [OF sample_json r] r by (auto simp: sample_request_def)
qed

end
