(* ===== verification/Grammar.thy ===== *)
theory Grammar
  imports Prelude
begin

text \<open>
  Command grammars (\<open>crates/intent/src/vocab.rs\<close>, \<open>compile.rs\<close>, \<open>matcher.rs\<close>): a grammar is an
  expression over words, compiled into a finite automaton over the numbers of the words, and a
  command is recognised by the longest prefix of its tokens that the automaton accepts.

  Two libraries are outside: \<open>nfst_xre\<close> parses a grammar (\<open>xre_parse\<close>; of its expressions the code
  distinguishes five constructors), and \<open>rustfst\<close> stores the automaton (the record \<open>'f rustfst\<close> of
  the calls made on a \<open>VectorFst\<close>). Text is ASCII here.
\<close>

section \<open>Words\<close>

definition is_space :: "char \<Rightarrow> bool" where
  "is_space c \<longleftrightarrow> (let n = (of_char c :: nat) in n = 32 \<or> (9 \<le> n \<and> n \<le> 13))"

text \<open>\<open>split_whitespace\<close>.\<close>

fun split_words :: "string \<Rightarrow> string \<Rightarrow> string list" where
  "split_words w [] = (if w = [] then [] else [rev w])"
| "split_words w (c # cs) =
     (if is_space c then (if w = [] then split_words [] cs else rev w # split_words [] cs)
      else split_words (c # w) cs)"

definition split_whitespace :: "string \<Rightarrow> string list" where
  "split_whitespace s = split_words [] s"

definition lower_char :: "char \<Rightarrow> char" where
  "lower_char c =
     (let n = (of_char c :: nat) in if 65 \<le> n \<and> n \<le> 90 then char_of (n + 32) else c)"

definition to_lowercase :: "string \<Rightarrow> string" where
  "to_lowercase s = map lower_char s"

section \<open>The vocabulary\<close>

type_synonym label = "32 word"

definition EPSILON :: label where "EPSILON = 0"

record vocab =
  word_to_label :: "string \<rightharpoonup> label"
  next_label :: label

definition new_vocab :: vocab where
  "new_vocab = \<lparr>word_to_label = Map.empty, next_label = 1\<rparr>"

definition intern :: "vocab \<Rightarrow> string \<Rightarrow> label \<times> vocab" where
  "intern v word =
     (let key = to_lowercase word
      in case word_to_label v key of
           Some l \<Rightarrow> (l, v)
         | None \<Rightarrow>
             (next_label v,
              v\<lparr>word_to_label := (word_to_label v)(key \<mapsto> next_label v), next_label := next_label v + 1\<rparr>))"

definition lookup_word :: "vocab \<Rightarrow> string \<Rightarrow> label option" where
  "lookup_word v word = word_to_label v (to_lowercase word)"

section \<open>Expressions and automata from outside\<close>

datatype xre =
    Symbol string
  | Concatenate xre xre
  | Union xre xre
  | Optional xre
  | Group xre
  | Other_xre string      \<comment> \<open>any other construct, with its debug text\<close>

datatype intent_error =
    Grammar_parse string string
  | Unsupported_construct string string
  | Fst_error string

record 'f rustfst =
  fst_new :: 'f
  fst_add_state :: "'f \<Rightarrow> nat \<times> 'f"
  fst_emplace_tr :: "'f \<Rightarrow> nat \<Rightarrow> label \<Rightarrow> nat \<Rightarrow> string + 'f"
  fst_set_start :: "'f \<Rightarrow> nat \<Rightarrow> string + 'f"
  fst_set_final :: "'f \<Rightarrow> nat \<Rightarrow> string + 'f"
  fst_rm_epsilon :: "'f \<Rightarrow> string + 'f"
  fst_start :: "'f \<Rightarrow> nat option"
  fst_is_final :: "'f \<Rightarrow> nat \<Rightarrow> bool option"
  fst_get_trs :: "'f \<Rightarrow> nat \<Rightarrow> (label \<times> nat) list option"

section \<open>Compilation\<close>

definition fst_try :: "string + 'a \<Rightarrow> ('a \<Rightarrow> intent_error + 'b) \<Rightarrow> intent_error + 'b" where
  "fst_try r k = (case r of Inl e \<Rightarrow> Inl (Fst_error e) | Inr x \<Rightarrow> k x)"

definition intent_try :: "intent_error + 'a \<Rightarrow> ('a \<Rightarrow> intent_error + 'b) \<Rightarrow> intent_error + 'b" where
  "intent_try r k = (case r of Inl e \<Rightarrow> Inl e | Inr x \<Rightarrow> k x)"

text \<open>A symbol: one arc per word.\<close>

fun compile_words ::
  "'f rustfst \<Rightarrow> string list \<Rightarrow> nat \<Rightarrow> 'f \<Rightarrow> vocab \<Rightarrow> intent_error + (nat \<times> 'f \<times> vocab)" where
  "compile_words X [] cur f v = Inr (cur, f, v)"
| "compile_words X (w # ws) cur f v =
     (case intern v w of (l, v1) \<Rightarrow>
        (case fst_add_state X f of (nxt, f1) \<Rightarrow>
           fst_try (fst_emplace_tr X f1 cur l nxt) (\<lambda>f2. compile_words X ws nxt f2 v1)))"

text \<open>The end of a union or an option: a fresh state with an epsilon arc from each branch.\<close>

definition join_branches ::
  "'f rustfst \<Rightarrow> nat \<Rightarrow> nat \<Rightarrow> 'f \<Rightarrow> vocab \<Rightarrow> intent_error + (nat \<times> 'f \<times> vocab)" where
  "join_branches X a b f v =
     (case fst_add_state X f of (e, f1) \<Rightarrow>
        fst_try (fst_emplace_tr X f1 a EPSILON e) (\<lambda>f2.
        fst_try (fst_emplace_tr X f2 b EPSILON e) (\<lambda>f3. Inr (e, f3, v))))"

fun compile_expr ::
  "'f rustfst \<Rightarrow> string \<Rightarrow> xre \<Rightarrow> nat \<Rightarrow> 'f \<Rightarrow> vocab \<Rightarrow> intent_error + (nat \<times> 'f \<times> vocab)" where
  "compile_expr X g (Symbol s) start f v = compile_words X (split_whitespace s) start f v"
| "compile_expr X g (Concatenate a b) start f v =
     intent_try (compile_expr X g a start f v) (\<lambda>(mid, f1, v1). compile_expr X g b mid f1 v1)"
| "compile_expr X g (Union a b) start f v =
     intent_try (compile_expr X g a start f v) (\<lambda>(end_a, f1, v1).
     intent_try (compile_expr X g b start f1 v1) (\<lambda>(end_b, f2, v2). join_branches X end_a end_b f2 v2))"
| "compile_expr X g (Optional a) start f v =
     intent_try (compile_expr X g a start f v) (\<lambda>(end_inner, f1, v1). join_branches X end_inner start f1 v1)"
| "compile_expr X g (Group a) start f v = compile_expr X g a start f v"
| "compile_expr X g (Other_xre d) start f v = Inl (Unsupported_construct g d)"

definition compile_grammar ::
  "'f rustfst \<Rightarrow> (string \<Rightarrow> string + xre) \<Rightarrow> string \<Rightarrow> vocab \<Rightarrow> string \<Rightarrow> intent_error + ('f \<times> vocab)" where
  "compile_grammar X xre_parse source v g =
     (case xre_parse source of
        Inl e \<Rightarrow> Inl (Grammar_parse g e)
      | Inr expr \<Rightarrow>
          (case fst_add_state X (fst_new X) of (start, f) \<Rightarrow>
             fst_try (fst_set_start X f start) (\<lambda>f1.
             intent_try (compile_expr X g expr start f1 v) (\<lambda>(e, f2, v2).
             fst_try (fst_set_final X f2 e) (\<lambda>f3.
             fst_try (fst_rm_epsilon X f3) (\<lambda>f4. Inr (f4, v2)))))))"

section \<open>Matching\<close>

definition final_state :: "'f rustfst \<Rightarrow> 'f \<Rightarrow> nat \<Rightarrow> bool" where
  "final_state X f s = (case fst_is_final X f s of None \<Rightarrow> False | Some b \<Rightarrow> b)"

text \<open>\<open>get_trs(s).unwrap()\<close> panics on a state that the automaton does not have.\<close>

definition step_set :: "'f rustfst \<Rightarrow> 'f \<Rightarrow> nat set \<Rightarrow> label \<Rightarrow> nat set result" where
  "step_set X f current tok =
     (if \<exists>s \<in> current. fst_get_trs X f s = None then Inl Index_out_of_bounds
      else Inr (\<Union>s \<in> current. set (map snd (filter (\<lambda>(l, t). l = tok) (the (fst_get_trs X f s))))))"

fun match_from ::
  "'f rustfst \<Rightarrow> 'f \<Rightarrow> label list \<Rightarrow> nat \<Rightarrow> nat set \<Rightarrow> nat option \<Rightarrow> nat option result" where
  "match_from X f [] i current best = Inr best"
| "match_from X f (tok # toks) i current best =
     bind_result (step_set X f current tok) (\<lambda>nxt.
       if nxt = {} then Inr best
       else match_from X f toks (Suc i) nxt
              (if \<exists>s \<in> nxt. final_state X f s then Some (Suc i) else best))"

definition longest_matching_prefix :: "'f rustfst \<Rightarrow> 'f \<Rightarrow> label list \<Rightarrow> nat option result" where
  "longest_matching_prefix X f tokens =
     (case fst_start X f of
        None \<Rightarrow> Inr None
      | Some start \<Rightarrow>
          match_from X f tokens 0 {start} (if final_state X f start then Some 0 else None))"

section \<open>Automata as graphs\<close>

text \<open>
  What \<open>rustfst\<close> documents of a \<open>VectorFst\<close>: it is a graph of numbered states, here as the value of
  a view; the mutators change the graph, the observers read it, and \<open>rm_epsilon\<close> returns an automaton
  without epsilon arcs that accepts the same words.
\<close>

record graph =
  g_states :: nat
  g_arcs :: "(nat \<times> label \<times> nat) set"
  g_finals :: "nat set"
  g_start :: "nat option"

inductive path :: "(nat \<times> label \<times> nat) set \<Rightarrow> nat \<Rightarrow> label list \<Rightarrow> nat \<Rightarrow> bool" for A where
  here: "path A s [] s"
| eps: "(s, EPSILON, u) \<in> A \<Longrightarrow> path A u w t \<Longrightarrow> path A s w t"
| arc: "(s, l, u) \<in> A \<Longrightarrow> l \<noteq> EPSILON \<Longrightarrow> path A u w t \<Longrightarrow> path A s (l # w) t"

definition accepts :: "graph \<Rightarrow> label list \<Rightarrow> bool" where
  "accepts G w \<longleftrightarrow> (\<exists>s t. g_start G = Some s \<and> path (g_arcs G) s w t \<and> t \<in> g_finals G)"

definition wf_graph :: "graph \<Rightarrow> bool" where
  "wf_graph G \<longleftrightarrow>
     (\<forall>(s, l, t) \<in> g_arcs G. s < g_states G \<and> t < g_states G) \<and> finite (g_arcs G) \<and>
     (\<forall>s. g_start G = Some s \<longrightarrow> s < g_states G)"

definition epsilon_free :: "graph \<Rightarrow> bool" where
  "epsilon_free G \<longleftrightarrow> (\<forall>(s, l, t) \<in> g_arcs G. l \<noteq> EPSILON)"

definition mutator_laws :: "'f rustfst \<Rightarrow> ('f \<Rightarrow> graph) \<Rightarrow> bool" where
  "mutator_laws X view \<longleftrightarrow>
     view (fst_new X) = \<lparr>g_states = 0, g_arcs = {}, g_finals = {}, g_start = None\<rparr> \<and>
     (\<forall>f. \<exists>f'. fst_add_state X f = (g_states (view f), f') \<and>
          view f' = (view f)\<lparr>g_states := Suc (g_states (view f))\<rparr>) \<and>
     (\<forall>f s l t. s < g_states (view f) \<and> t < g_states (view f) \<longrightarrow>
        (\<exists>f'. fst_emplace_tr X f s l t = Inr f' \<and>
              view f' = (view f)\<lparr>g_arcs := insert (s, l, t) (g_arcs (view f))\<rparr>)) \<and>
     (\<forall>f s. s < g_states (view f) \<longrightarrow>
        (\<exists>f'. fst_set_start X f s = Inr f' \<and> view f' = (view f)\<lparr>g_start := Some s\<rparr>)) \<and>
     (\<forall>f s. s < g_states (view f) \<longrightarrow>
        (\<exists>f'. fst_set_final X f s = Inr f' \<and>
              view f' = (view f)\<lparr>g_finals := insert s (g_finals (view f))\<rparr>))"

definition observer_laws :: "'f rustfst \<Rightarrow> ('f \<Rightarrow> graph) \<Rightarrow> bool" where
  "observer_laws X view \<longleftrightarrow>
     (\<forall>f. fst_start X f = g_start (view f)) \<and>
     (\<forall>f s. s < g_states (view f) \<longrightarrow> fst_is_final X f s = Some (s \<in> g_finals (view f))) \<and>
     (\<forall>f s. s < g_states (view f) \<longrightarrow>
        (\<exists>ts. fst_get_trs X f s = Some ts \<and> set ts = {(l, t). (s, l, t) \<in> g_arcs (view f)}))"

text \<open>
  Of \<open>rm_epsilon\<close> only this is assumed: when it succeeds, what it leaves accepts the same words and has
  no epsilon arcs. It may renumber or drop states and leave no start state, and it may fail.
\<close>

definition rm_epsilon_law :: "'f rustfst \<Rightarrow> ('f \<Rightarrow> graph) \<Rightarrow> bool" where
  "rm_epsilon_law X view \<longleftrightarrow>
     (\<forall>f f'. wf_graph (view f) \<and> fst_rm_epsilon X f = Inr f' \<longrightarrow>
        wf_graph (view f') \<and> epsilon_free (view f') \<and>
        (\<forall>w. accepts (view f') w = accepts (view f) w))"

definition vector_fst :: "'f rustfst \<Rightarrow> ('f \<Rightarrow> graph) \<Rightarrow> bool" where
  "vector_fst X view \<longleftrightarrow> mutator_laws X view \<and> observer_laws X view \<and> rm_epsilon_law X view"

end
