(* ===== verification/Grammar_Correct.thy ===== *)
theory Grammar_Correct
  imports Grammar
begin

text \<open>
  The compiled automaton of a grammar accepts the word sequences of the grammar and nothing else, and
  the matcher finds the longest accepted prefix.
\<close>

section \<open>Paths\<close>

lemma path_mono: "path A s w t \<Longrightarrow> A \<subseteq> B \<Longrightarrow> path B s w t"
  by (induction rule: path.induct) (auto intro: path.intros)

lemma path_append: "path A s w t \<Longrightarrow> path A t w' u \<Longrightarrow> path A s (w @ w') u"
  by (induction rule: path.induct) (auto intro: path.intros)

lemma path_empty [simp]: "path {} s w t \<longleftrightarrow> w = [] \<and> s = t"
  by (auto elim: path.cases intro: path.here)

text \<open>Both kinds of arcs at once: what an arc reads is no word or one.\<close>

definition reads :: "label \<Rightarrow> label list" where
  "reads l = (if l = EPSILON then [] else [l])"

lemma path_step: "(s, l, u) \<in> A \<Longrightarrow> path A u w t \<Longrightarrow> path A s (reads l @ w) t"
  by (auto simp: reads_def intro: path.intros)

lemma path_induct [consumes 1, case_names here step]:
  assumes "path A s w t" and "\<And>s. P s [] s"
    and "\<And>s l u w t. (s, l, u) \<in> A \<Longrightarrow> path A u w t \<Longrightarrow> P u w t \<Longrightarrow> P s (reads l @ w) t"
  shows "P s w t"
  using assms(1)
proof (induction rule: path.induct)
  case (eps s u w t)
  then show ?case using assms(3) [of s EPSILON u w t] by (simp add: reads_def)
next
  case (arc s l u w t)
  then show ?case using assms(3) [of s l u w t] by (simp add: reads_def)
qed (rule assms(2))

text \<open>Within a region that the arcs do not leave, only its own arcs matter.\<close>

lemma path_restrict:
  assumes "path A s w t" "s \<in> R" "\<And>u l x. (u, l, x) \<in> A \<Longrightarrow> u \<in> R \<Longrightarrow> x \<in> R \<and> (u, l, x) \<in> B"
  shows "path B s w t"
  using assms(1,2)
proof (induction rule: path_induct)
  case (here s)
  show ?case by (rule path.here)
next
  case (step s l u w t)
  have u: "u \<in> R" "(s, l, u) \<in> B" using assms(3) [OF step(1) step(4)] by auto
  show ?case by (rule path_step [OF u(2) step(3) [OF u(1)]])
qed

section \<open>Fragments\<close>

text \<open>
  What the compilation of an expression adds to the automaton: arcs from its start or its own states
  to its own states, each to a state with a larger number.
\<close>

definition fragment :: "(nat \<times> label \<times> nat) set \<Rightarrow> nat \<Rightarrow> nat \<Rightarrow> nat \<Rightarrow> nat \<Rightarrow> bool" where
  "fragment B n n' s e \<longleftrightarrow>
     (\<forall>(u, l, x) \<in> B. (u = s \<or> n \<le> u \<and> u < n') \<and> n \<le> x \<and> x < n') \<and>
     (e = s \<or> n \<le> e \<and> e < n') \<and> n \<le> n' \<and> s < n \<and> finite B"

lemma fragment_arc:
  assumes "fragment B n n' s e" "(u, l, x) \<in> B"
  shows "u = s \<or> n \<le> u \<and> u < n'" "n \<le> x" "x < n'"
proof -
  have "\<forall>(u, l, x) \<in> B. (u = s \<or> n \<le> u \<and> u < n') \<and> n \<le> x \<and> x < n'"
    using assms(1) by (simp add: fragment_def)
  from bspec [OF this assms(2)] show "u = s \<or> n \<le> u \<and> u < n'" "n \<le> x" "x < n'" by simp_all
qed

lemma fragment_bounds:
  assumes "fragment B n n' s e"
  shows "e = s \<or> n \<le> e \<and> e < n'" "n \<le> n'" "s < n" "e < n'" "finite B"
  using assms unfolding fragment_def by auto

lemma fragment_empty: "s < n \<Longrightarrow> fragment {} n n s s"
  by (simp add: fragment_def)

lemma fragment_seq:
  assumes 1: "fragment B1 n n1 s m" and 2: "fragment B2 n1 n2 m e"
  shows "fragment (B1 \<union> B2) n n2 s e"
proof -
  note b = fragment_bounds [OF 1] fragment_bounds [OF 2]
  have "(u = s \<or> n \<le> u \<and> u < n2) \<and> n \<le> x \<and> x < n2" if "(u, l, x) \<in> B1 \<union> B2" for u l x
    using that fragment_arc [OF 1, of u l x] fragment_arc [OF 2, of u l x] b by auto
  then show ?thesis
    using b unfolding fragment_def by auto
qed

lemma path_seq:
  assumes 1: "fragment B1 n n1 s m" and 2: "fragment B2 n1 n2 m e"
  shows "path (B1 \<union> B2) s w e \<longleftrightarrow> (\<exists>w1 w2. w = w1 @ w2 \<and> path B1 s w1 m \<and> path B2 m w2 e)"
proof
  note b = fragment_bounds [OF 1] fragment_bounds [OF 2]
  have upper: "path B2 u w t" if "path (B1 \<union> B2) u w t" "n1 \<le> u" for u w t
    using that(1)
  proof (rule path_restrict [where R = "{x. n1 \<le> x}"])
    fix p l x assume "(p, l, x) \<in> B1 \<union> B2" "p \<in> {x. n1 \<le> x}"
    then show "x \<in> {x. n1 \<le> x} \<and> (p, l, x) \<in> B2"
      using fragment_arc [OF 1, of p l x] fragment_arc [OF 2, of p l x] b by auto
  qed (use that in auto)
  have low: "\<exists>w1 w2. w = w1 @ w2 \<and> path B1 u w1 m \<and> path B2 m w2 e"
    if "path (B1 \<union> B2) u w t" "u = s \<or> n \<le> u \<and> u < n1" "t = e" for u w t
    using that
  proof (induction rule: path_induct)
    case (here x)
    then show ?case using b by (auto intro: path.here)
  next
    case (step u l x w t)
    show ?case
    proof (cases "(u, l, x) \<in> B1")
      case True
      then obtain w1 w2 where "w = w1 @ w2" "path B1 x w1 m" "path B2 m w2 e"
        using step fragment_arc [OF 1 True] by blast
      then show ?thesis using path_step [OF True] by (metis append.assoc)
    next
      case False
      then have B2: "(u, l, x) \<in> B2" using step by simp
      then have "u = m" "n1 \<le> x" using fragment_arc [OF 2 B2] step b by auto
      then have "path B2 m (reads l @ w) e"
        using path_step [OF B2] upper [OF step(2)] step by auto
      then show ?thesis using \<open>u = m\<close> path.here by fastforce
    qed
  qed
  show "path (B1 \<union> B2) s w e \<Longrightarrow> \<exists>w1 w2. w = w1 @ w2 \<and> path B1 s w1 m \<and> path B2 m w2 e"
    using low by blast
  show "\<exists>w1 w2. w = w1 @ w2 \<and> path B1 s w1 m \<and> path B2 m w2 e \<Longrightarrow> path (B1 \<union> B2) s w e"
    using path_append path_mono by (metis Un_upper1 Un_upper2)
qed

text \<open>Two branches from one start, joined by epsilon arcs into a fresh state.\<close>

definition joined :: "(nat \<times> label \<times> nat) set \<Rightarrow> nat \<Rightarrow> nat \<Rightarrow> nat \<Rightarrow> (nat \<times> label \<times> nat) set" where
  "joined B a b e = B \<union> {(a, EPSILON, e), (b, EPSILON, e)}"

lemma fragment_joined:
  assumes 1: "fragment B1 n n1 s a" and 2: "fragment B2 n1 n2 s b"
  shows "fragment (joined (B1 \<union> B2) a b n2) n (Suc n2) s n2"
proof -
  note bounds = fragment_bounds [OF 1] fragment_bounds [OF 2]
  have "(u = s \<or> n \<le> u \<and> u < Suc n2) \<and> n \<le> x \<and> x < Suc n2"
    if "(u, l, x) \<in> joined (B1 \<union> B2) a b n2" for u l x
    using that fragment_arc [OF 1, of u l x] fragment_arc [OF 2, of u l x] bounds
    by (auto simp: joined_def)
  then show ?thesis
    using bounds unfolding fragment_def by (auto simp: joined_def)
qed

lemma path_joined:
  assumes 1: "fragment B1 n n1 s a" and 2: "fragment B2 n1 n2 s b"
  shows "path (joined (B1 \<union> B2) a b n2) s w n2 \<longleftrightarrow> path B1 s w a \<or> path B2 s w b"
proof
  note bounds = fragment_bounds [OF 1] fragment_bounds [OF 2]
  have inv: "(n \<le> u \<and> u < n1 \<longrightarrow> path B1 u w a) \<and> (n1 \<le> u \<and> u < n2 \<longrightarrow> path B2 u w b) \<and>
      (u = s \<longrightarrow> path B1 s w a \<or> path B2 s w b) \<and> (u = n2 \<longrightarrow> w = [])"
    if "path (joined (B1 \<union> B2) a b n2) u w t" "t = n2" for u w t
    using that
  proof (induction rule: path_induct)
    case (here x)
    then show ?case using bounds by auto
  next
    case (step u l x w t)
    from step(1) consider "(u, l, x) \<in> B1" | "(u, l, x) \<in> B2"
      | "l = EPSILON" "x = n2" "u = a \<or> u = b"
      by (auto simp: joined_def)
    then show ?case
    proof cases
      case 1
      then show ?thesis
        using step fragment_arc [OF assms(1) 1] path_step [OF 1] bounds by auto
    next
      case 2
      then show ?thesis
        using step fragment_arc [OF assms(2) 2] path_step [OF 2] bounds by auto
    next
      case 3
      then have "reads l @ w = []" using step by (simp add: reads_def)
      then show ?thesis using 3 bounds by (auto intro: path.here)
    qed
  qed
  show "path (joined (B1 \<union> B2) a b n2) s w n2 \<Longrightarrow> path B1 s w a \<or> path B2 s w b"
    using inv by blast
  have up: "path (joined (B1 \<union> B2) a b n2) s w n2" if "path B s w c" "B \<subseteq> B1 \<union> B2" "c = a \<or> c = b" for B c
  proof -
    have "path (joined (B1 \<union> B2) a b n2) s w c" by (rule path_mono [OF that(1)]) (use that(2) in \<open>auto simp: joined_def\<close>)
    moreover have "path (joined (B1 \<union> B2) a b n2) c [] n2"
      using that(3) by (intro path.eps [OF _ path.here]) (auto simp: joined_def)
    ultimately show ?thesis using path_append by fastforce
  qed
  show "path B1 s w a \<or> path B2 s w b \<Longrightarrow> path (joined (B1 \<union> B2) a b n2) s w n2"
    using up by blast
qed

section \<open>The vocabulary\<close>

text \<open>Every word has a label of its own, none is epsilon, and the labels in use are below the next one.\<close>

definition wf_vocab :: "vocab \<Rightarrow> bool" where
  "wf_vocab v \<longleftrightarrow>
     (\<forall>k l. word_to_label v k = Some l \<longrightarrow> l \<noteq> EPSILON \<and> l < next_label v) \<and>
     inj_on (word_to_label v) (dom (word_to_label v)) \<and> next_label v \<noteq> 0"

definition vocab_extends :: "vocab \<Rightarrow> vocab \<Rightarrow> bool" where
  "vocab_extends v v' \<longleftrightarrow> word_to_label v \<subseteq>\<^sub>m word_to_label v'"

lemma vocab_extends_refl [simp]: "vocab_extends v v"
  by (simp add: vocab_extends_def)

lemma vocab_extends_trans: "vocab_extends u v \<Longrightarrow> vocab_extends v w \<Longrightarrow> vocab_extends u w"
  unfolding vocab_extends_def by (rule map_le_trans)

lemma vocab_extendsD: "vocab_extends v v' \<Longrightarrow> word_to_label v k = Some l \<Longrightarrow> word_to_label v' k = Some l"
  unfolding vocab_extends_def map_le_def by (metis domI)

lemma wf_new_vocab: "wf_vocab new_vocab"
  by (simp add: wf_vocab_def new_vocab_def)

lemma next_small: "unat (x :: label) + 1 < 2 ^ 32 \<Longrightarrow> unat (x + 1) = unat x + 1"
  by (simp add: unat_word_ariths)

lemma intern_spec:
  assumes "wf_vocab v" "unat (next_label v) + 1 < 2 ^ 32" "intern v w = (l, v')"
  shows "wf_vocab v' \<and> vocab_extends v v' \<and> word_to_label v' (to_lowercase w) = Some l \<and>
    l \<noteq> EPSILON \<and> unat (next_label v') \<le> unat (next_label v) + 1"
proof (cases "word_to_label v (to_lowercase w)")
  case (Some k)
  then show ?thesis using assms by (auto simp: intern_def wf_vocab_def)
next
  case None
  let ?m = "(word_to_label v)(to_lowercase w \<mapsto> next_label v)"
  have v': "l = next_label v" "word_to_label v' = ?m" "next_label v' = next_label v + 1"
    using assms(3) None by (auto simp: intern_def)
  have up: "next_label v < next_label v + 1"
    using next_small [OF assms(2)] by (simp add: word_less_nat_alt)
  have old: "word_to_label v k = Some x \<Longrightarrow> x < next_label v" for k x
    using assms(1) by (auto simp: wf_vocab_def)
  have "inj_on ?m (dom ?m)"
  proof (rule inj_onI)
    fix a b assume "a \<in> dom ?m" "b \<in> dom ?m" "?m a = ?m b"
    then show "a = b"
      using assms(1) old [of a "next_label v"] old [of b "next_label v"]
      by (auto simp: wf_vocab_def inj_on_def split: if_splits)
  qed
  moreover have "x \<noteq> EPSILON \<and> x < next_label v + 1" if "?m k = Some x" for k x
    using that old [of k x] assms(1) up order.strict_trans [OF old [of k x] up]
    by (auto simp: wf_vocab_def EPSILON_def split: if_splits)
  moreover have "next_label v + 1 \<noteq> 0" using up by auto
  ultimately have "wf_vocab v'" by (simp add: wf_vocab_def v')
  moreover have "vocab_extends v v'"
    using None by (auto simp: vocab_extends_def v' map_le_def)
  moreover have "l \<noteq> EPSILON" using assms(1) v' by (simp add: wf_vocab_def EPSILON_def)
  ultimately show ?thesis using v' next_small [OF assms(2)] by simp
qed

section \<open>What a grammar means\<close>

fun lang :: "xre \<Rightarrow> string list set" where
  "lang (Symbol s) = {map to_lowercase (split_whitespace s)}"
| "lang (Concatenate a b) = (\<lambda>(u, w). u @ w) ` (lang a \<times> lang b)"
| "lang (Union a b) = lang a \<union> lang b"
| "lang (Optional a) = insert [] (lang a)"
| "lang (Group a) = lang a"
| "lang (Other_xre d) = {}"

lemma lang_Concatenate: "lang (Concatenate a b) = {u @ w | u w. u \<in> lang a \<and> w \<in> lang b}"
  by auto

fun word_count :: "xre \<Rightarrow> nat" where
  "word_count (Symbol s) = length (split_whitespace s)"
| "word_count (Concatenate a b) = word_count a + word_count b"
| "word_count (Union a b) = word_count a + word_count b"
| "word_count (Optional a) = word_count a"
| "word_count (Group a) = word_count a"
| "word_count (Other_xre d) = 0"

fun supported :: "xre \<Rightarrow> bool" where
  "supported (Symbol s) = True"
| "supported (Concatenate a b) = (supported a \<and> supported b)"
| "supported (Union a b) = (supported a \<and> supported b)"
| "supported (Optional a) = supported a"
| "supported (Group a) = supported a"
| "supported (Other_xre d) = False"

definition labels :: "vocab \<Rightarrow> string list \<Rightarrow> label list" where
  "labels v ws = map (\<lambda>w. the (word_to_label v w)) ws"

lemma labels_simps [simp]:
  "labels v [] = []" "labels v (w # ws) = the (word_to_label v w) # labels v ws"
  "labels v (us @ ws) = labels v us @ labels v ws"
  by (simp_all add: labels_def)

lemma labels_seq:
  "x \<in> labels V ` {u @ w | u w. u \<in> L1 \<and> w \<in> L2} \<longleftrightarrow>
   (\<exists>a b. x = a @ b \<and> a \<in> labels V ` L1 \<and> b \<in> labels V ` L2)"
proof
  assume "x \<in> labels V ` {u @ w | u w. u \<in> L1 \<and> w \<in> L2}"
  then obtain u w where "x = labels V u @ labels V w" "u \<in> L1" "w \<in> L2" by auto
  then show "\<exists>a b. x = a @ b \<and> a \<in> labels V ` L1 \<and> b \<in> labels V ` L2" by blast
next
  assume "\<exists>a b. x = a @ b \<and> a \<in> labels V ` L1 \<and> b \<in> labels V ` L2"
  then obtain u w where "x = labels V (u @ w)" "u \<in> L1" "w \<in> L2" by auto
  then show "x \<in> labels V ` {u @ w | u w. u \<in> L1 \<and> w \<in> L2}" by blast
qed

section \<open>Compilation is correct\<close>

text \<open>
  The outcome of compiling: the graph gains a fragment whose paths spell, under the vocabulary and any
  extension of it, exactly the words of a language.
\<close>

definition compiled ::
  "('f \<Rightarrow> graph) \<Rightarrow> string list set \<Rightarrow> nat \<Rightarrow> 'f \<Rightarrow> vocab \<Rightarrow> nat \<Rightarrow> nat \<Rightarrow> 'f \<Rightarrow> vocab
   \<Rightarrow> (nat \<times> label \<times> nat) set \<Rightarrow> bool" where
  "compiled view ws s f v k e f' v' B \<longleftrightarrow>
     fragment B (g_states (view f)) (g_states (view f')) s e \<and>
     view f' = (view f)\<lparr>g_states := g_states (view f'), g_arcs := g_arcs (view f) \<union> B\<rparr> \<and>
     wf_vocab v' \<and> vocab_extends v v' \<and> unat (next_label v') \<le> unat (next_label v) + k \<and>
     (\<forall>w \<in> ws. set w \<subseteq> dom (word_to_label v')) \<and>
     (\<forall>V. vocab_extends v' V \<longrightarrow> (\<forall>w. path B s w e \<longleftrightarrow> w \<in> labels V ` ws))"

lemma add_state:
  assumes "mutator_laws X view"
  obtains f' where "fst_add_state X f = (g_states (view f), f')"
    "view f' = (view f)\<lparr>g_states := Suc (g_states (view f))\<rparr>"
  using assms unfolding mutator_laws_def by metis

lemma emplace_tr:
  assumes "mutator_laws X view" "s < g_states (view f)" "t < g_states (view f)"
  obtains f' where "fst_emplace_tr X f s l t = Inr f'"
    "view f' = (view f)\<lparr>g_arcs := insert (s, l, t) (g_arcs (view f))\<rparr>"
  using assms unfolding mutator_laws_def by metis

lemma compiled_nothing:
  assumes "s < g_states (view f)" "wf_vocab v"
  shows "compiled view {[]} s f v 0 s f v {}"
  using assms by (auto simp: compiled_def fragment_empty)

lemma compiledD:
  assumes "compiled view ws s f v k e f' v' B"
  shows "fragment B (g_states (view f)) (g_states (view f')) s e"
    and "view f' = (view f)\<lparr>g_states := g_states (view f'), g_arcs := g_arcs (view f) \<union> B\<rparr>"
    and "wf_vocab v'" and "vocab_extends v v'" and "unat (next_label v') \<le> unat (next_label v) + k"
    and "w \<in> ws \<Longrightarrow> set w \<subseteq> dom (word_to_label v')"
    and "vocab_extends v' V \<Longrightarrow> path B s x e \<longleftrightarrow> x \<in> labels V ` ws"
  using assms unfolding compiled_def by blast+

lemma dom_extends: "vocab_extends v v' \<Longrightarrow> dom (word_to_label v) \<subseteq> dom (word_to_label v')"
  unfolding vocab_extends_def by (rule map_le_implies_dom_le)

text \<open>Adding arcs in two steps.\<close>

lemma view_seq:
  assumes "G1 = G\<lparr>g_states := n1, g_arcs := g_arcs G \<union> B1\<rparr>"
    and "G2 = G1\<lparr>g_states := n2, g_arcs := g_arcs G1 \<union> B2\<rparr>"
  shows "G2 = G\<lparr>g_states := n2, g_arcs := g_arcs G \<union> (B1 \<union> B2)\<rparr>"
  by (simp add: assms Un_assoc)

lemma path_stuck: "(\<And>l u. (s, l, u) \<notin> A) \<Longrightarrow> path A s w t \<longleftrightarrow> w = [] \<and> t = s"
  by (auto elim: path.cases intro: path.here)

lemma path_arc:
  assumes "s \<noteq> n" "l \<noteq> EPSILON"
  shows "path {(s, l, n)} s w n \<longleftrightarrow> w = [l]"
proof
  assume "path {(s, l, n)} s w n"
  then show "w = [l]"
  proof (cases rule: path.cases)
    case (arc m u v)
    then have "v = []" using path_stuck [of n "{(s, l, n)}" v n] assms by auto
    then show ?thesis using arc by simp
  qed (use assms in auto)
qed (use assms in \<open>auto intro: path.intros\<close>)

lemma compiled_seq:
  assumes 1: "compiled view L1 s f v k1 m f1 v1 B1" and 2: "compiled view L2 m f1 v1 k2 e f2 v2 B2"
  shows "compiled view {u @ w | u w. u \<in> L1 \<and> w \<in> L2} s f v (k1 + k2) e f2 v2 (B1 \<union> B2)"
  unfolding compiled_def
proof (intro conjI allI impI ballI)
  note frags = compiledD(1) [OF 1] compiledD(1) [OF 2]
  show "fragment (B1 \<union> B2) (g_states (view f)) (g_states (view f2)) s e"
    by (rule fragment_seq [OF frags])
  show "view f2 = (view f)\<lparr>g_states := g_states (view f2), g_arcs := g_arcs (view f) \<union> (B1 \<union> B2)\<rparr>"
    by (rule view_seq [OF compiledD(2) [OF 1] compiledD(2) [OF 2]])
  show "wf_vocab v2" by (rule compiledD(3) [OF 2])
  show "vocab_extends v v2" by (rule vocab_extends_trans [OF compiledD(4) [OF 1] compiledD(4) [OF 2]])
  show "unat (next_label v2) \<le> unat (next_label v) + (k1 + k2)"
    using compiledD(5) [OF 1] compiledD(5) [OF 2] by simp
  show "set w \<subseteq> dom (word_to_label v2)" if "w \<in> {u @ w | u w. u \<in> L1 \<and> w \<in> L2}" for w
    using that compiledD(6) [OF 1] compiledD(6) [OF 2] dom_extends [OF compiledD(4) [OF 2]] by fastforce
  show "path (B1 \<union> B2) s w e \<longleftrightarrow> w \<in> labels V ` {u @ w | u w. u \<in> L1 \<and> w \<in> L2}"
    if V: "vocab_extends v2 V" for V w
    unfolding path_seq [OF frags] labels_seq
    using compiledD(7) [OF 1 vocab_extends_trans [OF compiledD(4) [OF 2] V]] compiledD(7) [OF 2 V] by simp
qed

lemma compiled_word:
  assumes laws: "mutator_laws X view" and v: "wf_vocab v" "unat (next_label v) + 1 < 2 ^ 32"
    and s: "s < g_states (view f)" and l: "intern v w = (l, v')"
    and f1: "fst_add_state X f = (n, f1)" and f2: "fst_emplace_tr X f1 s l n = Inr f2"
  shows "compiled view {[to_lowercase w]} s f v 1 n f2 v' {(s, l, n)} \<and> n < g_states (view f2)"
proof -
  note word = intern_spec [OF v l]
  have n: "n = g_states (view f)" "view f1 = (view f)\<lparr>g_states := Suc n\<rparr>"
    using add_state [OF laws, of f] f1 by auto
  have view: "view f2 = (view f)\<lparr>g_states := Suc n, g_arcs := g_arcs (view f) \<union> {(s, l, n)}\<rparr>"
    using emplace_tr [OF laws, of s f1 n l] f2 s n by auto
  have "path {(s, l, n)} s x n \<longleftrightarrow> x = [l]" for x
    using path_arc [of s n l x] s n word by auto
  then have "path {(s, l, n)} s x n \<longleftrightarrow> x \<in> labels V ` {[to_lowercase w]}" if "vocab_extends v' V" for V x
    using vocab_extendsD [OF that] word by auto
  then show ?thesis
    using view n s word by (auto simp: compiled_def fragment_def)
qed

lemma compile_words_correct:
  assumes laws: "mutator_laws X view"
  shows "wf_vocab v \<Longrightarrow> unat (next_label v) + length ws < 2 ^ 32 \<Longrightarrow> s < g_states (view f) \<Longrightarrow>
    \<exists>e f' v' B. compile_words X ws s f v = Inr (e, f', v') \<and>
      compiled view {map to_lowercase ws} s f v (length ws) e f' v' B"
proof (induction ws arbitrary: s f v)
  case Nil
  then have "compiled view {[]} s f v 0 s f v {}" by (intro compiled_nothing)
  then show ?case by auto
next
  case (Cons w ws)
  obtain l v1 where l: "intern v w = (l, v1)" by force
  obtain f1 where f1: "fst_add_state X f = (g_states (view f), f1)"
      "view f1 = (view f)\<lparr>g_states := Suc (g_states (view f))\<rparr>"
    by (rule add_state [OF laws])
  obtain f2 where f2: "fst_emplace_tr X f1 s l (g_states (view f)) = Inr f2"
    by (rule emplace_tr [OF laws, of s f1 "g_states (view f)" l]) (use f1 Cons.prems in auto)
  have one: "compiled view {[to_lowercase w]} s f v 1 (g_states (view f)) f2 v1 {(s, l, g_states (view f))}"
    and lt: "g_states (view f) < g_states (view f2)"
    using compiled_word [OF laws Cons.prems(1) _ Cons.prems(3) l f1(1) f2] Cons.prems(2) by simp_all
  have "unat (next_label v1) + length ws < 2 ^ 32"
    using compiledD(5) [OF one] Cons.prems(2) by simp
  from Cons.IH [OF compiledD(3) [OF one] this lt] obtain e f' v' B where
      rest: "compile_words X ws (g_states (view f)) f2 v1 = Inr (e, f', v')"
        "compiled view {map to_lowercase ws} (g_states (view f)) f2 v1 (length ws) e f' v' B"
    by blast
  have "{u @ x | u x. u \<in> {[to_lowercase w]} \<and> x \<in> {map to_lowercase ws}} = {map to_lowercase (w # ws)}"
    by auto
  then show ?case
    using compiled_seq [OF one rest(2)] rest(1) l f1(1) f2 by (auto simp: fst_try_def)
qed

lemma join_correct:
  assumes laws: "mutator_laws X view"
    and 1: "compiled view L1 s f v k1 a f1 v1 B1" and 2: "compiled view L2 s f1 v1 k2 b f2 v2 B2"
  shows "\<exists>e f' B. join_branches X a b f2 v2 = Inr (e, f', v2) \<and>
    compiled view (L1 \<union> L2) s f v (k1 + k2) e f' v2 B"
proof -
  note frag1 = compiledD(1) [OF 1] and frag2 = compiledD(1) [OF 2]
  let ?n = "g_states (view f2)"
  have below: "a < ?n" "b < ?n"
    using fragment_bounds [OF frag1] fragment_bounds [OF frag2] by auto
  obtain g1 where g1: "fst_add_state X f2 = (?n, g1)" "view g1 = (view f2)\<lparr>g_states := Suc ?n\<rparr>"
    by (rule add_state [OF laws])
  obtain g2 where g2: "fst_emplace_tr X g1 a EPSILON ?n = Inr g2"
      "view g2 = (view g1)\<lparr>g_arcs := insert (a, EPSILON, ?n) (g_arcs (view g1))\<rparr>"
    by (rule emplace_tr [OF laws, of a g1 ?n EPSILON]) (use below g1 in auto)
  obtain g3 where g3: "fst_emplace_tr X g2 b EPSILON ?n = Inr g3"
      "view g3 = (view g2)\<lparr>g_arcs := insert (b, EPSILON, ?n) (g_arcs (view g2))\<rparr>"
    by (rule emplace_tr [OF laws, of b g2 ?n EPSILON]) (use below g1 g2 in auto)
  have "compiled view (L1 \<union> L2) s f v (k1 + k2) ?n g3 v2 (joined (B1 \<union> B2) a b ?n)"
    unfolding compiled_def
  proof (intro conjI allI impI ballI)
    have states: "g_states (view g3) = Suc ?n" by (simp add: g3 g2 g1)
    show "fragment (joined (B1 \<union> B2) a b ?n) (g_states (view f)) (g_states (view g3)) s ?n"
      unfolding states by (rule fragment_joined [OF frag1 frag2])
    have "G3 = G\<lparr>g_states := Suc k, g_arcs := g_arcs G \<union> joined B a b c\<rparr>"
      if "G2 = G\<lparr>g_states := k, g_arcs := g_arcs G \<union> B\<rparr>"
        "G3 = G2\<lparr>g_states := Suc k, g_arcs := insert (b, EPSILON, c) (insert (a, EPSILON, c) (g_arcs G2))\<rparr>"
      for G G2 G3 k B c
      using that by (simp add: joined_def insert_commute)
    from this [OF view_seq [OF compiledD(2) [OF 1] compiledD(2) [OF 2]], of "view g3" ?n]
    show "view g3 = (view f)
        \<lparr>g_states := g_states (view g3), g_arcs := g_arcs (view f) \<union> joined (B1 \<union> B2) a b ?n\<rparr>"
      unfolding states by (simp add: g3(2) g2(2) g1(2))
    show "wf_vocab v2" by (rule compiledD(3) [OF 2])
    show "vocab_extends v v2" by (rule vocab_extends_trans [OF compiledD(4) [OF 1] compiledD(4) [OF 2]])
    show "unat (next_label v2) \<le> unat (next_label v) + (k1 + k2)"
      using compiledD(5) [OF 1] compiledD(5) [OF 2] by simp
    show "set w \<subseteq> dom (word_to_label v2)" if "w \<in> L1 \<union> L2" for w
      using that compiledD(6) [OF 1] compiledD(6) [OF 2] dom_extends [OF compiledD(4) [OF 2]] by blast
    show "path (joined (B1 \<union> B2) a b ?n) s w ?n \<longleftrightarrow> w \<in> labels V ` (L1 \<union> L2)"
      if V: "vocab_extends v2 V" for V w
      unfolding path_joined [OF frag1 frag2] image_Un
      using compiledD(7) [OF 1 vocab_extends_trans [OF compiledD(4) [OF 2] V]] compiledD(7) [OF 2 V] by simp
  qed
  then show ?thesis
    using g1(1) g2(1) g3(1) by (auto simp: join_branches_def fst_try_def)
qed

lemma compile_expr_correct:
  assumes laws: "mutator_laws X view"
  shows "supported x \<Longrightarrow> wf_vocab v \<Longrightarrow> unat (next_label v) + word_count x < 2 ^ 32 \<Longrightarrow>
    s < g_states (view f) \<Longrightarrow>
    \<exists>e f' v' B. compile_expr X g x s f v = Inr (e, f', v') \<and>
      compiled view (lang x) s f v (word_count x) e f' v' B"
proof (induction x arbitrary: s f v)
  case (Symbol t)
  then show ?case using compile_words_correct [OF laws] by simp
next
  case (Concatenate a b)
  obtain m f1 v1 B1 where 1: "compile_expr X g a s f v = Inr (m, f1, v1)"
      "compiled view (lang a) s f v (word_count a) m f1 v1 B1"
    using Concatenate.IH(1) [of v s f] Concatenate.prems by auto
  obtain e f2 v2 B2 where 2: "compile_expr X g b m f1 v1 = Inr (e, f2, v2)"
      "compiled view (lang b) m f1 v1 (word_count b) e f2 v2 B2"
    using Concatenate.IH(2) [of v1 m f1] Concatenate.prems compiledD(3,5) [OF 1(2)]
      fragment_bounds(4) [OF compiledD(1) [OF 1(2)]] by auto
  show ?case
    unfolding lang_Concatenate using compiled_seq [OF 1(2) 2(2)] 1(1) 2(1) by (auto simp: intent_try_def)
next
  case (Union a b)
  obtain m f1 v1 B1 where 1: "compile_expr X g a s f v = Inr (m, f1, v1)"
      "compiled view (lang a) s f v (word_count a) m f1 v1 B1"
    using Union.IH(1) [of v s f] Union.prems by auto
  obtain e f2 v2 B2 where 2: "compile_expr X g b s f1 v1 = Inr (e, f2, v2)"
      "compiled view (lang b) s f1 v1 (word_count b) e f2 v2 B2"
    using Union.IH(2) [of v1 s f1] Union.prems compiledD(3,5) [OF 1(2)]
      fragment_bounds(2,3) [OF compiledD(1) [OF 1(2)]] by auto
  show ?case using join_correct [OF laws 1(2) 2(2)] 1(1) 2(1) by (auto simp: intent_try_def)
next
  case (Optional a)
  obtain m f1 v1 B1 where 1: "compile_expr X g a s f v = Inr (m, f1, v1)"
      "compiled view (lang a) s f v (word_count a) m f1 v1 B1"
    using Optional.IH [of v s f] Optional.prems by auto
  have "compiled view {[]} s f1 v1 0 s f1 v1 {}"
    by (rule compiled_nothing)
      (use Optional.prems compiledD(3) [OF 1(2)] fragment_bounds(2,3) [OF compiledD(1) [OF 1(2)]] in auto)
  then show ?case using join_correct [OF laws 1(2)] 1(1) by (fastforce simp: intent_try_def)
qed auto

text \<open>A whole grammar, after the epsilon arcs are gone.\<close>

definition grammar_automaton :: "graph \<Rightarrow> vocab \<Rightarrow> string list set \<Rightarrow> bool" where
  "grammar_automaton G v ws \<longleftrightarrow>
     wf_graph G \<and> epsilon_free G \<and> (\<forall>w \<in> ws. set w \<subseteq> dom (word_to_label v)) \<and>
     (\<forall>V. vocab_extends v V \<longrightarrow> (\<forall>w. accepts G w \<longleftrightarrow> w \<in> labels V ` ws))"

lemma grammar_automaton_extends:
  "grammar_automaton G v ws \<Longrightarrow> vocab_extends v v' \<Longrightarrow> grammar_automaton G v' ws"
  unfolding grammar_automaton_def
  by (metis (no_types, lifting) dom_extends vocab_extends_trans subset_trans)

lemma set_start:
  assumes "mutator_laws X view" "s < g_states (view f)"
  obtains f' where "fst_set_start X f s = Inr f'" "view f' = (view f)\<lparr>g_start := Some s\<rparr>"
  using assms unfolding mutator_laws_def by metis

lemma set_final:
  assumes "mutator_laws X view" "s < g_states (view f)"
  obtains f' where "fst_set_final X f s = Inr f'"
    "view f' = (view f)\<lparr>g_finals := insert s (g_finals (view f))\<rparr>"
  using assms unfolding mutator_laws_def by metis

text \<open>The one way in which a supported grammar may fail to compile.\<close>

definition epsilon_failure :: "'f rustfst \<Rightarrow> ('f \<Rightarrow> graph) \<Rightarrow> intent_error \<Rightarrow> bool" where
  "epsilon_failure X view e \<longleftrightarrow> (\<exists>f m. wf_graph (view f) \<and> fst_rm_epsilon X f = Inl m \<and> e = Fst_error m)"

lemma compile_grammar_correct:
  assumes X: "vector_fst X view" and src: "xre_parse src = Inr x" "supported x"
    and v: "wf_vocab v" "unat (next_label v) + word_count x < 2 ^ 32"
  shows "case compile_grammar X xre_parse src v g of
      Inl e \<Rightarrow> epsilon_failure X view e
    | Inr (f, v') \<Rightarrow> wf_vocab v' \<and> vocab_extends v v' \<and>
        unat (next_label v') \<le> unat (next_label v) + word_count x \<and> grammar_automaton (view f) v' (lang x)"
proof -
  have laws: "mutator_laws X view" "rm_epsilon_law X view" using X by (simp_all add: vector_fst_def)
  have new: "view (fst_new X) = \<lparr>g_states = 0, g_arcs = {}, g_finals = {}, g_start = None\<rparr>"
    using laws(1) by (simp add: mutator_laws_def)
  obtain f0 where f0: "fst_add_state X (fst_new X) = (0, f0)"
      "view f0 = \<lparr>g_states = 1, g_arcs = {}, g_finals = {}, g_start = None\<rparr>"
    using add_state [OF laws(1), of "fst_new X"] new by auto
  obtain f1 where f1: "fst_set_start X f0 0 = Inr f1"
      "view f1 = \<lparr>g_states = 1, g_arcs = {}, g_finals = {}, g_start = Some 0\<rparr>"
    by (rule set_start [OF laws(1), of 0 f0]) (use f0(2) in auto)
  obtain e f2 v2 B where f2: "compile_expr X g x 0 f1 v = Inr (e, f2, v2)"
      "compiled view (lang x) 0 f1 v (word_count x) e f2 v2 B"
    using compile_expr_correct [OF laws(1) src(2) v, of 0 f1 g] f1(2) by auto
  note frag = compiledD(1) [OF f2(2)]
  have view2: "view f2 = \<lparr>g_states = g_states (view f2), g_arcs = B, g_finals = {}, g_start = Some 0\<rparr>"
    using compiledD(2) [OF f2(2)] f1(2) by simp
  have "e < g_states (view f2)" using fragment_bounds(4) [OF frag] .
  then obtain f3 where f3: "fst_set_final X f2 e = Inr f3" "view f3 = (view f2)\<lparr>g_finals := insert e (g_finals (view f2))\<rparr>"
    by (rule set_final [OF laws(1)])
  have view3: "view f3 = \<lparr>g_states = g_states (view f2), g_arcs = B, g_finals = {e}, g_start = Some 0\<rparr>"
    using f3(2) by (subst (asm) view2) (subst (asm) (2) view2, simp)
  have "s < g_states (view f2) \<and> t < g_states (view f2)" if "(s, l, t) \<in> B" for s l t
    using fragment_arc [OF frag that] f1(2) by auto
  then have wf3: "wf_graph (view f3)"
    using fragment_bounds [OF frag] f1(2) by (auto simp: wf_graph_def view3)
  have run: "compile_grammar X xre_parse src v g = fst_try (fst_rm_epsilon X f3) (\<lambda>f4. Inr (f4, v2))"
    using src(1) f0(1) f1(1) f2(1) f3(1) by (simp add: compile_grammar_def fst_try_def intent_try_def)
  show ?thesis
  proof (cases "fst_rm_epsilon X f3")
    case (Inl m)
    then show ?thesis using run wf3 by (auto simp: fst_try_def epsilon_failure_def)
  next
    case (Inr f4)
    then have f4: "wf_graph (view f4)" "epsilon_free (view f4)" "\<And>w. accepts (view f4) w = accepts (view f3) w"
      using laws(2) wf3 unfolding rm_epsilon_law_def by blast+
    have "accepts (view f4) w \<longleftrightarrow> w \<in> labels V ` lang x" if "vocab_extends v2 V" for V w
    proof -
      have "accepts (view f3) w \<longleftrightarrow> path B 0 w e" by (simp add: accepts_def view3)
      then show ?thesis using compiledD(7) [OF f2(2) that, of w] f4(3) by simp
    qed
    then have "grammar_automaton (view f4) v2 (lang x)"
      using f4 compiledD(6) [OF f2(2)] by (auto simp: grammar_automaton_def)
    then show ?thesis using run Inr compiledD(3-5) [OF f2(2)] by (simp add: fst_try_def)
  qed
qed

section \<open>The matcher\<close>

text \<open>The reference: the greatest number up to \<open>n\<close> with a property.\<close>

fun greatest_upto :: "(nat \<Rightarrow> bool) \<Rightarrow> nat \<Rightarrow> nat option" where
  "greatest_upto P 0 = (if P 0 then Some 0 else None)"
| "greatest_upto P (Suc n) = (if P (Suc n) then Some (Suc n) else greatest_upto P n)"

lemma greatest_upto_Some:
  "greatest_upto P n = Some k \<longleftrightarrow> k \<le> n \<and> P k \<and> (\<forall>j. k < j \<and> j \<le> n \<longrightarrow> \<not> P j)"
  by (induction n) (auto simp: le_Suc_eq)

lemma greatest_upto_None: "greatest_upto P n = None \<longleftrightarrow> (\<forall>k \<le> n. \<not> P k)"
  by (induction n) (auto simp: le_Suc_eq)

lemma greatest_upto_stable: "m \<le> n \<Longrightarrow> (\<And>k. m < k \<Longrightarrow> k \<le> n \<Longrightarrow> \<not> P k) \<Longrightarrow> greatest_upto P n = greatest_upto P m"
  by (induction n) (auto simp: le_Suc_eq)

lemma greatest_upto_cong: "(\<And>k. k \<le> n \<Longrightarrow> P k = Q k) \<Longrightarrow> greatest_upto P n = greatest_upto Q n"
  by (induction n) auto

definition reach :: "graph \<Rightarrow> nat \<Rightarrow> label list \<Rightarrow> nat set" where
  "reach G s w = {t. path (g_arcs G) s w t}"

lemma path_snoc:
  assumes "epsilon_free G"
  shows "path (g_arcs G) s (w @ [l]) t \<longleftrightarrow> (\<exists>u. path (g_arcs G) s w u \<and> (u, l, t) \<in> g_arcs G)"
proof -
  have free: "(a, EPSILON, b) \<notin> g_arcs G" for a b
    using assms unfolding epsilon_free_def by blast
  have nil: "path (g_arcs G) a [] b \<longleftrightarrow> a = b" for a b
    using free by (auto elim: path.cases intro: path.here)
  have cons: "path (g_arcs G) a (k # v) b \<longleftrightarrow> (\<exists>u. (a, k, u) \<in> g_arcs G \<and> path (g_arcs G) u v b)" for a k v b
    using free by (auto elim: path.cases intro: path.arc)
  show ?thesis
    by (induction w arbitrary: s) (auto simp: nil cons)
qed

lemma reach_Nil: "epsilon_free G \<Longrightarrow> reach G s [] = {s}"
  unfolding reach_def epsilon_free_def by (auto elim: path.cases intro: path.here)

lemma reach_snoc:
  "epsilon_free G \<Longrightarrow> reach G s (w @ [l]) = (\<Union>u \<in> reach G s w. {t. (u, l, t) \<in> g_arcs G})"
  by (auto simp: reach_def path_snoc)

lemma reach_empty: "epsilon_free G \<Longrightarrow> reach G s w = {} \<Longrightarrow> reach G s (w @ v) = {}"
proof (induction v rule: rev_induct)
  case (snoc l v)
  then show ?case using reach_snoc [of G s "w @ v" l] by simp
qed simp

lemma path_valid: "path A s w t \<Longrightarrow> (\<And>a l b. (a, l, b) \<in> A \<Longrightarrow> b < n) \<Longrightarrow> s < n \<Longrightarrow> t < n"
  by (induction rule: path.induct) auto

lemma reach_valid: "wf_graph G \<Longrightarrow> g_start G = Some s \<Longrightarrow> t \<in> reach G s w \<Longrightarrow> t < g_states G"
  unfolding reach_def wf_graph_def by (rule path_valid [of "g_arcs G" s w t]) auto

lemma accepts_reach: "g_start G = Some s \<Longrightarrow> accepts G w \<longleftrightarrow> reach G s w \<inter> g_finals G \<noteq> {}"
  by (auto simp: accepts_def reach_def)

lemma step_set_reach:
  assumes obs: "observer_laws X view" and G: "wf_graph (view f)" "epsilon_free (view f)"
      "g_start (view f) = Some s"
  shows "step_set X f (reach (view f) s w) tok = Inr (reach (view f) s (w @ [tok]))"
proof -
  have trs: "\<exists>ts. fst_get_trs X f u = Some ts \<and> set ts = {(l, t). (u, l, t) \<in> g_arcs (view f)}"
    if "u \<in> reach (view f) s w" for u
    using obs reach_valid [OF G(1,3) that] unfolding observer_laws_def by blast
  then have "\<not> (\<exists>u \<in> reach (view f) s w. fst_get_trs X f u = None)" by fastforce
  moreover have "set (map snd (filter (\<lambda>(l, t). l = tok) (the (fst_get_trs X f u))))
      = {t. (u, tok, t) \<in> g_arcs (view f)}" if "u \<in> reach (view f) s w" for u
    using trs [OF that] by force
  ultimately show ?thesis
    by (simp add: step_set_def reach_snoc [OF G(2)])
qed

lemma final_reach:
  assumes obs: "observer_laws X view" and G: "wf_graph (view f)" "g_start (view f) = Some s"
  shows "(\<exists>t \<in> reach (view f) s w. final_state X f t) \<longleftrightarrow> accepts (view f) w"
  using obs reach_valid [OF G] accepts_reach [OF G(2)]
  by (auto simp: observer_laws_def final_state_def)

lemma match_from_spec:
  assumes obs: "observer_laws X view" and G: "wf_graph (view f)" "epsilon_free (view f)"
      "g_start (view f) = Some s"
  shows "match_from X f toks (length w) (reach (view f) s w)
      (greatest_upto (\<lambda>k. accepts (view f) (take k (w @ toks))) (length w))
    = Inr (greatest_upto (\<lambda>k. accepts (view f) (take k (w @ toks))) (length (w @ toks)))"
proof (induction toks arbitrary: w)
  case (Cons tok toks)
  let ?P = "\<lambda>k. accepts (view f) (take k (w @ tok # toks))"
  have step: "step_set X f (reach (view f) s w) tok = Inr (reach (view f) s (w @ [tok]))"
    by (rule step_set_reach [OF obs G])
  show ?case
  proof (cases "reach (view f) s (w @ [tok]) = {}")
    case True
    have "\<not> ?P k" if "length w < k" "k \<le> length (w @ tok # toks)" for k
    proof -
      have "take k (w @ tok # toks) = (w @ [tok]) @ take (k - Suc (length w)) toks"
        using that by (simp add: take_Cons')
      then show ?thesis
        using reach_empty [OF G(2) True] by (simp add: accepts_reach [OF G(3)])
    qed
    then show ?thesis
      using step True greatest_upto_stable [of "length w" "length (w @ tok # toks)" ?P] by simp
  next
    case False
    then show ?thesis
      using Cons.IH [of "w @ [tok]"] step by (simp add: final_reach [OF obs G(1,3)])
  qed
qed simp

lemma longest_matching_prefix_spec:
  assumes "vector_fst X view" "grammar_automaton (view f) v ws"
  shows "longest_matching_prefix X f toks =
    Inr (greatest_upto (\<lambda>k. accepts (view f) (take k toks)) (length toks))"
proof -
  have obs: "observer_laws X view" using assms(1) by (simp add: vector_fst_def)
  have G: "wf_graph (view f)" "epsilon_free (view f)"
    using assms(2) by (auto simp: grammar_automaton_def)
  show ?thesis
  proof (cases "g_start (view f)")
    case None
    then have none: "\<not> accepts (view f) w" for w by (simp add: accepts_def)
    have "greatest_upto (\<lambda>k. accepts (view f) (take k toks)) (length toks) = None"
      by (simp add: greatest_upto_None none)
    with None obs show ?thesis by (simp add: longest_matching_prefix_def observer_laws_def)
  next
    case (Some s)
    then have start: "fst_start X f = Some s" using obs by (simp add: observer_laws_def)
    have "final_state X f s \<longleftrightarrow> accepts (view f) []"
      using final_reach [OF obs G(1) Some, of "[]"] by (simp add: reach_Nil [OF G(2)])
    then show ?thesis
      using match_from_spec [OF obs G Some, of toks "[]"] start
      by (simp add: longest_matching_prefix_def reach_Nil [OF G(2)])
  qed
qed

end
