(* ===== verification/Intent.thy ===== *)
theory Intent
  imports Grammar_Correct Protocol_Types "HOL-Library.Sublist"
begin

text \<open>
  Commands in plain text (\<open>crates/intent/src/lib.rs\<close>, \<open>slots.rs\<close>, \<open>intent.rs\<close>) and the resolution of
  the names in them (\<open>crates/server/src/routes/intent.rs\<close>). Text is ASCII here.
\<close>

section \<open>The grammars\<close>

definition grammar_files :: "(string \<times> string) list" where
  "grammar_files = map (\<lambda>(name, line). (name, line @ [CHR 0x0A]))
     [(''pause'', ''(\"please\") [\"pause\" | \"halt\" | \"suspend\"] (\"the\") \"session\"''),
      (''resume'', ''(\"please\") [\"resume\" | \"reactivate\" | \"unpause\"] (\"the\") \"session\"''),
      (''archive'', ''(\"please\") \"archive\" (\"the\") \"session\"''),
      (''approve'', ''(\"please\") \"approve\" ([\"this\" | \"it\"])''),
      (''deny'', ''(\"please\") [\"deny\" | \"reject\"] ([\"this\" | \"it\"])''),
      (''claim'', ''(\"please\") \"claim\" ([\"this\" | \"it\"])''),
      (''invite'', ''(\"please\") \"invite\"''),
      (''transfer'', ''(\"please\") \"transfer\" (\"ownership\")''),
      (''goto'', ''(\"please\") [\"go\" \"to\" | \"jump\" \"to\" | \"switch\" \"to\" | \"goto\"]''),
      (''attach'', ''(\"please\") \"attach\"'')]"

text \<open>The compiled grammars in their order of priority, over one vocabulary.\<close>

record 'f grammars =
  gr_vocab :: vocab
  gr_candidates :: "(string \<times> 'f) list"

fun compile_all ::
  "'f rustfst \<Rightarrow> (string \<Rightarrow> string + xre) \<Rightarrow> (string \<times> string) list \<Rightarrow> vocab \<Rightarrow> intent_error + 'f grammars" where
  "compile_all X xre_parse [] v = Inr \<lparr>gr_vocab = v, gr_candidates = []\<rparr>"
| "compile_all X xre_parse ((name, src) # files) v =
     intent_try (compile_grammar X xre_parse src v name) (\<lambda>(f, v1).
     intent_try (compile_all X xre_parse files v1) (\<lambda>G.
       Inr (G\<lparr>gr_candidates := (name, f) # gr_candidates G\<rparr>)))"

definition build_grammars :: "'f rustfst \<Rightarrow> (string \<Rightarrow> string + xre) \<Rightarrow> intent_error + 'f grammars" where
  "build_grammars X xre_parse = compile_all X xre_parse grammar_files new_vocab"

section \<open>Tokens\<close>

definition is_punctuation :: "char \<Rightarrow> bool" where
  "is_punctuation c \<longleftrightarrow> c \<in> {CHR ''.'', CHR '','', CHR ''!'', CHR ''?'', CHR '';'', CHR '':''}"

definition trim_matches :: "(char \<Rightarrow> bool) \<Rightarrow> string \<Rightarrow> string" where
  "trim_matches P s = rev (dropWhile P (rev (dropWhile P s)))"

definition tokenize :: "string \<Rightarrow> string list" where
  "tokenize text =
     filter (\<lambda>w. w \<noteq> []) (map (\<lambda>w. to_lowercase (trim_matches is_punctuation w)) (split_whitespace text))"

fun join_words :: "string list \<Rightarrow> string" where
  "join_words [] = []"
| "join_words [w] = w"
| "join_words (w # ws) = w @ '' '' @ join_words ws"

section \<open>Slots\<close>

definition eq_ignore_ascii_case :: "string \<Rightarrow> string \<Rightarrow> bool" where
  "eq_ignore_ascii_case a b \<longleftrightarrow> to_lowercase a = to_lowercase b"

fun find_index :: "('a \<Rightarrow> bool) \<Rightarrow> 'a list \<Rightarrow> nat option" where
  "find_index P [] = None"
| "find_index P (x # xs) = (if P x then Some 0 else map_option Suc (find_index P xs))"

definition find_marker :: "string list \<Rightarrow> string \<Rightarrow> nat option" where
  "find_marker ws marker = find_index (\<lambda>w. eq_ignore_ascii_case w marker) ws"

definition join_range :: "string list \<Rightarrow> nat \<Rightarrow> nat \<Rightarrow> string option" where
  "join_range ws a b =
     (if b \<le> a then None
      else let joined = join_words (take (b - a) (drop a ws)) in if joined = [] then None else Some joined)"

text \<open>\<open>str::parse::<i64>\<close>.\<close>

fun decimal :: "int \<Rightarrow> string \<Rightarrow> int option" where
  "decimal acc [] = Some acc"
| "decimal acc (c # cs) =
     (case char_digit c of None \<Rightarrow> None | Some d \<Rightarrow> decimal (10 * acc + int d) cs)"

definition in_i64 :: "int \<Rightarrow> int option" where
  "in_i64 n = (if - (2 ^ 63) \<le> n \<and> n < 2 ^ 63 then Some n else None)"

definition parse_i64 :: "string \<Rightarrow> int option" where
  "parse_i64 s =
     (case s of
        [] \<Rightarrow> None
      | c # cs \<Rightarrow>
          if c = CHR ''-'' then (if cs = [] then None else Option.bind (decimal 0 cs) (\<lambda>n. in_i64 (- n)))
          else if c = CHR ''+'' then (if cs = [] then None else Option.bind (decimal 0 cs) in_i64)
          else Option.bind (decimal 0 s) in_i64)"

text \<open>Multiplication of \<open>i64\<close> values wraps in a release build.\<close>

definition i64_mult :: "int \<Rightarrow> int \<Rightarrow> int" where
  "i64_mult a b = sint (word_of_int (a * b) :: 64 word)"

definition strip_suffix_s :: "string \<Rightarrow> string" where
  "strip_suffix_s s = (if s \<noteq> [] \<and> last s = CHR ''s'' then butlast s else s)"

definition duration_unit_secs :: "string \<Rightarrow> int option" where
  "duration_unit_secs word =
     (let singular = strip_suffix_s (to_lowercase word)
      in if singular = ''second'' \<or> singular = ''sec'' then Some 1
         else if singular = ''minute'' \<or> singular = ''min'' then Some 60
         else if singular = ''hour'' \<or> singular = ''hr'' then Some 3600
         else if singular = ''day'' then Some 86400
         else if singular = ''week'' then Some 604800
         else None)"

text \<open>The first number followed by a unit is taken out of the words.\<close>

fun extract_duration_secs :: "string list \<Rightarrow> int option \<times> string list" where
  "extract_duration_secs (w # u # ws) =
     (case (parse_i64 w, duration_unit_secs u) of
        (Some n, Some mult) \<Rightarrow> (Some (i64_mult n mult), ws)
      | _ \<Rightarrow> (case extract_duration_secs (u # ws) of (d, rest) \<Rightarrow> (d, w # rest)))"
| "extract_duration_secs ws = (None, ws)"

definition opt_min :: "nat option \<Rightarrow> nat option \<Rightarrow> nat option" where
  "opt_min a b =
     (case (a, b) of (Some x, Some y) \<Rightarrow> Some (min x y) | (Some x, None) \<Rightarrow> Some x | (None, y) \<Rightarrow> y)"

definition nth_opt :: "'a list \<Rightarrow> nat \<Rightarrow> 'a option" where
  "nth_opt xs i = (if i < length xs then Some (xs ! i) else None)"

text \<open>\<open>a.filter(|x| x > b).unwrap_or(d)\<close>.\<close>

definition bound_after :: "nat option \<Rightarrow> nat \<Rightarrow> nat \<Rightarrow> nat" where
  "bound_after a b d = (case a of Some x \<Rightarrow> if b < x then x else d | None \<Rightarrow> d)"

definition extract_invite ::
  "string \<Rightarrow> member_role \<times> string option \<times> string option \<times> int option" where
  "extract_invite remainder =
     (case extract_duration_secs (split_whitespace remainder) of
        (ttl_secs, ws) \<Rightarrow>
          let as_pos = find_marker ws ''as'';
              to_pos = find_marker ws ''to'';
              invitee_end = (case opt_min as_pos to_pos of None \<Rightarrow> length ws | Some p \<Rightarrow> p);
              role = (case Option.bind (Option.bind as_pos (\<lambda>p. nth_opt ws (p + 1)))
                             (\<lambda>w. role_from_str (to_lowercase w)) of
                        None \<Rightarrow> Collaborator | Some r \<Rightarrow> r);
              invitee = join_range ws 0 invitee_end;
              target = Option.bind to_pos
                (\<lambda>tp. join_range ws (tp + 1) (bound_after as_pos tp (length ws)))
          in (role, invitee, target, ttl_secs))"

definition extract_transfer :: "string \<Rightarrow> string option \<times> string option" where
  "extract_transfer remainder =
     (let ws = split_whitespace remainder;
          to_pos = find_marker ws ''to'';
          in_pos = find_marker ws ''in'';
          recipient =
            (case to_pos of
               Some tp \<Rightarrow> join_range ws (tp + 1) (bound_after in_pos tp (length ws))
             | None \<Rightarrow> (case in_pos of
                         Some ip \<Rightarrow> join_range ws 0 ip
                       | None \<Rightarrow> join_range ws 0 (length ws)));
          target = Option.bind in_pos
            (\<lambda>ip. join_range ws (ip + 1) (bound_after to_pos ip (length ws)))
      in (recipient, target))"

definition extract_target_session_only :: "string \<Rightarrow> string option" where
  "extract_target_session_only remainder =
     (let ws = split_whitespace remainder
      in Option.bind (find_marker ws ''in'') (\<lambda>ip. join_range ws (ip + 1) (length ws)))"

definition extract_attach :: "string \<Rightarrow> string option \<times> int option \<times> string option" where
  "extract_attach remainder =
     (case extract_duration_secs (split_whitespace remainder) of
        (ttl_secs, ws) \<Rightarrow>
          let in_pos = find_marker ws ''in''
          in (join_range ws 0 (case in_pos of None \<Rightarrow> length ws | Some ip \<Rightarrow> ip), ttl_secs,
              Option.bind in_pos (\<lambda>ip. join_range ws (ip + 1) (length ws))))"

section \<open>Intents\<close>

datatype intent =
    Intent_pause | Intent_resume | Intent_archive | Intent_approve | Intent_deny | Intent_claim
  | Intent_invite member_role "string option" "int option"
  | Intent_transfer string
  | Intent_navigate
  | Intent_attach "string option" "int option"

type_synonym parsed_intent = "intent \<times> string option"

text \<open>The best candidate: the first of those that match the longest prefix, if it is not empty.\<close>

fun best_match ::
  "'f rustfst \<Rightarrow> label list \<Rightarrow> (string \<times> 'f) list \<Rightarrow> (string \<times> nat) option \<Rightarrow> (string \<times> nat) option result" where
  "best_match X labs [] best = Inr best"
| "best_match X labs ((name, f) # cs) best =
     bind_result (longest_matching_prefix X f labs) (\<lambda>found.
       best_match X labs cs
         (case found of
            None \<Rightarrow> best
          | Some len \<Rightarrow>
              if len = 0 then best
              else (case best of
                      Some (_, best_len) \<Rightarrow> if len \<le> best_len then best else Some (name, len)
                    | None \<Rightarrow> Some (name, len))))"

definition UNKNOWN :: label where "UNKNOWN = - 1"

definition token_labels :: "vocab \<Rightarrow> string list \<Rightarrow> label list" where
  "token_labels v tokens = map (\<lambda>t. case lookup_word v t of None \<Rightarrow> UNKNOWN | Some l \<Rightarrow> l) tokens"

definition is_blank :: "string \<Rightarrow> bool" where
  "is_blank s \<longleftrightarrow> list_all is_space s"

definition trim :: "string \<Rightarrow> string" where
  "trim s = trim_matches is_space s"

definition intent_of :: "string \<Rightarrow> string \<Rightarrow> parsed_intent option" where
  "intent_of name remainder =
     (if name = ''pause'' then Some (Intent_pause, extract_target_session_only remainder)
      else if name = ''resume'' then Some (Intent_resume, extract_target_session_only remainder)
      else if name = ''archive'' then Some (Intent_archive, extract_target_session_only remainder)
      else if name = ''approve'' then Some (Intent_approve, extract_target_session_only remainder)
      else if name = ''deny'' then Some (Intent_deny, extract_target_session_only remainder)
      else if name = ''claim'' then Some (Intent_claim, extract_target_session_only remainder)
      else if name = ''invite'' then
        (case extract_invite remainder of
           (role, invitee, target, ttl) \<Rightarrow> Some (Intent_invite role invitee ttl, target))
      else if name = ''transfer'' then
        (case extract_transfer remainder of
           (recipient, target) \<Rightarrow> map_option (\<lambda>r. (Intent_transfer r, target)) recipient)
      else if name = ''goto'' then
        (let t = trim remainder in if t = [] then None else Some (Intent_navigate, Some t))
      else
        (case extract_attach remainder of (n, ttl, target) \<Rightarrow> Some (Intent_attach n ttl, target)))"

definition parse_intent :: "'f rustfst \<Rightarrow> 'f grammars \<Rightarrow> string \<Rightarrow> parsed_intent option result" where
  "parse_intent X G text =
     (let tokens = tokenize text
      in bind_result (best_match X (token_labels (gr_vocab G) tokens) (gr_candidates G) None) (\<lambda>best.
           Inr (case best of
                  None \<Rightarrow> None
                | Some (name, consumed) \<Rightarrow> intent_of name (join_words (drop consumed tokens)))))"

section \<open>Names\<close>

datatype name_resolution =
    Name_matched string string "string option"
  | Name_ambiguous "(string \<times> string \<times> string option) list"
  | Name_not_found

definition contains :: "string \<Rightarrow> string \<Rightarrow> bool" where
  "contains s needle \<longleftrightarrow> sublist needle s"

definition resolve_by_name ::
  "string \<Rightarrow> (string \<times> string \<times> string option) list \<Rightarrow> name_resolution" where
  "resolve_by_name raw items =
     (let needle = to_lowercase raw;
          exact = filter (\<lambda>(_, n, _). to_lowercase n = needle) items;
          tier = (if exact \<noteq> [] then exact
                  else filter (\<lambda>(_, n, _). contains (to_lowercase n) needle) items)
      in case tier of
           [] \<Rightarrow> Name_not_found
         | [(i, n, e)] \<Rightarrow> Name_matched i n e
         | many \<Rightarrow> Name_ambiguous many)"

end
