(* ===== verification/Intent_Properties.thy ===== *)
theory Intent_Properties
  imports Intent
begin

text \<open>
  Commands are recognised as the grammars say, their slots are read back as they were written, and a
  name is resolved only when one candidate is left.
\<close>

section \<open>All grammars at once\<close>

definition source_lang :: "(string \<Rightarrow> string + xre) \<Rightarrow> string \<Rightarrow> string list set" where
  "source_lang xre_parse src = (case xre_parse src of Inl _ \<Rightarrow> {} | Inr x \<Rightarrow> lang x)"

definition source_words :: "(string \<Rightarrow> string + xre) \<Rightarrow> string \<Rightarrow> nat" where
  "source_words xre_parse src = (case xre_parse src of Inl _ \<Rightarrow> 0 | Inr x \<Rightarrow> word_count x)"

definition parses :: "(string \<Rightarrow> string + xre) \<Rightarrow> string \<Rightarrow> bool" where
  "parses xre_parse src \<longleftrightarrow> (case xre_parse src of Inl _ \<Rightarrow> False | Inr x \<Rightarrow> supported x)"

lemma compile_all_correct:
  assumes X: "vector_fst X view"
  shows "wf_vocab v \<Longrightarrow> unat (next_label v) + sum_list (map (source_words xre_parse \<circ> snd) files) < 2 ^ 32 \<Longrightarrow>
    list_all (parses xre_parse \<circ> snd) files \<Longrightarrow>
    (case compile_all X xre_parse files v of
       Inl e \<Rightarrow> epsilon_failure X view e
     | Inr G \<Rightarrow> wf_vocab (gr_vocab G) \<and> vocab_extends v (gr_vocab G) \<and>
         list_all2 (\<lambda>(n, f) (n', src). n = n' \<and> grammar_automaton (view f) (gr_vocab G) (source_lang xre_parse src))
           (gr_candidates G) files)"
proof (induction files arbitrary: v)
  case (Cons entry files)
  obtain name src where entry: "entry = (name, src)" by force
  obtain x where x: "xre_parse src = Inr x" "supported x"
    using Cons.prems(3) by (auto simp: entry parses_def split: sum.splits)
  have count: "source_words xre_parse src = word_count x" and words: "source_lang xre_parse src = lang x"
    by (simp_all add: source_words_def source_lang_def x)
  note one = compile_grammar_correct [OF X, of xre_parse src x v name]
  show ?case
  proof (cases "compile_grammar X xre_parse src v name")
    case (Inl e)
    then show ?thesis using one x Cons.prems by (simp add: entry count intent_try_def)
  next
    case (Inr fv)
    obtain f v1 where fv: "fv = (f, v1)" by force
    have f: "wf_vocab v1" "vocab_extends v v1" "unat (next_label v1) \<le> unat (next_label v) + word_count x"
        "grammar_automaton (view f) v1 (lang x)"
      using one x Cons.prems by (simp_all add: entry count Inr fv)
    note rest = Cons.IH [of v1]
    show ?thesis
    proof (cases "compile_all X xre_parse files v1")
      case (Inl e)
      then show ?thesis using rest f \<open>compile_grammar X xre_parse src v name = Inr fv\<close> Cons.prems
        by (simp add: entry count fv intent_try_def)
    next
      case (Inr G)
      have G: "wf_vocab (gr_vocab G)" "vocab_extends v1 (gr_vocab G)"
          "list_all2 (\<lambda>(n, f) (n', src). n = n' \<and> grammar_automaton (view f) (gr_vocab G) (source_lang xre_parse src))
            (gr_candidates G) files"
        using rest f Cons.prems by (simp_all add: entry count Inr)
      have "grammar_automaton (view f) (gr_vocab G) (source_lang xre_parse src)"
        using grammar_automaton_extends [OF f(4) G(2)] words by simp
      then show ?thesis
        using f G Inr \<open>compile_grammar X xre_parse src v name = Inr fv\<close> vocab_extends_trans [OF f(2) G(2)]
        by (simp add: entry fv intent_try_def)
    qed
  qed
qed simp

section \<open>Tokens and labels\<close>

lemma lower_char_idem [simp]: "lower_char (lower_char c) = lower_char c"
  by (auto simp: lower_char_def Let_def)

lemma to_lowercase_idem [simp]: "to_lowercase (to_lowercase s) = to_lowercase s"
  by (simp add: to_lowercase_def)

definition lower_case :: "string \<Rightarrow> bool" where
  "lower_case t \<longleftrightarrow> to_lowercase t = t"

lemma tokenize_lower: "t \<in> set (tokenize text) \<Longrightarrow> lower_case t"
  by (auto simp: tokenize_def lower_case_def)

lemma label_known:
  assumes "wf_vocab v" "word_to_label v w = Some l"
  shows "l \<noteq> UNKNOWN"
proof -
  have "l < next_label v" using assms by (simp add: wf_vocab_def)
  then have "l < - 1" using order.strict_trans2 word_order.extremum by blast
  then show ?thesis by (simp add: UNKNOWN_def)
qed

lemma token_labels_inj:
  assumes v: "wf_vocab v"
  shows "list_all lower_case toks \<Longrightarrow> list_all (\<lambda>w. w \<in> dom (word_to_label v)) ws \<Longrightarrow>
    token_labels v toks = labels v ws \<longleftrightarrow> toks = ws"
proof (induction toks arbitrary: ws)
  case (Cons t toks)
  show ?case
  proof (cases ws)
    case (Cons w us)
    then obtain l where l: "word_to_label v w = Some l" using Cons.prems by auto
    have "(case lookup_word v t of None \<Rightarrow> UNKNOWN | Some k \<Rightarrow> k) = l \<longleftrightarrow> t = w"
    proof (cases "word_to_label v t")
      case None
      then show ?thesis
        using l Cons.prems(1) label_known [OF v l] by (auto simp: lookup_word_def lower_case_def)
    next
      case (Some k)
      moreover have "inj_on (word_to_label v) (dom (word_to_label v))" using v by (simp add: wf_vocab_def)
      ultimately have "k = l \<longleftrightarrow> t = w" using l by (metis domI inj_onD option.inject)
      then show ?thesis using Some Cons.prems(1) by (simp add: lookup_word_def lower_case_def)
    qed
    then show ?thesis
      using Cons Cons.prems Cons.IH [of us] l by (simp add: token_labels_def)
  qed (simp add: token_labels_def)
qed (auto simp: token_labels_def labels_def)

lemma accepts_tokens:
  assumes "wf_vocab v" "grammar_automaton G v ws" "list_all lower_case toks"
  shows "accepts G (token_labels v toks) \<longleftrightarrow> toks \<in> ws"
proof -
  have "accepts G (token_labels v toks) \<longleftrightarrow> token_labels v toks \<in> labels v ` ws"
    using assms(2) by (simp add: grammar_automaton_def)
  moreover have "token_labels v toks = labels v w \<longleftrightarrow> toks = w" if "w \<in> ws" for w
    using token_labels_inj [OF assms(1,3), of w] assms(2) that
    by (auto simp: grammar_automaton_def list_all_iff)
  ultimately show ?thesis by auto
qed

section \<open>Which command a text is\<close>

text \<open>A command of \<open>k\<close> words at the beginning of the tokens.\<close>

definition matches :: "string list set \<Rightarrow> string list \<Rightarrow> nat \<Rightarrow> bool" where
  "matches L toks k \<longleftrightarrow> 0 < k \<and> k \<le> length toks \<and> take k toks \<in> L"

definition recognised ::
  "(string \<times> string list set) list \<Rightarrow> string list \<Rightarrow> (string \<times> nat) option \<Rightarrow> bool" where
  "recognised Ls toks r \<longleftrightarrow>
     (case r of
        None \<Rightarrow> \<forall>(n, M) \<in> set Ls. \<forall>j. \<not> matches M toks j
      | Some (name, k) \<Rightarrow>
          \<exists>xs L ys. Ls = xs @ (name, L) # ys \<and> matches L toks k \<and>
            (\<forall>(n, M) \<in> set Ls. \<forall>j. matches M toks j \<longrightarrow> j \<le> k) \<and>
            (\<forall>(n, M) \<in> set xs. \<not> matches M toks k))"

lemma recognised_Nil: "recognised [] toks None"
  by (simp add: recognised_def)

lemma recognised_snoc:
  assumes rec: "recognised Ls toks best"
    and found: "found = greatest_upto (\<lambda>k. take k toks \<in> L) (length toks)"
  shows "recognised (Ls @ [(name, L)]) toks
    (case found of
       None \<Rightarrow> best
     | Some len \<Rightarrow>
         if len = 0 then best
         else (case best of
                 Some (_, best_len) \<Rightarrow> if len \<le> best_len then best else Some (name, len)
               | None \<Rightarrow> Some (name, len)))"
proof (cases "\<exists>len. found = Some len \<and> 0 < len")
  case False
  have "\<not> matches L toks j" for j
    using False greatest_upto_None [of "\<lambda>k. take k toks \<in> L" "length toks"]
      greatest_upto_Some [of "\<lambda>k. take k toks \<in> L" "length toks" 0]
    by (cases found) (auto simp: matches_def found)
  then have "recognised (Ls @ [(name, L)]) toks best"
    using rec by (fastforce simp: recognised_def split: option.splits)
  then show ?thesis using False by (auto split: option.splits)
next
  case True
  then obtain len where len: "found = Some len" "0 < len" by blast
  have here: "matches L toks len" "\<And>j. matches L toks j \<Longrightarrow> j \<le> len"
    using len greatest_upto_Some [of "\<lambda>k. take k toks \<in> L" "length toks" len]
    by (auto simp: matches_def found) (meson not_le_imp_less)
  show ?thesis
  proof (cases best)
    case None
    then have "\<forall>(n, M) \<in> set Ls. \<forall>j. \<not> matches M toks j" using rec by (simp add: recognised_def)
    then have "recognised (Ls @ [(name, L)]) toks (Some (name, len))"
      using here unfolding recognised_def by fastforce
    then show ?thesis using None len by simp
  next
    case (Some b)
    obtain bn bl where b: "b = (bn, bl)" by force
    then obtain xs M ys where old: "Ls = xs @ (bn, M) # ys" "matches M toks bl"
        "\<forall>(n, M) \<in> set Ls. \<forall>j. matches M toks j \<longrightarrow> j \<le> bl" "\<forall>(n, M) \<in> set xs. \<not> matches M toks bl"
      using rec Some by (auto simp: recognised_def)
    show ?thesis
    proof (cases "len \<le> bl")
      case True
      have "Ls @ [(name, L)] = xs @ (bn, M) # (ys @ [(name, L)])" using old(1) by simp
      moreover have "\<forall>(n, M) \<in> set (Ls @ [(name, L)]). \<forall>j. matches M toks j \<longrightarrow> j \<le> bl"
        using old(3) here(2) True by fastforce
      ultimately have "recognised (Ls @ [(name, L)]) toks (Some (bn, bl))"
        using old(2,4) by (auto simp: recognised_def)
      then show ?thesis using Some b len True by simp
    next
      case False
      have "\<forall>(n, M) \<in> set Ls. \<not> matches M toks len" using old(3) False by fastforce
      moreover have "\<forall>(n, M) \<in> set (Ls @ [(name, L)]). \<forall>j. matches M toks j \<longrightarrow> j \<le> len"
        using old(3) here(2) False by fastforce
      ultimately have "recognised (Ls @ [(name, L)]) toks (Some (name, len))"
        using here(1) by (auto simp: recognised_def)
      then show ?thesis using Some b len False by simp
    qed
  qed
qed

lemma best_match_recognised:
  assumes "list_all2 (\<lambda>(n, f) (n', L). n = n' \<and>
      longest_matching_prefix X f labs = Inr (greatest_upto (\<lambda>k. take k toks \<in> L) (length toks))) cs Ls"
    and "recognised seen toks best"
  shows "\<exists>r. best_match X labs cs best = Inr r \<and> recognised (seen @ Ls) toks r"
  using assms
proof (induction cs Ls arbitrary: seen best rule: list_all2_induct)
  case (Cons c cs L Ls)
  obtain n f M where c: "c = (n, f)" "L = (n, M)"
      "longest_matching_prefix X f labs = Inr (greatest_upto (\<lambda>k. take k toks \<in> M) (length toks))"
    using Cons.hyps(1) by (cases c, cases L) auto
  show ?case
    using Cons.IH [OF recognised_snoc [OF Cons.prems refl, where L = M and name = n]] by (simp add: c)
qed simp

text \<open>
  C34 (a command is the longest match of the grammars): under the documented behaviour of the automaton
  library, if every bundled grammar parses into supported constructs and their words can be numbered,
  the grammars fail to compile only when the library's removal of epsilon arcs reports an error, which
  is then the error reported; and once they are compiled, for every text the parser chooses the command
  that a grammar's language matches on the longest non-empty prefix of the tokens, the first of them in
  the order of priority if several match as much, and none if no grammar matches a prefix.
\<close>

theorem command_recognition:
  assumes "vector_fst X view" and "list_all (parses xre_parse \<circ> snd) grammar_files"
    and "sum_list (map (source_words xre_parse \<circ> snd) grammar_files) + 1 < 2 ^ 32"
  shows "case build_grammars X xre_parse of
      Inl e \<Rightarrow> \<exists>f m. wf_graph (view f) \<and> fst_rm_epsilon X f = Inl m \<and> e = Fst_error m
    | Inr G \<Rightarrow> \<forall>text. \<exists>r. best_match X (token_labels (gr_vocab G) (tokenize text)) (gr_candidates G) None = Inr r \<and>
       recognised (map (\<lambda>(n, src). (n, source_lang xre_parse src)) grammar_files) (tokenize text) r"
proof (cases "compile_all X xre_parse grammar_files new_vocab")
  case (Inl e)
  have "unat (next_label new_vocab) + sum_list (map (source_words xre_parse \<circ> snd) grammar_files) < 2 ^ 32"
    using assms(3) by (simp add: new_vocab_def)
  from compile_all_correct [OF assms(1) wf_new_vocab this assms(2)] Inl show ?thesis
    by (simp add: build_grammars_def epsilon_failure_def)
next
  case (Inr G)
  have "unat (next_label new_vocab) + sum_list (map (source_words xre_parse \<circ> snd) grammar_files) < 2 ^ 32"
    using assms(3) by (simp add: new_vocab_def)
  from compile_all_correct [OF assms(1) wf_new_vocab this assms(2)] Inr have
    G: "compile_all X xre_parse grammar_files new_vocab = Inr G" "wf_vocab (gr_vocab G)"
      "list_all2 (\<lambda>(n, f) (n', src). n = n' \<and> grammar_automaton (view f) (gr_vocab G) (source_lang xre_parse src))
        (gr_candidates G) grammar_files"
    by simp_all
  have "\<exists>r. best_match X (token_labels (gr_vocab G) toks) (gr_candidates G) None = Inr r \<and>
      recognised ([] @ map (\<lambda>(n, src). (n, source_lang xre_parse src)) grammar_files) toks r"
    if low: "list_all lower_case toks" for toks
  proof (rule best_match_recognised [OF _ recognised_Nil])
    have take: "accepts (view f) (take k (token_labels (gr_vocab G) toks)) \<longleftrightarrow> take k toks \<in> L"
      if "grammar_automaton (view f) (gr_vocab G) L" for f k L
      using accepts_tokens [OF G(2) that, of "take k toks"] low
      by (simp add: token_labels_def take_map list_all_iff) (meson in_set_takeD)
    have "longest_matching_prefix X f (token_labels (gr_vocab G) toks)
        = Inr (greatest_upto (\<lambda>k. take k toks \<in> L) (length toks))"
      if "grammar_automaton (view f) (gr_vocab G) L" for f L
      using longest_matching_prefix_spec [OF assms(1) that, of "token_labels (gr_vocab G) toks"] take [OF that]
      by (simp add: token_labels_def)
    then show "list_all2 (\<lambda>(n, f) (n', L). n = n' \<and> longest_matching_prefix X f (token_labels (gr_vocab G) toks)
        = Inr (greatest_upto (\<lambda>k. take k toks \<in> L) (length toks)))
      (gr_candidates G) (map (\<lambda>(n, src). (n, source_lang xre_parse src)) grammar_files)"
      using G(3) by (auto simp: list_all2_map2 split_def elim!: list_all2_mono)
  qed
  moreover have "list_all lower_case (tokenize t)" for t
    using tokenize_lower by (auto simp: list_all_iff)
  ultimately show ?thesis using G(1) by (auto simp: build_grammars_def)
qed

section \<open>Slots\<close>

definition plain_word :: "string \<Rightarrow> bool" where
  "plain_word w \<longleftrightarrow> w \<noteq> [] \<and> list_all (\<lambda>c. \<not> is_space c) w"

lemma split_words_plain:
  "list_all (\<lambda>c. \<not> is_space c) w \<Longrightarrow> split_words acc (w @ cs) = split_words (rev w @ acc) cs"
  by (induction w arbitrary: acc) auto

lemma split_join: "list_all plain_word ws \<Longrightarrow> split_whitespace (join_words ws) = ws"
proof (induction ws rule: join_words.induct)
  case (2 w)
  then show ?case using split_words_plain [of w "[]" "[]"] by (simp add: split_whitespace_def plain_word_def)
next
  case (3 w v ws)
  have "is_space (CHR '' '')" by (simp add: is_space_def)
  then show ?case
    using 3 split_words_plain [of w "[]" "CHR '' '' # join_words (v # ws)"]
    by (simp add: split_whitespace_def plain_word_def)
qed (simp add: split_whitespace_def)

lemma find_index_append:
  "find_index P (xs @ ys) =
     (case find_index P xs of Some i \<Rightarrow> Some i | None \<Rightarrow> map_option (\<lambda>i. length xs + i) (find_index P ys))"
  by (induction xs) (cases "find_index P ys"; auto split: option.splits)+

lemma find_index_None: "find_index P xs = None \<longleftrightarrow> list_all (\<lambda>x. \<not> P x) xs"
  by (induction xs) auto

text \<open>A word of a name: not a marker and not a number.\<close>

definition name_word :: "string \<Rightarrow> bool" where
  "name_word w \<longleftrightarrow>
     plain_word w \<and> to_lowercase w \<notin> {''as'', ''to'', ''in''} \<and> parse_i64 w = None"

definition name_words :: "string list \<Rightarrow> bool" where
  "name_words ws \<longleftrightarrow> ws \<noteq> [] \<and> list_all name_word ws"

fun role_word :: "member_role \<Rightarrow> string" where
  "role_word Owner = ''owner''"
| "role_word Collaborator = ''collaborator''"
| "role_word Observer = ''observer''"
| "role_word Agent = ''agent''"

definition role_clause :: "member_role option \<Rightarrow> string list" where
  "role_clause r = (case r of None \<Rightarrow> [] | Some q \<Rightarrow> [''as'', role_word q])"

definition session_clause :: "string \<Rightarrow> string list option \<Rightarrow> string list" where
  "session_clause marker s = (case s of None \<Rightarrow> [] | Some ws \<Rightarrow> marker # ws)"

definition duration_clause :: "(string \<times> string) option \<Rightarrow> string list" where
  "duration_clause d = (case d of None \<Rightarrow> [] | Some (n, u) \<Rightarrow> [n, u])"

definition duration_ok :: "(string \<times> string) option \<Rightarrow> bool" where
  "duration_ok d \<longleftrightarrow>
     (case d of None \<Rightarrow> True
      | Some (n, u) \<Rightarrow> plain_word n \<and> plain_word u \<and> parse_i64 n \<noteq> None \<and> duration_unit_secs u \<noteq> None)"

definition duration_secs :: "(string \<times> string) option \<Rightarrow> int option" where
  "duration_secs d =
     (case d of None \<Rightarrow> None
      | Some (n, u) \<Rightarrow> Some (i64_mult (the (parse_i64 n)) (the (duration_unit_secs u))))"

definition session_ok :: "string list option \<Rightarrow> bool" where
  "session_ok s \<longleftrightarrow> (case s of None \<Rightarrow> True | Some ws \<Rightarrow> name_words ws)"

lemma extract_duration_none: "list_all (\<lambda>w. parse_i64 w = None) ws \<Longrightarrow> extract_duration_secs ws = (None, ws)"
  by (induction ws rule: extract_duration_secs.induct) auto

lemma extract_duration_skip:
  assumes "list_all (\<lambda>w. parse_i64 w = None) ws" "us \<noteq> []"
  shows "extract_duration_secs (ws @ us) = (case extract_duration_secs us of (d, rest) \<Rightarrow> (d, ws @ rest))"
  using assms
proof (induction ws)
  case (Cons w ws)
  then obtain v vs where "ws @ us = v # vs" by (cases "ws @ us") auto
  then show ?case using Cons by (auto split: prod.splits)
qed simp

text \<open>A duration between words that are no numbers is found and taken out.\<close>

lemma extract_duration_clause:
  assumes "list_all (\<lambda>w. parse_i64 w = None) ws" "list_all (\<lambda>w. parse_i64 w = None) vs" "duration_ok d"
  shows "extract_duration_secs (ws @ duration_clause d @ vs) = (duration_secs d, ws @ vs)"
proof (cases d)
  case None
  then show ?thesis
    using extract_duration_none [of "ws @ vs"] assms by (simp add: duration_clause_def duration_secs_def)
next
  case (Some nu)
  obtain n u where nu: "nu = (n, u)" by force
  then have "extract_duration_secs (n # u # vs) = (duration_secs d, vs)"
    using Some assms(3) by (auto simp: duration_ok_def duration_secs_def)
  then show ?thesis
    using extract_duration_skip [OF assms(1), of "n # u # vs"] Some nu by (simp add: duration_clause_def)
qed

lemma name_words_none:
  assumes "list_all name_word ws"
  shows "find_index (\<lambda>w. eq_ignore_ascii_case w ''as'') ws = None"
    "find_index (\<lambda>w. eq_ignore_ascii_case w ''to'') ws = None"
    "find_index (\<lambda>w. eq_ignore_ascii_case w ''in'') ws = None"
    "list_all (\<lambda>w. parse_i64 w = None) ws" "list_all plain_word ws"
proof -
  have m: "to_lowercase ''as'' = ''as''" "to_lowercase ''to'' = ''to''" "to_lowercase ''in'' = ''in''"
    by code_simp+
  show "find_index (\<lambda>w. eq_ignore_ascii_case w ''as'') ws = None"
    "find_index (\<lambda>w. eq_ignore_ascii_case w ''to'') ws = None"
    "find_index (\<lambda>w. eq_ignore_ascii_case w ''in'') ws = None"
    "list_all (\<lambda>w. parse_i64 w = None) ws" "list_all plain_word ws"
    using assms by (auto simp: find_index_None name_word_def eq_ignore_ascii_case_def m list_all_iff)
qed

lemma markers:
  "eq_ignore_ascii_case ''as'' ''as''" "eq_ignore_ascii_case ''to'' ''to''" "eq_ignore_ascii_case ''in'' ''in''"
  "\<not> eq_ignore_ascii_case ''as'' ''to''" "\<not> eq_ignore_ascii_case ''as'' ''in''"
  "\<not> eq_ignore_ascii_case ''to'' ''as''" "\<not> eq_ignore_ascii_case ''to'' ''in''"
  "\<not> eq_ignore_ascii_case ''in'' ''as''" "\<not> eq_ignore_ascii_case ''in'' ''to''"
  by code_simp+

lemma role_words:
  "\<not> eq_ignore_ascii_case (role_word r) ''to''" "role_from_str (to_lowercase (role_word r)) = Some r"
  "plain_word (role_word r)" "parse_i64 (role_word r) = None"
  by (induction r; code_simp)+

lemma marker_words:
  "plain_word ''as''" "plain_word ''to''" "plain_word ''in''"
  "parse_i64 ''as'' = None" "parse_i64 ''to'' = None" "parse_i64 ''in'' = None"
  by code_simp+

lemma join_words_nonempty: "list_all name_word ws \<Longrightarrow> ws \<noteq> [] \<Longrightarrow> join_words ws \<noteq> []"
  by (cases ws rule: join_words.cases) (auto simp: name_word_def plain_word_def)

lemma join_range_all:
  "name_words ws \<Longrightarrow> join_range (us @ ws @ vs) (length us) (length us + length ws) = Some (join_words ws)"
  using join_words_nonempty [of ws] by (auto simp: join_range_def name_words_def Let_def)

lemma join_range_at:
  assumes "name_words ws" "xs = us @ ws @ vs" "a = length us" "b = length us + length ws"
  shows "join_range xs a b = Some (join_words ws)"
  using join_range_all [OF assms(1), of us vs] assms by simp

text \<open>
  C35 (slots are read back): an invitation, a transfer and an attachment written with a name, and as
  one likes with a role, a duration and a session, are read back with exactly these: the role or else
  collaborator, the name, the session, the duration in seconds. Words of names are no markers and no
  numbers.
\<close>

theorem slots_roundtrip:
  assumes names: "name_words names" and s: "session_ok s" and d: "duration_ok d"
  shows "extract_invite (join_words (names @ duration_clause d @ role_clause r @ session_clause ''to'' s))
       = (case r of None \<Rightarrow> Collaborator | Some q \<Rightarrow> q, Some (join_words names), map_option join_words s,
          duration_secs d) \<and>
    extract_transfer (join_words (''to'' # names @ session_clause ''in'' s))
       = (Some (join_words names), map_option join_words s) \<and>
    extract_attach (join_words (names @ duration_clause d @ session_clause ''in'' s))
       = (Some (join_words names), duration_secs d, map_option join_words s)"
proof (intro conjI)
  have all: "list_all name_word names" using names by (simp add: name_words_def)
  note none = name_words_none [OF all]
  have sess: "s = Some ws \<Longrightarrow> name_words ws \<and> list_all name_word ws" for ws
    using s by (auto simp: session_ok_def name_words_def)
  have no_session [simp]: "session_clause m None = []" for m
    by (simp add: session_clause_def)
  have plain: "list_all plain_word (duration_clause d)" "list_all plain_word (role_clause r)"
      "list_all (\<lambda>w. parse_i64 w = None) (role_clause r)"
    using d by (auto simp: duration_clause_def duration_ok_def role_clause_def role_words
        marker_words split: option.splits)
  have clause: "list_all plain_word (session_clause ''to'' s)" "list_all plain_word (session_clause ''in'' s)"
      "list_all (\<lambda>w. parse_i64 w = None) (session_clause ''to'' s)"
      "list_all (\<lambda>w. parse_i64 w = None) (session_clause ''in'' s)"
    using name_words_none(4,5) sess by (auto simp: session_clause_def marker_words split: option.splits)
  note plain = plain clause
  show "extract_invite (join_words (names @ duration_clause d @ role_clause r @ session_clause ''to'' s))
       = (case r of None \<Rightarrow> Collaborator | Some q \<Rightarrow> q, Some (join_words names), map_option join_words s,
          duration_secs d)"
  proof -
    let ?ws = "names @ role_clause r @ session_clause ''to'' s"
    have split: "split_whitespace (join_words (names @ duration_clause d @ role_clause r @ session_clause ''to'' s))
        = names @ duration_clause d @ role_clause r @ session_clause ''to'' s"
      by (rule split_join) (simp add: none plain)
    have dur: "extract_duration_secs (names @ duration_clause d @ role_clause r @ session_clause ''to'' s)
        = (duration_secs d, ?ws)"
      by (rule extract_duration_clause) (simp_all add: none plain d)
    have as_pos: "find_marker ?ws ''as'' = (if r = None then None else Some (length names))"
      using sess by (auto simp: find_marker_def find_index_append none role_clause_def session_clause_def
          markers name_words_none split: option.splits)
    have to_pos: "find_marker ?ws ''to'' =
        (if s = None then None else Some (length names + length (role_clause r)))"
      using sess by (auto simp: find_marker_def find_index_append none role_clause_def session_clause_def
          markers name_words_none role_words split: option.splits)
    have invitee: "join_range ?ws 0 (length names) = Some (join_words names)"
      by (rule join_range_at [OF names, of _ "[]"]) simp_all
    have target: "join_range ?ws (length names + length (role_clause r) + 1) (length ?ws) = Some (join_words ws)"
      if "s = Some ws" for ws
      by (rule join_range_at [of ws _ "names @ role_clause r @ [''to'']" "[]"])
        (use that sess in \<open>auto simp: session_clause_def\<close>)
    have role: "nth_opt ?ws (length names + 1) = Some (role_word q)" if "r = Some q" for q
      using that by (simp add: nth_opt_def role_clause_def nth_append)
    show ?thesis
    proof (cases r)
      case None
      then show ?thesis
        unfolding extract_invite_def split dur using as_pos to_pos invitee target
        by (cases s) (simp_all add: Let_def opt_min_def bound_after_def role_clause_def)
    next
      case (Some q)
      then show ?thesis
        unfolding extract_invite_def split dur using as_pos to_pos invitee target role
        by (cases s) (simp_all add: Let_def opt_min_def bound_after_def
            role_words role_clause_def)
    qed
  qed
  show "extract_transfer (join_words (''to'' # names @ session_clause ''in'' s))
       = (Some (join_words names), map_option join_words s)"
  proof -
    let ?ws = "''to'' # names @ session_clause ''in'' s"
    have split: "split_whitespace (join_words ?ws) = ?ws"
      by (rule split_join) (simp add: none plain marker_words)
    have to_pos: "find_marker ?ws ''to'' = Some 0"
      by (simp add: find_marker_def markers)
    have in_pos: "find_marker ?ws ''in'' = (if s = None then None else Some (length names + 1))"
      using sess by (auto simp: find_marker_def find_index_append none session_clause_def markers
          name_words_none split: option.splits)
    have "join_range ?ws 1 (length names + 1) = Some (join_words names)"
      by (rule join_range_at [OF names, of _ "[''to'']"]) simp_all
    moreover have "join_range ?ws (length names + 2) (length ?ws) = Some (join_words ws)" if "s = Some ws" for ws
      by (rule join_range_at [of ws _ "''to'' # names @ [''in'']" "[]"])
        (use that sess in \<open>auto simp: session_clause_def\<close>)
    ultimately show ?thesis
      unfolding extract_transfer_def split using to_pos in_pos
      by (cases s) (simp_all add: Let_def bound_after_def session_clause_def)
  qed
  show "extract_attach (join_words (names @ duration_clause d @ session_clause ''in'' s))
       = (Some (join_words names), duration_secs d, map_option join_words s)"
  proof -
    let ?ws = "names @ session_clause ''in'' s"
    have split: "split_whitespace (join_words (names @ duration_clause d @ session_clause ''in'' s))
        = names @ duration_clause d @ session_clause ''in'' s"
      by (rule split_join) (simp add: none plain)
    have dur: "extract_duration_secs (names @ duration_clause d @ session_clause ''in'' s) = (duration_secs d, ?ws)"
      by (rule extract_duration_clause) (simp_all add: none plain d)
    have in_pos: "find_marker ?ws ''in'' = (if s = None then None else Some (length names))"
      using sess by (auto simp: find_marker_def find_index_append none session_clause_def markers
          name_words_none split: option.splits)
    have "join_range ?ws 0 (length names) = Some (join_words names)"
      by (rule join_range_at [OF names, of _ "[]"]) simp_all
    moreover have "join_range ?ws (length names + 1) (length ?ws) = Some (join_words ws)" if "s = Some ws" for ws
      by (rule join_range_at [of ws _ "names @ [''in'']" "[]"])
        (use that sess in \<open>auto simp: session_clause_def\<close>)
    ultimately show ?thesis
      unfolding extract_attach_def split dur using in_pos
      by (cases s) (simp_all add: Let_def session_clause_def)
  qed
qed

theorem slots_roundtrip_witness:
  "extract_invite ''bob 2 days as owner to roman room'' = (Owner, Some ''bob'', Some ''roman room'', Some 172800)"
proof -
  have ok: "name_words [''bob'']" "session_ok (Some [''roman'', ''room''])" "duration_ok (Some (''2'', ''days''))"
    by code_simp+
  have "duration_secs (Some (''2'', ''days'')) = Some 172800"
    by code_simp
  then show ?thesis
    using slots_roundtrip [OF ok, of "Some Owner"]
    by (simp add: duration_clause_def role_clause_def session_clause_def)
qed

text \<open>
  Where the reading departs from what the crate says of itself: a role that does not exist becomes
  collaborator, and a duration that does not fit wraps round, here to a time in the past.
\<close>

lemma unknown_role_invites: "extract_invite ''alice as admin'' = (Collaborator, Some ''alice'', None, None)"
  by code_simp

lemma duration_wraps: "extract_duration_secs [''20000000000000'', ''weeks''] = (Some (- 6350744073709551616), [])"
  by code_simp

section \<open>Names\<close>

text \<open>
  A name is resolved only when it is unambiguous: a resolution is a match exactly when one item
  is left in the first tier that is not empty, the items with that name up to case, and then the items
  that contain it; with two or more in that tier it is ambiguous and lists all of them.
\<close>

theorem resolution_unambiguous:
  "case resolve_by_name raw items of
     Name_matched i n e \<Rightarrow>
       filter (\<lambda>(_, m, _). to_lowercase m = to_lowercase raw) items = [(i, n, e)] \<or>
       filter (\<lambda>(_, m, _). to_lowercase m = to_lowercase raw) items = [] \<and>
         filter (\<lambda>(_, m, _). contains (to_lowercase m) (to_lowercase raw)) items = [(i, n, e)]
   | Name_ambiguous many \<Rightarrow>
       2 \<le> length many \<and>
       (many = filter (\<lambda>(_, m, _). to_lowercase m = to_lowercase raw) items \<or>
        filter (\<lambda>(_, m, _). to_lowercase m = to_lowercase raw) items = [] \<and>
          many = filter (\<lambda>(_, m, _). contains (to_lowercase m) (to_lowercase raw)) items)
   | Name_not_found \<Rightarrow> \<not> (\<exists>(_, m, _) \<in> set items. contains (to_lowercase m) (to_lowercase raw))"
proof -
  let ?exact = "filter (\<lambda>(_, m, _). to_lowercase m = to_lowercase raw) items"
  let ?part = "filter (\<lambda>(_, m, _). contains (to_lowercase m) (to_lowercase raw)) items"
  have tier: "resolve_by_name raw items =
      (case if ?exact \<noteq> [] then ?exact else ?part of
         [] \<Rightarrow> Name_not_found | [(i, n, e)] \<Rightarrow> Name_matched i n e | many \<Rightarrow> Name_ambiguous many)"
    by (simp only: resolve_by_name_def Let_def)
  show ?thesis
  proof (cases "?exact = []")
    case True
    then show ?thesis
      unfolding tier by (cases ?part rule: remdups_adj.cases) (auto simp: filter_empty_conv split_def)
  next
    case False
    then show ?thesis
      unfolding tier by (cases ?exact rule: remdups_adj.cases) (auto simp: split_def)
  qed
qed

section \<open>A concrete automaton library\<close>

text \<open>
  Automata as lists of arcs, with the epsilon arcs removed by taking their closure, and the grammars as
  \<open>nfst_xre\<close> reads them: on these the hypotheses of \<open>command_recognition\<close> hold.
\<close>

record sample_fst =
  sf_states :: nat
  sf_arcs :: "(nat \<times> label \<times> nat) list"
  sf_finals :: "nat list"
  sf_start :: "nat option"

definition sample_view :: "sample_fst \<Rightarrow> graph" where
  "sample_view f =
     \<lparr>g_states = sf_states f, g_arcs = set (sf_arcs f), g_finals = set (sf_finals f), g_start = sf_start f\<rparr>"

definition eps_of :: "(nat \<times> label \<times> nat) list \<Rightarrow> (nat \<times> nat) set" where
  "eps_of arcs = {(s, t). (s, EPSILON, t) \<in> set arcs}"

definition close_epsilon :: "sample_fst \<Rightarrow> sample_fst" where
  "close_epsilon f =
     f\<lparr>sf_arcs := [(s, l, t). s \<leftarrow> [0 ..< sf_states f], (u, l, t) \<leftarrow> sf_arcs f, l \<noteq> EPSILON \<and> (s, u) \<in> (eps_of (sf_arcs f))\<^sup>*],
       sf_finals := [s. s \<leftarrow> [0 ..< sf_states f], \<exists>u \<in> set (sf_finals f). (s, u) \<in> (eps_of (sf_arcs f))\<^sup>*]\<rparr>"

definition sample_rustfst :: "sample_fst rustfst" where
  "sample_rustfst =
     \<lparr>fst_new = \<lparr>sf_states = 0, sf_arcs = [], sf_finals = [], sf_start = None\<rparr>,
      fst_add_state = (\<lambda>f. (sf_states f, f\<lparr>sf_states := Suc (sf_states f)\<rparr>)),
      fst_emplace_tr = (\<lambda>f s l t. Inr (f\<lparr>sf_arcs := (s, l, t) # sf_arcs f\<rparr>)),
      fst_set_start = (\<lambda>f s. Inr (f\<lparr>sf_start := Some s\<rparr>)),
      fst_set_final = (\<lambda>f s. Inr (f\<lparr>sf_finals := s # sf_finals f\<rparr>)),
      fst_rm_epsilon = (\<lambda>f. Inr (close_epsilon f)),
      fst_start = sf_start,
      fst_is_final = (\<lambda>f s. Some (s \<in> set (sf_finals f))),
      fst_get_trs = (\<lambda>f s. Some [(l, t). (u, l, t) \<leftarrow> sf_arcs f, u = s])\<rparr>"

lemma closed_path_step:
  assumes "\<forall>(s, l, t) \<in> A. s < n" "(s, u) \<in> {(s, t). (s, EPSILON, t) \<in> A}\<^sup>*" "path A u w t"
  shows "path A s w t"
  using assms(2,3) by (induction rule: converse_rtrancl_induct) (auto intro: path.eps)

lemma close_accepts:
  assumes wf: "wf_graph (sample_view f)"
  shows "accepts (sample_view (close_epsilon f)) w \<longleftrightarrow> accepts (sample_view f) w"
proof -
  let ?A = "set (sf_arcs f)" and ?E = "(eps_of (sf_arcs f))\<^sup>*" and ?F = "set (sf_finals f)"
  let ?B = "set (sf_arcs (close_epsilon f))" and ?G = "set (sf_finals (close_epsilon f))"
  have arcs: "(s, l, t) \<in> ?B \<longleftrightarrow> s < sf_states f \<and> l \<noteq> EPSILON \<and> (\<exists>u. (s, u) \<in> ?E \<and> (u, l, t) \<in> ?A)" for s l t
    by (force simp: close_epsilon_def)
  have finals: "s \<in> ?G \<longleftrightarrow> s < sf_states f \<and> (\<exists>u \<in> ?F. (s, u) \<in> ?E)" for s
    by (force simp: close_epsilon_def)
  have bound: "s < sf_states f" "t < sf_states f" if "(s, l, t) \<in> ?A" for s l t
    using wf that by (auto simp: wf_graph_def sample_view_def)
  have up: "\<exists>v. path ?B s w v \<and> v \<in> ?G" if "path ?A s w t" "t \<in> ?F" "s < sf_states f" for s w t
    using that
  proof (induction rule: path.induct)
    case (here s)
    then show ?case using finals by (blast intro: path.here)
  next
    case (eps s u w t)
    then obtain v where v: "path ?B u w v" "v \<in> ?G" using bound by blast
    have su: "(s, u) \<in> ?E" using eps(1) by (auto simp: eps_of_def)
    from v(1) show ?case
    proof (cases rule: path.cases)
      case here
      then have "s \<in> ?G" using v(2) finals su eps(5) by (meson rtrancl_trans)
      then show ?thesis using here by (blast intro: path.here)
    next
      case (eps x)
      then show ?thesis using arcs by blast
    next
      case (arc l x w')
      then have "(s, l, x) \<in> ?B" using arcs su eps(5) by (meson rtrancl_trans)
      then show ?thesis using arc v(2) by (blast intro: path.arc)
    qed
  next
    case (arc s l u w t)
    then have "(s, l, u) \<in> ?B" using arcs by blast
    then show ?case using arc bound by (blast intro: path.arc)
  qed
  have down: "\<exists>t. path ?A s w t \<and> t \<in> ?F" if "path ?B s w v" "v \<in> ?G" for s w v
    using that
  proof (induction rule: path.induct)
    case (here s)
    then show ?case
      using finals closed_path_step [of ?A "sf_states f"] bound path.here by (fastforce simp: eps_of_def)
  next
    case (eps s u w t)
    then show ?case using arcs by blast
  next
    case (arc s l u w t)
    then obtain t' x where "path ?A u w t'" "t' \<in> ?F" "(s, x) \<in> ?E" "(x, l, u) \<in> ?A" using arcs by blast
    then show ?case
      using closed_path_step [of ?A "sf_states f" s x "l # w" t'] bound arc(2)
      by (fastforce simp: eps_of_def intro: path.arc)
  qed
  have start: "sf_start (close_epsilon f) = sf_start f" by (simp add: close_epsilon_def)
  have "s < sf_states f" if "sf_start f = Some s" for s
    using wf that by (simp add: wf_graph_def sample_view_def)
  then show ?thesis
    using up down by (fastforce simp: accepts_def sample_view_def start)
qed

lemma sample_vector_fst: "vector_fst sample_rustfst sample_view"
  unfolding vector_fst_def
proof (intro conjI)
  show "mutator_laws sample_rustfst sample_view"
    by (simp add: mutator_laws_def sample_rustfst_def sample_view_def)
  show "observer_laws sample_rustfst sample_view"
    by (auto simp: observer_laws_def sample_rustfst_def sample_view_def)
  have "wf_graph (sample_view (close_epsilon f))" "epsilon_free (sample_view (close_epsilon f))"
    if "wf_graph (sample_view f)" for f
    using that by (auto simp: wf_graph_def epsilon_free_def sample_view_def close_epsilon_def)
  then show "rm_epsilon_law sample_rustfst sample_view"
    using close_accepts by (auto simp: rm_epsilon_law_def sample_rustfst_def)
qed

definition sample_please :: xre where "sample_please = Optional (Symbol ''please'')"

definition sample_grammars :: "xre list" where
  "sample_grammars =
     (let the = Optional (Symbol ''the''); it = Optional (Group (Union (Symbol ''this'') (Symbol ''it'')));
          go = (\<lambda>w. Concatenate (Symbol w) (Symbol ''to''));
          alt3 = (\<lambda>a b c. Group (Union (Union (Symbol a) (Symbol b)) (Symbol c)))
      in map (Concatenate sample_please)
        [Concatenate (alt3 ''pause'' ''halt'' ''suspend'') (Concatenate the (Symbol ''session'')),
         Concatenate (alt3 ''resume'' ''reactivate'' ''unpause'') (Concatenate the (Symbol ''session'')),
         Concatenate (Symbol ''archive'') (Concatenate the (Symbol ''session'')),
         Concatenate (Symbol ''approve'') it,
         Concatenate (Group (Union (Symbol ''deny'') (Symbol ''reject''))) it,
         Concatenate (Symbol ''claim'') it,
         Symbol ''invite'',
         Concatenate (Symbol ''transfer'') (Optional (Symbol ''ownership'')),
         Group (Union (Union (go ''go'') (go ''jump'')) (Union (go ''switch'') (Symbol ''goto''))),
         Symbol ''attach''])"

definition sample_xre_parse :: "string \<Rightarrow> string + xre" where
  "sample_xre_parse src =
     (case map_of (zip (map snd grammar_files) sample_grammars) src of None \<Rightarrow> Inl ''syntax'' | Some x \<Rightarrow> Inr x)"

lemma sample_parses: "list_all (parses sample_xre_parse \<circ> snd) grammar_files"
  by code_simp

lemma sample_words: "sum_list (map (source_words sample_xre_parse \<circ> snd) grammar_files) = 44"
  by code_simp

lemma recognised_first:
  assumes "Ls = (n, L) # ys" "matches L toks k" "\<forall>(n, M) \<in> set Ls. \<forall>j. matches M toks j \<longrightarrow> j \<le> k"
  shows "recognised Ls toks (Some (n, k))"
  unfolding recognised_def option.case prod.case
  by (rule exI [of _ "[]"], rule exI [of _ L], rule exI [of _ ys]) (use assms in simp)

lemma recognised_unique:
  assumes "recognised Ls toks (Some (n, k))" "recognised Ls toks r"
  shows "r = Some (n, k)"
proof -
  obtain xs L ys where a: "Ls = xs @ (n, L) # ys" "matches L toks k"
      "\<forall>(n, M) \<in> set Ls. \<forall>j. matches M toks j \<longrightarrow> j \<le> k" "\<forall>(n, M) \<in> set xs. \<not> matches M toks k"
    using assms(1) by (auto simp: recognised_def)
  have "r \<noteq> None" using assms(2) a(1,2) by (cases r) (auto simp: recognised_def)
  then obtain n' k' xs' L' ys' where b: "r = Some (n', k')" "Ls = xs' @ (n', L') # ys'" "matches L' toks k'"
      "\<forall>(n, M) \<in> set Ls. \<forall>j. matches M toks j \<longrightarrow> j \<le> k'" "\<forall>(n, M) \<in> set xs'. \<not> matches M toks k'"
    using assms(2) by (cases r) (auto simp: recognised_def)
  have mem: "(n, L) \<in> set Ls" "(n', L') \<in> set Ls" using a(1) b(2) by (metis in_set_conv_decomp)+
  have k: "k = k'" using bspec [OF b(4) mem(1)] bspec [OF a(3) mem(2)] a(2) b(3) by (simp add: order.antisym)
  from a(1) b(2) have "xs @ (n, L) # ys = xs' @ (n', L') # ys'" by simp
  then have "(n, L) = (n', L')"
  proof -
    have "(n', L') \<notin> set xs" "(n, L) \<notin> set xs'" using a b k by auto
    moreover have "u = v" if "us @ u # ws = us' @ v # ws'" "u \<notin> set us'" "v \<notin> set us"
      for us us' ws ws' and u v :: "string \<times> string list set"
      using that by (induction us arbitrary: us') (case_tac us'; auto)+
    ultimately show ?thesis using \<open>xs @ (n, L) # ys = xs' @ (n', L') # ys'\<close> by blast
  qed
  then show ?thesis using b(1) k by simp
qed

lemma command_recognition_witness:
  "\<exists>G. build_grammars sample_rustfst sample_xre_parse = Inr G \<and>
     parse_intent sample_rustfst G ''Please halt the session, in Room1!''
       = Inr (Some (Intent_pause, Some ''room1''))"
proof -
  let ?Ls = "map (\<lambda>(n, src). (n, source_lang sample_xre_parse src)) grammar_files"
  let ?text = "''Please halt the session, in Room1!''"
  have toks: "tokenize ?text = [''please'', ''halt'', ''the'', ''session'', ''in'', ''room1'']"
    by code_simp
  obtain G where G: "build_grammars sample_rustfst sample_xre_parse = Inr G"
      "\<And>t. \<exists>r. best_match sample_rustfst (token_labels (gr_vocab G) (tokenize t)) (gr_candidates G) None = Inr r \<and>
         recognised ?Ls (tokenize t) r"
    using command_recognition [OF sample_vector_fst sample_parses]
    by (auto simp: sample_words sample_rustfst_def split: sum.splits)
  have "recognised ?Ls (tokenize ?text) (Some (''pause'', 4))"
  proof -
    have "matches (snd (?Ls ! 0)) (tokenize ?text) 4" unfolding toks by code_simp
    moreover have none: "\<forall>(n, M) \<in> set ?Ls. take 5 (tokenize ?text) \<notin> M \<and> take 6 (tokenize ?text) \<notin> M"
      unfolding toks by code_simp
    moreover have "\<forall>(n, M) \<in> set ?Ls. \<forall>j. matches M (tokenize ?text) j \<longrightarrow> j \<le> 4"
    proof (intro ballI, clarify, rule ccontr)
      fix n M j assume M: "(n, M) \<in> set ?Ls" and j: "matches M (tokenize ?text) j" "\<not> j \<le> 4"
      then have "j = 5 \<or> j = 6" by (auto simp: matches_def toks)
      then show False using bspec [OF none M] j(1) by (auto simp: matches_def)
    qed
    moreover have "?Ls = (''pause'', snd (?Ls ! 0)) # tl ?Ls"
      by (simp add: grammar_files_def)
    ultimately show ?thesis by (intro recognised_first)
  qed
  then have "best_match sample_rustfst (token_labels (gr_vocab G) (tokenize ?text)) (gr_candidates G) None
      = Inr (Some (''pause'', 4))"
    using G(2) [of ?text] recognised_unique by blast
  moreover have "intent_of ''pause'' (join_words (drop 4 (tokenize ?text))) = Some (Intent_pause, Some ''room1'')"
    by code_simp
  ultimately show ?thesis
    using G(1) by (auto simp: parse_intent_def Let_def)
qed

end
