(* ===== verification/Projection.thy ===== *)
theory Projection
  imports Ws_Messages
begin

text \<open>
  The snapshot of a session as a projection of its event log (\<open>apply_event\<close>, \<open>stamp_seq\<close>,
  \<open>fold_context_from_events\<close> and \<open>catch_up_base\<close> of \<open>crates/server/src/ws.rs\<close>). A row of the log
  holds the JSON of an event: a message of this protocol, or a value in the shape of the session
  machine, which does not parse as one.
\<close>

section \<open>One event\<close>

text \<open>\<open>if let Some(x) = xs.iter_mut().find(p) { *x = f(x) }\<close>.\<close>

fun modify_first :: "('a \<Rightarrow> bool) \<Rightarrow> ('a \<Rightarrow> 'a) \<Rightarrow> 'a list \<Rightarrow> 'a list" where
  "modify_first P f [] = []"
| "modify_first P f (x # xs) = (if P x then f x # xs else x # modify_first P f xs)"

definition modify_approval ::
  "string \<Rightarrow> ('j pending_approval \<Rightarrow> 'j pending_approval) \<Rightarrow> 'j session_snapshot \<Rightarrow> 'j session_snapshot" where
  "modify_approval aid f s =
     s\<lparr>sn_pending_approvals := map (\<lambda>a. if pa_approval_id a = aid then f a else a) (sn_pending_approvals s)\<rparr>"

definition drop_approval :: "string \<Rightarrow> 'j session_snapshot \<Rightarrow> 'j session_snapshot" where
  "drop_approval aid s =
     s\<lparr>sn_pending_approvals := filter (\<lambda>a. pa_approval_id a \<noteq> aid) (sn_pending_approvals s)\<rparr>"

definition modify_member ::
  "string \<Rightarrow> (session_member \<Rightarrow> session_member) \<Rightarrow> 'j session_snapshot \<Rightarrow> 'j session_snapshot" where
  "modify_member actor f s = s\<lparr>sn_members := modify_first (\<lambda>m. sm_actor_id m = actor) f (sn_members s)\<rparr>"

definition given_name :: "string option \<Rightarrow> string \<Rightarrow> string" where
  "given_name n old = (case n of Some x \<Rightarrow> if x = [] then old else x | None \<Rightarrow> old)"

definition join_as_owner :: "string \<Rightarrow> string option \<Rightarrow> 'j session_snapshot \<Rightarrow> 'j session_snapshot" where
  "join_as_owner actor n s =
     s\<lparr>sn_members :=
         map (\<lambda>m. if sm_role m = Owner \<and> sm_actor_id m \<noteq> actor then m\<lparr>sm_role := Collaborator\<rparr> else m)
           (sn_members s),
       sn_owner := actor, sn_owner_name := given_name n (sn_owner_name s)\<rparr>"

definition join_member ::
  "string \<Rightarrow> member_role \<Rightarrow> string option \<Rightarrow> 'j session_snapshot \<Rightarrow> 'j session_snapshot" where
  "join_member actor r n s =
     (if list_ex (\<lambda>m. sm_actor_id m = actor) (sn_members s)
      then modify_member actor
             (\<lambda>m. m\<lparr>sm_attached := True, sm_role := r, sm_name := given_name n (sm_name m)\<rparr>) s
      else s\<lparr>sn_members := sn_members s @
             [\<lparr>sm_actor_id = actor, sm_name = (case n of Some x \<Rightarrow> x | None \<Rightarrow> actor), sm_role = r,
               sm_attached = True, sm_status = None\<rparr>]\<rparr>)"

definition add_context ::
  "ws_head \<Rightarrow> string \<Rightarrow> context_entry_kind \<Rightarrow> string \<Rightarrow> context_entry list \<Rightarrow> context_entry list" where
  "add_context h eid kind content ctx =
     ctx @ [\<lparr>ce_id = eid, ce_kind = kind, ce_content = content, ce_actor_id = ws_actor h,
             ce_timestamp = ws_timestamp h, ce_resolved = False, ce_resolved_by = None,
             ce_resolution_note = None, ce_seq = ws_seq h\<rparr>]"

definition resolve_context ::
  "string \<Rightarrow> string \<Rightarrow> string option \<Rightarrow> context_entry list \<Rightarrow> context_entry list" where
  "resolve_context eid by_actor note_text =
     modify_first (\<lambda>e. ce_id e = eid)
       (\<lambda>e. e\<lparr>ce_resolved := True, ce_resolved_by := Some by_actor, ce_resolution_note := note_text\<rparr>)"

definition status_of_text :: "string \<Rightarrow> session_status" where
  "status_of_text s =
     (if s = ''suspended'' then StatusSuspended else if s = ''archived'' then StatusArchived else StatusActive)"

definition role_after_transfer :: "string \<Rightarrow> string \<Rightarrow> session_member \<Rightarrow> session_member" where
  "role_after_transfer old new m =
     (if sm_actor_id m = old then m\<lparr>sm_role := Collaborator\<rparr>
      else if sm_actor_id m = new then m\<lparr>sm_role := Owner\<rparr> else m)"

definition project :: "'j ws_payload \<Rightarrow> 'j session_snapshot \<Rightarrow> 'j session_snapshot" where
  "project p s =
     (case p of
        WsApprovalRequested h aid tname summ requested expires args \<Rightarrow>
          if list_ex (\<lambda>a. pa_approval_id a = aid) (sn_pending_approvals s) then s
          else s\<lparr>sn_pending_approvals := sn_pending_approvals s @
                 [\<lparr>pa_approval_id = aid, pa_tool = tname, pa_requested_by = requested,
                   pa_state = ASPending, pa_votes = [], pa_claimed_by = None, pa_expires_at = expires,
                   pa_arguments = args\<rparr>]\<rparr>
      | WsApprovalClaimed h aid \<Rightarrow>
          modify_approval aid (\<lambda>a. a\<lparr>pa_state := ASClaimed, pa_claimed_by := Some (ws_actor h)\<rparr>) s
      | WsApprovalContested h aid vs pending \<Rightarrow>
          modify_approval aid (\<lambda>a. a\<lparr>pa_state := ASContested, pa_votes := vs\<rparr>) s
      | WsApprovalGranted h aid \<Rightarrow> drop_approval aid s
      | WsApprovalDenied h aid reason \<Rightarrow> drop_approval aid s
      | WsApprovalTimedOut h aid \<Rightarrow> drop_approval aid s
      | WsApprovalCancelled h aid \<Rightarrow> drop_approval aid s
      | WsOwnershipTransferred h old new \<Rightarrow>
          s\<lparr>sn_owner := new, sn_members := map (role_after_transfer old new) (sn_members s)\<rparr>
      | WsActorJoined h role n \<Rightarrow>
          (let r = (case role of None \<Rightarrow> Collaborator | Some x \<Rightarrow> x)
           in join_member (ws_actor h) r n (if r = Owner then join_as_owner (ws_actor h) n s else s))
      | WsActorDetached h \<Rightarrow> modify_member (ws_actor h) (\<lambda>m. m\<lparr>sm_attached := False\<rparr>) s
      | WsArtifactCreated h i n ty \<Rightarrow>
          if list_ex (\<lambda>a. as_id a = i) (sn_artifacts s) then s
          else s\<lparr>sn_artifacts := sn_artifacts s @
                 [\<lparr>as_id = i, as_name = n, as_artifact_type = (case ty of None \<Rightarrow> ''other'' | Some x \<Rightarrow> x)\<rparr>]\<rparr>
      | WsArtifactUpdated h i n ty \<Rightarrow>
          s\<lparr>sn_artifacts := modify_first (\<lambda>a. as_id a = i) (\<lambda>a. a\<lparr>as_name := n\<rparr>) (sn_artifacts s)\<rparr>
      | WsArtifactDeleted h i n ty \<Rightarrow> s\<lparr>sn_artifacts := filter (\<lambda>a. as_id a \<noteq> i) (sn_artifacts s)\<rparr>
      | WsAgentStatusChanged h st \<Rightarrow> modify_member (ws_actor h) (\<lambda>m. m\<lparr>sm_status := Some st\<rparr>) s
      | WsSessionStatusChanged h st \<Rightarrow> s\<lparr>sn_status := status_of_text st\<rparr>
      | WsContextEntryAdded h eid kind content authored \<Rightarrow>
          s\<lparr>sn_context := add_context h eid kind content (sn_context s)\<rparr>
      | WsContextEntryResolved h eid by_actor note_text \<Rightarrow>
          s\<lparr>sn_context := resolve_context eid by_actor note_text (sn_context s)\<rparr>
      | _ \<Rightarrow> s)"

definition apply_event :: "'j session_snapshot \<Rightarrow> 'j ws_message \<Rightarrow> 'j session_snapshot" where
  "apply_event s msg = project (wm_payload msg) s"

text \<open>
  \<open>stamp_seq\<close>. The events \<open>SessionRenamed\<close>, \<open>ProposalCommitted\<close>, \<open>FileWriteAttested\<close> and
  \<open>EpochAdvanced\<close> keep the number they came with.
\<close>

definition stamp_payload :: "int \<Rightarrow> 'j ws_payload \<Rightarrow> 'j ws_payload" where
  "stamp_payload sq p =
     (let st = (\<lambda>h. h\<lparr>ws_seq := sq\<rparr>) in
      case p of
        WsToolCallRequested h a b \<Rightarrow> WsToolCallRequested (st h) a b
      | WsToolCallExecuted h a b \<Rightarrow> WsToolCallExecuted (st h) a b
      | WsToolCallBlocked h a b c \<Rightarrow> WsToolCallBlocked (st h) a b c
      | WsApprovalRequested h a b c d e f \<Rightarrow> WsApprovalRequested (st h) a b c d e f
      | WsApprovalGranted h a \<Rightarrow> WsApprovalGranted (st h) a
      | WsApprovalContested h a b c \<Rightarrow> WsApprovalContested (st h) a b c
      | WsApprovalClaimed h a \<Rightarrow> WsApprovalClaimed (st h) a
      | WsApprovalCancelled h a \<Rightarrow> WsApprovalCancelled (st h) a
      | WsApprovalDelegated h a b c \<Rightarrow> WsApprovalDelegated (st h) a b c
      | WsApprovalDisputed h a b \<Rightarrow> WsApprovalDisputed (st h) a b
      | WsApprovalTimedOut h a \<Rightarrow> WsApprovalTimedOut (st h) a
      | WsActorJoined h a b \<Rightarrow> WsActorJoined (st h) a b
      | WsActorDetached h \<Rightarrow> WsActorDetached (st h)
      | WsOwnershipTransferred h a b \<Rightarrow> WsOwnershipTransferred (st h) a b
      | WsArtifactCreated h a b c \<Rightarrow> WsArtifactCreated (st h) a b c
      | WsArtifactUpdated h a b c \<Rightarrow> WsArtifactUpdated (st h) a b c
      | WsArtifactDeleted h a b c \<Rightarrow> WsArtifactDeleted (st h) a b c
      | WsAgentStatusChanged h a \<Rightarrow> WsAgentStatusChanged (st h) a
      | WsSessionStatusChanged h a \<Rightarrow> WsSessionStatusChanged (st h) a
      | WsMessagePosted h a \<Rightarrow> WsMessagePosted (st h) a
      | WsContextEntryAdded h a b c d \<Rightarrow> WsContextEntryAdded (st h) a b c d
      | WsContextEntryResolved h a b c \<Rightarrow> WsContextEntryResolved (st h) a b c
      | WsShellCommandStarted h a b c d e f \<Rightarrow> WsShellCommandStarted (st h) a b c d e f
      | WsShellCommandCompleted h a b c \<Rightarrow> WsShellCommandCompleted (st h) a b c
      | WsEffectRateLimited h a b c \<Rightarrow> WsEffectRateLimited (st h) a b c
      | WsApprovalDenied h a b \<Rightarrow> WsApprovalDenied (st h) a b
      | _ \<Rightarrow> p)"

definition stamp_seq :: "'j ws_message \<Rightarrow> int \<Rightarrow> 'j ws_message" where
  "stamp_seq msg sq = msg\<lparr>wm_payload := stamp_payload sq (wm_payload msg)\<rparr>"

section \<open>Folding the log\<close>

datatype 'j row_payload =
    Message_row "'j ws_message"
  | Other_row 'j                    \<comment> \<open>does not parse as a message\<close>

record 'j event_row =
  er_session :: string
  er_actor :: string
  er_type :: string
  er_payload :: "'j row_payload"
  er_seq :: int

text \<open>\<open>serde_json::from_value::<WsMessage>(row.payload)\<close>.\<close>

definition row_message :: "'j event_row \<Rightarrow> 'j ws_message option" where
  "row_message r = (case er_payload r of Message_row m \<Rightarrow> Some m | Other_row _ \<Rightarrow> None)"

definition apply_row :: "'j session_snapshot \<Rightarrow> 'j event_row \<Rightarrow> 'j session_snapshot" where
  "apply_row s r = (case row_message r of None \<Rightarrow> s | Some m \<Rightarrow> apply_event s m)"

definition fold_rows :: "'j event_row list \<Rightarrow> 'j session_snapshot \<Rightarrow> 'j session_snapshot" where
  "fold_rows rows s = foldl apply_row s rows"

definition fold_context_row :: "context_entry list \<Rightarrow> 'j event_row \<Rightarrow> context_entry list" where
  "fold_context_row ctx r =
     (case row_message r of
        None \<Rightarrow> ctx
      | Some m \<Rightarrow>
          (case wm_payload m of
             WsContextEntryAdded h eid kind content authored \<Rightarrow> add_context h eid kind content ctx
           | WsContextEntryResolved h eid by_actor note_text \<Rightarrow> resolve_context eid by_actor note_text ctx
           | _ \<Rightarrow> ctx))"

definition fold_context_from_events :: "'j event_row list \<Rightarrow> context_entry list" where
  "fold_context_from_events rows = foldl fold_context_row [] rows"

end
