(* ===== verification/Hub_Store.thy ===== *)
theory Hub_Store
  imports Projection Invoke
begin

text \<open>
  The tables behind the hub of a session: events, snapshots (\<open>crates/db/src/events.rs\<close>,
  \<open>snapshots.rs\<close>), sessions, artifacts and cross-session delegations, beside the tables of the
  broker; and the functions of \<open>crates/server/src/ws.rs\<close> that read and write them. A message or a
  snapshot that was written as JSON is read back as it was.
\<close>

section \<open>Tables\<close>

record 'j live =
  lv_seq :: int
  lv_state :: "'j session_snapshot"

datatype 'j snapshot_json = Snapshot_json "'j session_snapshot" | Empty_json

record 'j snapshot_row =
  ss_session :: string
  ss_seq :: int
  ss_state :: "'j snapshot_json"
  ss_dirty :: bool
  ss_stale_since :: "int option"

record session_row =
  se_id :: string
  se_name :: string
  se_policy :: string
  se_status :: string

record artifact_row =
  ar_id :: string
  ar_session :: string
  ar_name :: string
  ar_type :: string
  ar_storage_ref :: string
  ar_version :: int

record delegation_row =
  cd_saga :: string
  cd_source_session :: string
  cd_target_approval :: "string option"
  cd_status :: string

record 'j hub_db =
  hd_store :: "'j store"
  hd_events :: "'j event_row list"
  hd_snapshots :: "'j snapshot_row list"
  hd_sessions :: "session_row list"
  hd_artifacts :: "artifact_row list"
  hd_delegations :: "delegation_row list"

type_synonym ('j, 'a) hub_op = "'j pg \<Rightarrow> 'j hub_db \<Rightarrow> (db_error + 'a) \<times> 'j hub_db"

definition on_store :: "('j, 'a) db_op \<Rightarrow> ('j, 'a) hub_op" where
  "on_store m X d = (case m X (hd_store d) of (r, b) \<Rightarrow> (r, d\<lparr>hd_store := b\<rparr>))"

definition statements_run :: "'j hub_db \<Rightarrow> nat" where
  "statements_run d = statements (hd_store d)"

definition with_statements :: "nat \<Rightarrow> 'j hub_db \<Rightarrow> 'j hub_db" where
  "with_statements n d = d\<lparr>hd_store := (hd_store d)\<lparr>statements := n\<rparr>\<rparr>"

definition hub_statement ::
  "(datetime \<Rightarrow> 'j hub_db \<Rightarrow> (db_error + 'a) \<times> 'j hub_db) \<Rightarrow> ('j, 'a) hub_op" where
  "hub_statement f X d =
     (let i = statements_run d; d1 = with_statements (Suc i) d
      in if down X i then (Inl Sqlx, d1) else f (pg_now X i) d1)"

text \<open>\<open>begin\<close>, a body and \<open>commit\<close>; an error leaves the tables as they were.\<close>

definition hub_tx_body :: "('j, 'a) hub_op \<Rightarrow> ('j, 'a) hub_op" where
  "hub_tx_body m X d =
     (case m X d of
        (Inl e, d1) \<Rightarrow> (Inl e, with_statements (statements_run d1) d)
      | (Inr x, d1) \<Rightarrow>
          if down X (statements_run d1) then (Inl Sqlx, with_statements (Suc (statements_run d1)) d)
          else (Inr x, with_statements (Suc (statements_run d1)) d1))"

definition hub_transaction :: "('j, 'a) hub_op \<Rightarrow> ('j, 'a) hub_op" where
  "hub_transaction m = db_bind (on_store begin_tx) (\<lambda>_. hub_tx_body m)"

section \<open>Events and snapshots\<close>

text \<open>\<open>append_in_tx\<close>: one \<open>INSERT\<close>.\<close>

definition append_row :: "string \<Rightarrow> string \<Rightarrow> int \<Rightarrow> 'j ws_message \<Rightarrow> ('j, unit) hub_op" where
  "append_row sid actor sq msg =
     db_bind (on_store (append_event sid sq)) (\<lambda>_ X d.
       (Inr (), d\<lparr>hd_events := hd_events d @
          [\<lparr>er_session = sid, er_actor = actor, er_type = ws_type_name (wm_payload msg),
            er_payload = Message_row msg, er_seq = sq\<rparr>]\<rparr>))"

definition events_between :: "string \<Rightarrow> int \<Rightarrow> int \<Rightarrow> 'j event_row list \<Rightarrow> 'j event_row list" where
  "events_between sid lo hi rows =
     sort_key er_seq (filter (\<lambda>r. er_session r = sid \<and> lo < er_seq r \<and> er_seq r < hi) rows)"

definition list_between_in_tx :: "string \<Rightarrow> int \<Rightarrow> int \<Rightarrow> ('j, 'j event_row list) hub_op" where
  "list_between_in_tx sid lo hi = hub_statement (\<lambda>now d. (Inr (events_between sid lo hi (hd_events d)), d))"

definition list_events :: "string \<Rightarrow> int option \<Rightarrow> nat option \<Rightarrow> ('j, 'j event_row list) hub_op" where
  "list_events sid after_seq limit =
     hub_statement (\<lambda>now d.
       let rows = sort_key er_seq (filter (\<lambda>r. er_session r = sid \<and>
                    (case after_seq of None \<Rightarrow> 0 | Some k \<Rightarrow> k) < er_seq r) (hd_events d))
       in (Inr (case limit of None \<Rightarrow> rows | Some n \<Rightarrow> take n rows), d))"

definition insert_snapshot ::
  "string \<Rightarrow> int \<Rightarrow> 'j snapshot_json \<Rightarrow> bool \<Rightarrow> int option \<Rightarrow> ('j, unit) hub_op" where
  "insert_snapshot sid sq st dirty stale =
     hub_statement (\<lambda>now d.
       (Inr (), d\<lparr>hd_snapshots := hd_snapshots d @
          [\<lparr>ss_session = sid, ss_seq = sq, ss_state = st, ss_dirty = dirty, ss_stale_since = stale\<rparr>]\<rparr>))"

definition insert_in_tx :: "string \<Rightarrow> int \<Rightarrow> 'j session_snapshot \<Rightarrow> ('j, unit) hub_op" where
  "insert_in_tx sid sq s = insert_snapshot sid sq (Snapshot_json s) False None"

definition insert_clean :: "string \<Rightarrow> int \<Rightarrow> 'j session_snapshot \<Rightarrow> ('j, unit) hub_op" where
  "insert_clean sid sq s = insert_snapshot sid sq (Snapshot_json s) False None"

definition mark_dirty :: "string \<Rightarrow> 'j snapshot_json \<Rightarrow> int \<Rightarrow> ('j, unit) hub_op" where
  "mark_dirty sid st drain_seq = insert_snapshot sid drain_seq st True (Some drain_seq)"

text \<open>
  \<open>ORDER BY seq DESC LIMIT 1\<close>. Between rows with one number the database may choose; here it takes
  the one that was inserted last.
\<close>

definition latest_row :: "string \<Rightarrow> 'j snapshot_row list \<Rightarrow> 'j snapshot_row option" where
  "latest_row sid rows =
     (case rev (sort_key ss_seq (filter (\<lambda>r. ss_session r = sid) rows)) of [] \<Rightarrow> None | r # _ \<Rightarrow> Some r)"

definition get_latest :: "string \<Rightarrow> ('j, 'j snapshot_row) hub_op" where
  "get_latest sid =
     hub_statement (\<lambda>now d.
       (case latest_row sid (hd_snapshots d) of None \<Rightarrow> Inl Not_found | Some r \<Rightarrow> Inr r, d))"

section \<open>Writing an event with its snapshot\<close>

definition catch_up_base :: "string \<Rightarrow> 'j live \<Rightarrow> int \<Rightarrow> ('j, 'j session_snapshot) hub_op" where
  "catch_up_base sid base sq =
     (if sq \<le> lv_seq base + 1 then db_return (lv_state base)
      else db_bind (list_between_in_tx sid (lv_seq base) sq) (\<lambda>missed.
             db_return (fold_rows missed (lv_state base))))"

text \<open>
  The branch without a snapshot. A statement that fails aborts the transaction, so the default for
  the name and the policy is reached only when the session has no row.
\<close>

definition blank_snapshot :: "string \<Rightarrow> string \<Rightarrow> ('j, 'j session_snapshot) hub_op" where
  "blank_snapshot sid actor =
     hub_statement (\<lambda>now d.
       let (n, pol) = (case find (\<lambda>r. se_id r = sid) (hd_sessions d) of
                         None \<Rightarrow> ([], ''single_vote'') | Some r \<Rightarrow> (se_name r, se_policy r))
       in (Inr \<lparr>sn_owner = actor, sn_owner_name = [], sn_status = StatusActive, sn_name = n,
                sn_approval_policy = pol, sn_members = [], sn_pending_approvals = [],
                sn_artifacts = [], sn_context = []\<rparr>, d))"

definition stamp_append_snapshot ::
  "'j live option \<Rightarrow> string \<Rightarrow> string \<Rightarrow> 'j ws_message
   \<Rightarrow> ('j, int \<times> 'j session_snapshot \<times> 'j ws_message) hub_op" where
  "stamp_append_snapshot current sid actor event =
     db_bind (on_store (alloc_seq sid)) (\<lambda>sq.
     let stamped = stamp_seq event sq in
     db_bind (append_row sid actor sq stamped) (\<lambda>_.
     db_bind
       (case current of
          Some base \<Rightarrow> db_bind (catch_up_base sid base sq) (\<lambda>s. db_return (apply_event s stamped))
        | None \<Rightarrow> blank_snapshot sid actor) (\<lambda>new_snap.
     db_bind (insert_in_tx sid sq new_snap) (\<lambda>_. db_return (sq, new_snap, stamped)))))"

section \<open>Loading a snapshot\<close>

text \<open>What the code reads of the hub of a session: who is connected, and the age of a heartbeat.\<close>

record presence =
  pr_connected :: "string list"
  pr_heartbeats :: "(string \<times> nat) list"     \<comment> \<open>elapsed time\<close>

definition AGENT_HEARTBEAT_INTERVAL_SECS :: nat where "AGENT_HEARTBEAT_INTERVAL_SECS = 15"
definition AGENT_STALE_THRESHOLD_SECS :: nat where
  "AGENT_STALE_THRESHOLD_SECS = AGENT_HEARTBEAT_INTERVAL_SECS * 3"

definition table_role :: "string \<Rightarrow> member_role" where
  "table_role s =
     (if s = ''owner'' then Owner else if s = ''collaborator'' then Collaborator
      else if s = ''agent'' then Agent else Observer)"

definition attached_now :: "presence option \<Rightarrow> member_role \<Rightarrow> string \<Rightarrow> bool" where
  "attached_now pr r actor =
     (case pr of
        None \<Rightarrow> False
      | Some p \<Rightarrow>
          if r = Agent
          then (case map_of (pr_heartbeats p) actor of
                  None \<Rightarrow> False | Some t \<Rightarrow> t < from_secs AGENT_STALE_THRESHOLD_SECS)
          else actor \<in> set (pr_connected p))"

text \<open>\<open>serde_json::from_value::<HashMap<String, Vote>>(votes).unwrap_or_default()\<close>.\<close>

definition vote_from_str :: "string \<Rightarrow> vote option" where
  "vote_from_str s = (if s = ''approve'' then Some Approve else if s = ''deny'' then Some Deny else None)"

fun collect_votes :: "(string \<times> string) list \<Rightarrow> (string, vote) btree option" where
  "collect_votes [] = Some []"
| "collect_votes ((k, v) # kvs) =
     (case (vote_from_str v, collect_votes kvs) of
        (Some w, Some m) \<Rightarrow> Some (bt_insert k w m) | _ \<Rightarrow> None)"

definition parse_votes :: "(string \<times> string) list \<Rightarrow> (string, vote) btree" where
  "parse_votes vs = (case collect_votes vs of None \<Rightarrow> [] | Some m \<Rightarrow> m)"

definition table_approval :: "'j approval_row \<Rightarrow> 'j pending_approval" where
  "table_approval q =
     \<lparr>pa_approval_id = aq_id q, pa_tool = aq_tool q, pa_requested_by = aq_actor q,
      pa_state = (if aq_state q = ''Claimed'' then ASClaimed
                  else if aq_state q = ''Contested'' then ASContested else ASPending),
      pa_votes = parse_votes (aq_votes q), pa_claimed_by = None, pa_expires_at = aq_timeout q,
      pa_arguments = aq_args q\<rparr>"

definition list_pending :: "string \<Rightarrow> ('j, 'j approval_row list) db_op" where
  "list_pending sid =
     statement (\<lambda>now d.
       (Inr (sort_key aq_created
          (filter (\<lambda>q. aq_session q = sid \<and> open_state (aq_state q)) (approval_rows d))), d))"

definition list_memberships :: "string \<Rightarrow> ('j, (string \<times> string) list) db_op" where
  "list_memberships sid =
     statement (\<lambda>now d.
       (Inr (List.map_filter (\<lambda>(s, a, r). if s = sid then Some (a, r) else None) (memberships d)), d))"

definition get_session :: "string \<Rightarrow> ('j, session_row) hub_op" where
  "get_session sid =
     hub_statement (\<lambda>now d.
       (case find (\<lambda>r. se_id r = sid) (hd_sessions d) of None \<Rightarrow> Inl Not_found | Some r \<Rightarrow> Inr r, d))"

definition list_artifacts :: "string \<Rightarrow> ('j, artifact_row list) hub_op" where
  "list_artifacts sid =
     hub_statement (\<lambda>now d. (Inr (filter (\<lambda>a. ar_session a = sid) (hd_artifacts d)), d))"

definition last_allocated :: "string \<Rightarrow> ('j, int) db_op" where
  "last_allocated sid =
     statement (\<lambda>now d. (Inr (case next_seqs d sid of None \<Rightarrow> 0 | Some n \<Rightarrow> n - 1), d))"

definition build_snapshot_from_tables ::
  "presence option \<Rightarrow> string \<Rightarrow> ('j, int \<times> 'j session_snapshot) hub_op" where
  "build_snapshot_from_tables pr sid =
     db_bind (get_session sid) (\<lambda>se.
     db_bind (on_store (list_memberships sid)) (\<lambda>ms.
     db_bind (on_store (list_pending sid)) (\<lambda>qs.
     db_bind (list_artifacts sid) (\<lambda>arts.
     db_bind (list_events sid None None) (\<lambda>rows.
     db_attempt (on_store (last_allocated sid)) (\<lambda>last_seq.
       db_return
         (case last_seq of Inl _ \<Rightarrow> 0 | Inr n \<Rightarrow> n,
          \<lparr>sn_owner = (case find (\<lambda>(a, r). r = ''owner'') ms of None \<Rightarrow> [] | Some (a, _) \<Rightarrow> a),
           sn_owner_name = [], sn_status = status_of_text (se_status se), sn_name = se_name se,
           sn_approval_policy = se_policy se,
           sn_members = map (\<lambda>(a, r).
             \<lparr>sm_actor_id = a, sm_name = [], sm_role = table_role r,
              sm_attached = attached_now pr (table_role r) a, sm_status = None\<rparr>) ms,
           sn_pending_approvals = map table_approval qs,
           sn_artifacts = map (\<lambda>a. \<lparr>as_id = ar_id a, as_name = ar_name a, as_artifact_type = ar_type a\<rparr>) arts,
           sn_context = fold_context_from_events rows\<rparr>)))))))"

definition patch_attached :: "presence option \<Rightarrow> 'j session_snapshot \<Rightarrow> 'j session_snapshot" where
  "patch_attached pr s =
     (case pr of
        None \<Rightarrow> s
      | Some p \<Rightarrow>
          s\<lparr>sn_members := map (\<lambda>m. m\<lparr>sm_attached := sm_actor_id m \<in> set (pr_connected p)\<rparr>) (sn_members s)\<rparr>)"

definition load_snapshot_from_db ::
  "presence option \<Rightarrow> string \<Rightarrow> ('j, int \<times> 'j session_snapshot) hub_op" where
  "load_snapshot_from_db pr sid =
     db_attempt (get_latest sid) (\<lambda>got.
       case got of
         Inl e \<Rightarrow> if e = Not_found then build_snapshot_from_tables pr sid else db_fail e
       | Inr row \<Rightarrow>
           if ss_dirty row then
             db_bind (build_snapshot_from_tables pr sid) (\<lambda>(sq, s).
               db_attempt (insert_clean sid sq s) (\<lambda>_. db_return (sq, s)))
           else
             (case ss_state row of
                Empty_json \<Rightarrow> build_snapshot_from_tables pr sid
              | Snapshot_json s \<Rightarrow> db_return (ss_seq row, patch_attached pr s)))"

end
