(* ===== verification/Projection_Laws.thy ===== *)
theory Projection_Laws
  imports Hub_Store
begin

text \<open>
  Laws of projections of an event log: what a reader that starts from a stale state gains by folding
  the rows it missed, seen through a view that each row respects. The views are: the snapshot itself,
  the snapshot without the attachment and the roles of its members, which
  presence patches write, and the context entries.
\<close>

section \<open>Rows in order\<close>

lemma insort_key_append_less:
  "\<forall>y \<in> set ys. f x < f y \<Longrightarrow> insort_key f x (xs @ ys) = insort_key f x xs @ (ys :: 'a list)"
  for f :: "'a \<Rightarrow> 'k::linorder"
  by (induction xs) (cases ys; auto)+

lemma insort_key_append_ge:
  "\<forall>y \<in> set xs. f y < f x \<Longrightarrow> insort_key f x (xs @ ys) = xs @ insort_key f x (ys :: 'a list)"
  for f :: "'a \<Rightarrow> 'k::linorder"
  by (induction xs) auto

lemma sort_key_threshold:
  "sort_key f xs = sort_key f (filter (\<lambda>x. f x < c) xs) @ sort_key f (filter (\<lambda>x. \<not> f x < c) xs)"
  for f :: "'a \<Rightarrow> 'k::linorder"
proof (induction xs)
  case (Cons x xs)
  show ?case
  proof (cases "f x < c")
    case True
    have "\<forall>y \<in> set (sort_key f (filter (\<lambda>x. \<not> f x < c) xs)). f x < f y"
      using True by auto
    with Cons True show ?thesis by (simp add: insort_key_append_less)
  next
    case False
    have "\<forall>y \<in> set (sort_key f (filter (\<lambda>x. f x < c) xs)). f y < f x"
      using False by auto
    with Cons False show ?thesis by (simp add: insort_key_append_ge)
  qed
qed simp

definition rows_between :: "('r \<Rightarrow> int) \<Rightarrow> int \<Rightarrow> int \<Rightarrow> 'r list \<Rightarrow> 'r list" where
  "rows_between pos lo hi xs = sort_key pos (filter (\<lambda>r. lo < pos r \<and> pos r < hi) xs)"

lemma rows_between_split:
  assumes "lo \<le> mid" "mid < hi"
  shows "rows_between pos lo hi xs = rows_between pos lo (mid + 1) xs @ rows_between pos mid hi xs"
proof -
  have a: "filter (\<lambda>x. pos x < mid + 1) (filter (\<lambda>r. lo < pos r \<and> pos r < hi) xs)
           = filter (\<lambda>r. lo < pos r \<and> pos r < mid + 1) xs"
    using assms by (auto simp: filter_filter intro!: filter_cong)
  have b: "filter (\<lambda>x. \<not> pos x < mid + 1) (filter (\<lambda>r. lo < pos r \<and> pos r < hi) xs)
           = filter (\<lambda>r. mid < pos r \<and> pos r < hi) xs"
    using assms by (auto simp: filter_filter intro!: filter_cong)
  show ?thesis
    unfolding rows_between_def using sort_key_threshold [of pos _ "mid + 1"] by (metis a b)
qed

lemma rows_between_snoc:
  assumes "\<forall>x \<in> set xs. pos x < n" "pos r = n" "lo < n"
  shows "rows_between pos lo (n + 1) (xs @ [r]) = rows_between pos lo n xs @ [r]"
proof -
  have e: "filter (\<lambda>r. lo < pos r \<and> pos r < n + 1) xs = filter (\<lambda>r. lo < pos r \<and> pos r < n) xs"
    using assms(1) by (auto intro!: filter_cong)
  have "rows_between pos lo (n + 1) (xs @ [r])
        = sort_key pos (filter (\<lambda>r. lo < pos r \<and> pos r < n) xs @ [r])"
    using assms e by (simp add: rows_between_def)
  also have "\<dots> = rows_between pos lo n xs @ [r]"
    using assms by (subst sort_key_threshold [of pos _ n]) (simp add: rows_between_def)
  finally show ?thesis .
qed

lemma rows_between_older:
  "hi \<le> pos r \<Longrightarrow> rows_between pos lo hi (xs @ [r]) = rows_between pos lo hi xs"
  by (simp add: rows_between_def)

lemma rows_between_empty: "hi \<le> lo + 1 \<Longrightarrow> rows_between pos lo hi xs = []"
  by (auto simp: rows_between_def filter_empty_conv sort_key_const)

section \<open>Views of a projection\<close>

locale log_projection =
  fixes step :: "'s \<Rightarrow> 'r \<Rightarrow> 's"
    and view :: "'s \<Rightarrow> 'v"
    and pos :: "'r \<Rightarrow> int"
  assumes view_step: "view s = view t \<Longrightarrow> view (step s r) = view (step t r)"
begin

lemma view_foldl: "view s = view t \<Longrightarrow> view (foldl step s rs) = view (foldl step t rs)"
proof (induction rs arbitrary: s t)
  case (Cons r rs)
  from Cons.IH [OF view_step [OF Cons.prems, of r]] show ?case by simp
qed simp

lemma catch_up:
  assumes base: "view b = view (foldl step z (rows_between pos lo (mid + 1) xs))"
    and range: "lo \<le> mid" "mid < hi"
  shows "view (foldl step b (rows_between pos mid hi xs)) = view (foldl step z (rows_between pos lo hi xs))"
  using view_foldl [OF base, of "rows_between pos mid hi xs"] rows_between_split [OF range, of pos xs]
  by simp

lemma catch_up_and_append:
  assumes base: "view b = view (foldl step z (rows_between pos lo (mid + 1) xs))"
    and range: "lo \<le> mid" "mid < n"
    and new: "\<forall>x \<in> set xs. pos x < n" "pos r = n"
  shows "view (step (foldl step b (rows_between pos mid n xs)) r)
         = view (foldl step z (rows_between pos lo (n + 1) (xs @ [r])))"
proof -
  have "lo < n" using range by simp
  with rows_between_snoc [OF new this] view_step [OF catch_up [OF base range], of r]
  show ?thesis by simp
qed

end

section \<open>Without attachment and roles\<close>

text \<open>A snapshot without the attachment and the roles of its members.\<close>

definition blur_member :: "session_member \<Rightarrow> session_member" where
  "blur_member m = m\<lparr>sm_attached := False, sm_role := Observer\<rparr>"

definition blur :: "'j session_snapshot \<Rightarrow> 'j session_snapshot" where
  "blur s = s\<lparr>sn_members := map blur_member (sn_members s)\<rparr>"

lemma blur_member_simps [simp]:
  "sm_actor_id (blur_member m) = sm_actor_id m"
  "sm_name (blur_member m) = sm_name m"
  "blur_member (blur_member m) = blur_member m"
  "blur_member (m\<lparr>sm_attached := x\<rparr>) = blur_member m"
  "blur_member (m\<lparr>sm_role := r\<rparr>) = blur_member m"
  by (simp_all add: blur_member_def)

lemma blur_fields [simp]:
  "sn_owner (blur s) = sn_owner s"
  "sn_owner_name (blur s) = sn_owner_name s"
  "sn_status (blur s) = sn_status s"
  "sn_name (blur s) = sn_name s"
  "sn_approval_policy (blur s) = sn_approval_policy s"
  "sn_pending_approvals (blur s) = sn_pending_approvals s"
  "sn_artifacts (blur s) = sn_artifacts s"
  "sn_context (blur s) = sn_context s"
  "sn_members (blur s) = map blur_member (sn_members s)"
  by (simp_all add: blur_def)

lemma blur_eq_iff:
  fixes s t :: "'j session_snapshot"
  shows "blur s = blur t \<longleftrightarrow>
     sn_owner s = sn_owner t \<and> sn_owner_name s = sn_owner_name t \<and> sn_status s = sn_status t \<and>
     sn_name s = sn_name t \<and> sn_approval_policy s = sn_approval_policy t \<and>
     sn_pending_approvals s = sn_pending_approvals t \<and> sn_artifacts s = sn_artifacts t \<and>
     sn_context s = sn_context t \<and> map blur_member (sn_members s) = map blur_member (sn_members t)"
  by (cases s, cases t) (simp add: blur_def conj_ac)

lemma map_modify_first:
  assumes "map g xs = map g ys"
    and "\<And>x y. g x = g y \<Longrightarrow> P x = P y" "\<And>x y. g x = g y \<Longrightarrow> g (f x) = g (f y)"
  shows "map g (modify_first P f xs) = map g (modify_first P f ys)"
  using assms(1)
proof (induction xs arbitrary: ys)
  case (Cons x xs)
  then obtain y ys' where ys: "ys = y # ys'" "g x = g y" "map g xs = map g ys'"
    by (cases ys) auto
  with Cons.IH [of ys'] assms(2) [of x y] assms(3) [of x y] show ?case by simp
qed simp

section \<open>Each event respects the views\<close>

lemma same_members_ids:
  "map blur_member xs = map blur_member ys \<Longrightarrow> map sm_actor_id xs = map sm_actor_id ys"
  by (drule arg_cong [where f = "map sm_actor_id"]) (simp add: comp_def)

lemma list_ex_id: "list_ex (\<lambda>m. sm_actor_id m = a) xs \<longleftrightarrow> a \<in> set (map sm_actor_id xs)"
  by (auto simp: list_ex_iff)

lemma blur_member_eqD: "blur_member x = blur_member y \<Longrightarrow> sm_actor_id x = sm_actor_id y"
  by (drule arg_cong [where f = sm_actor_id]) simp

lemma blur_member_cong:
  fixes x y :: session_member
  shows "blur_member x = blur_member y \<longleftrightarrow>
     sm_actor_id x = sm_actor_id y \<and> sm_name x = sm_name y \<and> sm_status x = sm_status y"
  by (cases x, cases y) (simp add: blur_member_def)

lemma blur_modify_member:
  assumes "blur s = blur t" "\<And>x y. blur_member x = blur_member y \<Longrightarrow> blur_member (f x) = blur_member (f y)"
  shows "blur (modify_member a f s) = blur (modify_member a f t)"
proof -
  have "map blur_member (sn_members s) = map blur_member (sn_members t)"
    using assms(1) unfolding blur_eq_iff by (elim conjE)
  then have "map blur_member (modify_first (\<lambda>m. sm_actor_id m = a) f (sn_members s))
             = map blur_member (modify_first (\<lambda>m. sm_actor_id m = a) f (sn_members t))"
  proof (rule map_modify_first)
    show "(sm_actor_id x = a) = (sm_actor_id y = a)" if "blur_member x = blur_member y" for x y
      using blur_member_eqD [OF that] by simp
  qed (rule assms(2))
  with assms(1) show ?thesis
    unfolding blur_eq_iff modify_member_def by simp
qed

lemma blur_join_member:
  assumes "blur s = blur t"
  shows "blur (join_member a r n s) = blur (join_member a r n t)"
proof -
  have ids: "map sm_actor_id (sn_members s) = map sm_actor_id (sn_members t)"
    using assms by (intro same_members_ids) (simp add: blur_eq_iff)
  show ?thesis
  proof (cases "a \<in> set (map sm_actor_id (sn_members s))")
    case True
    with ids show ?thesis
      unfolding join_member_def list_ex_id
      by (simp only: if_True) (rule blur_modify_member [OF assms], simp add: blur_member_cong)
  next
    case False
    with ids assms show ?thesis
      unfolding join_member_def list_ex_id by (simp add: blur_eq_iff)
  qed
qed

lemma map_blur_roles:
  assumes "\<And>m. blur_member (f m) = blur_member m"
  shows "map blur_member (map f xs) = map blur_member xs"
  using assms by simp

lemma blur_join_as_owner:
  assumes "blur s = blur t"
  shows "blur (join_as_owner a n s) = blur (join_as_owner a n t)"
  using assms map_blur_roles [of "\<lambda>m. if sm_role m = Owner \<and> sm_actor_id m \<noteq> a
                                  then m\<lparr>sm_role := Collaborator\<rparr> else m"]
  by (simp add: blur_eq_iff join_as_owner_def del: map_map)

lemma blur_transfer:
  "map blur_member (map (role_after_transfer old new) xs) = map blur_member xs"
  by (rule map_blur_roles) (simp add: role_after_transfer_def)

lemma blur_pending:
  assumes "blur s = blur t"
  shows "blur (drop_approval a s) = blur (drop_approval a t)"
    and "blur (modify_approval a f s) = blur (modify_approval a f t)"
    and "blur (if list_ex P (sn_pending_approvals s) then s
               else s\<lparr>sn_pending_approvals := sn_pending_approvals s @ q\<rparr>)
         = blur (if list_ex P (sn_pending_approvals t) then t
                 else t\<lparr>sn_pending_approvals := sn_pending_approvals t @ q\<rparr>)"
  using assms by (simp_all add: blur_eq_iff drop_approval_def modify_approval_def)

lemma blur_rest:
  assumes "blur s = blur t"
  shows "blur (if list_ex P (sn_artifacts s) then s else s\<lparr>sn_artifacts := sn_artifacts s @ q\<rparr>)
         = blur (if list_ex P (sn_artifacts t) then t else t\<lparr>sn_artifacts := sn_artifacts t @ q\<rparr>)"
    and "blur (s\<lparr>sn_artifacts := g (sn_artifacts s)\<rparr>) = blur (t\<lparr>sn_artifacts := g (sn_artifacts t)\<rparr>)"
    and "blur (s\<lparr>sn_context := k (sn_context s)\<rparr>) = blur (t\<lparr>sn_context := k (sn_context t)\<rparr>)"
    and "blur (s\<lparr>sn_status := st\<rparr>) = blur (t\<lparr>sn_status := st\<rparr>)"
  using assms by (simp_all add: blur_eq_iff)

lemma blur_project:
  assumes "blur s = blur t"
  shows "blur (project p s) = blur (project p t)"
proof (cases p)
  case (WsActorJoined h role n)
  define r where "r = (case role of None \<Rightarrow> Collaborator | Some x \<Rightarrow> x)"
  have "project p u = join_member (ws_actor h) r n (if r = Owner then join_as_owner (ws_actor h) n u else u)"
    for u :: "'a session_snapshot"
    unfolding WsActorJoined project_def r_def by (simp only: ws_payload.case Let_def)
  moreover have "blur (if r = Owner then join_as_owner (ws_actor h) n s else s)
        = blur (if r = Owner then join_as_owner (ws_actor h) n t else t)"
    using assms blur_join_as_owner [OF assms] by (cases "r = Owner") simp_all
  ultimately show ?thesis by (metis blur_join_member)
next
  case (WsOwnershipTransferred h old new)
  with assms show ?thesis by (simp add: project_def blur_eq_iff blur_transfer del: map_map)
next
  case (WsActorDetached h)
  show ?thesis unfolding WsActorDetached project_def
    by (simp, rule blur_modify_member [OF assms]) (simp add: blur_member_cong)
next
  case (WsAgentStatusChanged h st)
  show ?thesis unfolding WsAgentStatusChanged project_def
    by (simp, rule blur_modify_member [OF assms]) (simp add: blur_member_cong)
qed (simp_all only: project_def ws_payload.case assms blur_pending [OF assms] blur_rest [OF assms])

lemma blur_apply_row: "blur s = blur t \<Longrightarrow> blur (apply_row s r) = blur (apply_row t r)"
  unfolding apply_row_def apply_event_def by (cases "row_message r") (auto intro: blur_project)

interpretation blurred: log_projection apply_row blur er_seq
  by unfold_locales (rule blur_apply_row)

interpretation exact: log_projection apply_row "\<lambda>s. s" er_seq
  by unfold_locales simp

lemma context_project:
  "sn_context (project p s) =
     (case p of
        WsContextEntryAdded h eid kind content authored \<Rightarrow> add_context h eid kind content (sn_context s)
      | WsContextEntryResolved h eid by_actor note_text \<Rightarrow>
          resolve_context eid by_actor note_text (sn_context s)
      | _ \<Rightarrow> sn_context s)"
  by (cases p)
    (simp_all add: project_def Let_def modify_approval_def drop_approval_def modify_member_def
      join_member_def join_as_owner_def)

lemma context_apply_row: "sn_context (apply_row s r) = fold_context_row (sn_context s) r"
  by (cases "row_message r")
    (simp_all add: apply_row_def apply_event_def fold_context_row_def context_project)

interpretation contexts: log_projection apply_row sn_context er_seq
  by unfold_locales (simp add: context_apply_row)

lemma context_fold_rows: "sn_context (fold_rows rs s) = foldl fold_context_row (sn_context s) rs"
  by (induction rs arbitrary: s) (simp_all add: fold_rows_def context_apply_row)

end
