(* ===== verification/Hub.thy ===== *)
theory Hub
  imports Hub_Store Effects Rate_Limit
begin

text \<open>
  The hub of a session (\<open>SessionHub\<close> of \<open>crates/server/src/state.rs\<close>) and the commands that clients
  send over its WebSocket connections (\<open>crates/server/src/ws.rs\<close>). A hub is an object: connections
  hold a reference to it, and \<open>sv_hubs\<close> says which object is registered for a session.
\<close>

section \<open>State\<close>

record 'j hub =
  hb_snapshot :: "'j live option"
  hb_conns :: "(nat \<times> string) list"        \<comment> \<open>subscribers of the broadcast: connection, actor\<close>
  hb_senders :: "(string \<times> nat) list"      \<comment> \<open>\<open>actor_senders\<close>: actor, connection\<close>
  hb_sent :: "(nat \<times> 'j ws_message) list"   \<comment> \<open>what was put into the channel of a connection\<close>
  hb_fenced :: fences
  hb_heartbeats :: "(string \<times> nat) list"

definition new_hub :: "'j hub" where
  "new_hub = \<lparr>hb_snapshot = None, hb_conns = [], hb_senders = [], hb_sent = [],
              hb_fenced = Map.empty, hb_heartbeats = []\<rparr>"

datatype notice =
    Notice_event string int string            \<comment> \<open>\<open>session_events\<close>: session, seq, replica\<close>
  | Notice_resolved string string             \<comment> \<open>\<open>approval_resolved\<close>: approval, decision\<close>

record 'j server =
  sv_db :: "'j hub_db"
  sv_hubs :: "string \<rightharpoonup> nat"
  sv_objects :: "nat \<Rightarrow> 'j hub"
  sv_fresh :: nat                             \<comment> \<open>the next hub object\<close>
  sv_tasks :: "string list"                   \<comment> \<open>sessions whose task runs\<close>
  sv_fed :: "(string \<times> 'j live_event) list"   \<comment> \<open>what the tasks were sent\<close>
  sv_limits :: "(string \<times> rate_limit_key) buckets"
  sv_notices :: "notice list"

text \<open>
  From outside: the database and the clock (\<open>he_pg\<close>), JSON (\<open>he_host\<close>), fresh message identifiers,
  monotonic time, the milliseconds between two dates, and the parsed contents of a scheduled
  transfer. Readings are indexed by the number of statements run so far.
\<close>

record 'j hub_env =
  he_pg :: "'j pg"
  he_host :: "'j host"
  he_msg_id :: "nat \<Rightarrow> string"
  he_instant :: "nat \<Rightarrow> nat"
  he_ms_between :: "datetime \<Rightarrow> datetime \<Rightarrow> int"
  he_transfer_to :: "string \<Rightarrow> string option"
  he_transfer_at :: "string \<Rightarrow> datetime option"
  he_replica :: string

definition ticks_of :: "'j server \<Rightarrow> nat" where
  "ticks_of s = statements_run (sv_db s)"

definition utc_now :: "'j hub_env \<Rightarrow> 'j server \<Rightarrow> datetime" where
  "utc_now E s = pg_now (he_pg E) (ticks_of s)"

definition instant_now :: "'j hub_env \<Rightarrow> 'j server \<Rightarrow> nat" where
  "instant_now E s = he_instant E (ticks_of s)"

definition run_db :: "('j, 'a) hub_op \<Rightarrow> 'j hub_env \<Rightarrow> 'j server \<Rightarrow> (db_error + 'a) \<times> 'j server" where
  "run_db m E s = (case m (he_pg E) (sv_db s) of (r, d) \<Rightarrow> (r, s\<lparr>sv_db := d\<rparr>))"

definition modify_hub :: "nat \<Rightarrow> ('j hub \<Rightarrow> 'j hub) \<Rightarrow> 'j server \<Rightarrow> 'j server" where
  "modify_hub h f s = s\<lparr>sv_objects := (sv_objects s)(h := f (sv_objects s h))\<rparr>"

definition registered :: "string \<Rightarrow> 'j server \<Rightarrow> 'j hub option" where
  "registered sid s = map_option (sv_objects s) (sv_hubs s sid)"

definition presence_of :: "'j hub_env \<Rightarrow> string \<Rightarrow> 'j server \<Rightarrow> presence option" where
  "presence_of E sid s =
     map_option
       (\<lambda>hb. \<lparr>pr_connected = map fst (hb_senders hb),
              pr_heartbeats = map (\<lambda>(a, t). (a, instant_now E s - t)) (hb_heartbeats hb)\<rparr>)
       (registered sid s)"

definition get_or_create_hub :: "string \<Rightarrow> 'j server \<Rightarrow> nat \<times> 'j server" where
  "get_or_create_hub sid s =
     (case sv_hubs s sid of
        Some h \<Rightarrow> (h, s)
      | None \<Rightarrow>
          (sv_fresh s,
           s\<lparr>sv_hubs := (sv_hubs s)(sid \<mapsto> sv_fresh s),
             sv_objects := (sv_objects s)(sv_fresh s := new_hub), sv_fresh := Suc (sv_fresh s)\<rparr>))"

text \<open>A message to the task of a session, if it runs.\<close>

definition feed :: "string \<Rightarrow> 'j live_event \<Rightarrow> 'j server \<Rightarrow> 'j server" where
  "feed sid ev s = (if sid \<in> set (sv_tasks s) then s\<lparr>sv_fed := sv_fed s @ [(sid, ev)]\<rparr> else s)"

definition announce :: "notice \<Rightarrow> 'j server \<Rightarrow> 'j server" where
  "announce n s = s\<lparr>sv_notices := sv_notices s @ [n]\<rparr>"

section \<open>Sending\<close>

definition broadcast :: "'j ws_message \<Rightarrow> 'j hub \<Rightarrow> 'j hub" where
  "broadcast msg hb = hb\<lparr>hb_sent := hb_sent hb @ map (\<lambda>(c, a). (c, msg)) (hb_conns hb)\<rparr>"

definition send_to :: "string \<Rightarrow> 'j ws_message \<Rightarrow> 'j hub \<Rightarrow> 'j hub" where
  "send_to actor msg hb =
     (case map_of (hb_senders hb) actor of
        None \<Rightarrow> hb | Some c \<Rightarrow> hb\<lparr>hb_sent := hb_sent hb @ [(c, msg)]\<rparr>)"

definition role_in :: "(string \<times> string) list \<Rightarrow> string \<Rightarrow> member_role" where
  "role_in ms actor =
     (case Option.bind (map_of ms actor) role_from_str of None \<Rightarrow> Observer | Some r \<Rightarrow> r)"

definition gated_sends ::
  "(string \<times> string) list \<Rightarrow> member_role \<Rightarrow> 'j ws_message \<Rightarrow> 'j ws_message option \<Rightarrow> (string \<times> nat) list
   \<Rightarrow> (nat \<times> 'j ws_message) list" where
  "gated_sends ms min_role full redacted senders =
     List.map_filter
       (\<lambda>(actor, c). if satisfies (role_in ms actor) min_role then Some (c, full)
                    else map_option (\<lambda>m. (c, m)) redacted) senders"

definition broadcast_gated ::
  "'j hub_env \<Rightarrow> nat \<Rightarrow> string \<Rightarrow> member_role \<Rightarrow> 'j ws_message \<Rightarrow> 'j ws_message option
   \<Rightarrow> 'j server \<Rightarrow> 'j server" where
  "broadcast_gated E h sid min_role full redacted s =
     (case run_db (on_store (list_memberships sid)) E s of
        (r, s1) \<Rightarrow>
          modify_hub h (\<lambda>hb. hb\<lparr>hb_sent := hb_sent hb @
            gated_sends (case r of Inl _ \<Rightarrow> [] | Inr ms \<Rightarrow> ms) min_role full redacted (hb_senders hb)\<rparr>) s1)"

definition store_live :: "'j live \<Rightarrow> 'j hub \<Rightarrow> 'j hub" where
  "store_live new hb =
     (case hb_snapshot hb of
        Some old \<Rightarrow> if lv_seq old > lv_seq new then hb else hb\<lparr>hb_snapshot := Some new\<rparr>
      | None \<Rightarrow> hb\<lparr>hb_snapshot := Some new\<rparr>)"

definition store_and_broadcast ::
  "'j hub_env \<Rightarrow> nat \<Rightarrow> string \<Rightarrow> int \<Rightarrow> 'j session_snapshot \<Rightarrow> 'j ws_message \<Rightarrow> 'j server \<Rightarrow> 'j server" where
  "store_and_broadcast E h sid sq new_snap event s =
     (let s1 = modify_hub h (store_live \<lparr>lv_seq = sq, lv_state = new_snap\<rparr>) s
      in case min_role_of (wm_payload event) of
           None \<Rightarrow> modify_hub h (broadcast event) s1
         | Some r \<Rightarrow> broadcast_gated E h sid r event (redact (j_null (he_host E)) event) s1)"

definition make_event :: "'j hub_env \<Rightarrow> 'j server \<Rightarrow> 'j ws_payload \<Rightarrow> 'j ws_message" where
  "make_event E s p = \<lparr>wm_id = he_msg_id E (ticks_of s), wm_payload = p\<rparr>"

text \<open>The envelope of a new event, whose number is given when it is stamped.\<close>

definition head_now :: "'j hub_env \<Rightarrow> string \<Rightarrow> string \<Rightarrow> 'j server \<Rightarrow> ws_head" where
  "head_now E sid actor s =
     \<lparr>ws_session = sid, ws_actor = actor, ws_timestamp = utc_now E s, ws_seq = 0\<rparr>"

definition broadcast_presence ::
  "'j hub_env \<Rightarrow> nat \<Rightarrow> string \<Rightarrow> string \<Rightarrow> bool \<Rightarrow> member_role option \<Rightarrow> 'j server \<Rightarrow> 'j server" where
  "broadcast_presence E h sid actor attached role s =
     (let patch = (\<lambda>m. m\<lparr>sm_attached := attached,
                        sm_role := (case role of None \<Rightarrow> sm_role m | Some r \<Rightarrow> r)\<rparr>);
          msg = make_event E s (WsPresenceChanged sid actor (utc_now E s) attached role)
      in modify_hub h (broadcast msg \<circ>
           (\<lambda>hb. hb\<lparr>hb_snapshot := map_option
              (\<lambda>l. l\<lparr>lv_state := modify_member actor patch (lv_state l)\<rparr>) (hb_snapshot hb)\<rparr>)) s)"

definition broadcast_presence_focus ::
  "'j hub_env \<Rightarrow> nat \<Rightarrow> string \<Rightarrow> string \<Rightarrow> string option \<Rightarrow> 'j server \<Rightarrow> 'j server" where
  "broadcast_presence_focus E h sid actor tab s =
     modify_hub h (broadcast (make_event E s (WsPresenceFocus sid actor (utc_now E s) tab))) s"

definition send_resolved ::
  "'j hub_env \<Rightarrow> nat \<Rightarrow> string \<Rightarrow> string \<Rightarrow> approval_decision \<Rightarrow> string option \<Rightarrow> 'j server \<Rightarrow> 'j server" where
  "send_resolved E h actor aid decision resolved_by s =
     modify_hub h
       (send_to actor (make_event E s (WsApprovalResolved aid decision resolved_by (utc_now E s) None))) s"

section \<open>Committing an event\<close>

definition current_live :: "nat \<Rightarrow> 'j server \<Rightarrow> 'j live option" where
  "current_live h s = hb_snapshot (sv_objects s h)"

definition current_snap :: "nat \<Rightarrow> 'j server \<Rightarrow> 'j session_snapshot option" where
  "current_snap h s = map_option lv_state (current_live h s)"

definition load_live :: "'j hub_env \<Rightarrow> string \<Rightarrow> 'j server \<Rightarrow> 'j live option \<times> 'j server" where
  "load_live E sid s =
     (case run_db (load_snapshot_from_db (presence_of E sid s) sid) E s of
        (Inr (sq, snap), s1) \<Rightarrow> (Some \<lparr>lv_seq = sq, lv_state = snap\<rparr>, s1)
      | (Inl _, s1) \<Rightarrow> (None, s1))"

definition warm_snap :: "'j hub_env \<Rightarrow> nat \<Rightarrow> string \<Rightarrow> 'j server \<Rightarrow> 'j live option \<times> 'j server" where
  "warm_snap E h sid s =
     (case current_live h s of
        Some l \<Rightarrow> (Some l, s)
      | None \<Rightarrow>
          (case load_live E sid s of
             (Some l, s1) \<Rightarrow> (Some l, modify_hub h (\<lambda>hb. hb\<lparr>hb_snapshot := Some l\<rparr>) s1)
           | (None, s1) \<Rightarrow> (None, s1)))"

text \<open>
  A transaction of \<open>body\<close> and the event, and after its commit the store and the broadcast. The
  answer says whether it was committed.
\<close>

definition commit_with ::
  "'j hub_env \<Rightarrow> nat \<Rightarrow> string \<Rightarrow> string \<Rightarrow> 'j live option \<Rightarrow> ('j, 'a) hub_op \<Rightarrow> 'j ws_message
   \<Rightarrow> 'j server \<Rightarrow> (db_error + 'a) \<times> 'j server" where
  "commit_with E h sid actor base body event s =
     (case run_db (hub_transaction
             (db_bind body (\<lambda>x. db_bind (stamp_append_snapshot base sid actor event) (\<lambda>r. db_return (x, r))))) E s of
        (Inl e, s1) \<Rightarrow> (Inl e, s1)
      | (Inr (x, sq, new_snap, stamped), s1) \<Rightarrow>
          (Inr x, store_and_broadcast E h sid sq new_snap stamped s1))"

definition commit_event ::
  "'j hub_env \<Rightarrow> nat \<Rightarrow> string \<Rightarrow> string \<Rightarrow> 'j ws_message \<Rightarrow> 'j server \<Rightarrow> 'j server" where
  "commit_event E h sid actor event s =
     (case warm_snap E h sid s of
        (base, s1) \<Rightarrow> snd (commit_with E h sid actor base (db_return ()) event s1))"

definition check_rate_limit ::
  "'j hub_env \<Rightarrow> nat \<Rightarrow> string \<Rightarrow> string \<Rightarrow> rate_limit_key \<Rightarrow> 'j server \<Rightarrow> bool \<times> 'j server" where
  "check_rate_limit E h sid actor key s =
     (case session_check sid key (instant_now E s) (sv_limits s) of
        (m, Allowed, _) \<Rightarrow> (True, s\<lparr>sv_limits := m\<rparr>)
      | (m, RateDenied retry_after, pol) \<Rightarrow>
          let s1 = s\<lparr>sv_limits := m\<rparr>
          in (False,
              commit_event E h sid actor
                (make_event E s1 (WsEffectRateLimited (head_now E sid actor s1) (key_label key)
                   (case pol of None \<Rightarrow> [] | Some p \<Rightarrow> describe p) (of_nat (as_secs retry_after)))) s1))"

end
