(* ===== verification/Hub_Commands.thy ===== *)
theory Hub_Commands
  imports Hub
begin

text \<open>
  The commands of a WebSocket connection (\<open>dispatch\<close> and its handlers), the writers outside a
  connection (\<open>emit_to_session\<close>, \<open>create_approval_for_session\<close>, \<open>vote_on_approval\<close>), the background
  sweeps of \<open>crates/server/src/ws.rs\<close>, and the delivery of another replica's event
  (\<open>crates/server/src/notifier.rs\<close>).
\<close>

section \<open>Approvals\<close>

definition expires_ms :: "'j hub_env \<Rightarrow> datetime option \<Rightarrow> 'j server \<Rightarrow> u64 option" where
  "expires_ms E expires s =
     map_option (\<lambda>e. word_of_int (max 0 (he_ms_between E e (utc_now E s)))) expires"

definition wants_to_call :: "string \<Rightarrow> string \<Rightarrow> string" where
  "wants_to_call actor tname = actor @ '' wants to call '' @ tname"

definition handle_approval_request ::
  "'j hub_env \<Rightarrow> nat \<Rightarrow> string \<Rightarrow> string \<Rightarrow> string \<Rightarrow> string \<Rightarrow> 'j \<Rightarrow> datetime option
   \<Rightarrow> 'j server \<Rightarrow> 'j server" where
  "handle_approval_request E h sid actor aid tname args expires s =
     (case check_rate_limit E h sid actor (ApprovalRequestKey actor) s of
        (False, s1) \<Rightarrow> s1
      | (True, s1) \<Rightarrow>
          let event = make_event E s1 (WsApprovalRequested (head_now E sid actor s1) aid tname
                        (wants_to_call actor tname) actor expires args)
          in (case warm_snap E h sid s1 of
                (base, s2) \<Rightarrow>
                  (case commit_with E h sid actor base
                          (on_store (insert_approval aid sid actor tname args expires)) event s2 of
                     (Inl _, s3) \<Rightarrow> s3
                   | (Inr _, s3) \<Rightarrow>
                       feed sid (ApprovalCreate aid actor tname args (expires_ms E expires s3)) s3)))"

definition handle_approval_claim ::
  "'j hub_env \<Rightarrow> nat \<Rightarrow> string \<Rightarrow> string \<Rightarrow> string \<Rightarrow> 'j server \<Rightarrow> 'j server" where
  "handle_approval_claim E h sid actor aid s =
     (let event = make_event E s (WsApprovalClaimed (head_now E sid actor s) aid)
      in (case warm_snap E h sid s of
            (base, s1) \<Rightarrow>
              (case commit_with E h sid actor base (on_store (claim_if_pending_in_tx aid)) event s1 of
                 (Inl _, s2) \<Rightarrow> s2
               | (Inr _, s2) \<Rightarrow> feed sid (ApprovalClaim aid actor) s2)))"

datatype vote_outcome = Vote_applied | Vote_rejected | Vote_failed

definition policy_from_str :: "string \<Rightarrow> approval_policy" where
  "policy_from_str p =
     (if p = ''majority'' then Majority else if p = ''unanimous'' then Unanimous else SingleVote)"

definition vote_policy :: "'j live option \<Rightarrow> approval_policy \<times> nat" where
  "vote_policy l =
     (case l of
        None \<Rightarrow> (SingleVote, 1)
      | Some live \<Rightarrow>
          (policy_from_str (sn_approval_policy (lv_state live)),
           length (filter (\<lambda>m. sm_role m = Owner \<or> sm_role m = Collaborator) (sn_members (lv_state live)))))"

fun vote_str :: "vote \<Rightarrow> string" where
  "vote_str Approve = ''approve''"
| "vote_str Deny = ''deny''"

text \<open>The outcome on the approval row, and the event that announces it.\<close>

definition write_outcome :: "string \<Rightarrow> string \<Rightarrow> string \<Rightarrow> approval_state \<Rightarrow> ('j, unit) db_op" where
  "write_outcome sid actor aid st =
     (case st of
        ASApproved \<Rightarrow> db_bind (resolve_in_tx aid sid ''Approved'' actor) (\<lambda>_. db_return ())
      | ASDenied \<Rightarrow> db_bind (resolve_in_tx aid sid ''Denied'' actor) (\<lambda>_. db_return ())
      | ASContested \<Rightarrow> db_bind (set_state_in_tx aid sid ''Contested'') (\<lambda>_. db_return ())
      | _ \<Rightarrow> db_return ())"

definition outcome_payload ::
  "'j hub_env \<Rightarrow> string \<Rightarrow> string \<Rightarrow> string \<Rightarrow> (string, vote) btree \<Rightarrow> approval_state \<Rightarrow> 'j server
   \<Rightarrow> 'j ws_payload option" where
  "outcome_payload E sid actor aid votes st s =
     (case st of
        ASApproved \<Rightarrow> Some (WsApprovalGranted (head_now E sid actor s) aid)
      | ASDenied \<Rightarrow> Some (WsApprovalDenied (head_now E sid actor s) aid None)
      | ASContested \<Rightarrow> Some (WsApprovalContested (head_now E sid ''system'' s) aid votes ''owner'')
      | _ \<Rightarrow> None)"

text \<open>
  The transaction of a vote: the row as updated, the outcome, and what is to be broadcast. Only the
  error of the first statement is told apart, so the others lose their kind.
\<close>

definition or_failed :: "('j, 'a) hub_op \<Rightarrow> ('j, 'a) hub_op" where
  "or_failed m = db_attempt m (\<lambda>r. case r of Inl e \<Rightarrow> db_fail Sqlx | Inr x \<Rightarrow> db_return x)"

definition vote_in_tx ::
  "'j hub_env \<Rightarrow> string \<Rightarrow> string \<Rightarrow> string \<Rightarrow> vote \<Rightarrow> approval_policy \<times> nat \<Rightarrow> 'j live option \<Rightarrow> 'j server
   \<Rightarrow> ('j, 'j approval_row \<times> approval_state \<times> (int \<times> 'j session_snapshot \<times> 'j ws_message) option) hub_op" where
  "vote_in_tx E sid actor aid v pol base s =
     db_bind (on_store (record_vote_in_tx aid sid actor (vote_str v))) (\<lambda>updated.
     let votes = parse_votes (aq_votes updated); new_state = evaluate (fst pol) votes (snd pol) in
     db_bind (or_failed (on_store (write_outcome sid actor aid new_state))) (\<lambda>_.
       case outcome_payload E sid actor aid votes new_state s of
         None \<Rightarrow> db_return (updated, new_state, None)
       | Some p \<Rightarrow>
           db_bind (or_failed (stamp_append_snapshot base sid actor (make_event E s p))) (\<lambda>r.
             db_return (updated, new_state, Some r))))"

definition get_by_target_approval :: "string \<Rightarrow> ('j, delegation_row option) hub_op" where
  "get_by_target_approval aid =
     hub_statement (\<lambda>now d.
       (Inr (find (\<lambda>r. cd_target_approval r = Some aid \<and> cd_status r = ''pending'') (hd_delegations d)), d))"

text \<open>The ack to the session that delegated the approval.\<close>

definition ack_delegation ::
  "'j hub_env \<Rightarrow> string \<Rightarrow> approval_state \<Rightarrow> 'j server \<Rightarrow> 'j server" where
  "ack_delegation E aid st s =
     (if st = ASApproved \<or> st = ASDenied then
        (case run_db (get_by_target_approval aid) E s of
           (Inr (Some d), s1) \<Rightarrow>
             feed (cd_source_session d)
               (SagaAck (cd_saga d) 0
                  (if st = ASApproved then Committed else Rejected ''denied by delegated session'')) s1
         | (_, s1) \<Rightarrow> s1)
      else s)"

definition resolution_of :: "approval_state \<Rightarrow> approval_decision option" where
  "resolution_of st =
     (case st of ASApproved \<Rightarrow> Some Decision_granted | ASDenied \<Rightarrow> Some Decision_denied | _ \<Rightarrow> None)"

fun resolution_str :: "approval_decision \<Rightarrow> string" where
  "resolution_str Decision_granted = ''granted''"
| "resolution_str Decision_denied = ''denied''"
| "resolution_str Decision_timed_out = ''timed_out''"

text \<open>\<open>pg_notify\<close>, whose failure is logged only.\<close>

definition notify_resolved :: "'j hub_env \<Rightarrow> string \<Rightarrow> approval_decision \<Rightarrow> 'j server \<Rightarrow> 'j server" where
  "notify_resolved E aid dec s =
     (case run_db (hub_statement (\<lambda>now d. (Inr (), d))) E s of
        (Inl _, s1) \<Rightarrow> s1 | (Inr _, s1) \<Rightarrow> announce (Notice_resolved aid (resolution_str dec)) s1)"

definition handle_vote ::
  "'j hub_env \<Rightarrow> nat \<Rightarrow> string \<Rightarrow> string \<Rightarrow> string \<Rightarrow> vote \<Rightarrow> 'j server \<Rightarrow> vote_outcome \<times> 'j server" where
  "handle_vote E h sid actor aid v s =
     (let pol = vote_policy (current_live h s) in
      case warm_snap E h sid s of
        (base, s1) \<Rightarrow>
          (case run_db (hub_transaction (vote_in_tx E sid actor aid v pol base s1)) E s1 of
             (Inl Not_found, s2) \<Rightarrow> (Vote_rejected, s2)
           | (Inl _, s2) \<Rightarrow> (Vote_failed, s2)
           | (Inr (updated, st, sent), s2) \<Rightarrow>
               let s3 = (case sent of
                           None \<Rightarrow> s2
                         | Some (sq, new_snap, ev) \<Rightarrow> store_and_broadcast E h sid sq new_snap ev s2);
                   s4 = feed sid (VoteCast aid actor (if v = Approve then VoteApprove else VoteDeny)) s3;
                   s5 = ack_delegation E aid st s4
               in (Vote_applied,
                   case resolution_of st of
                     None \<Rightarrow> s5
                   | Some dec \<Rightarrow>
                       send_resolved E h (aq_actor updated) aid dec (Some actor)
                         (notify_resolved E aid dec s5))))"

definition handle_approval_cancel ::
  "'j hub_env \<Rightarrow> nat \<Rightarrow> string \<Rightarrow> string \<Rightarrow> string \<Rightarrow> 'j server \<Rightarrow> 'j server" where
  "handle_approval_cancel E h sid actor aid s =
     (let event = make_event E s (WsApprovalCancelled (head_now E sid actor s) aid)
      in (case warm_snap E h sid s of
            (base, s1) \<Rightarrow>
              (case commit_with E h sid actor base (on_store (set_state_in_tx aid sid ''Expired'')) event s1 of
                 (Inl _, s2) \<Rightarrow> s2
               | (Inr _, s2) \<Rightarrow> feed sid (ApprovalCancel aid actor) s2)))"

definition handle_approval_delegate ::
  "'j hub_env \<Rightarrow> nat \<Rightarrow> string \<Rightarrow> string \<Rightarrow> string \<Rightarrow> string \<Rightarrow> 'j server \<Rightarrow> 'j server" where
  "handle_approval_delegate E h sid actor aid delegate_to s =
     feed sid (ApprovalDelegate aid actor delegate_to)
       (commit_event E h sid actor
          (make_event E s (WsApprovalDelegated (head_now E sid actor s) aid actor delegate_to)) s)"

definition handle_approval_dispute ::
  "'j hub_env \<Rightarrow> nat \<Rightarrow> string \<Rightarrow> string \<Rightarrow> string \<Rightarrow> string \<Rightarrow> 'j server \<Rightarrow> 'j server" where
  "handle_approval_dispute E h sid actor aid reason s =
     feed sid (ApprovalDispute aid actor reason)
       (commit_event E h sid actor
          (make_event E s (WsApprovalDisputed (head_now E sid actor s) aid reason)) s)"

section \<open>Messages, context, status, ownership\<close>

definition handle_agent_status ::
  "'j hub_env \<Rightarrow> nat \<Rightarrow> string \<Rightarrow> string \<Rightarrow> agent_status \<Rightarrow> 'j server \<Rightarrow> 'j server" where
  "handle_agent_status E h sid actor st s =
     commit_event E h sid actor (make_event E s (WsAgentStatusChanged (head_now E sid actor s) st)) s"

definition handle_message_post ::
  "'j hub_env \<Rightarrow> nat \<Rightarrow> string \<Rightarrow> string \<Rightarrow> string \<Rightarrow> 'j server \<Rightarrow> 'j server" where
  "handle_message_post E h sid actor content s =
     (case check_rate_limit E h sid actor (MessagePostKey actor) s of
        (False, s1) \<Rightarrow> s1
      | (True, s1) \<Rightarrow>
          feed sid (MessagePost actor content)
            (commit_event E h sid actor
               (make_event E s1 (WsMessagePosted (head_now E sid actor s1) content)) s1))"

definition handle_context_add ::
  "'j hub_env \<Rightarrow> nat \<Rightarrow> string \<Rightarrow> string \<Rightarrow> context_entry_kind \<Rightarrow> string \<Rightarrow> 'j server \<Rightarrow> 'j server" where
  "handle_context_add E h sid actor kind content s =
     (case check_rate_limit E h sid actor (ContextAddKey actor) s of
        (False, s1) \<Rightarrow> s1
      | (True, s1) \<Rightarrow>
          let eid = ulid (he_pg E) (ticks_of s1)
          in feed sid (ContextAdd eid actor kind content)
               (commit_event E h sid actor
                  (make_event E s1 (WsContextEntryAdded (head_now E sid actor s1) eid kind content None)) s1))"

definition handle_context_resolve ::
  "'j hub_env \<Rightarrow> nat \<Rightarrow> string \<Rightarrow> string \<Rightarrow> string \<Rightarrow> string option \<Rightarrow> 'j server \<Rightarrow> 'j server" where
  "handle_context_resolve E h sid actor eid note_text s =
     feed sid (ContextResolve eid actor note_text)
       (commit_event E h sid actor
          (make_event E s (WsContextEntryResolved (head_now E sid actor s) eid actor note_text)) s)"

text \<open>
  \<open>transfer_ownership_in_tx\<close> is run for its effect; an error of one of its statements aborts the
  transaction.
\<close>

definition handle_ownership_transfer ::
  "'j hub_env \<Rightarrow> nat \<Rightarrow> string \<Rightarrow> string \<Rightarrow> string \<Rightarrow> 'j server \<Rightarrow> 'j server" where
  "handle_ownership_transfer E h sid old new s =
     (case check_rate_limit E h sid old OwnershipTransferKey s of
        (False, s1) \<Rightarrow> s1
      | (True, s1) \<Rightarrow>
          let event = make_event E s1 (WsOwnershipTransferred (head_now E sid old s1) old new)
          in (case warm_snap E h sid s1 of
                (base, s2) \<Rightarrow>
                  snd (commit_with E h sid old base (on_store (transfer_ownership_in_tx sid old new)) event s2)))"

section \<open>Dispatch\<close>

definition may_vote :: "string \<Rightarrow> bool" where
  "may_vote role \<longleftrightarrow> role = ''owner'' \<or> role = ''collaborator''"

definition resolves_approval :: "'j ws_payload \<Rightarrow> bool" where
  "resolves_approval p =
     (case p of
        WsApprovalGrant _ _ _ \<Rightarrow> True
      | WsApprovalDeny _ _ _ _ \<Rightarrow> True
      | WsApprovalClaim _ _ _ \<Rightarrow> True
      | WsApprovalCancel _ _ _ \<Rightarrow> True
      | _ \<Rightarrow> False)"

definition session_status_now :: "nat \<Rightarrow> 'j server \<Rightarrow> session_status" where
  "session_status_now h s = (case current_snap h s of None \<Rightarrow> StatusActive | Some sn \<Rightarrow> sn_status sn)"

definition gate_lifecycle :: "session_status \<Rightarrow> 'j ws_payload \<Rightarrow> bool" where
  "gate_lifecycle st p \<longleftrightarrow>
     (case st of
        StatusArchived \<Rightarrow> False
      | StatusSuspended \<Rightarrow> resolves_approval p
      | StatusActive \<Rightarrow> True)"

definition handle_command ::
  "'j hub_env \<Rightarrow> nat \<Rightarrow> string \<Rightarrow> string \<Rightarrow> string \<Rightarrow> 'j ws_payload \<Rightarrow> 'j server \<Rightarrow> 'j server" where
  "handle_command E h sid actor role p s =
     (case p of
        WsApprovalRequest a b aid tname args expires \<Rightarrow>
          handle_approval_request E h sid actor aid tname args expires s
      | WsApprovalClaim a aid b \<Rightarrow> handle_approval_claim E h sid actor aid s
      | WsApprovalGrant a aid b \<Rightarrow>
          if may_vote role then snd (handle_vote E h sid actor aid Approve s) else s
      | WsApprovalDeny a aid b c \<Rightarrow>
          if may_vote role then snd (handle_vote E h sid actor aid Deny s) else s
      | WsApprovalCancel a aid b \<Rightarrow> handle_approval_cancel E h sid actor aid s
      | WsApprovalDelegate a aid b delegate_to c \<Rightarrow> handle_approval_delegate E h sid actor aid delegate_to s
      | WsApprovalDispute a aid b reason \<Rightarrow> handle_approval_dispute E h sid actor aid reason s
      | WsOwnershipTransfer a old new \<Rightarrow>
          if role = ''owner'' then handle_ownership_transfer E h sid old new s else s
      | WsMessagePost a content \<Rightarrow> handle_message_post E h sid actor content s
      | WsAgentStatusUpdate a b st \<Rightarrow> handle_agent_status E h sid actor st s
      | WsContextEntryAdd a b kind content \<Rightarrow> handle_context_add E h sid actor kind content s
      | WsContextEntryResolve a b eid note_text \<Rightarrow> handle_context_resolve E h sid actor eid note_text s
      | WsPresenceFocusSet a tab \<Rightarrow> broadcast_presence_focus E h sid actor tab s
      | _ \<Rightarrow> s)"

definition dispatch_command ::
  "'j hub_env \<Rightarrow> nat \<Rightarrow> string \<Rightarrow> string \<Rightarrow> string \<Rightarrow> 'j ws_message \<Rightarrow> 'j server \<Rightarrow> 'j server" where
  "dispatch_command E h sid actor role msg s =
     (if gate_lifecycle (session_status_now h s) (wm_payload msg)
      then handle_command E h sid actor role (wm_payload msg) s else s)"

section \<open>Writers outside a connection\<close>

text \<open>The snapshot they start from: that of a registered hub, even when it has none.\<close>

definition outside_base :: "'j hub_env \<Rightarrow> string \<Rightarrow> 'j server \<Rightarrow> 'j live option \<times> 'j server" where
  "outside_base E sid s =
     (case sv_hubs s sid of Some h \<Rightarrow> (current_live h s, s) | None \<Rightarrow> load_live E sid s)"

definition commit_outside ::
  "'j hub_env \<Rightarrow> string \<Rightarrow> string \<Rightarrow> ('j, 'a) hub_op \<Rightarrow> 'j ws_message \<Rightarrow> 'j server
   \<Rightarrow> (db_error + 'a \<times> int \<times> 'j session_snapshot \<times> 'j ws_message) \<times> 'j server" where
  "commit_outside E sid actor body event s =
     (case outside_base E sid s of
        (base, s1) \<Rightarrow>
          run_db (hub_transaction
            (db_bind body (\<lambda>x. db_bind (stamp_append_snapshot base sid actor event) (\<lambda>r. db_return (x, r))))) E s1)"

definition publish ::
  "'j hub_env \<Rightarrow> string \<Rightarrow> int \<Rightarrow> 'j session_snapshot \<Rightarrow> 'j ws_message \<Rightarrow> 'j server \<Rightarrow> 'j server" where
  "publish E sid sq new_snap stamped s =
     (case sv_hubs s sid of None \<Rightarrow> s | Some h \<Rightarrow> store_and_broadcast E h sid sq new_snap stamped s)"

definition notify_session :: "'j hub_env \<Rightarrow> string \<Rightarrow> int \<Rightarrow> 'j server \<Rightarrow> 'j server" where
  "notify_session E sid sq s =
     (case run_db (hub_statement (\<lambda>now d. (Inr (), d))) E s of
        (Inl _, s1) \<Rightarrow> s1 | (Inr _, s1) \<Rightarrow> announce (Notice_event sid sq (he_replica E)) s1)"

definition emit_to_session ::
  "'j hub_env \<Rightarrow> string \<Rightarrow> string \<Rightarrow> 'j ws_message \<Rightarrow> 'j server \<Rightarrow> 'j server" where
  "emit_to_session E sid actor event s =
     (case commit_outside E sid actor (db_return ()) event s of
        (Inl _, s1) \<Rightarrow> s1
      | (Inr (_, sq, new_snap, stamped), s1) \<Rightarrow>
          publish E sid sq new_snap stamped (notify_session E sid sq s1))"

definition create_approval_for_session ::
  "'j hub_env \<Rightarrow> string \<Rightarrow> string \<Rightarrow> string \<Rightarrow> 'j \<Rightarrow> u64 \<Rightarrow> 'j server
   \<Rightarrow> (db_error + (string \<times> datetime) option) \<times> 'j server" where
  "create_approval_for_session E sid actor tname args timeout s =
     (case add_secs (he_pg E) (utc_now E s) (sint timeout) of
        None \<Rightarrow> (Inl Panicked, s)
      | Some expires \<Rightarrow>
          let aid = ulid (he_pg E) (ticks_of s);
              event = make_event E s (WsApprovalRequested (head_now E sid actor s) aid tname
                        (wants_to_call actor tname) actor (Some expires) args)
          in (case commit_outside E sid actor
                     (on_store (insert_approval aid sid actor tname args (Some expires))) event s of
                (Inl _, s1) \<Rightarrow> (Inr None, s1)
              | (Inr (_, sq, new_snap, stamped), s1) \<Rightarrow>
                  let s2 = publish E sid sq new_snap stamped s1
                  in (Inr (Some (aid, expires)),
                      feed sid (ApprovalCreate aid actor tname args (expires_ms E (Some expires) s2)) s2)))"

definition vote_on_approval ::
  "'j hub_env \<Rightarrow> string \<Rightarrow> string \<Rightarrow> string \<Rightarrow> vote \<Rightarrow> 'j server \<Rightarrow> vote_outcome \<times> 'j server" where
  "vote_on_approval E sid actor aid v s =
     (case get_or_create_hub sid s of
        (h, s1) \<Rightarrow> handle_vote E h sid actor aid v (snd (warm_snap E h sid s1)))"

section \<open>Sweeps\<close>

definition get_approval :: "string \<Rightarrow> ('j, 'j approval_row) db_op" where
  "get_approval aid =
     statement (\<lambda>now d.
       (case find (\<lambda>q. aq_id q = aid) (approval_rows d) of None \<Rightarrow> Inl Not_found | Some q \<Rightarrow> Inr q, d))"

definition announce_expiry :: "'j hub_env \<Rightarrow> string \<Rightarrow> 'j server \<Rightarrow> 'j server" where
  "announce_expiry E aid s =
     (case run_db (on_store (get_approval aid)) E (notify_resolved E aid Decision_timed_out s) of
        (Inl _, s1) \<Rightarrow> s1
      | (Inr q, s1) \<Rightarrow>
          (case sv_hubs s1 (aq_session q) of
             None \<Rightarrow> s1
           | Some h \<Rightarrow>
               let s2 = send_resolved E h (aq_actor q) aid Decision_timed_out None s1
               in commit_event E h (aq_session q) (aq_actor q)
                    (make_event E s2
                       (WsApprovalTimedOut (head_now E (aq_session q) (aq_actor q) s2) aid)) s2))"

definition sweep_expired_approvals :: "'j hub_env \<Rightarrow> 'j server \<Rightarrow> 'j server" where
  "sweep_expired_approvals E s =
     (case run_db (on_store expire_timed_out) E s of
        (Inl _, s1) \<Rightarrow> s1 | (Inr ids, s1) \<Rightarrow> fold (announce_expiry E) ids s1)"

definition delete_artifact :: "string \<Rightarrow> ('j, unit) hub_op" where
  "delete_artifact aid =
     hub_statement (\<lambda>now d. (Inr (), d\<lparr>hd_artifacts := filter (\<lambda>a. ar_id a \<noteq> aid) (hd_artifacts d)\<rparr>))"

text \<open>
  The transaction of a scheduled transfer: the transfer, the event with its snapshot, the deletion.
\<close>

definition transfer_in_tx ::
  "string \<Rightarrow> string \<Rightarrow> string \<Rightarrow> string \<Rightarrow> 'j live option \<Rightarrow> 'j ws_message
   \<Rightarrow> ('j, int \<times> 'j session_snapshot \<times> 'j ws_message) hub_op" where
  "transfer_in_tx sid old new art base event =
     db_bind (on_store (transfer_ownership_in_tx sid old new)) (\<lambda>_.
     db_bind (stamp_append_snapshot base sid old event) (\<lambda>r.
     db_bind (delete_artifact art) (\<lambda>_. db_return r)))"

definition fire_scheduled_transfer :: "'j hub_env \<Rightarrow> artifact_row \<Rightarrow> 'j server \<Rightarrow> 'j server" where
  "fire_scheduled_transfer E art s =
     (let sid = ar_session art in
      case he_transfer_to E (ar_storage_ref art) of
        None \<Rightarrow> s
      | Some new \<Rightarrow>
          (case run_db (on_store (list_memberships sid)) E s of
             (Inl _, s1) \<Rightarrow> s1
           | (Inr ms, s1) \<Rightarrow>
               (case find (\<lambda>(a, r). r = ''owner'') ms of
                  None \<Rightarrow> snd (run_db (delete_artifact (ar_id art)) E s1)
                | Some (old, _) \<Rightarrow>
                    if old = new then snd (run_db (delete_artifact (ar_id art)) E s1)
                    else
                      (case outside_base E sid s1 of
                         (base, s2) \<Rightarrow>
                           let event = make_event E s2 (WsOwnershipTransferred (head_now E sid old s2) old new)
                           in (case run_db (hub_transaction (transfer_in_tx sid old new (ar_id art) base event)) E s2 of
                                 (Inl _, s3) \<Rightarrow> s3
                               | (Inr (sq, new_snap, stamped), s3) \<Rightarrow> publish E sid sq new_snap stamped s3)))))"

definition list_overdue_scheduled_transfers :: "'j hub_env \<Rightarrow> ('j, artifact_row list) hub_op" where
  "list_overdue_scheduled_transfers E =
     hub_statement (\<lambda>now d.
       (Inr (filter (\<lambda>a. ar_type a = ''scheduled_transfer'' \<and>
                (case he_transfer_at E (ar_storage_ref a) of None \<Rightarrow> False | Some t \<Rightarrow> t \<le> now))
              (hd_artifacts d)), d))"

definition sweep_scheduled_transfers :: "'j hub_env \<Rightarrow> 'j server \<Rightarrow> 'j server" where
  "sweep_scheduled_transfers E s =
     (case run_db (list_overdue_scheduled_transfers E) E s of
        (Inl _, s1) \<Rightarrow> s1 | (Inr arts, s1) \<Rightarrow> fold (fire_scheduled_transfer E) arts s1)"

text \<open>One round for one hub; the row that records the disconnection is not kept here.\<close>

definition sweep_stale_agents :: "'j hub_env \<Rightarrow> string \<Rightarrow> nat \<Rightarrow> 'j server \<Rightarrow> 'j server" where
  "sweep_stale_agents E sid h s =
     fold
       (\<lambda>actor st. broadcast_presence E h sid actor False None
          (modify_hub h (\<lambda>hb. hb\<lparr>hb_heartbeats := filter (\<lambda>(a, t). a \<noteq> actor) (hb_heartbeats hb)\<rparr>) st))
       (map fst (filter (\<lambda>(a, t). from_secs AGENT_STALE_THRESHOLD_SECS < instant_now E s - t)
          (hb_heartbeats (sv_objects s h)))) s"

section \<open>Delivery across replicas\<close>

definition deliver :: "'j hub_env \<Rightarrow> nat \<Rightarrow> string \<Rightarrow> int \<Rightarrow> 'j server \<Rightarrow> 'j server" where
  "deliver E h sid sq s =
     (case run_db (list_events sid (Some (sq - 1)) (Some 1)) E s of
        (Inr (row # _), s1) \<Rightarrow>
          (case row_message row of
             None \<Rightarrow> s1
           | Some msg \<Rightarrow>
               (case warm_snap E h sid s1 of
                  (None, s2) \<Rightarrow> s2
                | (Some current, s2) \<Rightarrow>
                    store_and_broadcast E h sid sq (apply_event (lv_state current) msg) msg s2))
      | (_, s1) \<Rightarrow> s1)"

definition on_notification :: "'j hub_env \<Rightarrow> notice \<Rightarrow> 'j server \<Rightarrow> 'j server" where
  "on_notification E n s =
     (case n of
        Notice_event sid sq replica \<Rightarrow>
          if replica = he_replica E then s
          else (case sv_hubs s sid of None \<Rightarrow> s | Some h \<Rightarrow> deliver E h sid sq s)
      | Notice_resolved _ _ \<Rightarrow> s)"

end
