(* ===== verification/Hub_Runs.thy ===== *)
theory Hub_Runs
  imports Projection_Laws Hub_Commands
begin

text \<open>
  The hub of a session as a machine whose steps interleave. A handler reads a base, commits a
  transaction on it, and stores what it computed; between any two of these other handlers, other
  replicas and the task of the session take steps. What is in flight is kept beside the server: the
  bases that were read and the results that were committed.
\<close>

section \<open>The log of a session\<close>

definition log_rows :: "string \<Rightarrow> 'j hub_db \<Rightarrow> 'j event_row list" where
  "log_rows sid d = filter (\<lambda>r. er_session r = sid) (hd_events d)"

definition snap_rows :: "string \<Rightarrow> 'j hub_db \<Rightarrow> 'j snapshot_row list" where
  "snap_rows sid d = filter (\<lambda>r. ss_session r = sid) (hd_snapshots d)"

definition next_number :: "string \<Rightarrow> 'j hub_db \<Rightarrow> int option" where
  "next_number sid d = next_seqs (hd_store d) sid"

definition same_log :: "string \<Rightarrow> 'j hub_db \<Rightarrow> 'j hub_db \<Rightarrow> bool" where
  "same_log sid d d' \<longleftrightarrow>
     log_rows sid d' = log_rows sid d \<and> snap_rows sid d' = snap_rows sid d \<and>
     next_number sid d' = next_number sid d"

text \<open>
  What a transaction that appends \<open>event\<close> on the base \<open>l\<close> has done to the log of the session; the
  other tables may have changed with it.
\<close>

definition committed ::
  "string \<Rightarrow> 'j live \<Rightarrow> 'j ws_message \<Rightarrow> 'j hub_db \<Rightarrow> int \<times> 'j session_snapshot \<times> 'j ws_message
   \<Rightarrow> 'j hub_db \<Rightarrow> bool" where
  "committed sid l event d r d' \<longleftrightarrow>
     (case r of (sq, snap, stamped) \<Rightarrow>
        next_number sid d = Some sq \<and> stamped = stamp_seq event sq \<and>
        snap = apply_event
          (fold_rows (if sq \<le> lv_seq l + 1 then [] else events_between sid (lv_seq l) sq (hd_events d))
             (lv_state l)) stamped \<and>
        (\<exists>actor ty. log_rows sid d' = log_rows sid d @
           [\<lparr>er_session = sid, er_actor = actor, er_type = ty, er_payload = Message_row stamped,
             er_seq = sq\<rparr>]) \<and>
        snap_rows sid d' = snap_rows sid d @
          [\<lparr>ss_session = sid, ss_seq = sq, ss_state = Snapshot_json snap, ss_dirty = False,
            ss_stale_since = None\<rparr>] \<and>
        next_number sid d' = Some (sq + 1))"

section \<open>Steps\<close>

record 'j hub_run =
  ru_server :: "'j server"
  ru_bases :: "'j live set"
  ru_done :: "('j live \<times> 'j ws_message) set"

definition ungated :: "'j ws_message \<Rightarrow> bool" where
  "ungated m \<longleftrightarrow> min_role_of (wm_payload m) = None"

text \<open>Everything that leaves the log and the snapshot of the hub alone, and sends nothing gated.\<close>

definition quiet :: "nat \<Rightarrow> string \<Rightarrow> 'j server \<Rightarrow> 'j server \<Rightarrow> bool" where
  "quiet h sid s s' \<longleftrightarrow>
     same_log sid (sv_db s) (sv_db s') \<and> current_live h s' = current_live h s \<and>
     (\<exists>ms. hb_sent (sv_objects s' h) = hb_sent (sv_objects s h) @ ms \<and> list_all (ungated \<circ> snd) ms)"

text \<open>
  The steps. \<open>Fetch\<close> is the first half of \<open>deliver\<close>: another replica's event is read from the log and
  applied to a base from which no other event of a client is missing; the second half is \<open>Store\<close>.
\<close>

inductive hub_step :: "'j hub_env \<Rightarrow> nat \<Rightarrow> string \<Rightarrow> 'j hub_run \<Rightarrow> 'j hub_run \<Rightarrow> bool"
  for E h sid where
  Read: "current_live h (ru_server u) = Some l
         \<Longrightarrow> hub_step E h sid u (u\<lparr>ru_bases := insert l (ru_bases u)\<rparr>)"
| Load: "load_live E sid (ru_server u) = (Some l, s')
         \<Longrightarrow> hub_step E h sid u (u\<lparr>ru_server := s', ru_bases := insert l (ru_bases u)\<rparr>)"
| Warm: "l \<in> ru_bases u
         \<Longrightarrow> hub_step E h sid u
               (u\<lparr>ru_server := modify_hub h (\<lambda>hb. hb\<lparr>hb_snapshot := Some l\<rparr>) (ru_server u)\<rparr>)"
| Commit: "l \<in> ru_bases u \<Longrightarrow> committed sid l event (sv_db (ru_server u)) (sq, snap, stamped) d'
         \<Longrightarrow> hub_step E h sid u
               (u\<lparr>ru_server := (ru_server u)\<lparr>sv_db := d'\<rparr>,
                  ru_done := insert (\<lparr>lv_seq = sq, lv_state = snap\<rparr>, stamped) (ru_done u)\<rparr>)"
| Fetch: "l \<in> ru_bases u
         \<Longrightarrow> rows_between er_seq (lv_seq l) (er_seq r + 1) (log_rows sid (sv_db (ru_server u))) = rs @ [r]
         \<Longrightarrow> \<forall>x \<in> set rs. row_message x = None \<Longrightarrow> row_message r = Some event
         \<Longrightarrow> hub_step E h sid u
               (u\<lparr>ru_done := insert (\<lparr>lv_seq = er_seq r, lv_state = apply_event (lv_state l) event\<rparr>, event)
                    (ru_done u)\<rparr>)"
| Store: "(l, stamped) \<in> ru_done u
         \<Longrightarrow> hub_step E h sid u
               (u\<lparr>ru_server := store_and_broadcast E h sid (lv_seq l) (lv_state l) stamped (ru_server u)\<rparr>)"
| Presence: "hub_step E h sid u
               (u\<lparr>ru_server := broadcast_presence E h sid actor attached role (ru_server u)\<rparr>)"
| Burn: "next_number sid (sv_db (ru_server u)) = Some n \<Longrightarrow> next_number sid d' = Some m \<Longrightarrow> n \<le> m
         \<Longrightarrow> log_rows sid d' = log_rows sid (sv_db (ru_server u))
         \<Longrightarrow> snap_rows sid d' = snap_rows sid (sv_db (ru_server u))
         \<Longrightarrow> hub_step E h sid u (u\<lparr>ru_server := (ru_server u)\<lparr>sv_db := d'\<rparr>\<rparr>)"
| Machine: "next_number sid (sv_db (ru_server u)) = Some n \<Longrightarrow> next_number sid d' = Some (n + 1)
         \<Longrightarrow> log_rows sid d' = log_rows sid (sv_db (ru_server u)) @ [r] \<Longrightarrow> er_seq r = n
         \<Longrightarrow> row_message r = None \<Longrightarrow> snap_rows sid d' = snap_rows sid (sv_db (ru_server u))
         \<Longrightarrow> hub_step E h sid u (u\<lparr>ru_server := (ru_server u)\<lparr>sv_db := d'\<rparr>\<rparr>)"
| Quiet: "quiet h sid (ru_server u) s' \<Longrightarrow> hub_step E h sid u (u\<lparr>ru_server := s'\<rparr>)"

inductive_cases hub_stepE: "hub_step E h sid u u'"

definition hub_steps :: "'j hub_env \<Rightarrow> nat \<Rightarrow> string \<Rightarrow> 'j hub_run \<Rightarrow> 'j hub_run \<Rightarrow> bool" where
  "hub_steps E h sid = (hub_step E h sid)\<^sup>*\<^sup>*"

section \<open>The invariant\<close>

text \<open>
  The state after the row \<open>q\<close>: the fold of the rows behind \<open>q0\<close> up to \<open>q\<close>, on the state \<open>z0\<close>
  that the session had at \<open>q0\<close>.
\<close>

definition reference :: "string \<Rightarrow> int \<Rightarrow> 'j session_snapshot \<Rightarrow> int \<Rightarrow> 'j hub_db \<Rightarrow> 'j session_snapshot" where
  "reference sid q0 z0 q d = fold_rows (events_between sid q0 (q + 1) (hd_events d)) z0"

definition faithful :: "string \<Rightarrow> int \<Rightarrow> 'j session_snapshot \<Rightarrow> 'j hub_db \<Rightarrow> 'j live \<Rightarrow> bool" where
  "faithful sid q0 z0 d l \<longleftrightarrow>
     q0 \<le> lv_seq l \<and> (\<exists>n. next_number sid d = Some n \<and> lv_seq l < n) \<and>
     blur (lv_state l) = blur (reference sid q0 z0 (lv_seq l) d)"

definition faithful_row :: "string \<Rightarrow> int \<Rightarrow> 'j session_snapshot \<Rightarrow> 'j hub_db \<Rightarrow> 'j snapshot_row \<Rightarrow> bool" where
  "faithful_row sid q0 z0 d r \<longleftrightarrow>
     \<not> ss_dirty r \<and>
     (\<exists>s. ss_state r = Snapshot_json s \<and> faithful sid q0 z0 d \<lparr>lv_seq = ss_seq r, lv_state = s\<rparr>)"

definition session_log_ok :: "string \<Rightarrow> int \<Rightarrow> 'j session_snapshot \<Rightarrow> 'j hub_db \<Rightarrow> bool" where
  "session_log_ok sid q0 z0 d \<longleftrightarrow>
     (\<exists>n. next_number sid d = Some n \<and> q0 < n \<and> (\<forall>r \<in> set (log_rows sid d). er_seq r < n)) \<and>
     (\<exists>r \<in> set (snap_rows sid d). q0 \<le> ss_seq r) \<and>
     (\<forall>r \<in> set (snap_rows sid d). q0 \<le> ss_seq r \<longrightarrow> faithful_row sid q0 z0 d r)"

definition run_ok :: "nat \<Rightarrow> string \<Rightarrow> int \<Rightarrow> 'j session_snapshot \<Rightarrow> 'j hub_run \<Rightarrow> bool" where
  "run_ok h sid q0 z0 u \<longleftrightarrow>
     session_log_ok sid q0 z0 (sv_db (ru_server u)) \<and>
     (\<forall>l \<in> ru_bases u. faithful sid q0 z0 (sv_db (ru_server u)) l) \<and>
     (\<forall>x \<in> ru_done u. faithful sid q0 z0 (sv_db (ru_server u)) (fst x)) \<and>
     (\<forall>l. current_live h (ru_server u) = Some l \<longrightarrow> faithful sid q0 z0 (sv_db (ru_server u)) l)"

lemma events_between_log:
  "events_between sid lo hi (hd_events d) = rows_between er_seq lo hi (log_rows sid d)"
  by (simp add: events_between_def rows_between_def log_rows_def filter_filter)

lemma reference_log:
  "reference sid q0 z0 q d = foldl apply_row z0 (rows_between er_seq q0 (q + 1) (log_rows sid d))"
  by (simp add: reference_def events_between_log fold_rows_def)

lemma foldl_skipped: "\<forall>r \<in> set rs. row_message r = None \<Longrightarrow> foldl apply_row z rs = z"
  by (induction rs) (simp_all add: apply_row_def)

text \<open>Rows at the number that is handed out next do not disturb what is faithful.\<close>

lemma faithful_mono:
  assumes "faithful sid q0 z0 d l"
    and "next_number sid d = Some n" "next_number sid d' = Some m" "n \<le> m"
    and "log_rows sid d' = log_rows sid d \<or> (\<exists>r. er_seq r = n \<and> log_rows sid d' = log_rows sid d @ [r])"
  shows "faithful sid q0 z0 d' l"
proof -
  have l: "lv_seq l < n" using assms(1,2) by (auto simp: faithful_def)
  have "rows_between er_seq q0 (lv_seq l + 1) (log_rows sid d')
        = rows_between er_seq q0 (lv_seq l + 1) (log_rows sid d)"
    using assms(5) l by (auto simp: rows_between_older)
  then have "reference sid q0 z0 (lv_seq l) d' = reference sid q0 z0 (lv_seq l) d"
    by (simp add: reference_log)
  with assms(1-4) l show ?thesis by (auto simp: faithful_def)
qed

lemma faithful_same_log:
  assumes "same_log sid d d'" shows "faithful sid q0 z0 d' l \<longleftrightarrow> faithful sid q0 z0 d l"
  using assms by (simp add: faithful_def reference_log same_log_def)

lemma session_log_ok_same_log:
  assumes "same_log sid d d'" "session_log_ok sid q0 z0 d" shows "session_log_ok sid q0 z0 d'"
proof -
  have "faithful_row sid q0 z0 d' r \<longleftrightarrow> faithful_row sid q0 z0 d r" for r
    by (simp add: faithful_row_def faithful_same_log [OF assms(1)])
  with assms show ?thesis by (simp add: session_log_ok_def same_log_def)
qed

lemma faithful_row_mono:
  assumes "faithful_row sid q0 z0 d r"
    and "next_number sid d = Some n" "next_number sid d' = Some m" "n \<le> m"
    and "log_rows sid d' = log_rows sid d \<or> (\<exists>r. er_seq r = n \<and> log_rows sid d' = log_rows sid d @ [r])"
  shows "faithful_row sid q0 z0 d' r"
  using assms(1) faithful_mono [OF _ assms(2-5)] by (auto simp: faithful_row_def)

lemma session_log_ok_mono:
  assumes ok: "session_log_ok sid q0 z0 d"
    and d': "next_number sid d = Some n" "next_number sid d' = Some m" "n \<le> m"
    and rows: "log_rows sid d' = log_rows sid d \<or>
         n < m \<and> (\<exists>r. er_seq r = n \<and> log_rows sid d' = log_rows sid d @ [r])"
    and snaps: "snap_rows sid d' = snap_rows sid d \<or>
         (\<exists>r. faithful_row sid q0 z0 d' r \<and> snap_rows sid d' = snap_rows sid d @ [r])"
  shows "session_log_ok sid q0 z0 d'"
proof -
  have rows': "log_rows sid d' = log_rows sid d \<or> (\<exists>r. er_seq r = n \<and> log_rows sid d' = log_rows sid d @ [r])"
    using rows by blast
  have old: "q0 < n" "\<forall>r \<in> set (log_rows sid d). er_seq r < n"
    "\<exists>r \<in> set (snap_rows sid d). q0 \<le> ss_seq r"
    "\<forall>r \<in> set (snap_rows sid d). q0 \<le> ss_seq r \<longrightarrow> faithful_row sid q0 z0 d r"
    using ok d'(1) by (auto simp: session_log_ok_def)
  have "\<forall>r \<in> set (log_rows sid d'). er_seq r < m"
    using rows old(2) d'(3) by fastforce
  moreover have "\<forall>r \<in> set (snap_rows sid d). q0 \<le> ss_seq r \<longrightarrow> faithful_row sid q0 z0 d' r"
    using old(4) faithful_row_mono [OF _ d' rows'] by blast
  ultimately show ?thesis
    using old(1,3) d' snaps unfolding session_log_ok_def by auto
qed

text \<open>A committed result is faithful: the stale base catches up on the rows it missed.\<close>

lemma faithful_committed:
  assumes c: "committed sid l event d (sq, snap, stamped) d'"
    and ok: "session_log_ok sid q0 z0 d" and l: "faithful sid q0 z0 d l"
  shows "faithful sid q0 z0 d' \<lparr>lv_seq = sq, lv_state = snap\<rparr>"
proof -
  obtain actor ty where
    sq: "next_number sid d = Some sq" "next_number sid d' = Some (sq + 1)" and
    snap: "snap = apply_event (fold_rows (if sq \<le> lv_seq l + 1 then []
                     else events_between sid (lv_seq l) sq (hd_events d)) (lv_state l)) stamped" and
    rows: "log_rows sid d' = log_rows sid d @
       [\<lparr>er_session = sid, er_actor = actor, er_type = ty, er_payload = Message_row stamped, er_seq = sq\<rparr>]"
      (is "_ = _ @ [?r]")
    using c by (auto simp: committed_def)
  have range: "q0 \<le> lv_seq l" "lv_seq l < sq" and q0: "q0 < sq"
    using l sq by (auto simp: faithful_def)
  have base: "blur (lv_state l) = blur (foldl apply_row z0 (rows_between er_seq q0 (lv_seq l + 1) (log_rows sid d)))"
    using l by (simp add: faithful_def reference_log)
  have below: "\<forall>x \<in> set (log_rows sid d). er_seq x < sq"
    using ok sq by (auto simp: session_log_ok_def)
  have missed: "(if sq \<le> lv_seq l + 1 then [] else events_between sid (lv_seq l) sq (hd_events d))
        = rows_between er_seq (lv_seq l) sq (log_rows sid d)"
    by (simp add: events_between_log rows_between_empty)
  have "snap = apply_row (foldl apply_row (lv_state l) (rows_between er_seq (lv_seq l) sq (log_rows sid d))) ?r"
    unfolding snap missed by (simp add: fold_rows_def apply_row_def row_message_def)
  with blurred.catch_up_and_append [OF base range below, of ?r] rows q0 sq
  show ?thesis by (simp add: faithful_def reference_log)
qed

text \<open>So is an event that is delivered in order: it is the only one that the base is missing.\<close>

lemma faithful_fetched:
  assumes rows: "rows_between er_seq (lv_seq l) (er_seq r + 1) (log_rows sid d) = rs @ [r]"
      "\<forall>x \<in> set rs. row_message x = None" "row_message r = Some event"
    and ok: "session_log_ok sid q0 z0 d" and l: "faithful sid q0 z0 d l"
  shows "faithful sid q0 z0 d \<lparr>lv_seq = er_seq r, lv_state = apply_event (lv_state l) event\<rparr>"
proof -
  have "r \<in> set (rows_between er_seq (lv_seq l) (er_seq r + 1) (log_rows sid d))" using rows(1) by simp
  then have r: "r \<in> set (log_rows sid d)" "lv_seq l < er_seq r" by (simp_all add: rows_between_def)
  have base: "blur (lv_state l) = blur (foldl apply_row z0 (rows_between er_seq q0 (lv_seq l + 1) (log_rows sid d)))"
    and q0: "q0 \<le> lv_seq l"
    using l by (simp_all add: faithful_def reference_log)
  have "apply_event (lv_state l) event = foldl apply_row (lv_state l) (rs @ [r])"
    using foldl_skipped [OF rows(2)] rows(3) by (simp add: apply_row_def)
  with blurred.catch_up [OF base q0, of "er_seq r + 1"] r q0 ok rows(1)
  show ?thesis by (auto simp: faithful_def reference_log session_log_ok_def)
qed

section \<open>Loading\<close>

lemma with_statements_log [simp]:
  "hd_events (with_statements k d) = hd_events d" "hd_snapshots (with_statements k d) = hd_snapshots d"
  "log_rows sid (with_statements k d) = log_rows sid d"
  "snap_rows sid (with_statements k d) = snap_rows sid d"
  "next_number sid (with_statements k d) = next_number sid d"
  "memberships (hd_store (with_statements k d)) = memberships (hd_store d)"
  by (simp_all add: with_statements_def log_rows_def snap_rows_def next_number_def)

lemma same_log_refl [simp]: "same_log sid d d"
  by (simp add: same_log_def)

lemma same_log_statements [simp]: "same_log sid d (with_statements k d)"
  by (simp add: same_log_def)

lemma same_log_trans: "same_log sid a b \<Longrightarrow> same_log sid b c \<Longrightarrow> same_log sid a c"
  by (simp add: same_log_def)

lemma latest_row_spec:
  assumes "latest_row sid rows = Some r"
  shows "r \<in> set (filter (\<lambda>r. ss_session r = sid) rows)"
    and "\<forall>r' \<in> set (filter (\<lambda>r. ss_session r = sid) rows). ss_seq r' \<le> ss_seq r"
proof -
  define xs where "xs = sort_key ss_seq (filter (\<lambda>r. ss_session r = sid) rows)"
  have set_xs: "set xs = set (filter (\<lambda>r. ss_session r = sid) rows)" by (simp add: xs_def)
  have srt: "sorted (map ss_seq xs)" by (simp add: xs_def)
  from assms obtain ys where "rev xs = r # ys"
    unfolding latest_row_def xs_def [symmetric] by (cases "rev xs") auto
  then have xs: "xs = rev ys @ [r]" by (metis rev_rev_ident rev.simps(2))
  with set_xs show "r \<in> set (filter (\<lambda>r. ss_session r = sid) rows)" by auto
  have "\<forall>r' \<in> set xs. ss_seq r' \<le> ss_seq r" using srt by (auto simp: xs sorted_append)
  with set_xs show "\<forall>r' \<in> set (filter (\<lambda>r. ss_session r = sid) rows). ss_seq r' \<le> ss_seq r" by simp
qed

lemma latest_row_exists: "filter (\<lambda>r. ss_session r = sid) rows \<noteq> [] \<Longrightarrow> latest_row sid rows \<noteq> None"
proof -
  assume "filter (\<lambda>r. ss_session r = sid) rows \<noteq> []"
  then have "rev (sort_key ss_seq (filter (\<lambda>r. ss_session r = sid) rows)) \<noteq> []"
    by (metis length_0_conv length_sort rev_is_Nil_conv)
  then show ?thesis unfolding latest_row_def by (auto split: list.split)
qed

lemma latest_row_newest:
  assumes "filter (\<lambda>r. ss_session r = sid) rows = rs @ [r]" and "\<forall>x \<in> set rs. ss_seq x < ss_seq r"
  shows "latest_row sid rows = Some r"
proof -
  have "latest_row sid rows \<noteq> None" by (rule latest_row_exists) (simp add: assms(1))
  then obtain r' where r': "latest_row sid rows = Some r'" by auto
  from latest_row_spec [OF r'] have "r' \<in> set (rs @ [r])" "ss_seq r \<le> ss_seq r'"
    unfolding assms(1) by simp_all
  with assms(2) r' show ?thesis by auto
qed

text \<open>A clean newest row is what a load returns, with the attachment of the connections.\<close>

lemma load_live_newest:
  assumes "snap_rows sid (sv_db s) = rs @
      [\<lparr>ss_session = sid, ss_seq = n, ss_state = Snapshot_json st, ss_dirty = False, ss_stale_since = stale\<rparr>]"
    and "\<forall>x \<in> set rs. ss_seq x < n" and "\<And>i. \<not> down (he_pg E) i"
  shows "fst (load_live E sid s) = Some \<lparr>lv_seq = n, lv_state = patch_attached (presence_of E sid s) st\<rparr>"
proof -
  have "latest_row sid (hd_snapshots (sv_db s)) =
      Some \<lparr>ss_session = sid, ss_seq = n, ss_state = Snapshot_json st, ss_dirty = False, ss_stale_since = stale\<rparr>"
    using latest_row_newest [OF assms(1) [unfolded snap_rows_def]] assms(2) by simp
  with assms(3) show ?thesis
    by (simp add: load_live_def run_db_def load_snapshot_from_db_def db_attempt_def get_latest_def
        hub_statement_def with_statements_def db_return_def Let_def)
qed

lemma blur_patch: "blur (patch_attached pr s) = blur s"
  by (cases pr) (simp_all add: patch_attached_def blur_eq_iff)

lemma get_latest_faithful:
  assumes "session_log_ok sid q0 z0 d" "get_latest sid X d = (r, d')"
  shows "(\<exists>k. d' = with_statements k d) \<and>
         (case r of Inl e \<Rightarrow> e \<noteq> Not_found
          | Inr row \<Rightarrow> faithful_row sid q0 z0 d row)"
proof -
  obtain row0 where row0: "row0 \<in> set (snap_rows sid d)" "q0 \<le> ss_seq row0"
    using assms(1) by (auto simp: session_log_ok_def)
  have "latest_row sid (hd_snapshots d) \<noteq> None"
    using row0 by (intro latest_row_exists) (auto simp: snap_rows_def filter_empty_conv)
  then obtain row where row: "latest_row sid (hd_snapshots d) = Some row" by auto
  from latest_row_spec [OF row] row0
  have "row \<in> set (snap_rows sid d)" "q0 \<le> ss_seq row" by (force simp: snap_rows_def)+
  then have "faithful_row sid q0 z0 d row" using assms(1) by (auto simp: session_log_ok_def)
  with assms(2) row show ?thesis
    by (auto simp: get_latest_def hub_statement_def Let_def split: if_splits)
qed

lemma load_live_faithful:
  assumes ok: "session_log_ok sid q0 z0 (sv_db s)" and load: "load_live E sid s = (r, s')"
  shows "(\<exists>k. s' = s\<lparr>sv_db := with_statements k (sv_db s)\<rparr>) \<and>
         (case r of None \<Rightarrow> True | Some l \<Rightarrow> faithful sid q0 z0 (sv_db s) l)"
proof -
  obtain got d1 where got: "get_latest sid (he_pg E) (sv_db s) = (got, d1)" by fastforce
  from get_latest_faithful [OF ok got] obtain k where k: "d1 = with_statements k (sv_db s)" by blast
  show ?thesis
  proof (cases got)
    case (Inl e)
    with get_latest_faithful [OF ok got] got load k show ?thesis
      by (auto simp: load_live_def run_db_def load_snapshot_from_db_def db_attempt_def db_fail_def)
  next
    case (Inr row)
    with get_latest_faithful [OF ok got] have "faithful_row sid q0 z0 (sv_db s) row" by simp
    then obtain st where "\<not> ss_dirty row" "ss_state row = Snapshot_json st"
      "faithful sid q0 z0 (sv_db s) \<lparr>lv_seq = ss_seq row, lv_state = st\<rparr>"
      by (auto simp: faithful_row_def)
    with Inr got load k show ?thesis
      by (auto simp: load_live_def run_db_def load_snapshot_from_db_def db_attempt_def db_return_def
          faithful_def blur_patch)
  qed
qed

section \<open>Sending\<close>

definition members_of :: "string \<Rightarrow> 'j hub_db \<Rightarrow> (string \<times> string) list" where
  "members_of sid d =
     List.map_filter (\<lambda>(s, a, r). if s = sid then Some (a, r) else None) (memberships (hd_store d))"

lemma read_memberships:
  assumes "run_db (on_store (list_memberships sid)) E s = (r, s')"
  shows "(\<exists>k. s' = s\<lparr>sv_db := with_statements k (sv_db s)\<rparr>) \<and> (r = Inl Sqlx \<or> r = Inr (members_of sid (sv_db s)))"
  using assms
  by (auto simp: run_db_def on_store_def list_memberships_def statement_def Let_def with_statements_def
      members_of_def split: if_splits)

lemma hub_simps [simp]:
  "sv_db (modify_hub h f s) = sv_db s"
  "sv_objects (modify_hub h f s) h = f (sv_objects s h)"
  "sv_objects (s\<lparr>sv_db := d\<rparr>) = sv_objects s"
  "current_live h (s\<lparr>sv_db := d\<rparr>) = current_live h s"
  "hb_snapshot (broadcast m hb) = hb_snapshot hb"
  "hb_sent (broadcast m hb) = hb_sent hb @ map (\<lambda>(c, a). (c, m)) (hb_conns hb)"
  by (simp_all add: modify_hub_def broadcast_def current_live_def)

lemma current_live_modify: "current_live h (modify_hub h f s) = hb_snapshot (f (sv_objects s h))"
  by (simp add: current_live_def)

lemma store_live_cases:
  "hb_snapshot (store_live new hb) = Some new \<or> hb_snapshot (store_live new hb) = hb_snapshot hb \<and> hb_snapshot hb \<noteq> None"
  by (auto simp: store_live_def split: option.splits)

lemma store_live_other [simp]:
  "hb_sent (store_live new hb) = hb_sent hb" "hb_conns (store_live new hb) = hb_conns hb"
  "hb_senders (store_live new hb) = hb_senders hb"
  by (simp_all add: store_live_def split: option.splits)

text \<open>What a committed event puts into the channels of the connections.\<close>

definition hub_deliveries ::
  "'j hub_env \<Rightarrow> (string \<times> string) list \<Rightarrow> 'j ws_message \<Rightarrow> 'j hub \<Rightarrow> (nat \<times> 'j ws_message) list" where
  "hub_deliveries E ms m hb =
     (case min_role_of (wm_payload m) of
        None \<Rightarrow> map (\<lambda>(c, a). (c, m)) (hb_conns hb)
      | Some r \<Rightarrow> gated_sends ms r m (redact (j_null (he_host E)) m) (hb_senders hb))"

lemma store_and_broadcast_effect:
  obtains k ms where
    "sv_db (store_and_broadcast E h sid sq snap m s) = with_statements k (sv_db s)"
    "ms = [] \<or> ms = members_of sid (sv_db s)"
    "hb_snapshot (sv_objects (store_and_broadcast E h sid sq snap m s) h) =
       hb_snapshot (store_live \<lparr>lv_seq = sq, lv_state = snap\<rparr> (sv_objects s h))"
    "hb_sent (sv_objects (store_and_broadcast E h sid sq snap m s) h) =
       hb_sent (sv_objects s h) @ hub_deliveries E ms m (sv_objects s h)"
proof (cases "min_role_of (wm_payload m)")
  case None
  show thesis
  proof (rule that [of "statements (hd_store (sv_db s))" "[]"])
    show "sv_db (store_and_broadcast E h sid sq snap m s)
          = with_statements (statements (hd_store (sv_db s))) (sv_db s)"
      using None by (simp add: store_and_broadcast_def with_statements_def)
  qed (simp_all add: None store_and_broadcast_def hub_deliveries_def)
next
  case (Some r)
  define s1 where "s1 = modify_hub h (store_live \<lparr>lv_seq = sq, lv_state = snap\<rparr>) s"
  obtain got s2 where got: "run_db (on_store (list_memberships sid)) E s1 = (got, s2)" by fastforce
  from read_memberships [OF got] obtain k where
    k: "s2 = s1\<lparr>sv_db := with_statements k (sv_db s1)\<rparr>" and
    g: "got = Inl Sqlx \<or> got = Inr (members_of sid (sv_db s1))" by blast
  have eq: "store_and_broadcast E h sid sq snap m s =
        modify_hub h (\<lambda>hb. hb\<lparr>hb_sent := hb_sent hb @
          gated_sends (case got of Inl _ \<Rightarrow> [] | Inr ms \<Rightarrow> ms) r m (redact (j_null (he_host E)) m)
            (hb_senders hb)\<rparr>) s2"
    using Some got by (simp add: store_and_broadcast_def broadcast_gated_def s1_def)
  show thesis
  proof (rule that [of k "case got of Inl _ \<Rightarrow> [] | Inr ms \<Rightarrow> ms"])
    show "(case got of Inl _ \<Rightarrow> [] | Inr ms \<Rightarrow> ms) = [] \<or>
          (case got of Inl _ \<Rightarrow> [] | Inr ms \<Rightarrow> ms) = members_of sid (sv_db s)"
      using g by (auto simp: s1_def)
  qed (simp_all add: eq k s1_def hub_deliveries_def Some)
qed

section \<open>The steps keep the invariant\<close>

lemma run_ok_same_log:
  assumes "run_ok h sid q0 z0 u" "same_log sid (sv_db (ru_server u)) (sv_db s')"
    and "\<And>l. current_live h s' = Some l \<Longrightarrow> faithful sid q0 z0 (sv_db (ru_server u)) l"
  shows "run_ok h sid q0 z0 (u\<lparr>ru_server := s'\<rparr>)"
  using assms session_log_ok_same_log [OF assms(2)] faithful_same_log [OF assms(2)] by (simp add: run_ok_def)

lemma run_ok_grow:
  assumes u: "run_ok h sid q0 z0 u"
    and d': "next_number sid (sv_db (ru_server u)) = Some n" "next_number sid d' = Some m" "n \<le> m"
    and rows: "log_rows sid d' = log_rows sid (sv_db (ru_server u)) \<or>
         n < m \<and> (\<exists>r. er_seq r = n \<and> log_rows sid d' = log_rows sid (sv_db (ru_server u)) @ [r])"
    and snaps: "snap_rows sid d' = snap_rows sid (sv_db (ru_server u)) \<or>
         (\<exists>r. faithful_row sid q0 z0 d' r \<and> snap_rows sid d' = snap_rows sid (sv_db (ru_server u)) @ [r])"
  shows "run_ok h sid q0 z0 (u\<lparr>ru_server := (ru_server u)\<lparr>sv_db := d'\<rparr>\<rparr>)"
proof -
  have rows': "log_rows sid d' = log_rows sid (sv_db (ru_server u)) \<or>
      (\<exists>r. er_seq r = n \<and> log_rows sid d' = log_rows sid (sv_db (ru_server u)) @ [r])"
    using rows by blast
  from u session_log_ok_mono [OF _ d' rows snaps] faithful_mono [OF _ d' rows']
  show ?thesis by (auto simp: run_ok_def)
qed

lemma presence_faithful:
  "faithful sid q0 z0 d (l\<lparr>lv_state := modify_member a (\<lambda>m. m\<lparr>sm_attached := x, sm_role := f m\<rparr>) (lv_state l)\<rparr>)
     \<longleftrightarrow> faithful sid q0 z0 d l"
proof -
  have "map blur_member (modify_first P (\<lambda>m. m\<lparr>sm_attached := x, sm_role := f m\<rparr>) xs) = map blur_member xs"
    for P xs by (induction xs) (simp_all add: blur_member_cong)
  then have "blur (modify_member a (\<lambda>m. m\<lparr>sm_attached := x, sm_role := f m\<rparr>) s) = blur s"
    for s :: "'a session_snapshot" by (simp add: blur_eq_iff modify_member_def)
  then show ?thesis by (simp add: faithful_def)
qed

lemma hub_step_ok:
  assumes "hub_step E h sid u u'" "run_ok h sid q0 z0 u"
  shows "run_ok h sid q0 z0 u'"
  using assms
proof (cases rule: hub_step.cases)
  case (Load l s')
  with assms(2) load_live_faithful [OF _ Load(2)] obtain k where
    "s' = (ru_server u)\<lparr>sv_db := with_statements k (sv_db (ru_server u))\<rparr>"
    and "faithful sid q0 z0 (sv_db (ru_server u)) l" by (auto simp: run_ok_def)
  with assms(2) Load(1) session_log_ok_same_log [OF same_log_statements]
  show ?thesis by (auto simp: run_ok_def faithful_same_log [OF same_log_statements])
next
  case (Commit l event sq snap stamped d')
  have l: "faithful sid q0 z0 (sv_db (ru_server u)) l" "session_log_ok sid q0 z0 (sv_db (ru_server u))"
    using assms(2) Commit(2) by (auto simp: run_ok_def)
  have new: "faithful sid q0 z0 d' \<lparr>lv_seq = sq, lv_state = snap\<rparr>"
    by (rule faithful_committed [OF Commit(3) l(2,1)])
  have "run_ok h sid q0 z0 (u\<lparr>ru_server := (ru_server u)\<lparr>sv_db := d'\<rparr>\<rparr>)"
    by (rule run_ok_grow [OF assms(2), of sq _ "sq + 1"])
      (use Commit(3) new in \<open>auto simp: committed_def faithful_row_def\<close>)
  with new Commit(1) show ?thesis by (simp add: run_ok_def)
next
  case (Fetch l r rs event)
  have "faithful sid q0 z0 (sv_db (ru_server u)) \<lparr>lv_seq = er_seq r, lv_state = apply_event (lv_state l) event\<rparr>"
    by (rule faithful_fetched [OF Fetch(3-5)]) (use assms(2) Fetch(2) in \<open>auto simp: run_ok_def\<close>)
  with assms(2) Fetch(1) show ?thesis by (simp add: run_ok_def)
next
  case (Store l stamped)
  let ?s' = "store_and_broadcast E h sid (lv_seq l) (lv_state l) stamped (ru_server u)"
  from store_and_broadcast_effect [of E h sid "lv_seq l" "lv_state l" stamped "ru_server u"]
  obtain k where db: "sv_db ?s' = with_statements k (sv_db (ru_server u))" and
    sn: "hb_snapshot (sv_objects ?s' h) =
       hb_snapshot (store_live \<lparr>lv_seq = lv_seq l, lv_state = lv_state l\<rparr> (sv_objects (ru_server u) h))"
    by metis
  show ?thesis unfolding Store(1)
  proof (rule run_ok_same_log [OF assms(2)])
    fix l' assume "current_live h ?s' = Some l'"
    with sn store_live_cases [of "\<lparr>lv_seq = lv_seq l, lv_state = lv_state l\<rparr>" "sv_objects (ru_server u) h"]
    have "l' = l \<or> current_live h (ru_server u) = Some l'" by (auto simp: current_live_def)
    with assms(2) Store(2) show "faithful sid q0 z0 (sv_db (ru_server u)) l'"
      by (auto simp: run_ok_def)
  qed (simp add: db)
next
  case (Presence actor attached role)
  show ?thesis unfolding Presence
  proof (rule run_ok_same_log [OF assms(2)])
    fix l' assume "current_live h (broadcast_presence E h sid actor attached role (ru_server u)) = Some l'"
    then obtain l where "current_live h (ru_server u) = Some l" and
      "l' = l\<lparr>lv_state := modify_member actor (\<lambda>m. m\<lparr>sm_attached := attached,
           sm_role := (case role of None \<Rightarrow> sm_role m | Some r \<Rightarrow> r)\<rparr>) (lv_state l)\<rparr>"
      by (auto simp: broadcast_presence_def Let_def current_live_modify current_live_def)
    with assms(2) show "faithful sid q0 z0 (sv_db (ru_server u)) l'"
      by (simp add: presence_faithful run_ok_def)
  qed (simp add: broadcast_presence_def Let_def)
next
  case (Burn n d' m)
  show ?thesis unfolding Burn(1) by (rule run_ok_grow [OF assms(2) Burn(2,3,4)]) (simp_all add: Burn)
next
  case (Machine n d' r)
  show ?thesis unfolding Machine(1)
    by (rule run_ok_grow [OF assms(2) Machine(2,3)]) (use Machine in auto)
next
  case (Quiet s')
  show ?thesis unfolding Quiet(1)
    by (rule run_ok_same_log [OF assms(2)]) (use Quiet(2) assms(2) in \<open>auto simp: quiet_def run_ok_def\<close>)
qed (auto simp: run_ok_def current_live_modify)

lemma hub_steps_ok: "hub_steps E h sid u u' \<Longrightarrow> run_ok h sid q0 z0 u \<Longrightarrow> run_ok h sid q0 z0 u'"
  unfolding hub_steps_def by (induction rule: rtranclp_induct) (auto intro: hub_step_ok)

end
