(* ===== verification/Hub_Once.thy ===== *)
theory Hub_Once
  imports Hub_Runs
begin

text \<open>
  Operations of the hub by what they do to the log of the session: those that leave it alone
  (\<open>keeps_log\<close>, \<open>hushed\<close>), those that perform steps of the hub machine (\<open>performs\<close>) and, more exactly,
  those that commit at most one event and store and broadcast it once (\<open>once\<close>).
\<close>

section \<open>Operations that leave the numbers of events alone\<close>

named_theorems keeps_seqs_intros

definition keeps_seqs :: "('j, 'a) db_op \<Rightarrow> bool" where
  "keeps_seqs m \<longleftrightarrow> (\<forall>X d. next_seqs (snd (m X d)) = next_seqs d)"

lemma keeps_seqs_bind [keeps_seqs_intros]:
  "keeps_seqs m \<Longrightarrow> (\<And>x. keeps_seqs (k x)) \<Longrightarrow> keeps_seqs (db_bind m k)"
  by (simp add: keeps_seqs_def db_bind_def split_def split: sum.split)

lemma keeps_seqs_statement:
  "(\<And>now d. next_seqs (snd (f now d)) = next_seqs d) \<Longrightarrow> keeps_seqs (statement f)"
  by (simp add: keeps_seqs_def statement_def Let_def)

lemma keeps_seqs_return [keeps_seqs_intros]: "keeps_seqs (db_return x)"
  by (simp add: keeps_seqs_def db_return_def)

lemma keeps_seqs_expiry [keeps_seqs_intros]:
  "(\<And>i e. keeps_seqs (k i e)) \<Longrightarrow> keeps_seqs (with_expiry n k)"
  by (simp add: keeps_seqs_def with_expiry_def split: option.split)

lemma seqs_or_not_found:
  "next_seqs (snd (or_not_found (update_approval P f d))) = next_seqs d"
  by (simp add: or_not_found_def update_approval_def split: option.split)

lemma keeps_seqs_approvals [keeps_seqs_intros]:
  "keeps_seqs (insert_approval i sid a t args e)" "keeps_seqs (claim_if_pending_in_tx i)"
  "keeps_seqs (set_state_in_tx i sid st)" "keeps_seqs (resolve_in_tx i sid st a)"
  "keeps_seqs (record_vote_in_tx i sid a v)"
  unfolding insert_approval_def claim_if_pending_in_tx_def set_state_in_tx_def resolve_in_tx_def
    record_vote_in_tx_def
  by (rule keeps_seqs_statement; simp add: seqs_or_not_found)+

lemma keeps_seqs_outcome [keeps_seqs_intros]: "keeps_seqs (write_outcome sid a aid st)"
  by (cases st) (auto simp: write_outcome_def intro!: keeps_seqs_intros)

lemma keeps_seqs_root [keeps_seqs_intros]:
  "keeps_seqs (set_role sid a r)" "keeps_seqs (find_root_cap_in_tx sid a)" "keeps_seqs (read_perms i)"
  "keeps_seqs (insert_root i sid a e p)" "keeps_seqs (move_children i j)" "keeps_seqs (retire_root i j)"
  by (simp_all add: keeps_seqs_def set_role_def find_root_cap_in_tx_def read_perms_def insert_root_def
      move_children_def retire_root_def statement_def insert_row_def update_tokens_def Let_def)

lemma keeps_seqs_transfer [keeps_seqs_intros]:
  "keeps_seqs (transfer_root_in_tx sid i a n)" "keeps_seqs (transfer_ownership_in_tx sid old new)"
  unfolding transfer_root_in_tx_def transfer_ownership_in_tx_def
  by (auto intro!: keeps_seqs_intros split: option.split)

section \<open>Operations that leave the log alone\<close>

named_theorems keeps_log_intros

definition keeps_log :: "string \<Rightarrow> ('j, 'a) hub_op \<Rightarrow> bool" where
  "keeps_log sid m \<longleftrightarrow> (\<forall>X d. same_log sid d (snd (m X d)))"

lemma keeps_logD: "keeps_log sid m \<Longrightarrow> m X d = (r, d') \<Longrightarrow> same_log sid d d'"
  unfolding keeps_log_def by (metis snd_conv)

lemma keeps_log_store [keeps_log_intros]: "keeps_seqs m \<Longrightarrow> keeps_log sid (on_store m)"
  by (simp add: keeps_log_def keeps_seqs_def on_store_def same_log_def log_rows_def snap_rows_def
      next_number_def split_def)

lemma keeps_log_read [keeps_log_intros]:
  "keeps_log sid (hub_statement (\<lambda>now d. (f now d, d)))"
  by (simp add: keeps_log_def hub_statement_def Let_def)

lemma keeps_log_return [keeps_log_intros]: "keeps_log sid (db_return x)"
  by (simp add: keeps_log_def db_return_def)

lemma keeps_log_delegation [keeps_log_intros]: "keeps_log sid (get_by_target_approval aid)"
  unfolding get_by_target_approval_def by (rule keeps_log_read)

lemma keeps_log_failed [keeps_log_intros]: "keeps_log sid m \<Longrightarrow> keeps_log sid (or_failed m)"
  unfolding keeps_log_def or_failed_def db_attempt_def
  by (auto simp: split_def db_fail_def db_return_def split: sum.split)

section \<open>Transactions\<close>

lemma hub_transaction_cases:
  assumes "hub_transaction m X d = (r, d')"
  obtains (Failed) e k where "r = Inl e" "d' = with_statements k d"
  | (Done) x j k d2 where "r = Inr x" "m X (with_statements j d) = (Inr x, d2)" "d' = with_statements k d2"
proof -
  have start: "on_store begin_tx X d = (if down X (statements (hd_store d)) then Inl Sqlx else Inr (),
      with_statements (Suc (statements (hd_store d))) d)"
    by (simp add: on_store_def begin_tx_def statement_def Let_def with_statements_def)
  have twice: "with_statements k (with_statements j d) = with_statements k d" for k j
    by (simp add: with_statements_def)
  let ?d1 = "with_statements (Suc (statements (hd_store d))) d"
  obtain r2 d2 where m: "m X ?d1 = (r2, d2)" by fastforce
  show thesis
  proof (cases "down X (statements (hd_store d))")
    case True
    with assms start Failed show thesis by (auto simp: hub_transaction_def db_bind_def)
  next
    case False
    with assms start have body: "hub_tx_body m X ?d1 = (r, d')" by (simp add: hub_transaction_def db_bind_def)
    show thesis
    proof (cases r2)
      case (Inl e)
      with body m Failed twice show thesis by (auto simp: hub_tx_body_def)
    next
      case (Inr x)
      with body m Failed Done twice show thesis
        by (auto simp: hub_tx_body_def split: if_splits)
    qed
  qed
qed

lemma hub_bind_Inr:
  assumes "db_bind m k X d = (Inr y, d')"
  obtains x d1 where "m X d = (Inr x, d1)" "k x X d1 = (Inr y, d')"
  using assms by (auto simp: db_bind_def split: prod.splits sum.splits)

lemma alloc_seq_Inr:
  assumes "on_store (alloc_seq sid) X d = (Inr n, d')"
  shows "next_number sid d = Some n" "next_number sid d' = Some (n + 1)"
    "hd_events d' = hd_events d" "hd_snapshots d' = hd_snapshots d"
    "memberships (hd_store d') = memberships (hd_store d)"
    "approval_rows (hd_store d') = approval_rows (hd_store d)"
  using assms
  by (auto simp: on_store_def alloc_seq_def statement_def Let_def next_number_def split: if_splits option.splits)

lemma append_row_Inr:
  assumes "append_row sid actor sq m X d = (Inr x, d')"
  shows "hd_events d' = hd_events d @ [\<lparr>er_session = sid, er_actor = actor,
           er_type = ws_type_name (wm_payload m), er_payload = Message_row m, er_seq = sq\<rparr>]"
    "hd_snapshots d' = hd_snapshots d" "next_number s d' = next_number s d"
    "memberships (hd_store d') = memberships (hd_store d)"
    "approval_rows (hd_store d') = approval_rows (hd_store d)"
  using assms
  by (auto simp: append_row_def db_bind_def on_store_def append_event_def statement_def Let_def
      next_number_def split: if_splits)

lemma catch_up_base_Inr:
  assumes "catch_up_base sid l sq X d = (Inr s, d')"
  shows "s = fold_rows (if sq \<le> lv_seq l + 1 then [] else events_between sid (lv_seq l) sq (hd_events d)) (lv_state l)"
    "\<exists>k. d' = with_statements k d"
proof -
  have "d = with_statements (statements (hd_store d)) d" by (simp add: with_statements_def)
  with assms show "s = fold_rows (if sq \<le> lv_seq l + 1 then []
      else events_between sid (lv_seq l) sq (hd_events d)) (lv_state l)" "\<exists>k. d' = with_statements k d"
    by (auto simp: catch_up_base_def db_return_def db_bind_def list_between_in_tx_def hub_statement_def
        fold_rows_def Let_def split: if_splits)
qed

lemma insert_in_tx_Inr:
  assumes "insert_in_tx sid sq st X d = (Inr x, d')"
  shows "hd_snapshots d' = hd_snapshots d @ [\<lparr>ss_session = sid, ss_seq = sq, ss_state = Snapshot_json st,
           ss_dirty = False, ss_stale_since = None\<rparr>]"
    "hd_events d' = hd_events d" "next_number s d' = next_number s d"
    "memberships (hd_store d') = memberships (hd_store d)"
    "approval_rows (hd_store d') = approval_rows (hd_store d)"
  using assms
  by (auto simp: insert_in_tx_def insert_snapshot_def hub_statement_def Let_def with_statements_def
      next_number_def split: if_splits)

lemma stamp_append_snapshot_Inr:
  assumes "stamp_append_snapshot (Some l) sid actor event X d = (Inr r, d')"
  shows "committed sid l event d r d'"
    "memberships (hd_store d') = memberships (hd_store d)"
    "approval_rows (hd_store d') = approval_rows (hd_store d)"
proof -
  from assms obtain sq d1 d2 s d3 d4 x1 x2 where
    r: "r = (sq, apply_event s (stamp_seq event sq), stamp_seq event sq)" and
    1: "on_store (alloc_seq sid) X d = (Inr sq, d1)" and
    2: "append_row sid actor sq (stamp_seq event sq) X d1 = (Inr x1, d2)" and
    3: "catch_up_base sid l sq X d2 = (Inr s, d3)" and
    4: "insert_in_tx sid sq (apply_event s (stamp_seq event sq)) X d3 = (Inr x2, d4)" and d': "d' = d4"
    unfolding stamp_append_snapshot_def Let_def
    by (auto elim!: hub_bind_Inr simp: db_return_def)
  note f = alloc_seq_Inr [OF 1] append_row_Inr [OF 2] catch_up_base_Inr [OF 3] insert_in_tx_Inr [OF 4]
  obtain k where k: "d3 = with_statements k d2" using f by blast
  have missed: "events_between sid lo sq (hd_events d2) = events_between sid lo sq (hd_events d)" for lo
    using f by (simp add: events_between_def)
  have s: "s = fold_rows (if sq \<le> lv_seq l + 1 then [] else events_between sid (lv_seq l) sq (hd_events d)) (lv_state l)"
    using catch_up_base_Inr(1) [OF 3] missed by simp
  show "committed sid l event d r d'"
    using f s unfolding committed_def r d' k log_rows_def snap_rows_def by simp
  show "memberships (hd_store d') = memberships (hd_store d)"
    "approval_rows (hd_store d') = approval_rows (hd_store d)"
    using f unfolding d' k by (simp_all add: with_statements_def)
qed

lemma committed_same_log:
  assumes "same_log sid d1 d2" "committed sid l event d2 r d3"
  shows "committed sid l event d1 r d3"
  using assms by (auto simp: committed_def same_log_def events_between_log split: prod.splits)

lemma committed_statements: "committed sid l event d1 r d2 \<Longrightarrow> committed sid l event d1 r (with_statements k d2)"
  by (auto simp: committed_def)

section \<open>Performing steps\<close>

definition performs :: "'j hub_env \<Rightarrow> nat \<Rightarrow> string \<Rightarrow> 'j server \<Rightarrow> 'j server \<Rightarrow> bool" where
  "performs E h sid s s' \<longleftrightarrow>
     (\<forall>B U. \<exists>B' U'. B \<subseteq> B' \<and> U \<subseteq> U' \<and>
        hub_steps E h sid \<lparr>ru_server = s, ru_bases = B, ru_done = U\<rparr>
          \<lparr>ru_server = s', ru_bases = B', ru_done = U'\<rparr>)"

definition warm :: "nat \<Rightarrow> 'j server \<Rightarrow> bool" where
  "warm h s \<longleftrightarrow> current_live h s \<noteq> None"

lemma performs_refl: "performs E h sid s s"
  by (auto simp: performs_def hub_steps_def)

lemma performs_trans:
  assumes "performs E h sid s t" "performs E h sid t u" shows "performs E h sid s u"
  unfolding performs_def
proof (intro allI)
  fix B U
  obtain B1 U1 where 1: "B \<subseteq> B1" "U \<subseteq> U1" "hub_steps E h sid \<lparr>ru_server = s, ru_bases = B, ru_done = U\<rparr>
      \<lparr>ru_server = t, ru_bases = B1, ru_done = U1\<rparr>"
    using assms(1) unfolding performs_def by meson
  obtain B2 U2 where 2: "B1 \<subseteq> B2" "U1 \<subseteq> U2" "hub_steps E h sid \<lparr>ru_server = t, ru_bases = B1, ru_done = U1\<rparr>
      \<lparr>ru_server = u, ru_bases = B2, ru_done = U2\<rparr>"
    using assms(2) unfolding performs_def by meson
  from 1 2 show "\<exists>B' U'. B \<subseteq> B' \<and> U \<subseteq> U' \<and> hub_steps E h sid \<lparr>ru_server = s, ru_bases = B, ru_done = U\<rparr>
      \<lparr>ru_server = u, ru_bases = B', ru_done = U'\<rparr>"
    unfolding hub_steps_def by (meson order_trans rtranclp_trans)
qed

lemma performs_quiet:
  assumes "quiet h sid s s'" shows "performs E h sid s s'"
  unfolding performs_def
proof (intro allI)
  fix B U
  have "hub_step E h sid \<lparr>ru_server = s, ru_bases = B, ru_done = U\<rparr>
          (\<lparr>ru_server = s, ru_bases = B, ru_done = U\<rparr>\<lparr>ru_server := s'\<rparr>)"
    by (rule Quiet) (simp add: assms)
  then show "\<exists>B' U'. B \<subseteq> B' \<and> U \<subseteq> U' \<and> hub_steps E h sid \<lparr>ru_server = s, ru_bases = B, ru_done = U\<rparr>
      \<lparr>ru_server = s', ru_bases = B', ru_done = U'\<rparr>"
    unfolding hub_steps_def by (intro exI [of _ B] exI [of _ U]) auto
qed

lemma performs_commit_later:
  assumes live: "current_live h s = Some l"
    and c: "committed sid l event (sv_db s) (sq, snap, stamped) d'"
    and q: "quiet h sid (s\<lparr>sv_db := d'\<rparr>) t"
  shows "performs E h sid s (store_and_broadcast E h sid sq snap stamped t)"
  unfolding performs_def
proof (intro allI)
  fix B U
  let ?u = "\<lparr>ru_server = s, ru_bases = B, ru_done = U\<rparr>"
  let ?l = "\<lparr>lv_seq = sq, lv_state = snap\<rparr>"
  let ?u1 = "?u\<lparr>ru_bases := insert l B\<rparr>"
  let ?u2 = "?u1\<lparr>ru_server := s\<lparr>sv_db := d'\<rparr>, ru_done := insert (?l, stamped) U\<rparr>"
  let ?u3 = "?u2\<lparr>ru_server := t\<rparr>"
  let ?u4 = "?u3\<lparr>ru_server := store_and_broadcast E h sid sq snap stamped t\<rparr>"
  have "hub_step E h sid ?u ?u1"
    using Read [of h ?u l E sid] live by simp
  moreover have "hub_step E h sid ?u1 ?u2"
    using Commit [of l ?u1 sid event sq snap stamped d' E h] c by simp
  moreover have "hub_step E h sid ?u2 ?u3"
    using Quiet [of h sid ?u2 t E] q by simp
  moreover have "hub_step E h sid ?u3 ?u4"
    using Store [of ?l stamped ?u3 E h sid] by simp
  ultimately have "hub_steps E h sid ?u ?u4"
    unfolding hub_steps_def by (meson rtranclp.rtrancl_refl rtranclp.rtrancl_into_rtrancl)
  then show "\<exists>B' U'. B \<subseteq> B' \<and> U \<subseteq> U' \<and> hub_steps E h sid ?u
      \<lparr>ru_server = store_and_broadcast E h sid sq snap stamped t, ru_bases = B', ru_done = U'\<rparr>"
    by (intro exI [of _ "insert l B"] exI [of _ "insert (?l, stamped) U"]) auto
qed

text \<open>A warm hub stays warm.\<close>

lemma hub_step_warm:
  assumes "hub_step E h sid u u'" "warm h (ru_server u)" shows "warm h (ru_server u')"
  using assms
proof (cases rule: hub_step.cases)
  case (Load l s')
  have "current_live h s' = current_live h (ru_server u)"
    using Load(2) by (auto simp: load_live_def run_db_def split: prod.splits sum.splits)
  with assms(2) Load(1) show ?thesis by (simp add: warm_def)
next
  case (Store l stamped)
  from store_and_broadcast_effect [of E h sid "lv_seq l" "lv_state l" stamped "ru_server u"]
  have "hb_snapshot (sv_objects (store_and_broadcast E h sid (lv_seq l) (lv_state l) stamped (ru_server u)) h) =
       hb_snapshot (store_live \<lparr>lv_seq = lv_seq l, lv_state = lv_state l\<rparr> (sv_objects (ru_server u) h))"
    by metis
  with store_live_cases [of "\<lparr>lv_seq = lv_seq l, lv_state = lv_state l\<rparr>" "sv_objects (ru_server u) h"] Store(1)
  show ?thesis by (auto simp: warm_def current_live_def)
qed (auto simp: warm_def quiet_def current_live_modify broadcast_presence_def Let_def current_live_def)

lemma performs_warm: "performs E h sid s s' \<Longrightarrow> warm h s \<Longrightarrow> warm h s'"
proof -
  assume "performs E h sid s s'" "warm h s"
  then obtain B' U' where "hub_steps E h sid \<lparr>ru_server = s, ru_bases = {}, ru_done = {}\<rparr>
      \<lparr>ru_server = s', ru_bases = B', ru_done = U'\<rparr>" unfolding performs_def by blast
  moreover have "hub_steps E h sid u u' \<Longrightarrow> warm h (ru_server u) \<Longrightarrow> warm h (ru_server u')" for u u'
    unfolding hub_steps_def by (induction rule: rtranclp_induct) (auto intro: hub_step_warm)
  ultimately show "warm h s'" using \<open>warm h s\<close> by fastforce
qed

section \<open>One commit and nothing else\<close>

text \<open>Messages that notify a client and announce no event of the log.\<close>

definition is_notice :: "'j ws_message \<Rightarrow> bool" where
  "is_notice m \<longleftrightarrow>
     (case wm_payload m of
        WsApprovalResolved a b c d e \<Rightarrow> True
      | WsPresenceFocus a b c d \<Rightarrow> True
      | _ \<Rightarrow> False)"

text \<open>
  Nothing has happened to the log of the session, its numbers and snapshot rows included, nor to the
  snapshot of the hub, and the channels have received notices only.
\<close>

definition hushed :: "nat \<Rightarrow> string \<Rightarrow> 'j server \<Rightarrow> 'j server \<Rightarrow> bool" where
  "hushed h sid s s' \<longleftrightarrow>
     same_log sid (sv_db s) (sv_db s') \<and> current_live h s' = current_live h s \<and>
     (\<exists>ms. hb_sent (sv_objects s' h) = hb_sent (sv_objects s h) @ ms \<and> list_all (is_notice \<circ> snd) ms)"

text \<open>
  One event with a payload that satisfies \<open>P\<close> is committed on the snapshot of the hub, and its result
  is stored and broadcast once; before and after that all is hushed.
\<close>

definition commits_once ::
  "'j hub_env \<Rightarrow> nat \<Rightarrow> string \<Rightarrow> ('j ws_payload \<Rightarrow> bool) \<Rightarrow> 'j server \<Rightarrow> 'j server \<Rightarrow> bool" where
  "commits_once E h sid P s s' \<longleftrightarrow>
     (\<exists>l event sq snap stamped d' t.
        current_live h s = Some l \<and> P (wm_payload event) \<and>
        committed sid l event (sv_db s) (sq, snap, stamped) d' \<and> hushed h sid (s\<lparr>sv_db := d'\<rparr>) t \<and>
        hushed h sid (store_and_broadcast E h sid sq snap stamped t) s')"

text \<open>At most one such commit, and exactly one if \<open>b\<close>.\<close>

definition once ::
  "bool \<Rightarrow> 'j hub_env \<Rightarrow> nat \<Rightarrow> string \<Rightarrow> ('j ws_payload \<Rightarrow> bool) \<Rightarrow> 'j server \<Rightarrow> 'j server \<Rightarrow> bool" where
  "once b E h sid P s s' \<longleftrightarrow> commits_once E h sid P s s' \<or> \<not> b \<and> hushed h sid s s'"

named_theorems once_intros

lemma hushed_refl: "hushed h sid s s"
  by (auto simp: hushed_def)

lemma hushed_trans: "hushed h sid s t \<Longrightarrow> hushed h sid t u \<Longrightarrow> hushed h sid s u"
  by (auto simp: hushed_def elim: same_log_trans)

lemma hushed_with_db: "hushed h sid s t \<Longrightarrow> hushed h sid (s\<lparr>sv_db := d\<rparr>) (t\<lparr>sv_db := d\<rparr>)"
  by (simp add: hushed_def)

lemma hushed_hub_same:
  assumes "same_log sid (sv_db s) (sv_db s')" "sv_objects s' h = sv_objects s h"
  shows "hushed h sid s s'"
  using assms by (auto simp: hushed_def current_live_def)

lemma notice_ungated: "is_notice m \<Longrightarrow> ungated m"
  by (auto simp: is_notice_def ungated_def min_role_of_def min_role_for_type_def GATED_TYPES_def
      split: ws_payload.splits)

lemma hushed_quiet: "hushed h sid s s' \<Longrightarrow> quiet h sid s s'"
  by (auto simp: hushed_def quiet_def list_all_iff intro!: notice_ungated)

lemma once_performs: "once b E h sid P s s' \<Longrightarrow> performs E h sid s s'"
  unfolding once_def
proof (elim disjE conjE)
  assume "commits_once E h sid P s s'"
  then obtain l event sq snap stamped d' t where
    c: "current_live h s = Some l" "committed sid l event (sv_db s) (sq, snap, stamped) d'"
      "hushed h sid (s\<lparr>sv_db := d'\<rparr>) t"
    and u: "hushed h sid (store_and_broadcast E h sid sq snap stamped t) s'"
    unfolding commits_once_def by blast
  from performs_trans [OF performs_commit_later [OF c(1,2) hushed_quiet [OF c(3)]]
      performs_quiet [OF hushed_quiet [OF u]]]
  show "performs E h sid s s'" .
qed (rule performs_quiet, rule hushed_quiet)

lemma once_hushed: "hushed h sid s s' \<Longrightarrow> once False E h sid P s s'"
  by (simp add: once_def)

lemma once_then_hushed: "once b E h sid P s t \<Longrightarrow> hushed h sid t u \<Longrightarrow> once b E h sid P s u"
  unfolding once_def commits_once_def by (meson hushed_trans)

lemma hushed_then_once:
  assumes "hushed h sid s t" "once b E h sid P t u" shows "once b E h sid P s u"
  using assms(2) unfolding once_def
proof (elim disjE conjE)
  assume "commits_once E h sid P t u"
  then obtain l event sq snap stamped d' v where
    "current_live h t = Some l" "P (wm_payload event)" "committed sid l event (sv_db t) (sq, snap, stamped) d'"
    "hushed h sid (t\<lparr>sv_db := d'\<rparr>) v" "hushed h sid (store_and_broadcast E h sid sq snap stamped v) u"
    unfolding commits_once_def by blast
  moreover have "current_live h t = current_live h s" "same_log sid (sv_db s) (sv_db t)"
    using assms(1) by (simp_all add: hushed_def)
  ultimately have "commits_once E h sid P s u"
    using hushed_trans [OF hushed_with_db [OF assms(1)]] committed_same_log unfolding commits_once_def by metis
  then show "commits_once E h sid P s u \<or> \<not> b \<and> hushed h sid s u" ..
qed (use hushed_trans [OF assms(1)] in blast)

section \<open>Hushed operations\<close>

lemma hushed_db: "keeps_log sid m \<Longrightarrow> run_db m E s = (r, s') \<Longrightarrow> hushed h sid s s'"
  by (auto simp: run_db_def keeps_log_def intro!: hushed_hub_same split: prod.splits dest: spec [of _ "he_pg E"])
    (metis snd_conv)

lemma hushed_rolled_back: "run_db (hub_transaction m) E s = (Inl e, s') \<Longrightarrow> hushed h sid s s'"
  by (auto simp: run_db_def intro!: hushed_hub_same split: prod.splits elim!: hub_transaction_cases)

lemma hushed_simple:
  "hushed h sid s (feed x ev s)" "hushed h sid s (announce n s)" "hushed h sid s (s\<lparr>sv_limits := m\<rparr>)"
  by (rule hushed_hub_same; simp add: feed_def announce_def)+

lemma hushed_notify: "hushed h sid s (notify_resolved E aid dec s)" "hushed h sid s (notify_session E sid' sq s)"
proof -
  obtain r t where r: "run_db (hub_statement (\<lambda>now d. (Inr (), d))) E s = (r :: db_error + unit, t)" by fastforce
  have t: "hushed h sid s t" by (rule hushed_db [OF keeps_log_read r])
  show "hushed h sid s (notify_resolved E aid dec s)" "hushed h sid s (notify_session E sid' sq s)"
    using t r hushed_trans [OF t hushed_simple(2)]
    by (auto simp: notify_resolved_def notify_session_def split: sum.split)
qed

lemma hushed_ack: "hushed h sid s (ack_delegation E aid st s)"
proof -
  obtain r t where r: "run_db (get_by_target_approval aid) E s = (r, t)" by fastforce
  have t: "hushed h sid s t" by (rule hushed_db [OF keeps_log_delegation r])
  show ?thesis
    using r t hushed_refl hushed_trans [OF t hushed_simple(1)]
    by (auto simp: ack_delegation_def split: sum.split option.split)
qed

lemma hushed_resolved: "hushed h sid s (send_resolved E h a aid dec w s)"
  by (auto simp: hushed_def send_resolved_def current_live_modify send_to_def make_event_def is_notice_def
      current_live_def split: option.split)

lemma hushed_focus: "hushed h sid s (broadcast_presence_focus E h sid a tab s)"
  by (auto simp: hushed_def broadcast_presence_focus_def current_live_modify make_event_def is_notice_def
      current_live_def list_all_iff)

lemmas once_then [once_intros] =
  once_then_hushed [OF _ hushed_simple(1)] once_then_hushed [OF _ hushed_simple(2)]
  once_then_hushed [OF _ hushed_notify(1)] once_then_hushed [OF _ hushed_notify(2)]
  once_then_hushed [OF _ hushed_ack] once_then_hushed [OF _ hushed_resolved]

section \<open>Commits that succeed\<close>

lemma running [simp]:
  assumes "\<And>i. \<not> down X i"
  shows "hub_statement f X d = f (pg_now X (statements_run d)) (with_statements (Suc (statements_run d)) d)"
    "statement g X b = g (pg_now X (statements b)) (b\<lparr>statements := Suc (statements b)\<rparr>)"
  using assms by (simp_all add: hub_statement_def statement_def Let_def)

text \<open>No statement fails and the session has numbers; an operation succeeds whatever ran before it.\<close>

definition ready :: "'j hub_env \<Rightarrow> string \<Rightarrow> 'j server \<Rightarrow> bool" where
  "ready E sid s \<longleftrightarrow> (\<forall>i. \<not> down (he_pg E) i) \<and> next_number sid (sv_db s) \<noteq> None"

definition runs :: "'j hub_env \<Rightarrow> ('j, 'a) hub_op \<Rightarrow> 'j server \<Rightarrow> bool" where
  "runs E m s \<longleftrightarrow> (\<forall>k. \<exists>x d'. m (he_pg E) (with_statements k (sv_db s)) = (Inr x, d'))"

lemma runs_return: "runs E (db_return x) s"
  by (simp add: runs_def db_return_def)

lemma stamp_runs:
  assumes "\<And>i. \<not> down X i" "next_number sid d = Some n"
  obtains r d' where "stamp_append_snapshot (Some l) sid actor event X d = (Inr r, d')"
proof -
  have "\<exists>r d'. stamp_append_snapshot (Some l) sid actor event X d = (Inr r, d')"
    using assms
    by (simp add: stamp_append_snapshot_def alloc_seq_def append_row_def append_event_def catch_up_base_def
        insert_in_tx_def insert_snapshot_def list_between_in_tx_def db_bind_def db_return_def on_store_def
        next_number_def Let_def split_def)
  with that show thesis by blast
qed

lemma commit_runs:
  assumes "ready E sid s" "runs E body s" "keeps_log sid body"
  obtains y d' where
    "hub_transaction (db_bind body (\<lambda>x. db_bind (stamp_append_snapshot (Some l) sid actor event)
       (\<lambda>r. db_return (x, r)))) (he_pg E) (sv_db s) = (Inr y, d')"
proof -
  from assms(1) obtain n where up: "\<And>i. \<not> down (he_pg E) i" and n: "next_number sid (sv_db s) = Some n"
    by (auto simp: ready_def)
  let ?d = "with_statements (Suc (statements (hd_store (sv_db s)))) (sv_db s)"
  obtain x d1 where body: "body (he_pg E) ?d = (Inr x, d1)" using assms(2) unfolding runs_def by blast
  have "next_number sid d1 = Some n"
    using keeps_logD [OF assms(3) body] n by (simp add: same_log_def)
  from stamp_runs [OF up this] obtain r d2 where
    stamp: "stamp_append_snapshot (Some l) sid actor event (he_pg E) d1 = (Inr r, d2)" .
  have "on_store begin_tx (he_pg E) (sv_db s) = (Inr (), ?d)"
    using up by (simp add: on_store_def begin_tx_def with_statements_def)
  with body stamp up have "\<exists>y d'. hub_transaction (db_bind body (\<lambda>x. db_bind (stamp_append_snapshot (Some l) sid actor event)
       (\<lambda>r. db_return (x, r)))) (he_pg E) (sv_db s) = (Inr y, d')"
    by (cases r) (simp add: hub_transaction_def hub_tx_body_def db_bind_def db_return_def)
  with that show thesis by blast
qed

section \<open>Commits\<close>

lemma once_transaction_later:
  assumes live: "current_live h s = Some l" and P: "P (wm_payload event)"
    and run: "run_db (hub_transaction m) E s = (Inr x, s')"
    and body: "\<And>d d'. m (he_pg E) d = (Inr x, d') \<Longrightarrow> committed sid l event d (sq, snap, stamped) d'"
    and later: "hushed h sid s' t"
  shows "once b E h sid P s (store_and_broadcast E h sid sq snap stamped t)"
proof -
  obtain d' where d': "hub_transaction m (he_pg E) (sv_db s) = (Inr x, d')" "s' = s\<lparr>sv_db := d'\<rparr>"
    using run by (auto simp: run_db_def split: prod.splits)
  from d'(1) obtain j k d2 where m: "m (he_pg E) (with_statements j (sv_db s)) = (Inr x, d2)"
    and k: "d' = with_statements k d2"
    by (cases rule: hub_transaction_cases) auto
  have "committed sid l event (sv_db s) (sq, snap, stamped) d'"
    unfolding k by (rule committed_statements, rule committed_same_log [OF same_log_statements body [OF m]])
  with live P later [unfolded d'(2)] hushed_refl show ?thesis
    unfolding once_def commits_once_def by blast
qed

lemmas once_transaction = once_transaction_later [OF _ _ _ _ hushed_refl]

text \<open>A body that leaves the log alone, and the event behind it.\<close>

lemma body_committed:
  assumes "db_bind body (\<lambda>x. db_bind (stamp_append_snapshot (Some l) sid actor event) (\<lambda>r. db_return (x, r)))
             X d = (Inr (x, r), d')"
    and "keeps_log sid body"
  shows "committed sid l event d r d'"
  using assms(1)
  by (elim hub_bind_Inr)
    (auto simp: db_return_def dest!: stamp_append_snapshot_Inr(1)
      intro: committed_same_log keeps_logD [OF assms(2)])

text \<open>The two outcomes of such a transaction: an error and a hushed server, or a commit to publish.\<close>

lemma transaction_outcomes:
  assumes live: "current_live h s = Some l" and log: "keeps_log sid body"
    and run: "run_db (hub_transaction (db_bind body (\<lambda>x. db_bind (stamp_append_snapshot (Some l) sid actor event)
       (\<lambda>r. db_return (x, r))))) E s = (got, s1)"
    and b: "b \<Longrightarrow> ready E sid s \<and> runs E body s" and P: "P (wm_payload event)"
  obtains (Failed) e where "got = Inl e" "once b E h sid P s s1"
  | (Done) x sq snap stamped where "got = Inr (x, sq, snap, stamped)"
      "\<And>t. hushed h sid s1 t \<Longrightarrow> once b E h sid P s (store_and_broadcast E h sid sq snap stamped t)"
proof (cases got)
  case (Inl e)
  have "\<not> b"
  proof
    assume b
    with b have "ready E sid s" "runs E body s" by simp_all
    from commit_runs [OF this log] run Inl show False by (auto simp: run_db_def split: prod.splits) (metis Inl_Inr_False prod.inject)
  qed
  with hushed_rolled_back [OF run [unfolded Inl]] show thesis
    by (intro Failed [OF Inl]) (simp add: once_def)
next
  case (Inr y)
  obtain x sq snap stamped where y: "y = (x, sq, snap, stamped)" by (cases y) auto
  show thesis
    by (rule Done [OF Inr [unfolded y]], rule once_transaction_later [where P = P and event = event, OF live P run [unfolded Inr y]])
      (erule body_committed [OF _ log])
qed

lemma once_commit_with [once_intros]:
  assumes "current_live h s = Some l" "keeps_log sid body" "P (wm_payload event)"
    "b \<Longrightarrow> ready E sid s \<and> runs E body s"
  shows "once b E h sid P s (snd (commit_with E h sid actor (Some l) body event s))"
proof -
  obtain got s1 where run: "run_db (hub_transaction (db_bind body
      (\<lambda>x. db_bind (stamp_append_snapshot (Some l) sid actor event) (\<lambda>r. db_return (x, r))))) E s = (got, s1)"
    by fastforce
  show ?thesis
    by (rule transaction_outcomes [where b = b and P = P, OF assms(1,2) run assms(4,3)])
      (simp_all add: commit_with_def run hushed_refl)
qed

lemma warm_snap_warm: "current_live h s = Some l \<Longrightarrow> warm_snap E h sid s = (Some l, s)"
  by (simp add: warm_snap_def)

lemma warmE: assumes "warm h s" obtains l where "current_live h s = Some l"
  using assms by (auto simp: warm_def)

lemma once_event [once_intros]:
  assumes "warm h s" "P (wm_payload event)" "b \<Longrightarrow> ready E sid s"
  shows "once b E h sid P s (commit_event E h sid actor event s)"
proof -
  from assms(1) obtain l where l: "current_live h s = Some l" by (rule warmE)
  have "once b E h sid P s (snd (commit_with E h sid actor (Some l) (db_return ()) event s))"
    by (rule once_commit_with [where P = P and event = event, OF l keeps_log_return assms(2)]) (simp add: assms(3) runs_return)
  then show ?thesis by (simp add: commit_event_def warm_snap_warm [OF l])
qed

end
