(* ===== verification/Hub_Refinement.thy ===== *)
theory Hub_Refinement
  imports Hub_Once
begin

text \<open>
  The handlers of \<open>Hub_Commands\<close> on a warm hub: each command of a connection, and each writer outside
  a connection whose hub is registered and warm, commits at most one event - the one that answers the
  command - and does nothing else to the log of the session, and commits it when it is due. So it
  performs steps of the hub machine, and so does a notification that is delivered in order.
\<close>

section \<open>Rate limits\<close>

lemma limits_simps [simp]:
  "warm h (s\<lparr>sv_limits := m\<rparr>) = warm h s" "ready E sid (s\<lparr>sv_limits := m\<rparr>) = ready E sid s"
  "ticks_of (s\<lparr>sv_limits := m\<rparr>) = ticks_of s" "head_now E sid a (s\<lparr>sv_limits := m\<rparr>) = head_now E sid a s"
  "current_live h (s\<lparr>sv_limits := m\<rparr>) = current_live h s" "runs E x (s\<lparr>sv_limits := m\<rparr>) = runs E x s"
  by (simp_all add: warm_def current_live_def ready_def ticks_of_def head_now_def utc_now_def runs_def)

definition within_limit :: "'j hub_env \<Rightarrow> string \<Rightarrow> rate_limit_key \<Rightarrow> 'j server \<Rightarrow> bool" where
  "within_limit E sid key s \<longleftrightarrow> fst (snd (session_check sid key (instant_now E s) (sv_limits s))) = Allowed"

text \<open>The event that is due, or, over the limit, the one that says so.\<close>

definition limited ::
  "'j hub_env \<Rightarrow> string \<Rightarrow> string \<Rightarrow> rate_limit_key \<Rightarrow> 'j server \<Rightarrow> ('j ws_payload \<Rightarrow> bool) \<Rightarrow> 'j ws_payload \<Rightarrow> bool" where
  "limited E sid payer key s P q \<longleftrightarrow>
     (if within_limit E sid key s then P q
      else \<exists>descr secs. q = WsEffectRateLimited (head_now E sid payer s) (key_label key) descr secs)"

lemma once_limited:
  assumes "warm h s" "b \<Longrightarrow> ready E sid s"
    and allowed: "\<And>m. within_limit E sid key s \<Longrightarrow> once b E h sid P (s\<lparr>sv_limits := m\<rparr>) (k (s\<lparr>sv_limits := m\<rparr>))"
  shows "once b E h sid (limited E sid payer key s P) s
           (case check_rate_limit E h sid payer key s of (False, s1) \<Rightarrow> s1 | (True, s1) \<Rightarrow> k s1)"
proof -
  obtain m c pol where c: "session_check sid key (instant_now E s) (sv_limits s) = (m, c, pol)"
    by (cases "session_check sid key (instant_now E s) (sv_limits s)") auto
  show ?thesis
  proof (cases c)
    case Allowed
    then have w: "within_limit E sid key s" using c by (simp add: within_limit_def)
    from hushed_then_once [OF hushed_simple(3) allowed [OF w, of m]] w Allowed c show ?thesis
      by (simp add: check_rate_limit_def limited_def [abs_def])
  next
    case (RateDenied after)
    then have w: "\<not> within_limit E sid key s" using c by (simp add: within_limit_def)
    let ?event = "make_event E (s\<lparr>sv_limits := m\<rparr>) (WsEffectRateLimited (head_now E sid payer (s\<lparr>sv_limits := m\<rparr>))
        (key_label key) (case pol of None \<Rightarrow> [] | Some p \<Rightarrow> describe p) (of_nat (as_secs after)))"
    have "once b E h sid (limited E sid payer key s P) (s\<lparr>sv_limits := m\<rparr>)
        (commit_event E h sid payer ?event (s\<lparr>sv_limits := m\<rparr>))"
      by (rule once_event) (use assms(1,2) w in \<open>simp_all add: limited_def make_event_def\<close>)
    from hushed_then_once [OF hushed_simple(3) this] RateDenied c show ?thesis
      by (simp add: check_rate_limit_def Let_def)
  qed
qed

section \<open>Handlers\<close>

lemma payload_of_event [simp]: "wm_payload (make_event E s p) = p"
  by (simp add: make_event_def)

lemma once_then_feed:
  assumes "once b E h sid P s (snd p)"
  shows "once b E h sid P s (case p of (Inl e, t) \<Rightarrow> t | (Inr x, t) \<Rightarrow> feed sid' (ev t) t)"
  using assms by (auto split: prod.splits sum.splits intro: once_intros)

lemma runs_insert: "\<forall>i. \<not> down (he_pg E) i \<Longrightarrow> runs E (on_store (insert_approval i sid actor tname args expires)) s"
  by (simp add: runs_def on_store_def insert_approval_def split_def)

lemma runs_update:
  assumes "\<forall>i. \<not> down (he_pg E) i" "\<exists>q \<in> set (approval_rows (hd_store (sv_db s))). P q"
  shows "runs E (on_store (statement (\<lambda>now d. or_not_found (update_approval P (f now) d)))) s"
proof -
  obtain q where "find P (approval_rows (hd_store (sv_db s))) = Some q"
    using assms(2) by (auto simp: find_None_iff dest!: option.exhaust_sel)
      (metis find_None_iff not_None_eq)
  with assms(1) show ?thesis
    by (simp add: runs_def on_store_def or_not_found_def update_approval_def with_statements_def split_def)
qed

lemma once_approval_request:
  assumes "warm h s" "b \<Longrightarrow> ready E sid s"
    and "P (WsApprovalRequested (head_now E sid actor s) aid tname (wants_to_call actor tname) actor expires args)"
  shows "once b E h sid (limited E sid actor (ApprovalRequestKey actor) s P) s
           (handle_approval_request E h sid actor aid tname args expires s)"
  unfolding handle_approval_request_def
proof (rule once_limited [OF assms(1,2)])
  fix m
  from assms(1) obtain l where l: "current_live h (s\<lparr>sv_limits := m\<rparr>) = Some l" by (auto elim: warmE)
  have log: "keeps_log sid (on_store (insert_approval aid sid actor tname args expires))"
    by (intro keeps_log_intros keeps_seqs_intros)
  show "once b E h sid P (s\<lparr>sv_limits := m\<rparr>)
     (let event = make_event E (s\<lparr>sv_limits := m\<rparr>) (WsApprovalRequested (head_now E sid actor (s\<lparr>sv_limits := m\<rparr>)) aid
            tname (wants_to_call actor tname) actor expires args)
      in case warm_snap E h sid (s\<lparr>sv_limits := m\<rparr>) of
           (base, s2) \<Rightarrow>
             (case commit_with E h sid actor base (on_store (insert_approval aid sid actor tname args expires))
                     event s2 of
                (Inl _, s3) \<Rightarrow> s3
              | (Inr _, s3) \<Rightarrow> feed sid (ApprovalCreate aid actor tname args (expires_ms E expires s3)) s3))"
    unfolding Let_def warm_snap_warm [OF l] prod.case
    by (rule once_then_feed, rule once_commit_with [OF l log])
      (use assms(2,3) in \<open>auto simp: ready_def intro: runs_insert\<close>)
qed

lemma once_claim:
  assumes "warm h s" "P (WsApprovalClaimed (head_now E sid actor s) aid)"
    and "b \<Longrightarrow> ready E sid s \<and> (\<exists>q \<in> set (approval_rows (hd_store (sv_db s))). aq_id q = aid \<and> aq_state q = ''Pending'')"
  shows "once b E h sid P s (handle_approval_claim E h sid actor aid s)"
proof -
  from assms(1) obtain l where l: "current_live h s = Some l" by (rule warmE)
  have log: "keeps_log sid (on_store (claim_if_pending_in_tx aid))"
    by (intro keeps_log_intros keeps_seqs_intros)
  show ?thesis
    unfolding handle_approval_claim_def Let_def warm_snap_warm [OF l] prod.case
    by (rule once_then_feed, rule once_commit_with [OF l log])
      (use assms(2,3) in \<open>auto simp: ready_def claim_if_pending_in_tx_def intro!: runs_update\<close>)
qed

lemma once_events:
  assumes "warm h s" "b \<Longrightarrow> ready E sid s"
  shows "P (WsApprovalDelegated (head_now E sid actor s) aid actor delegate_to) \<Longrightarrow>
      once b E h sid P s (handle_approval_delegate E h sid actor aid delegate_to s)"
    "P (WsApprovalDisputed (head_now E sid actor s) aid reason) \<Longrightarrow>
      once b E h sid P s (handle_approval_dispute E h sid actor aid reason s)"
    "P (WsAgentStatusChanged (head_now E sid actor s) st) \<Longrightarrow>
      once b E h sid P s (handle_agent_status E h sid actor st s)"
    "P (WsContextEntryResolved (head_now E sid actor s) eid actor note_text) \<Longrightarrow>
      once b E h sid P s (handle_context_resolve E h sid actor eid note_text s)"
  unfolding handle_approval_delegate_def handle_approval_dispute_def handle_agent_status_def
    handle_context_resolve_def
  by (intro once_intros assms; simp)+

lemma once_message_post:
  assumes "warm h s" "b \<Longrightarrow> ready E sid s" "P (WsMessagePosted (head_now E sid actor s) content)"
  shows "once b E h sid (limited E sid actor (MessagePostKey actor) s P) s (handle_message_post E h sid actor content s)"
  unfolding handle_message_post_def
  by (rule once_limited [OF assms(1,2)], assumption, intro once_intros) (use assms in simp_all)

lemma once_context_add:
  assumes "warm h s" "b \<Longrightarrow> ready E sid s"
    "P (WsContextEntryAdded (head_now E sid actor s) (ulid (he_pg E) (ticks_of s)) kind content None)"
  shows "once b E h sid (limited E sid actor (ContextAddKey actor) s P) s (handle_context_add E h sid actor kind content s)"
  unfolding handle_context_add_def Let_def
  by (rule once_limited [OF assms(1,2)], assumption, intro once_intros) (use assms in simp_all)

lemma once_transfer:
  assumes "warm h s" "P (WsOwnershipTransferred (head_now E sid old s) old new)"
  shows "once False E h sid (limited E sid old OwnershipTransferKey s P) s (handle_ownership_transfer E h sid old new s)"
  unfolding handle_ownership_transfer_def
proof (rule once_limited [OF assms(1)])
  fix m
  from assms(1) obtain l where l: "current_live h (s\<lparr>sv_limits := m\<rparr>) = Some l" by (auto elim: warmE)
  have log: "keeps_log sid (on_store (transfer_ownership_in_tx sid old new))"
    by (intro keeps_log_intros keeps_seqs_intros)
  show "once False E h sid P (s\<lparr>sv_limits := m\<rparr>)
     (let event = make_event E (s\<lparr>sv_limits := m\<rparr>) (WsOwnershipTransferred (head_now E sid old (s\<lparr>sv_limits := m\<rparr>)) old new)
      in case warm_snap E h sid (s\<lparr>sv_limits := m\<rparr>) of
           (base, s2) \<Rightarrow> snd (commit_with E h sid old base (on_store (transfer_ownership_in_tx sid old new)) event s2))"
    unfolding Let_def warm_snap_warm [OF l] prod.case
    by (rule once_commit_with [OF l log]) (use assms(2) in simp_all)
qed simp

section \<open>Votes\<close>

definition open_in :: "string \<Rightarrow> string \<Rightarrow> 'j approval_row \<Rightarrow> bool" where
  "open_in sid aid q \<longleftrightarrow> aq_id q = aid \<and> aq_session q = sid \<and> open_state (aq_state q)"

definition with_vote :: "string \<Rightarrow> vote \<Rightarrow> 'j approval_row \<Rightarrow> 'j approval_row" where
  "with_vote actor v q = q\<lparr>aq_votes := AList.update actor (vote_str v) (aq_votes q)\<rparr>"

definition settled :: "datetime \<Rightarrow> string \<Rightarrow> approval_state \<Rightarrow> 'j approval_row \<Rightarrow> 'j approval_row" where
  "settled now actor st q =
     (case st of
        ASApproved \<Rightarrow> q\<lparr>aq_state := ''Approved'', aq_resolved_by := Some actor, aq_resolved_at := Some now\<rparr>
      | ASDenied \<Rightarrow> q\<lparr>aq_state := ''Denied'', aq_resolved_by := Some actor, aq_resolved_at := Some now\<rparr>
      | ASContested \<Rightarrow> q\<lparr>aq_state := ''Contested''\<rparr>
      | _ \<Rightarrow> q)"

lemma open_in_vote [simp]: "open_in sid aid (with_vote actor v q) = open_in sid aid q"
  by (simp add: open_in_def with_vote_def)

lemma approval_update:
  assumes "on_store (statement (\<lambda>now d. or_not_found (update_approval P (f now) d))) X d = (r, d')"
  shows "(\<exists>q now. r = Inr (f now q) \<and> find P (approval_rows (hd_store d)) = Some q \<and>
            approval_rows (hd_store d') = map (\<lambda>q. if P q then f now q else q) (approval_rows (hd_store d))) \<or>
         (\<exists>e k. r = Inl e \<and> (e = Not_found \<longrightarrow> find P (approval_rows (hd_store d)) = None) \<and>
            (find P (approval_rows (hd_store d)) = None \<longrightarrow> e = Not_found \<or> e = Sqlx))"
  using assms
  by (cases "down X (statements (hd_store d))"; cases "find P (approval_rows (hd_store d))")
    (auto simp: on_store_def statement_def or_not_found_def update_approval_def Let_def)

lemma record_vote_spec:
  assumes "on_store (record_vote_in_tx aid sid actor (vote_str v)) X d = (r, d')"
  shows "(\<exists>q. r = Inr (with_vote actor v q) \<and> find (open_in sid aid) (approval_rows (hd_store d)) = Some q \<and>
            approval_rows (hd_store d') =
              map (\<lambda>q. if open_in sid aid q then with_vote actor v q else q) (approval_rows (hd_store d))) \<or>
         (\<exists>e. r = Inl e \<and> (e = Not_found \<longrightarrow> find (open_in sid aid) (approval_rows (hd_store d)) = None))"
proof -
  have P: "(\<lambda>q. aq_id q = aid \<and> aq_session q = sid \<and> open_state (aq_state q)) = open_in sid aid"
    by (rule ext) (simp add: open_in_def)
  show ?thesis
    using approval_update [of "open_in sid aid" "\<lambda>now. with_vote actor v" X d r d'] assms
    unfolding record_vote_in_tx_def P by (auto simp: with_vote_def [abs_def])
qed

lemma write_outcome_rows:
  assumes "on_store (write_outcome sid actor aid st) X d = (Inr x, d')"
  shows "\<exists>now. approval_rows (hd_store d') =
           map (\<lambda>q. if open_in sid aid q then settled now actor st q else q) (approval_rows (hd_store d))"
proof -
  have P: "(\<lambda>q. aq_id q = aid \<and> aq_session q = sid \<and> open_state (aq_state q)) = open_in sid aid"
    by (rule ext) (simp add: open_in_def)
  have split: "on_store (db_bind m (\<lambda>_. db_return ())) X d = (Inr x, d') \<Longrightarrow> \<exists>y. on_store m X d = (Inr y, d')" for m :: "('a, 'b) db_op"
    by (auto simp: on_store_def db_bind_def db_return_def split: prod.splits sum.splits)
  show ?thesis
  proof (cases st)
    case ASApproved
    with assms split [of "resolve_in_tx aid sid ''Approved'' actor"] obtain y where
      "on_store (resolve_in_tx aid sid ''Approved'' actor) X d = (Inr y, d')" by (auto simp: write_outcome_def)
    from approval_update [OF this [unfolded resolve_in_tx_def P]] ASApproved
    show ?thesis by (auto simp: settled_def)
  next
    case ASDenied
    with assms split [of "resolve_in_tx aid sid ''Denied'' actor"] obtain y where
      "on_store (resolve_in_tx aid sid ''Denied'' actor) X d = (Inr y, d')" by (auto simp: write_outcome_def)
    from approval_update [OF this [unfolded resolve_in_tx_def P]] ASDenied
    show ?thesis by (auto simp: settled_def)
  next
    case ASContested
    with assms split [of "set_state_in_tx aid sid ''Contested''"] obtain y where
      "on_store (set_state_in_tx aid sid ''Contested'') X d = (Inr y, d')" by (auto simp: write_outcome_def)
    from approval_update [OF this [unfolded set_state_in_tx_def P]] ASContested
    show ?thesis by (auto simp: settled_def)
  qed (use assms in \<open>auto simp: write_outcome_def on_store_def db_return_def settled_def
         intro!: map_idI [symmetric]\<close>)
qed

lemma or_failed_Inr: "or_failed m X d = (Inr x, d') \<longleftrightarrow> m X d = (Inr x, d')"
  by (auto simp: or_failed_def db_attempt_def db_fail_def db_return_def split: prod.splits sum.splits)

lemma or_failed_not_found: "or_failed m X d \<noteq> (Inl Not_found, d')"
  by (auto simp: or_failed_def db_attempt_def db_fail_def db_return_def split: prod.splits sum.splits)

text \<open>What the transaction of a vote has done when it is committed.\<close>

lemma vote_in_tx_Inr:
  assumes "vote_in_tx E sid actor aid v pol (Some l) s X d = (Inr (q', st, sent), d')"
  obtains q now where
    "find (open_in sid aid) (approval_rows (hd_store d)) = Some q" "q' = with_vote actor v q"
    "st = evaluate (fst pol) (parse_votes (aq_votes q')) (snd pol)"
    "approval_rows (hd_store d') =
       map (\<lambda>q. if open_in sid aid q then settled now actor st (with_vote actor v q) else q)
         (approval_rows (hd_store d))"
    "case outcome_payload E sid actor aid (parse_votes (aq_votes q')) st s of
       None \<Rightarrow> sent = None \<and> same_log sid d d'
     | Some p \<Rightarrow> \<exists>r. sent = Some r \<and> committed sid l (make_event E s p) d r d'"
proof -
  let ?st = "\<lambda>u. evaluate (fst pol) (parse_votes (aq_votes u)) (snd pol)"
  let ?rest = "\<lambda>u. case outcome_payload E sid actor aid (parse_votes (aq_votes u)) (?st u) s of
           None \<Rightarrow> db_return (u, ?st u, None)
         | Some p \<Rightarrow> db_bind (or_failed (stamp_append_snapshot (Some l) sid actor (make_event E s p)))
                      (\<lambda>r. db_return (u, ?st u, Some r))"
  from assms obtain u d1 d2 x where
    u: "on_store (record_vote_in_tx aid sid actor (vote_str v)) X d = (Inr u, d1)" and
    w: "or_failed (on_store (write_outcome sid actor aid (?st u))) X d1 = (Inr x, d2)" and
    c: "?rest u X d2 = (Inr (q', st, sent), d')"
    unfolding vote_in_tx_def Let_def by (elim hub_bind_Inr) blast
  have same: "u = q'" and st: "st = ?st q'"
    using c by (auto split: option.splits elim!: hub_bind_Inr simp: db_return_def)
  note 1 = u [unfolded same] and 2 = w [unfolded same or_failed_Inr st [symmetric]]
    and 3 = c [unfolded same st [symmetric]]
  from record_vote_spec [OF 1] obtain q where
    q: "find (open_in sid aid) (approval_rows (hd_store d)) = Some q" "q' = with_vote actor v q" and
    r1: "approval_rows (hd_store d1) =
       map (\<lambda>q. if open_in sid aid q then with_vote actor v q else q) (approval_rows (hd_store d))" by auto
  from write_outcome_rows [OF 2] obtain now where r2: "approval_rows (hd_store d2) =
       map (\<lambda>q. if open_in sid aid q then settled now actor st q else q) (approval_rows (hd_store d1))" by blast
  have logs: "same_log sid d d1" "same_log sid d1 d2"
    by (rule keeps_logD [where m = "on_store m" for m, OF _ 1], intro keeps_log_intros keeps_seqs_intros)
      (rule keeps_logD [where m = "on_store m" for m, OF _ 2], intro keeps_log_intros keeps_seqs_intros)
  have rest: "approval_rows (hd_store d') = approval_rows (hd_store d2) \<and>
     (case outcome_payload E sid actor aid (parse_votes (aq_votes q')) st s of
       None \<Rightarrow> sent = None \<and> same_log sid d d'
     | Some p \<Rightarrow> \<exists>r. sent = Some r \<and> committed sid l (make_event E s p) d r d')"
  proof (cases "outcome_payload E sid actor aid (parse_votes (aq_votes q')) st s")
    case None
    with 3 same_log_trans [OF logs] show ?thesis by (simp add: db_return_def)
  next
    case (Some p)
    with 3 obtain r where r: "sent = Some r"
      "stamp_append_snapshot (Some l) sid actor (make_event E s p) X d2 = (Inr r, d')"
      by (auto simp: db_return_def or_failed_Inr elim!: hub_bind_Inr)
    from stamp_append_snapshot_Inr [OF r(2)] committed_same_log [OF same_log_trans [OF logs]]
    show ?thesis by (simp add: Some r(1))
  qed
  show thesis
    by (rule that [OF q st]) (use rest r1 r2 in \<open>auto simp: comp_def intro!: map_cong\<close>)
qed

lemma once_cancel:
  assumes "warm h s" "P (WsApprovalCancelled (head_now E sid actor s) aid)"
    and "b \<Longrightarrow> ready E sid s \<and> (\<exists>q \<in> set (approval_rows (hd_store (sv_db s))). open_in sid aid q)"
  shows "once b E h sid P s (handle_approval_cancel E h sid actor aid s)"
proof -
  from assms(1) obtain l where l: "current_live h s = Some l" by (rule warmE)
  have log: "keeps_log sid (on_store (set_state_in_tx aid sid ''Expired''))"
    by (intro keeps_log_intros keeps_seqs_intros)
  show ?thesis
    unfolding handle_approval_cancel_def Let_def warm_snap_warm [OF l] prod.case
    by (rule once_then_feed, rule once_commit_with [OF l log])
      (use assms(2,3) in \<open>auto simp: ready_def set_state_in_tx_def open_in_def intro!: runs_update\<close>)
qed

text \<open>What a vote may announce.\<close>

definition announces ::
  "'j hub_env \<Rightarrow> string \<Rightarrow> string \<Rightarrow> string \<Rightarrow> 'j server \<Rightarrow> 'j ws_payload \<Rightarrow> bool" where
  "announces E sid actor aid s q \<longleftrightarrow>
     q = WsApprovalGranted (head_now E sid actor s) aid \<or> q = WsApprovalDenied (head_now E sid actor s) aid None \<or>
     (\<exists>votes. q = WsApprovalContested (head_now E sid ''system'' s) aid votes ''owner'')"

lemma once_vote:
  assumes "warm h s" "\<And>q. announces E sid actor aid s q \<Longrightarrow> P q"
  shows "once False E h sid P s (snd (handle_vote E h sid actor aid v s))"
proof -
  from assms(1) obtain l where l: "current_live h s = Some l" by (rule warmE)
  let ?m = "vote_in_tx E sid actor aid v (vote_policy (current_live h s)) (Some l) s"
  obtain got s2 where run: "run_db (hub_transaction ?m) E s = (got, s2)" by fastforce
  show ?thesis
  proof (cases got)
    case (Inl e)
    have "once False E h sid P s s2" using run unfolding Inl by (intro once_hushed hushed_rolled_back)
    with run Inl show ?thesis
      by (cases e) (simp_all add: handle_vote_def Let_def warm_snap_warm [OF l])
  next
    case (Inr y)
    obtain q' st sent where y: "y = (q', st, sent)" by (cases y) auto
    have "once False E h sid P s (case sent of None \<Rightarrow> s2
            | Some (sq, new_snap, ev) \<Rightarrow> store_and_broadcast E h sid sq new_snap ev s2)"
    proof (cases sent)
      case None
      have "same_log sid d d'" if "?m (he_pg E) d = (Inr y, d')" for d d'
        using that unfolding y None by (elim vote_in_tx_Inr) (auto split: option.splits)
      then have "hushed h sid s s2"
        using run unfolding Inr
        by (auto simp: run_db_def intro!: hushed_hub_same split: prod.splits elim!: hub_transaction_cases)
          (metis same_log_statements same_log_trans)
      then show ?thesis using None by (simp add: once_hushed)
    next
      case (Some r)
      obtain sq snap stamped where r: "r = (sq, snap, stamped)" by (cases r) auto
      obtain p where p: "outcome_payload E sid actor aid (parse_votes (aq_votes q')) st s = Some p"
        using run unfolding Inr y Some
        by (auto simp: run_db_def split: prod.splits option.splits elim!: hub_transaction_cases vote_in_tx_Inr)
      have P: "P (wm_payload (make_event E s p))"
        using assms(2) [of p] p by (auto simp: outcome_payload_def announces_def split: approval_state.splits)
      have "committed sid l (make_event E s p) d (sq, snap, stamped) d'"
        if "?m (he_pg E) d = (Inr y, d')" for d d'
        using that p unfolding y Some r by (elim vote_in_tx_Inr) auto
      from once_transaction [where P = P and event = "make_event E s p", OF l P run [unfolded Inr] this]
      show ?thesis by (simp add: Some r)
    qed
    then show ?thesis
      using run Inr y by (auto simp: handle_vote_def Let_def warm_snap_warm [OF l] split: option.split
          intro!: once_intros)
  qed
qed

section \<open>Commands\<close>

text \<open>The event that answers a command of \<open>actor\<close>.\<close>

definition answers ::
  "'j hub_env \<Rightarrow> string \<Rightarrow> string \<Rightarrow> 'j ws_payload \<Rightarrow> 'j server \<Rightarrow> 'j ws_payload \<Rightarrow> bool" where
  "answers E sid actor p s q \<longleftrightarrow>
     (case p of
        WsApprovalRequest a b aid tname args expires \<Rightarrow>
          q = WsApprovalRequested (head_now E sid actor s) aid tname (wants_to_call actor tname) actor expires args
      | WsApprovalClaim a aid b \<Rightarrow> q = WsApprovalClaimed (head_now E sid actor s) aid
      | WsApprovalGrant a aid b \<Rightarrow> announces E sid actor aid s q
      | WsApprovalDeny a aid b c \<Rightarrow> announces E sid actor aid s q
      | WsApprovalCancel a aid b \<Rightarrow> q = WsApprovalCancelled (head_now E sid actor s) aid
      | WsApprovalDelegate a aid b delegate_to c \<Rightarrow>
          q = WsApprovalDelegated (head_now E sid actor s) aid actor delegate_to
      | WsApprovalDispute a aid b reason \<Rightarrow> q = WsApprovalDisputed (head_now E sid actor s) aid reason
      | WsOwnershipTransfer a old new \<Rightarrow> q = WsOwnershipTransferred (head_now E sid old s) old new
      | WsMessagePost a content \<Rightarrow> q = WsMessagePosted (head_now E sid actor s) content
      | WsAgentStatusUpdate a b st \<Rightarrow> q = WsAgentStatusChanged (head_now E sid actor s) st
      | WsContextEntryAdd a b kind content \<Rightarrow>
          q = WsContextEntryAdded (head_now E sid actor s) (ulid (he_pg E) (ticks_of s)) kind content None
      | WsContextEntryResolve a b eid note_text \<Rightarrow>
          q = WsContextEntryResolved (head_now E sid actor s) eid actor note_text
      | _ \<Rightarrow> False)"

text \<open>Who pays for a command that is rate limited, and from which bucket.\<close>

definition payer_of :: "string \<Rightarrow> 'j ws_payload \<Rightarrow> (string \<times> rate_limit_key) option" where
  "payer_of actor p =
     (case p of
        WsApprovalRequest a b aid tname args expires \<Rightarrow> Some (actor, ApprovalRequestKey actor)
      | WsMessagePost a content \<Rightarrow> Some (actor, MessagePostKey actor)
      | WsContextEntryAdd a b kind content \<Rightarrow> Some (actor, ContextAddKey actor)
      | WsOwnershipTransfer a old new \<Rightarrow> Some (old, OwnershipTransferKey)
      | _ \<Rightarrow> None)"

definition response ::
  "'j hub_env \<Rightarrow> string \<Rightarrow> string \<Rightarrow> 'j ws_payload \<Rightarrow> 'j server \<Rightarrow> 'j ws_payload \<Rightarrow> bool" where
  "response E sid actor p s =
     (case payer_of actor p of
        None \<Rightarrow> answers E sid actor p s
      | Some (payer, key) \<Rightarrow> limited E sid payer key s (answers E sid actor p s))"

text \<open>
  When a command does commit its event, or the refusal of the rate limit: no statement fails, the
  session has numbers and its status lets the command through, and the approval that is claimed or
  cancelled is there. For votes see \<open>hub_vote_decides\<close>.
\<close>

definition due :: "'j hub_env \<Rightarrow> nat \<Rightarrow> string \<Rightarrow> 'j ws_payload \<Rightarrow> 'j server \<Rightarrow> bool" where
  "due E h sid p s \<longleftrightarrow>
     ready E sid s \<and> gate_lifecycle (session_status_now h s) p \<and>
     (case p of
        WsApprovalRequest a b aid tname args expires \<Rightarrow> True
      | WsApprovalClaim a aid b \<Rightarrow>
          \<exists>q \<in> set (approval_rows (hd_store (sv_db s))). aq_id q = aid \<and> aq_state q = ''Pending''
      | WsApprovalCancel a aid b \<Rightarrow> \<exists>q \<in> set (approval_rows (hd_store (sv_db s))). open_in sid aid q
      | WsApprovalDelegate a aid b delegate_to c \<Rightarrow> True
      | WsApprovalDispute a aid b reason \<Rightarrow> True
      | WsMessagePost a content \<Rightarrow> True
      | WsAgentStatusUpdate a b st \<Rightarrow> True
      | WsContextEntryAdd a b kind content \<Rightarrow> True
      | WsContextEntryResolve a b eid note_text \<Rightarrow> True
      | _ \<Rightarrow> False)"

lemma once_idle: "\<not> b \<Longrightarrow> hushed h sid s t \<Longrightarrow> once b E h sid P s t"
  by (simp add: once_def)

lemma once_command:
  assumes "warm h s" "gate_lifecycle (session_status_now h s) p"
  shows "once (due E h sid p s) E h sid (response E sid actor p s) s (handle_command E h sid actor role p s)"
proof (cases "due E h sid p s")
  case True
  then have ready: "ready E sid s" by (simp add: due_def)
  from True show ?thesis
    by (cases p)
      (simp_all add: due_def handle_command_def response_def payer_of_def answers_def assms(1) ready
        once_approval_request once_message_post once_context_add once_claim once_cancel once_events)
next
  case False
  then have b: "due E h sid p s = False" by simp
  show ?thesis unfolding b
    by (cases p)
      (simp_all add: handle_command_def response_def payer_of_def answers_def assms(1) once_approval_request
        once_message_post once_context_add once_claim once_cancel once_events once_vote once_transfer
        once_hushed hushed_focus hushed_refl)
qed

lemma once_dispatch:
  assumes "warm h s"
  shows "once (due E h sid (wm_payload msg) s) E h sid (response E sid actor (wm_payload msg) s) s
           (dispatch_command E h sid actor role msg s)"
  using once_command [OF assms] by (auto simp: dispatch_command_def due_def intro!: once_idle hushed_refl)

lemma performs_dispatch:
  "warm h s \<Longrightarrow> performs E h sid s (dispatch_command E h sid actor role msg s)"
  by (rule once_performs, rule once_dispatch)

section \<open>Writers outside a connection\<close>

lemma outside_warm:
  "sv_hubs s sid = Some h \<Longrightarrow> current_live h s = Some l \<Longrightarrow> outside_base E sid s = (Some l, s)"
  by (simp add: outside_base_def)

lemma run_db_hubs: "run_db m E s = (r, s') \<Longrightarrow> sv_hubs s' = sv_hubs s"
  by (auto simp: run_db_def split: prod.splits)

lemma notify_hubs: "sv_hubs (notify_session E sid' sq s) = sv_hubs s"
proof -
  obtain r t where "run_db (hub_statement (\<lambda>now d. (Inr (), d))) E s = (r :: db_error + unit, t)" by fastforce
  with run_db_hubs [OF this] show ?thesis by (auto simp: notify_session_def announce_def split: sum.split)
qed

lemma once_emit:
  assumes hub: "sv_hubs s sid = Some h" and live: "current_live h s = Some l"
  shows "once (ready E sid s) E h sid (\<lambda>q. q = wm_payload event) s (emit_to_session E sid actor event s)"
proof -
  obtain got s1 where run: "run_db (hub_transaction (db_bind (db_return ()) (\<lambda>x. db_bind
      (stamp_append_snapshot (Some l) sid actor event) (\<lambda>r. db_return (x, r))))) E s = (got, s1)" by fastforce
  then have out: "commit_outside E sid actor (db_return ()) event s = (got, s1)"
    by (simp add: commit_outside_def outside_warm [OF hub live])
  have hubs: "sv_hubs s1 sid = Some h" using hub run_db_hubs [OF run] by simp
  show ?thesis
    by (rule transaction_outcomes [where b = "ready E sid s" and P = "\<lambda>q. q = wm_payload event",
          OF live keeps_log_return run])
      (simp_all add: runs_return emit_to_session_def out publish_def notify_hubs hubs hushed_notify)
qed

lemma once_create_approval:
  assumes hub: "sv_hubs s sid = Some h" and live: "current_live h s = Some l"
    and ex: "add_secs (he_pg E) (utc_now E s) (sint timeout) = Some expires"
  shows "once (ready E sid s) E h sid
           (\<lambda>q. q = WsApprovalRequested (head_now E sid actor s) (ulid (he_pg E) (ticks_of s)) tname
                  (wants_to_call actor tname) actor (Some expires) args) s
           (snd (create_approval_for_session E sid actor tname args timeout s))"
proof -
  let ?aid = "ulid (he_pg E) (ticks_of s)"
  let ?body = "on_store (insert_approval ?aid sid actor tname args (Some expires))"
  let ?p = "WsApprovalRequested (head_now E sid actor s) ?aid tname (wants_to_call actor tname) actor
              (Some expires) args"
  obtain got s1 where run: "run_db (hub_transaction (db_bind ?body (\<lambda>x. db_bind (stamp_append_snapshot (Some l)
      sid actor (make_event E s ?p)) (\<lambda>r. db_return (x, r))))) E s = (got, s1)" by fastforce
  then have out: "commit_outside E sid actor ?body (make_event E s ?p) s = (got, s1)"
    by (simp add: commit_outside_def outside_warm [OF hub live])
  have log: "keeps_log sid ?body" by (intro keeps_log_intros keeps_seqs_intros)
  have hubs: "sv_hubs s1 sid = Some h" using hub run_db_hubs [OF run] by simp
  show ?thesis
    by (rule transaction_outcomes [where b = "ready E sid s" and P = "\<lambda>q. q = ?p", OF live log run])
      (simp_all add: ready_def runs_insert create_approval_for_session_def ex Let_def out publish_def hubs
        once_then_hushed [OF _ hushed_simple(1)] hushed_refl)
qed

lemma create_approval_panics:
  "add_secs (he_pg E) (utc_now E s) (sint timeout) = None \<Longrightarrow>
   snd (create_approval_for_session E sid actor tname args timeout s) = s"
  by (simp add: create_approval_for_session_def)

lemma once_vote_on_approval:
  assumes "sv_hubs s sid = Some h" "warm h s"
  shows "once False E h sid (announces E sid actor aid s) s (snd (vote_on_approval E sid actor aid v s))"
proof -
  from assms(2) obtain l where "current_live h s = Some l" by (rule warmE)
  with assms show ?thesis
    by (simp add: vote_on_approval_def get_or_create_hub_def warm_snap_warm once_vote)
qed

lemmas performs_vote_on_approval = once_performs [OF once_vote_on_approval]

section \<open>Delivery in order\<close>

text \<open>The row that \<open>deliver\<close> reads is the one that is due when no other event is missing.\<close>

lemma list_one_event:
  assumes rows: "rows_between er_seq q (er_seq r + 1) (log_rows sid d) = rs @ [r]" "\<forall>x \<in> set rs. er_seq x < er_seq r"
  shows "\<exists>more. sort_key er_seq (filter (\<lambda>x. er_session x = sid \<and> er_seq r - 1 < er_seq x) (hd_events d)) = r # more"
proof -
  let ?n = "er_seq r"
  have "r \<in> set (rows_between er_seq q (?n + 1) (log_rows sid d))" using rows(1) by simp
  then have "q \<le> ?n - 1" "?n - 1 < ?n + 1" by (simp_all add: rows_between_def)
  from rows_between_split [OF this, of er_seq "log_rows sid d"]
  have "filter (\<lambda>x. er_seq x = ?n) (rs @ [r]) =
      filter (\<lambda>x. er_seq x = ?n) (rows_between er_seq q ?n (log_rows sid d)) @
      filter (\<lambda>x. er_seq x = ?n) (rows_between er_seq (?n - 1) (?n + 1) (log_rows sid d))"
    unfolding rows(1) by (simp flip: filter_append)
  moreover have "filter (\<lambda>x. er_seq x = ?n) (rows_between er_seq q ?n (log_rows sid d)) = []"
    by (auto simp: filter_empty_conv rows_between_def)
  moreover have "filter (\<lambda>x. er_seq x = ?n) (rows_between er_seq (?n - 1) (?n + 1) (log_rows sid d)) =
      rows_between er_seq (?n - 1) (?n + 1) (log_rows sid d)"
    by (auto simp: rows_between_def intro!: filter_True)
  moreover have "filter (\<lambda>x. er_seq x = ?n) (rs @ [r]) = [r]"
    using rows(2) by (auto simp: filter_empty_conv)
  ultimately have one: "rows_between er_seq (?n - 1) (?n + 1) (log_rows sid d) = [r]" by simp
  define ys where "ys = filter (\<lambda>x. ?n - 1 < er_seq x) (log_rows sid d)"
  have "filter (\<lambda>x. er_session x = sid \<and> ?n - 1 < er_seq x) (hd_events d) = ys"
    by (simp add: ys_def log_rows_def conj_commute)
  moreover have "sort_key er_seq (filter (\<lambda>x. er_seq x < ?n + 1) ys) = [r]"
    using one by (simp add: ys_def rows_between_def conj_commute)
  then have "sort_key er_seq ys = r # sort_key er_seq (filter (\<lambda>x. \<not> er_seq x < ?n + 1) ys)"
    using sort_key_threshold [of er_seq ys "?n + 1"] by simp
  ultimately show ?thesis by blast
qed

lemma performs_fetched:
  assumes live: "current_live h s = Some l"
    and rows: "rows_between er_seq (lv_seq l) (er_seq r + 1) (log_rows sid (sv_db s)) = rs @ [r]"
      "\<forall>x \<in> set rs. row_message x = None" "row_message r = Some event"
  shows "performs E h sid s (store_and_broadcast E h sid (er_seq r) (apply_event (lv_state l) event) event s)"
  unfolding performs_def
proof (intro allI)
  fix B U
  let ?u = "\<lparr>ru_server = s, ru_bases = B, ru_done = U\<rparr>"
  let ?l = "\<lparr>lv_seq = er_seq r, lv_state = apply_event (lv_state l) event\<rparr>"
  let ?u1 = "?u\<lparr>ru_bases := insert l B\<rparr>"
  let ?u2 = "?u1\<lparr>ru_done := insert (?l, event) U\<rparr>"
  let ?u3 = "?u2\<lparr>ru_server := store_and_broadcast E h sid (er_seq r) (apply_event (lv_state l) event) event s\<rparr>"
  have "hub_step E h sid ?u ?u1" using Read [of h ?u l E sid] live by simp
  moreover have "hub_step E h sid ?u1 ?u2" using Fetch [of l ?u1 r sid rs event E h] rows by simp
  moreover have "hub_step E h sid ?u2 ?u3" using Store [of ?l event ?u2 E h sid] by simp
  ultimately have "hub_steps E h sid ?u ?u3"
    unfolding hub_steps_def by (meson rtranclp.rtrancl_refl rtranclp.rtrancl_into_rtrancl)
  then show "\<exists>B' U'. B \<subseteq> B' \<and> U \<subseteq> U' \<and> hub_steps E h sid ?u
      \<lparr>ru_server = store_and_broadcast E h sid (er_seq r) (apply_event (lv_state l) event) event s,
       ru_bases = B', ru_done = U'\<rparr>"
    by (intro exI [of _ "insert l B"] exI [of _ "insert (?l, event) U"]) auto
qed

text \<open>
  A notification is delivered in order when every row that the snapshot of the hub is missing, up to
  the one announced, holds no event of a client.
\<close>

definition in_order :: "nat \<Rightarrow> string \<Rightarrow> int \<Rightarrow> 'j server \<Rightarrow> bool" where
  "in_order h sid sq s \<longleftrightarrow>
     (\<exists>l rs r event. current_live h s = Some l \<and> er_seq r = sq \<and> row_message r = Some event \<and>
        rows_between er_seq (lv_seq l) (sq + 1) (log_rows sid (sv_db s)) = rs @ [r] \<and>
        (\<forall>x \<in> set rs. er_seq x < sq \<and> row_message x = None))"

lemma performs_deliver:
  assumes "in_order h sid sq s" shows "performs E h sid s (deliver E h sid sq s)"
proof -
  from assms obtain l rs r event where l: "current_live h s = Some l" and sq: "er_seq r = sq" and
    event: "row_message r = Some event" and
    rows: "rows_between er_seq (lv_seq l) (er_seq r + 1) (log_rows sid (sv_db s)) = rs @ [r]"
      "\<forall>x \<in> set rs. er_seq x < er_seq r" "\<forall>x \<in> set rs. row_message x = None"
    unfolding in_order_def by blast
  from list_one_event [OF rows(1,2)] obtain more where more:
    "sort_key er_seq (filter (\<lambda>x. er_session x = sid \<and> sq - 1 < er_seq x) (hd_events (sv_db s))) = r # more"
    unfolding sq by blast
  obtain got s1 where run: "run_db (list_events sid (Some (sq - 1)) (Some 1)) E s = (got, s1)" by fastforce
  have s1: "got = Inl Sqlx \<or> got = Inr [r]" "s1 = s\<lparr>sv_db := with_statements (Suc (statements_run (sv_db s))) (sv_db s)\<rparr>"
    using run more
    by (auto simp: run_db_def list_events_def hub_statement_def Let_def with_statements_def split: if_splits)
  have hushed: "hushed h sid s s1" unfolding s1(2) by (rule hushed_hub_same) simp_all
  have "performs E h sid s1 (store_and_broadcast E h sid sq (apply_event (lv_state l) event) event s1)"
    using performs_fetched [of h s1 l r sid rs event E] l rows event by (simp add: s1(2) sq)
  with s1(1) run event l performs_trans [OF performs_quiet [OF hushed_quiet [OF hushed]]]
    performs_quiet [OF hushed_quiet [OF hushed]]
  show ?thesis by (auto simp: deliver_def warm_snap_def s1(2))
qed

lemma performs_notification:
  assumes "sv_hubs s sid = Some h" "in_order h sid sq s"
  shows "performs E h sid s (on_notification E (Notice_event sid sq replica) s)"
  using assms(1) performs_deliver [OF assms(2)] by (simp add: on_notification_def performs_refl)

end
