(* ===== verification/Hub_Properties.thy ===== *)
theory Hub_Properties
  imports Hub_Refinement
begin

text \<open>
  Properties of the hub of a session: its snapshots are projections of the event log under every
  interleaving, commands are runs of the hub machine, what a vote does, who is shown what, what a
  snapshot rebuilt from the tables agrees on, and what an event written on a cold hub loses.
\<close>

section \<open>Snapshots are projections of the log\<close>

text \<open>
  C12 (every snapshot is a projection of the log): from a session whose snapshot at \<open>q0\<close> is \<open>z0\<close>,
  after any run of the hub machine every clean snapshot row and the snapshot in the hub are, up to the
  attachment and the roles of the members, the fold of exactly the events up to their own number. The
  runs interleave handlers of this and of other replicas (bases that are read and used later, results
  that are stored late or out of order), rows of the session machine, numbers that are burned,
  presence patches, loads, and notifications of other replicas that are delivered in order. They do
  not contain a notification that is delivered twice or out of order (\<open>redelivery_duplicates\<close>), an
  event that is committed without a snapshot (\<open>cold_hub_forgets\<close>) and the dirty row that a revocation
  writes, after which the snapshot is rebuilt from the tables.
\<close>

theorem snapshots_are_projections:
  assumes "hub_steps E h sid u u'" "run_ok h sid q0 z0 u"
  shows "(\<forall>r \<in> set (snap_rows sid (sv_db (ru_server u'))). q0 \<le> ss_seq r \<longrightarrow> \<not> ss_dirty r \<and>
            (\<exists>s. ss_state r = Snapshot_json s \<and>
               blur s = blur (reference sid q0 z0 (ss_seq r) (sv_db (ru_server u'))))) \<and>
         (\<forall>l. current_live h (ru_server u') = Some l \<longrightarrow>
            blur (lv_state l) = blur (reference sid q0 z0 (lv_seq l) (sv_db (ru_server u'))))"
  using hub_steps_ok [OF assms] by (auto simp: run_ok_def session_log_ok_def faithful_row_def faithful_def)

text \<open>
  C13 (a command commits its event once and does nothing else): on a warm hub every command of a
  connection, every event that a route emits, every approval that a route creates and every vote of a
  route commits at most one event to the log of the session. It is the event that answers the command,
  or the refusal when the rate limit is exceeded; it is committed on the snapshot of the hub with its
  number, its row and its snapshot row, and its result is stored and broadcast exactly once. Otherwise
  the log, the numbers, the snapshot rows and the snapshot of the hub stay as they were and the
  channels receive no message but a notice of a resolution or of a focus. The event is committed
  whenever no statement fails, the session has numbers, and the command is due: the status of the
  session admits it and the approval it claims or cancels is there (transfers and votes, whose commit
  depends on more, are only shown to commit at most once; for votes see \<open>hub_vote_decides\<close>). Each of
  these operations is in particular a run of the hub machine.
\<close>

theorem commands_refine_hub_machine:
  assumes "sv_hubs s sid = Some h" "warm h s"
  shows "once (due E h sid (wm_payload msg) s) E h sid (response E sid actor (wm_payload msg) s) s
            (dispatch_command E h sid actor role msg s) \<and>
         once (ready E sid s) E h sid (\<lambda>q. q = wm_payload msg) s (emit_to_session E sid actor msg s) \<and>
         (case add_secs (he_pg E) (utc_now E s) (sint timeout) of
            None \<Rightarrow> snd (create_approval_for_session E sid actor tname args timeout s) = s
          | Some expires \<Rightarrow>
              once (ready E sid s) E h sid
                (\<lambda>q. q = WsApprovalRequested (head_now E sid actor s) (ulid (he_pg E) (ticks_of s)) tname
                       (wants_to_call actor tname) actor (Some expires) args) s
                (snd (create_approval_for_session E sid actor tname args timeout s))) \<and>
         once False E h sid (announces E sid actor aid s) s (snd (vote_on_approval E sid actor aid v s)) \<and>
         (\<forall>s' \<in> {dispatch_command E h sid actor role msg s, emit_to_session E sid actor msg s,
             snd (create_approval_for_session E sid actor tname args timeout s),
             snd (vote_on_approval E sid actor aid v s)}. performs E h sid s s')"
proof -
  from assms(2) obtain l where l: "current_live h s = Some l" by (rule warmE)
  note d = once_dispatch [OF assms(2), of E sid msg actor role]
    and e = once_emit [OF assms(1) l, of E msg actor]
    and c = once_create_approval [OF assms(1) l, of E timeout _ actor tname args]
    and v = once_vote_on_approval [OF assms, of E actor aid v]
  from d e v c show ?thesis
    by (cases "add_secs (he_pg E) (utc_now E s) (sint timeout)")
      (simp_all add: create_approval_panics performs_refl once_performs [OF d] once_performs [OF e]
        once_performs [OF c] once_performs [OF v])
qed

definition run_commands ::
  "'j hub_env \<Rightarrow> nat \<Rightarrow> string \<Rightarrow> (string \<times> string \<times> 'j ws_message) list \<Rightarrow> 'j server \<Rightarrow> 'j server" where
  "run_commands E h sid cmds s = foldl (\<lambda>t (actor, role, msg). dispatch_command E h sid actor role msg t) s cmds"

lemma run_commands_performs: "warm h s \<Longrightarrow> performs E h sid s (run_commands E h sid cmds s)"
proof (induction cmds arbitrary: s)
  case (Cons c cmds)
  obtain actor role msg where c: "c = (actor, role, msg)" by (cases c) auto
  have p: "performs E h sid s (dispatch_command E h sid actor role msg s)"
    by (rule performs_dispatch [OF Cons.prems])
  from performs_trans [OF p Cons.IH [OF performs_warm [OF p Cons.prems]]]
  show ?case by (simp add: run_commands_def c)
qed (simp add: run_commands_def performs_refl)

text \<open>
  C14 (commands keep the snapshot): after any list of commands of any actors, malformed or refused
  ones and failing statements included, the hub still has a snapshot, and that snapshot and the
  snapshot that a restart would load are, up to the attachment and the roles of the members, the fold
  of the log.
\<close>

theorem commands_keep_snapshot:
  assumes "run_ok h sid q0 z0 \<lparr>ru_server = s, ru_bases = {}, ru_done = {}\<rparr>" "warm h s"
    and "s' = run_commands E h sid cmds s"
  shows "(\<exists>l. current_live h s' = Some l \<and>
            blur (lv_state l) = blur (reference sid q0 z0 (lv_seq l) (sv_db s'))) \<and>
         (\<forall>r l s''. load_live E sid s' = (r, s'') \<longrightarrow> r = Some l \<longrightarrow>
            blur (lv_state l) = blur (reference sid q0 z0 (lv_seq l) (sv_db s')))"
proof -
  have p: "performs E h sid s s'" using run_commands_performs [OF assms(2)] by (simp add: assms(3))
  then obtain B U where "hub_steps E h sid \<lparr>ru_server = s, ru_bases = {}, ru_done = {}\<rparr>
      \<lparr>ru_server = s', ru_bases = B, ru_done = U\<rparr>" unfolding performs_def by blast
  from hub_steps_ok [OF this assms(1)]
  have ok: "session_log_ok sid q0 z0 (sv_db s')" "\<forall>l. current_live h s' = Some l \<longrightarrow> faithful sid q0 z0 (sv_db s') l"
    by (simp_all add: run_ok_def)
  obtain l where "current_live h s' = Some l" using performs_warm [OF p assms(2)] by (rule warmE)
  moreover have "blur (lv_state l') = blur (reference sid q0 z0 (lv_seq l') (sv_db s'))"
    if "load_live E sid s' = (Some l', s'')" for l' s''
    using load_live_faithful [OF ok(1) that] by (simp add: faithful_def)
  ultimately show ?thesis using ok(2) by (auto simp: faithful_def)
qed

section \<open>Who is shown what\<close>

definition arguments_hidden :: "'j \<Rightarrow> 'j ws_message \<Rightarrow> bool" where
  "arguments_hidden jnull m \<longleftrightarrow>
     (case wm_payload m of
        WsApprovalRequested h aid tname summ requested expires args \<Rightarrow> args = jnull
      | WsApprovalContested h aid vs pending \<Rightarrow> vs = []
      | _ \<Rightarrow> False)"

definition may_see :: "'j hub_env \<Rightarrow> string \<Rightarrow> 'j hub_db \<Rightarrow> (string \<times> nat) list \<Rightarrow> nat \<times> 'j ws_message \<Rightarrow> bool" where
  "may_see E sid d senders cm \<longleftrightarrow>
     (case min_role_of (wm_payload (snd cm)) of
        None \<Rightarrow> True
      | Some r \<Rightarrow>
          \<exists>actor. (actor, fst cm) \<in> set senders \<and>
            (satisfies (role_in (members_of sid d) actor) r \<or>
             arguments_hidden (j_null (he_host E)) (snd cm)))"

lemma redact_hides:
  "redact jnull m = Some m' \<Longrightarrow> arguments_hidden jnull m' \<and> min_role_of (wm_payload m') = min_role_of (wm_payload m)"
  by (auto simp: redact_def arguments_hidden_def min_role_of_def split: ws_payload.splits)

lemma gated_is_collaborator: "min_role_of p = Some r \<Longrightarrow> r = Collaborator"
  by (auto simp: min_role_of_def min_role_for_type_def split: if_splits)

lemma no_roles_no_full: "\<not> satisfies (role_in [] actor) Collaborator"
  by (simp add: role_in_def satisfies_def)

lemma delivered_visible:
  assumes "cm \<in> set (hub_deliveries E ms m hb)" "ms = [] \<or> ms = members_of sid d"
  shows "may_see E sid d (hb_senders hb) cm"
proof (cases "min_role_of (wm_payload m)")
  case None
  with assms(1) show ?thesis by (auto simp: hub_deliveries_def may_see_def)
next
  case (Some r)
  with assms(1) obtain actor c where a: "(actor, c) \<in> set (hb_senders hb)" and
    cm: "(if satisfies (role_in ms actor) r then Some (c, m)
          else map_option (\<lambda>m. (c, m)) (redact (j_null (he_host E)) m)) = Some cm"
    by (auto simp: hub_deliveries_def gated_sends_def List.map_filter_def)
  show ?thesis
  proof (cases "satisfies (role_in ms actor) r")
    case True
    then have "ms = members_of sid d"
      using assms(2) gated_is_collaborator [OF Some] no_roles_no_full by blast
    with True cm a Some show ?thesis by (auto simp: may_see_def)
  next
    case False
    with cm obtain m' where "redact (j_null (he_host E)) m = Some m'" "cm = (c, m')" by auto
    with redact_hides [of "j_null (he_host E)" m m'] a Some show ?thesis by (auto simp: may_see_def)
  qed
qed

text \<open>
  C17 (nobody below the bar is shown arguments or votes): whatever a step of the hub machine puts into
  the channel of a connection, a message of a gated type either goes to the connection of an actor
  whose membership, as it is in the tables at that moment, is a collaborator's or an owner's, or has
  its arguments or votes removed; when the memberships cannot be read, nobody gets the full message.
\<close>

theorem gated_needs_role:
  assumes "hub_step E h sid u u'"
  shows "\<exists>new. hb_sent (sv_objects (ru_server u') h) = hb_sent (sv_objects (ru_server u) h) @ new \<and>
           (\<forall>cm \<in> set new. may_see E sid (sv_db (ru_server u)) (hb_senders (sv_objects (ru_server u) h)) cm)"
  using assms
proof (cases rule: hub_step.cases)
  case (Load l s')
  then have "sv_objects s' = sv_objects (ru_server u)"
    by (auto simp: load_live_def run_db_def split: prod.splits sum.splits)
  with Load(1) show ?thesis by simp
next
  case (Store l stamped)
  from store_and_broadcast_effect [of E h sid "lv_seq l" "lv_state l" stamped "ru_server u"]
  obtain ms where "ms = [] \<or> ms = members_of sid (sv_db (ru_server u))"
    "hb_sent (sv_objects (store_and_broadcast E h sid (lv_seq l) (lv_state l) stamped (ru_server u)) h) =
       hb_sent (sv_objects (ru_server u) h) @ hub_deliveries E ms stamped (sv_objects (ru_server u) h)" by metis
  with Store(1) delivered_visible show ?thesis by fastforce
next
  case (Presence actor attached role)
  then show ?thesis
    by (auto simp: broadcast_presence_def Let_def may_see_def make_event_def min_role_of_def
        min_role_for_type_def GATED_TYPES_def)
next
  case (Quiet s')
  then show ?thesis by (auto simp: quiet_def may_see_def ungated_def list_all_iff)
qed auto

section \<open>Votes\<close>

text \<open>What follows the transaction of a vote runs statements and sends, and changes no table.\<close>

definition idle :: "nat \<Rightarrow> 'j server \<Rightarrow> 'j server \<Rightarrow> bool" where
  "idle h s t \<longleftrightarrow> (\<exists>k. sv_db t = with_statements k (sv_db s)) \<and> current_live h t = current_live h s"

lemma with_statements_twice [simp]: "with_statements k (with_statements j d) = with_statements k d"
  by (simp add: with_statements_def)

lemma with_statements_self: "\<exists>k. d = with_statements k d"
  by (rule exI [of _ "statements (hd_store d)"]) (simp add: with_statements_def)

lemma idle_refl: "idle h s s"
  using with_statements_self [of "sv_db s"] by (auto simp: idle_def)

lemma idle_trans: "idle h s t \<Longrightarrow> idle h t u \<Longrightarrow> idle h s u"
  by (auto simp: idle_def)

lemma idle_same: "sv_db t = sv_db s \<Longrightarrow> sv_objects t h = sv_objects s h \<Longrightarrow> idle h s t"
  using with_statements_self [of "sv_db s"] by (auto simp: idle_def current_live_def)

lemma idle_read:
  assumes "run_db (hub_statement (\<lambda>now d. (f now d, d))) E s = (r, t)" shows "idle h s t"
  using assms by (auto simp: run_db_def hub_statement_def Let_def idle_def split: if_splits)

lemma idle_ops:
  "idle h s (feed x ev s)" "idle h s (announce n s)" "idle h s (notify_resolved E aid dec s)"
  "idle h s (ack_delegation E aid st s)" "idle h s (send_resolved E h a aid dec w s)"
proof -
  have feed: "idle h t (feed y e t)" for t y e by (rule idle_same) (simp_all add: feed_def)
  have announce: "idle h t (announce n t)" for t n by (rule idle_same) (simp_all add: announce_def)
  show "idle h s (feed x ev s)" "idle h s (announce n s)" by (rule feed, rule announce)
  obtain r t where r: "run_db (hub_statement (\<lambda>now d. (Inr (), d))) E s = (r :: db_error + unit, t)" by fastforce
  show "idle h s (notify_resolved E aid dec s)"
    using idle_read [OF r, of h] idle_trans [OF idle_read [OF r] announce] r
    by (auto simp: notify_resolved_def split: sum.split)
  obtain r2 t2 where r2: "run_db (get_by_target_approval aid) E s = (r2, t2)" by fastforce
  have i2: "idle h s t2" by (rule idle_read [OF r2 [unfolded get_by_target_approval_def]])
  show "idle h s (ack_delegation E aid st s)"
    using r2 i2 idle_trans [OF i2 feed] idle_refl [of h s]
    by (auto simp: ack_delegation_def split: sum.split option.split)
  show "idle h s (send_resolved E h a aid dec w s)"
    using with_statements_self [of "sv_db s"]
    by (auto simp: idle_def send_resolved_def current_live_modify send_to_def current_live_def split: option.split)
qed

lemmas idle_after =
  idle_trans [OF _ idle_ops(1)] idle_trans [OF _ idle_ops(3)] idle_trans [OF _ idle_ops(4)]
  idle_trans [OF _ idle_ops(5)]

lemma settled_closed: "st \<in> {ASApproved, ASDenied} \<Longrightarrow> \<not> open_in sid aid (settled now actor st q)"
  by (auto simp: settled_def open_in_def open_state_def)

lemma find_settled:
  assumes "st \<in> {ASApproved, ASDenied}"
  shows "find (open_in sid aid) (map (\<lambda>r. if open_in sid aid r then settled now actor st (f r) else r) rows) = None"
  by (auto simp: find_None_iff settled_closed [OF assms])

lemma outcome_payloads:
  "outcome_payload E sid actor aid votes st s =
     (if st = ASApproved then Some (WsApprovalGranted (head_now E sid actor s) aid)
      else if st = ASDenied then Some (WsApprovalDenied (head_now E sid actor s) aid None)
      else if st = ASContested then Some (WsApprovalContested (head_now E sid ''system'' s) aid votes ''owner'')
      else None)"
  by (simp add: outcome_payload_def split: approval_state.split)

lemma drops_approval:
  assumes "p = WsApprovalGranted env aid \<or> p = WsApprovalDenied env aid reason"
  shows "aid \<notin> pa_approval_id ` set (sn_pending_approvals (apply_event st (stamp_seq (make_event E s p) n)))"
  using assms
  by (auto simp: apply_event_def stamp_seq_def make_event_def stamp_payload_def project_def drop_approval_def)

text \<open>
  C15 (a vote is recorded and decides): a vote that is applied found an open approval of this session;
  it replaces the voter's earlier vote, the ballot is judged by the session's policy over the owners
  and collaborators, and the row is closed, contested or left open as the judgement says. A decided
  approval is closed in the table and gone from the snapshot of the hub, which carries the number of
  the deciding event; an undecided vote appends no event.
\<close>

theorem hub_vote_decides:
  assumes live: "current_live h s = Some l" and n: "next_number sid (sv_db s) = Some n" "lv_seq l < n"
    and vote: "handle_vote E h sid actor aid v s = (Vote_applied, s')"
  shows "\<exists>q now st. find (open_in sid aid) (approval_rows (hd_store (sv_db s))) = Some q \<and>
     st = evaluate (fst (vote_policy (Some l)))
            (parse_votes (AList.update actor (vote_str v) (aq_votes q))) (snd (vote_policy (Some l))) \<and>
     approval_rows (hd_store (sv_db s')) =
       map (\<lambda>r. if open_in sid aid r then settled now actor st (with_vote actor v r) else r)
         (approval_rows (hd_store (sv_db s))) \<and>
     (st \<in> {ASApproved, ASDenied} \<longrightarrow>
        find (open_in sid aid) (approval_rows (hd_store (sv_db s'))) = None \<and>
        (\<exists>l'. current_live h s' = Some l' \<and> lv_seq l' = n \<and>
              aid \<notin> pa_approval_id ` set (sn_pending_approvals (lv_state l')))) \<and>
     (st \<notin> {ASApproved, ASDenied, ASContested} \<longrightarrow> same_log sid (sv_db s) (sv_db s'))"
proof -
  let ?m = "vote_in_tx E sid actor aid v (vote_policy (Some l)) (Some l) s"
  obtain got s2 where run: "run_db (hub_transaction ?m) E s = (got, s2)" by fastforce
  note hv = vote [unfolded handle_vote_def Let_def live warm_snap_warm [OF live] prod.case run]
  from hv obtain q' st sent where got: "got = Inr (q', st, sent)"
    by (cases got) (auto split: db_error.splits)
  define s3 where "s3 = (case sent of None \<Rightarrow> s2
      | Some (sq, new_snap, ev) \<Rightarrow> store_and_broadcast E h sid sq new_snap ev s2)"
  have s': "idle h s3 s'"
    using hv unfolding got s3_def [symmetric]
    by (auto split: option.splits intro!: idle_after idle_refl simp flip: s3_def)
  obtain d' where d': "hub_transaction ?m (he_pg E) (sv_db s) = (Inr (q', st, sent), d')" "s2 = s\<lparr>sv_db := d'\<rparr>"
    using run got by (auto simp: run_db_def split: prod.splits)
  then obtain j k d2 where tx: "?m (he_pg E) (with_statements j (sv_db s)) = (Inr (q', st, sent), d2)"
    and k: "d' = with_statements k d2" by (cases rule: hub_transaction_cases) auto
  from vote_in_tx_Inr [OF tx] obtain q now where
    q: "find (open_in sid aid) (approval_rows (hd_store (sv_db s))) = Some q" "q' = with_vote actor v q" and
    st: "st = evaluate (fst (vote_policy (Some l))) (parse_votes (aq_votes q')) (snd (vote_policy (Some l)))" and
    rows: "approval_rows (hd_store d2) =
       map (\<lambda>q. if open_in sid aid q then settled now actor st (with_vote actor v q) else q)
         (approval_rows (hd_store (sv_db s)))" and
    sent: "case outcome_payload E sid actor aid (parse_votes (aq_votes q')) st s of
       None \<Rightarrow> sent = None \<and> same_log sid (with_statements j (sv_db s)) d2
     | Some p \<Rightarrow> \<exists>r. sent = Some r \<and> committed sid l (make_event E s p) (with_statements j (sv_db s)) r d2"
    by (auto simp: with_statements_def)
  have mid: "(\<exists>k. sv_db s3 = with_statements k d2) \<and> current_live h s3 = (case sent of None \<Rightarrow> Some l
      | Some (sq, snap, ev) \<Rightarrow> hb_snapshot (store_live \<lparr>lv_seq = sq, lv_state = snap\<rparr> (sv_objects s h)))"
  proof (cases sent)
    case None
    then show ?thesis using live by (auto simp: s3_def d'(2) k)
  next
    case (Some r)
    obtain sq snap ev where r: "r = (sq, snap, ev)" by (cases r) auto
    from store_and_broadcast_effect [of E h sid sq snap ev s2]
    obtain k' where "sv_db (store_and_broadcast E h sid sq snap ev s2) = with_statements k' (sv_db s2)"
      "hb_snapshot (sv_objects (store_and_broadcast E h sid sq snap ev s2) h) =
         hb_snapshot (store_live \<lparr>lv_seq = sq, lv_state = snap\<rparr> (sv_objects s2 h))" by metis
    then show ?thesis by (auto simp: s3_def Some r d'(2) k current_live_def)
  qed
  have db: "\<exists>k. sv_db s' = with_statements k d2" and cur: "current_live h s' = current_live h s3"
    using s' mid by (auto simp: idle_def)
  have rows': "approval_rows (hd_store (sv_db s')) =
       map (\<lambda>r. if open_in sid aid r then settled now actor st (with_vote actor v r) else r)
         (approval_rows (hd_store (sv_db s)))"
    using db rows by (auto simp: with_statements_def)
  have decided: "find (open_in sid aid) (approval_rows (hd_store (sv_db s'))) = None \<and>
        (\<exists>l'. current_live h s' = Some l' \<and> lv_seq l' = n \<and>
              aid \<notin> pa_approval_id ` set (sn_pending_approvals (lv_state l')))"
    if d: "st \<in> {ASApproved, ASDenied}"
  proof -
    obtain p where p: "outcome_payload E sid actor aid (parse_votes (aq_votes q')) st s = Some p"
      "p = WsApprovalGranted (head_now E sid actor s) aid \<or> p = WsApprovalDenied (head_now E sid actor s) aid None"
      using d by (auto simp: outcome_payloads)
    from sent p(1) obtain r where r: "sent = Some r"
      "committed sid l (make_event E s p) (with_statements j (sv_db s)) r d2" by auto
    obtain sq snap ev where r3: "r = (sq, snap, ev)" by (cases r) auto
    have sq: "sq = n" and snap: "\<exists>b. snap = apply_event b (stamp_seq (make_event E s p) sq)"
      using r(2) n(1) by (auto simp: committed_def r3)
    have "current_live h s' = Some \<lparr>lv_seq = sq, lv_state = snap\<rparr>"
      using cur mid r(1) r3 live n(2) sq by (auto simp: store_live_def current_live_def split: option.splits)
    moreover have "aid \<notin> pa_approval_id ` set (sn_pending_approvals snap)"
    proof -
      obtain b where b: "snap = apply_event b (stamp_seq (make_event E s p) sq)" using snap by blast
      show ?thesis unfolding b by (rule drops_approval [OF p(2)])
    qed
    ultimately show ?thesis
      unfolding rows' using find_settled [OF d, of sid aid now actor "with_vote actor v"] sq by simp
  qed
  have open_still: "same_log sid (sv_db s) (sv_db s')" if "st \<notin> {ASApproved, ASDenied, ASContested}"
    using that sent db by (auto simp: outcome_payloads same_log_def)
  show ?thesis
    using q st rows' decided open_still by (intro exI [of _ q] exI [of _ now] exI [of _ st])
      (auto simp: with_vote_def)
qed

text \<open>
  C16 (a closed approval cannot be voted on): where the session has no open approval of that
  identifier (decided, expired, cancelled, or of another session) a vote is answered as rejected or
  failed, and nothing changes: no table, no snapshot, no event, no message, nothing to the task.
\<close>

theorem closed_approval_rejects:
  assumes "warm h s" "find (open_in sid aid) (approval_rows (hd_store (sv_db s))) = None"
    and "handle_vote E h sid actor aid v s = (outcome, s')"
  shows "outcome \<noteq> Vote_applied \<and> (\<exists>k. s' = s\<lparr>sv_db := with_statements k (sv_db s)\<rparr>)"
proof -
  from assms(1) obtain l where l: "current_live h s = Some l" by (rule warmE)
  let ?m = "vote_in_tx E sid actor aid v (vote_policy (Some l)) (Some l) s"
  obtain got s2 where run: "run_db (hub_transaction ?m) E s = (got, s2)" by fastforce
  have fails: "\<not> (\<exists>y d2. ?m (he_pg E) (with_statements j (sv_db s)) = (Inr y, d2))" for j
  proof
    assume "\<exists>y d2. ?m (he_pg E) (with_statements j (sv_db s)) = (Inr y, d2)"
    then obtain q st sent d2 where
      "?m (he_pg E) (with_statements j (sv_db s)) = (Inr (q, st, sent), d2)" by auto
    then show False using assms(2) by (elim vote_in_tx_Inr) (simp add: with_statements_def)
  qed
  have "\<exists>e k. got = Inl e \<and> s2 = s\<lparr>sv_db := with_statements k (sv_db s)\<rparr>"
    using run fails by (auto simp: run_db_def split: prod.splits elim!: hub_transaction_cases)
  then obtain e k where "got = Inl e" "s2 = s\<lparr>sv_db := with_statements k (sv_db s)\<rparr>" by blast
  with assms(3) run show ?thesis
    by (cases e) (auto simp: handle_vote_def Let_def l warm_snap_warm [OF l])
qed

section \<open>A snapshot rebuilt from the tables\<close>

lemma rebuilt:
  assumes "build_snapshot_from_tables pr sid X d = (Inr (sq, st), d')"
  shows "sn_context st = fold_context_from_events (sort_key er_seq (filter (\<lambda>r. 0 < er_seq r) (log_rows sid d)))"
    "down X (statements (hd_store d) + 5) \<or> sq = (case next_number sid d of None \<Rightarrow> 0 | Some n \<Rightarrow> n - 1)"
proof -
  from assms show "sn_context st = fold_context_from_events
      (sort_key er_seq (filter (\<lambda>r. 0 < er_seq r) (log_rows sid d)))"
    "down X (statements (hd_store d) + 5) \<or> sq = (case next_number sid d of None \<Rightarrow> 0 | Some n \<Rightarrow> n - 1)"
    by (auto simp: build_snapshot_from_tables_def db_bind_def db_attempt_def db_return_def get_session_def
        list_artifacts_def list_events_def list_memberships_def list_pending_def last_allocated_def
        hub_statement_def statement_def on_store_def Let_def with_statements_def statements_run_def log_rows_def
        next_number_def filter_filter conj_commute eval_nat_numeral split: if_splits option.splits prod.splits sum.splits)
qed

text \<open>
  C18 (rebuilding loses no context): a snapshot that is built from the tables has the same context
  entries, in the same order and with the same resolutions, as the snapshot that the hub maintained
  event by event, and is stamped with the same number, when the hub is up to date and the last
  statement of the rebuild does not fail.
\<close>

theorem rebuild_agrees_on_context:
  assumes ok: "run_ok h sid 0 z0 u" and z0: "sn_context z0 = []"
    and live: "current_live h (ru_server u) = Some l" "next_number sid (sv_db (ru_server u)) = Some (lv_seq l + 1)"
    and built: "build_snapshot_from_tables pr sid X (sv_db (ru_server u)) = (Inr (sq, st), d')"
    and up: "\<not> down X (statements (hd_store (sv_db (ru_server u))) + 5)"
  shows "sn_context st = sn_context (lv_state l) \<and> sq = lv_seq l"
proof -
  let ?rows = "log_rows sid (sv_db (ru_server u))"
  have f: "faithful sid 0 z0 (sv_db (ru_server u)) l" and below: "\<forall>r \<in> set ?rows. er_seq r < lv_seq l + 1"
    using ok live by (auto simp: run_ok_def session_log_ok_def)
  have all: "filter (\<lambda>r. 0 < er_seq r \<and> er_seq r < lv_seq l + 1) ?rows = filter (\<lambda>r. 0 < er_seq r) ?rows"
    using below by (auto intro!: filter_cong)
  have "sn_context (lv_state l) = sn_context (reference sid 0 z0 (lv_seq l) (sv_db (ru_server u)))"
    using f by (simp add: faithful_def blur_eq_iff)
  also have "\<dots> = sn_context (fold_rows (sort_key er_seq (filter (\<lambda>r. 0 < er_seq r) ?rows)) z0)"
    unfolding reference_log rows_between_def fold_rows_def all ..
  also have "\<dots> = sn_context st"
    using rebuilt(1) [OF built] by (simp add: context_fold_rows z0 fold_context_from_events_def)
  finally show ?thesis using rebuilt(2) [OF built] up live(2) by simp
qed

section \<open>The shape of a projection\<close>

text \<open>Members, pending approvals and artifacts are kept under distinct identifiers.\<close>

definition well_formed_snapshot :: "'j session_snapshot \<Rightarrow> bool" where
  "well_formed_snapshot s \<longleftrightarrow>
     distinct (map sm_actor_id (sn_members s)) \<and>
     distinct (map pa_approval_id (sn_pending_approvals s)) \<and>
     distinct (map as_id (sn_artifacts s))"

lemma map_key_modify_first:
  "(\<And>x. k (f x) = k x) \<Longrightarrow> map k (modify_first P f xs) = map k xs"
  by (induction xs) simp_all

lemma map_key_if: "(\<And>x. k (f x) = k x) \<Longrightarrow> map k (map (\<lambda>x. if P x then f x else x) xs) = map k xs"
  by simp

lemma distinct_filter_key: "distinct (map k xs) \<Longrightarrow> distinct (map k (filter P xs))"
  by (induction xs) auto

lemma wf_join_member:
  "well_formed_snapshot s \<Longrightarrow> well_formed_snapshot (join_member a r n s)"
  by (auto simp: join_member_def modify_member_def well_formed_snapshot_def map_key_modify_first list_ex_iff)

lemma wf_join_as_owner: "well_formed_snapshot s \<Longrightarrow> well_formed_snapshot (join_as_owner a n s)"
proof -
  have "map sm_actor_id (map (\<lambda>m. if sm_role m = Owner \<and> sm_actor_id m \<noteq> a
          then m\<lparr>sm_role := Collaborator\<rparr> else m) xs) = map sm_actor_id xs"
    for xs :: "session_member list" by (rule map_key_if) simp
  then show "well_formed_snapshot s \<Longrightarrow> well_formed_snapshot (join_as_owner a n s)"
    by (simp add: join_as_owner_def well_formed_snapshot_def del: map_map)
qed

lemma wf_modify_member:
  "(\<And>m. sm_actor_id (f m) = sm_actor_id m) \<Longrightarrow> well_formed_snapshot s \<Longrightarrow> well_formed_snapshot (modify_member a f s)"
  by (simp add: modify_member_def well_formed_snapshot_def map_key_modify_first)

lemma wf_snapshot_parts:
  assumes "well_formed_snapshot s"
  shows "well_formed_snapshot (drop_approval aid s)"
    "(\<And>a. pa_approval_id (f a) = pa_approval_id a) \<Longrightarrow> well_formed_snapshot (modify_approval aid f s)"
    "well_formed_snapshot (s\<lparr>sn_owner := new, sn_members := map (role_after_transfer old new) (sn_members s)\<rparr>)"
    "well_formed_snapshot (s\<lparr>sn_status := st\<rparr>)" "well_formed_snapshot (s\<lparr>sn_context := c\<rparr>)"
    "well_formed_snapshot (s\<lparr>sn_artifacts := filter P (sn_artifacts s)\<rparr>)"
    "well_formed_snapshot (s\<lparr>sn_artifacts := modify_first Q (\<lambda>a. a\<lparr>as_name := n\<rparr>) (sn_artifacts s)\<rparr>)"
proof -
  have "map sm_actor_id (map (role_after_transfer old new) xs) = map sm_actor_id xs" for xs
    by (simp add: role_after_transfer_def)
  with assms show "well_formed_snapshot (s\<lparr>sn_owner := new, sn_members := map (role_after_transfer old new) (sn_members s)\<rparr>)"
    by (simp add: well_formed_snapshot_def del: map_map)
  assume f: "\<And>a. pa_approval_id (f a) = pa_approval_id a"
  have "map pa_approval_id (map (\<lambda>a. if pa_approval_id a = aid then f a else a) xs) = map pa_approval_id xs" for xs
    by (rule map_key_if) (rule f)
  with assms show "well_formed_snapshot (modify_approval aid f s)"
    by (simp add: well_formed_snapshot_def modify_approval_def del: map_map)
qed (use assms in \<open>auto simp: well_formed_snapshot_def drop_approval_def distinct_filter_key map_key_modify_first\<close>)

lemma wf_project:
  assumes "well_formed_snapshot s" shows "well_formed_snapshot (project p s)"
proof (cases p)
  case (WsActorJoined h role n)
  have "well_formed_snapshot (if r = Owner then join_as_owner (ws_actor h) n s else s)" for r
    by (cases "r = Owner") (simp_all add: assms wf_join_as_owner [OF assms])
  then show ?thesis unfolding WsActorJoined project_def ws_payload.case Let_def by (rule wf_join_member)
next
  case (WsApprovalRequested h aid tname summ requested expires args)
  show ?thesis unfolding WsApprovalRequested project_def ws_payload.case
    using assms by (auto simp: well_formed_snapshot_def list_ex_iff)
next
  case (WsArtifactCreated h i n ty)
  show ?thesis unfolding WsArtifactCreated project_def ws_payload.case
    using assms by (auto simp: well_formed_snapshot_def list_ex_iff)
next
  case (WsActorDetached h)
  show ?thesis unfolding WsActorDetached project_def ws_payload.case
    by (rule wf_modify_member [OF _ assms]) simp
next
  case (WsAgentStatusChanged h st)
  show ?thesis unfolding WsAgentStatusChanged project_def ws_payload.case
    by (rule wf_modify_member [OF _ assms]) simp
next
  case (WsApprovalClaimed h aid)
  show ?thesis unfolding WsApprovalClaimed project_def ws_payload.case by (rule wf_snapshot_parts [OF assms]) simp
next
  case (WsApprovalContested h aid vs pending)
  show ?thesis unfolding WsApprovalContested project_def ws_payload.case by (rule wf_snapshot_parts [OF assms]) simp
qed (simp_all only: project_def ws_payload.case assms wf_snapshot_parts [OF assms])

text \<open>
  C19 (a snapshot keeps its shape): whatever rows the log holds, in whatever order, duplicated or
  foreign, folding them into a snapshot whose members, pending approvals and artifacts have distinct
  identifiers gives such a snapshot again; so does every presence patch.
\<close>

theorem projection_well_formed:
  assumes "well_formed_snapshot s"
  shows "well_formed_snapshot (fold_rows rows s) \<and> well_formed_snapshot (patch_attached pr s)"
proof
  show "well_formed_snapshot (fold_rows rows s)"
    using assms unfolding fold_rows_def
  proof (induction rows arbitrary: s)
    case (Cons r rows)
    have "well_formed_snapshot (apply_row s r)"
      using Cons.prems by (simp add: apply_row_def apply_event_def wf_project split: option.split)
    from Cons.IH [OF this] show ?case by simp
  qed simp
  show "well_formed_snapshot (patch_attached pr s)"
    using assms by (cases pr) (simp_all add: patch_attached_def well_formed_snapshot_def comp_def)
qed

section \<open>An event on a cold hub\<close>

text \<open>
  C20 (a cold hub loses the snapshot): when the hub of a session is registered and has no snapshot
  (as every revocation leaves it, \<open>crates/server/src/routes/epoch.rs\<close>) and no database statement
  fails, an event emitted from a route persists and publishes a blank snapshot: it makes the emitting
  actor the owner and has no member, no pending approval, no artifact and no context entry, whatever
  the session's last snapshot held. If the session's older snapshot rows have numbers below the next
  one, then as long as no further snapshot row is written every load of the session, by this replica
  or another, returns that blank snapshot.
\<close>

theorem cold_hub_forgets:
  assumes hub: "sv_hubs s sid = Some h" "current_live h s = None"
    and n: "next_number sid (sv_db s) = Some n"
    and up: "\<And>i. \<not> down (he_pg E) i"
  shows "\<exists>st. snap_rows sid (sv_db (emit_to_session E sid actor event s)) = snap_rows sid (sv_db s) @
            [\<lparr>ss_session = sid, ss_seq = n, ss_state = Snapshot_json st, ss_dirty = False, ss_stale_since = None\<rparr>] \<and>
          current_live h (emit_to_session E sid actor event s) = Some \<lparr>lv_seq = n, lv_state = st\<rparr> \<and>
          sn_owner st = actor \<and> sn_members st = [] \<and> sn_pending_approvals st = [] \<and>
          sn_artifacts st = [] \<and> sn_context st = [] \<and>
          ((\<forall>r \<in> set (snap_rows sid (sv_db s)). ss_seq r < n) \<longrightarrow>
           (\<forall>later. snap_rows sid (sv_db later) = snap_rows sid (sv_db (emit_to_session E sid actor event s)) \<longrightarrow>
             fst (load_live E sid later) = Some \<lparr>lv_seq = n, lv_state = st\<rparr>))"
proof -
  define name_policy where "name_policy = (case find (\<lambda>r. se_id r = sid) (hd_sessions (sv_db s)) of
      None \<Rightarrow> ([], ''single_vote'') | Some r \<Rightarrow> (se_name r, se_policy r))"
  define st :: "'a session_snapshot" where "st =
     \<lparr>sn_owner = actor, sn_owner_name = [], sn_status = StatusActive, sn_name = fst name_policy,
      sn_approval_policy = snd name_policy, sn_members = [], sn_pending_approvals = [],
      sn_artifacts = [], sn_context = []\<rparr>"
  obtain d' where tx: "hub_transaction (db_bind (db_return ()) (\<lambda>x. db_bind (stamp_append_snapshot None sid actor event)
        (\<lambda>r. db_return (x, r)))) (he_pg E) (sv_db s) = (Inr ((), n, st, stamp_seq event n), d')"
    and snaps: "snap_rows sid d' = snap_rows sid (sv_db s) @
       [\<lparr>ss_session = sid, ss_seq = n, ss_state = Snapshot_json st, ss_dirty = False, ss_stale_since = None\<rparr>]"
    using n up
    by (simp add: hub_transaction_def hub_tx_body_def db_bind_def db_return_def on_store_def begin_tx_def
        stamp_append_snapshot_def alloc_seq_def append_row_def append_event_def blank_snapshot_def
        insert_in_tx_def insert_snapshot_def next_number_def snap_rows_def with_statements_def
        statements_run_def Let_def st_def name_policy_def split_def)
  define s2 where "s2 = notify_session E sid n (s\<lparr>sv_db := d'\<rparr>)"
  have s2: "sv_hubs s2 sid = Some h" "sv_objects s2 = sv_objects s" "snap_rows sid (sv_db s2) = snap_rows sid d'"
    using hub(1) up by (simp_all add: s2_def notify_session_def run_db_def announce_def split_def)
  have "emit_to_session E sid actor event s = store_and_broadcast E h sid n st (stamp_seq event n) s2"
    using tx hub s2(1)
    by (simp add: emit_to_session_def commit_outside_def outside_base_def run_db_def publish_def s2_def)
  with store_and_broadcast_effect [of E h sid n st "stamp_seq event n" s2] obtain k where
    "sv_db (emit_to_session E sid actor event s) = with_statements k (sv_db s2)"
    "current_live h (emit_to_session E sid actor event s) =
       hb_snapshot (store_live \<lparr>lv_seq = n, lv_state = st\<rparr> (sv_objects s2 h))"
    unfolding current_live_def by metis
  then have rows: "snap_rows sid (sv_db (emit_to_session E sid actor event s)) = snap_rows sid (sv_db s) @
        [\<lparr>ss_session = sid, ss_seq = n, ss_state = Snapshot_json st, ss_dirty = False, ss_stale_since = None\<rparr>]"
    and live: "current_live h (emit_to_session E sid actor event s) = Some \<lparr>lv_seq = n, lv_state = st\<rparr>"
    using snaps s2 hub(2) by (simp_all add: store_live_def current_live_def)
  have "fst (load_live E sid later) = Some \<lparr>lv_seq = n, lv_state = st\<rparr>"
    if "\<forall>r \<in> set (snap_rows sid (sv_db s)). ss_seq r < n"
      and "snap_rows sid (sv_db later) = snap_rows sid (sv_db (emit_to_session E sid actor event s))"
    for later :: "'a server"
    using load_live_newest [OF that(2) [unfolded rows] that(1) up]
    by (simp add: st_def patch_attached_def split: option.splits)
  with rows live show ?thesis by (intro exI [of _ st]) (simp add: st_def)
qed

end
