(* ===== verification/Hub_Sample.thy ===== *)
theory Hub_Sample
  imports Hub_Properties Sample
begin

text \<open>
  A small hub on which the hypotheses of its properties hold, and concrete runs of the behaviours that
  the components' notes report: one session with an owner, a collaborator and an observer, one pending
  approval, a snapshot at number 0, and a connection of each member.
\<close>

definition hub_pg :: "json pg" where
  "hub_pg =
     \<lparr>down = (\<lambda>_. False), pg_now = int, ulid = (\<lambda>n. replicate n (CHR ''i'')),
      add_secs = (\<lambda>t k. Some (t + k)), strings_json = (\<lambda>ps. JNull), json_array = (\<lambda>j. None),
      json_text = (\<lambda>j. None)\<rparr>"

definition hub_world :: "json hub_env" where
  "hub_world =
     \<lparr>he_pg = hub_pg, he_host = sample_host, he_msg_id = (\<lambda>n. ''m''), he_instant = (\<lambda>n. n),
      he_ms_between = (\<lambda>a b. a - b), he_transfer_to = (\<lambda>_. None), he_transfer_at = (\<lambda>_. None),
      he_replica = ''here''\<rparr>"

definition hub_approval :: "string \<Rightarrow> string \<Rightarrow> json approval_row" where
  "hub_approval i sid =
     \<lparr>aq_id = i, aq_session = sid, aq_actor = ''bot'', aq_tool = ''shell'', aq_args = JStr ''rm'',
      aq_state = ''Pending'', aq_votes = [], aq_resolved_by = None, aq_created = 0, aq_timeout = None,
      aq_resolved_at = None\<rparr>"

definition hub_tables :: "json store" where
  "hub_tables =
     \<lparr>tokens = [], epochs = Map.empty, revocations = [], receipts = [], methods = [],
      approval_rows = [hub_approval ''ap'' ''s'', hub_approval ''other'' ''t''], descriptors = [],
      memberships = [(''s'', ''ann'', ''owner''), (''s'', ''bob'', ''collaborator''), (''s'', ''eve'', ''observer'')],
      event_seqs = Map.empty, next_seqs = [''s'' \<mapsto> 1], statements = 0\<rparr>"

definition hub_member :: "string \<Rightarrow> member_role \<Rightarrow> session_member" where
  "hub_member a r = \<lparr>sm_actor_id = a, sm_name = a, sm_role = r, sm_attached = True, sm_status = None\<rparr>"

definition hub_start :: "json session_snapshot" where
  "hub_start =
     \<lparr>sn_owner = ''ann'', sn_owner_name = ''ann'', sn_status = StatusActive, sn_name = ''plan'',
      sn_approval_policy = ''single_vote'',
      sn_members = [hub_member ''ann'' Owner, hub_member ''bob'' Collaborator, hub_member ''eve'' Observer],
      sn_pending_approvals =
        [\<lparr>pa_approval_id = ''ap'', pa_tool = ''shell'', pa_requested_by = ''bot'', pa_state = ASPending,
          pa_votes = [], pa_claimed_by = None, pa_expires_at = None, pa_arguments = JStr ''rm''\<rparr>],
      sn_artifacts = [], sn_context = []\<rparr>"

definition hub_tables_all :: "json hub_db" where
  "hub_tables_all =
     \<lparr>hd_store = hub_tables, hd_events = [],
      hd_snapshots = [\<lparr>ss_session = ''s'', ss_seq = 0, ss_state = Snapshot_json hub_start, ss_dirty = False,
                       ss_stale_since = None\<rparr>],
      hd_sessions = [\<lparr>se_id = ''s'', se_name = ''plan'', se_policy = ''single_vote'', se_status = ''active''\<rparr>],
      hd_artifacts = [], hd_delegations = []\<rparr>"

definition hub_server :: "json live option \<Rightarrow> json server" where
  "hub_server l =
     \<lparr>sv_db = hub_tables_all, sv_hubs = [''s'' \<mapsto> 0],
      sv_objects = (\<lambda>_. \<lparr>hb_snapshot = l, hb_conns = [(1, ''ann''), (2, ''bob''), (3, ''eve'')],
                         hb_senders = [(''ann'', 1), (''bob'', 2), (''eve'', 3)], hb_sent = [],
                         hb_fenced = Map.empty, hb_heartbeats = []\<rparr>),
      sv_fresh = 1, sv_tasks = [''s''], sv_fed = [], sv_limits = Map.empty, sv_notices = []\<rparr>"

definition hub_live :: "json live" where
  "hub_live = \<lparr>lv_seq = 0, lv_state = hub_start\<rparr>"

definition hub_ready :: "json server" where
  "hub_ready = hub_server (Some hub_live)"

lemma hub_ready_facts:
  "sv_hubs hub_ready ''s'' = Some 0" "current_live 0 hub_ready = Some hub_live" "warm 0 hub_ready"
  "next_number ''s'' (sv_db hub_ready) = Some 1" "lv_seq hub_live < 1"
  by (simp_all add: hub_ready_def hub_server_def current_live_def warm_def next_number_def
      hub_tables_all_def hub_tables_def hub_live_def)

definition hub_idle :: "json hub_run" where
  "hub_idle = \<lparr>ru_server = hub_ready, ru_bases = {}, ru_done = {}\<rparr>"

lemma hub_idle_ok: "run_ok 0 ''s'' 0 hub_start hub_idle"
proof -
  have rows: "log_rows ''s'' hub_tables_all = []" "next_number ''s'' hub_tables_all = Some 1"
    "snap_rows ''s'' hub_tables_all = [\<lparr>ss_session = ''s'', ss_seq = 0, ss_state = Snapshot_json hub_start,
       ss_dirty = False, ss_stale_since = None\<rparr>]"
    by (simp_all add: log_rows_def snap_rows_def next_number_def hub_tables_all_def hub_tables_def)
  have ref: "reference ''s'' 0 hub_start 0 hub_tables_all = hub_start"
    by (simp add: reference_log rows rows_between_def)
  show ?thesis
    by (simp add: run_ok_def session_log_ok_def faithful_row_def faithful_def rows ref hub_idle_def hub_ready_def
        hub_server_def hub_live_def current_live_def)
qed

definition hub_post :: "json ws_message" where
  "hub_post = \<lparr>wm_id = ''1'', wm_payload = WsMessagePost ''s'' ''hello''\<rparr>"

lemma hub_post_due: "due hub_world 0 ''s'' (wm_payload hub_post) hub_ready"
  using hub_ready_facts(2,4)
  by (simp add: due_def ready_def hub_post_def session_status_now_def current_snap_def gate_lifecycle_def
      hub_live_def hub_start_def hub_world_def hub_pg_def)

lemma commands_refine_hub_machine_witness:
  "commits_once hub_world 0 ''s'' (response hub_world ''s'' ''bob'' (wm_payload hub_post) hub_ready) hub_ready
     (dispatch_command hub_world 0 ''s'' ''bob'' ''collaborator'' hub_post hub_ready) \<and>
   performs hub_world 0 ''s'' hub_ready
     (snd (vote_on_approval hub_world ''s'' ''ann'' ''ap'' Approve hub_ready))"
  using commands_refine_hub_machine [OF hub_ready_facts(1,3), of hub_world hub_post "''bob''" "''collaborator''"]
    commands_refine_hub_machine [OF hub_ready_facts(1,3), of hub_world _ "''ann''" _ _ _ _ "''ap''" Approve]
    hub_post_due
  by (simp add: once_def)

lemma snapshots_are_projections_witness:
  "\<exists>u. hub_steps hub_world 0 ''s'' hub_idle u \<and>
       ru_server u = snd (vote_on_approval hub_world ''s'' ''ann'' ''ap'' Approve hub_ready) \<and>
       (\<forall>l. current_live 0 (ru_server u) = Some l \<longrightarrow>
          blur (lv_state l) = blur (reference ''s'' 0 hub_start (lv_seq l) (sv_db (ru_server u))))"
proof -
  have "performs hub_world 0 ''s'' hub_ready (snd (vote_on_approval hub_world ''s'' ''ann'' ''ap'' Approve hub_ready))"
    by (rule performs_vote_on_approval [OF hub_ready_facts(1,3)])
  then obtain B U where "hub_steps hub_world 0 ''s'' hub_idle
      \<lparr>ru_server = snd (vote_on_approval hub_world ''s'' ''ann'' ''ap'' Approve hub_ready),
       ru_bases = B, ru_done = U\<rparr>"
    unfolding performs_def hub_idle_def by blast
  with snapshots_are_projections [OF this hub_idle_ok] show ?thesis by auto
qed

lemma commands_keep_snapshot_witness:
  "\<exists>l. current_live 0 (run_commands hub_world 0 ''s'' [(''bob'', ''collaborator'', hub_post)] hub_ready) = Some l \<and>
       blur (lv_state l) = blur (reference ''s'' 0 hub_start (lv_seq l)
         (sv_db (run_commands hub_world 0 ''s'' [(''bob'', ''collaborator'', hub_post)] hub_ready)))"
  using commands_keep_snapshot [OF hub_idle_ok [unfolded hub_idle_def] hub_ready_facts(3) refl] by blast

text \<open>A request for approval, as it is shown to the three members.\<close>

definition hub_request :: "json ws_message" where
  "hub_request =
     \<lparr>wm_id = ''1'', wm_payload = WsApprovalRequested
        \<lparr>ws_session = ''s'', ws_actor = ''bot'', ws_timestamp = 0, ws_seq = 1\<rparr> ''a2'' ''shell'' ''x'' ''bot'' None
        (JStr ''secret'')\<rparr>"

definition hub_done :: "json hub_run" where
  "hub_done = \<lparr>ru_server = hub_ready, ru_bases = {}, ru_done = {(hub_live, hub_request)}\<rparr>"

lemma gated_needs_role_witness:
  "\<exists>new. hb_sent (sv_objects (store_and_broadcast hub_world 0 ''s'' 0 hub_start hub_request hub_ready) 0) =
            hb_sent (sv_objects hub_ready 0) @ new \<and>
         (\<forall>cm \<in> set new. may_see hub_world ''s'' (sv_db hub_ready) (hb_senders (sv_objects hub_ready 0)) cm)"
proof -
  have "hub_step hub_world 0 ''s'' hub_done (hub_done\<lparr>ru_server :=
      store_and_broadcast hub_world 0 ''s'' (lv_seq hub_live) (lv_state hub_live) hub_request (ru_server hub_done)\<rparr>)"
    by (rule Store) (simp add: hub_done_def)
  from gated_needs_role [OF this] show ?thesis by (simp add: hub_done_def hub_live_def)
qed

lemma shown_to_members:
  "map (\<lambda>(c, m). (c, arguments_hidden JNull m))
     (hb_sent (sv_objects (store_and_broadcast hub_world 0 ''s'' 0 hub_start hub_request hub_ready) 0)) =
   [(1, False), (2, False), (3, True)]"
  by code_simp

lemma hub_vote_applied:
  "handle_vote hub_world 0 ''s'' ''ann'' ''ap'' Deny hub_ready =
     (Vote_applied, snd (handle_vote hub_world 0 ''s'' ''ann'' ''ap'' Deny hub_ready))"
proof -
  have "fst (handle_vote hub_world 0 ''s'' ''ann'' ''ap'' Deny hub_ready) = Vote_applied" by code_simp
  then show ?thesis by (simp add: prod_eq_iff)
qed

lemma hub_vote_decides_witness:
  "\<exists>q. find (open_in ''s'' ''ap'') (approval_rows (hd_store (sv_db hub_ready))) = Some q"
  using hub_vote_decides [OF hub_ready_facts(2,4,5) hub_vote_applied] by blast

lemma closed_approval_rejects_witness:
  "fst (handle_vote hub_world 0 ''s'' ''ann'' ''other'' Approve hub_ready) \<noteq> Vote_applied"
proof -
  have "find (open_in ''s'' ''other'') (approval_rows (hd_store (sv_db hub_ready))) = None" by code_simp
  from closed_approval_rejects [OF hub_ready_facts(3) this surjective_pairing] show ?thesis by blast
qed

lemma rebuild_agrees_on_context_witness:
  "\<exists>st d'. build_snapshot_from_tables None ''s'' hub_pg (sv_db hub_ready) = (Inr (0, st), d') \<and>
           sn_context st = sn_context hub_start"
proof -
  obtain r d' where r: "build_snapshot_from_tables None ''s'' hub_pg (sv_db hub_ready) = (r, d')" by fastforce
  have "case fst (build_snapshot_from_tables None ''s'' hub_pg (sv_db hub_ready)) of Inl _ \<Rightarrow> False | Inr _ \<Rightarrow> True"
    by code_simp
  then obtain sq st where st: "r = Inr (sq, st)" using r by (cases r) auto
  have "sn_context st = sn_context (lv_state hub_live) \<and> sq = lv_seq hub_live"
  proof (rule rebuild_agrees_on_context [OF hub_idle_ok])
    show "sn_context hub_start = []" by (simp add: hub_start_def)
    show "current_live 0 (ru_server hub_idle) = Some hub_live"
      "next_number ''s'' (sv_db (ru_server hub_idle)) = Some (lv_seq hub_live + 1)"
      using hub_ready_facts by (simp_all add: hub_idle_def hub_live_def)
    show "build_snapshot_from_tables None ''s'' hub_pg (sv_db (ru_server hub_idle)) = (Inr (sq, st), d')"
      using r st by (simp add: hub_idle_def)
  qed (simp add: hub_pg_def)
  with r st show ?thesis by (auto simp: hub_live_def)
qed

lemma projection_well_formed_witness:
  "well_formed_snapshot (fold_rows [\<lparr>er_session = ''s'', er_actor = ''zoe'', er_type = ''actor.joined'',
     er_payload = Message_row \<lparr>wm_id = ''1'', wm_payload = WsActorJoined
       \<lparr>ws_session = ''s'', ws_actor = ''zoe'', ws_timestamp = 0, ws_seq = 1\<rparr> (Some Owner) None\<rparr>,
     er_seq = 1\<rparr>] hub_start)"
proof -
  have "well_formed_snapshot hub_start" by (simp add: well_formed_snapshot_def hub_start_def hub_member_def)
  from projection_well_formed [OF this] show ?thesis by blast
qed

lemma cold_hub_forgets_witness:
  "\<exists>st. current_live 0 (emit_to_session hub_world ''s'' ''bob'' hub_post (hub_server None)) =
          Some \<lparr>lv_seq = 1, lv_state = st\<rparr> \<and> sn_owner st = ''bob'' \<and> sn_members st = [] \<and>
        fst (load_live hub_world ''s'' (emit_to_session hub_world ''s'' ''bob'' hub_post (hub_server None))) =
          Some \<lparr>lv_seq = 1, lv_state = st\<rparr>"
proof -
  have "sv_hubs (hub_server None) ''s'' = Some 0" "current_live 0 (hub_server None) = None"
    "next_number ''s'' (sv_db (hub_server None)) = Some 1" "\<not> down (he_pg hub_world) i" for i
    by (simp_all add: hub_server_def current_live_def next_number_def hub_tables_all_def hub_tables_def
        hub_world_def hub_pg_def)
  moreover have "\<forall>r \<in> set (snap_rows ''s'' (sv_db (hub_server None))). ss_seq r < 1"
    by (simp add: hub_server_def hub_tables_all_def snap_rows_def)
  ultimately show ?thesis using cold_hub_forgets [of "hub_server None" "''s''" 0 1 hub_world "''bob''" hub_post] by blast
qed

section \<open>Behaviours worth knowing\<close>

definition hub_command :: "string \<Rightarrow> string \<Rightarrow> json ws_payload \<Rightarrow> json server" where
  "hub_command actor actor_role p =
     dispatch_command hub_world 0 ''s'' actor actor_role \<lparr>wm_id = ''1'', wm_payload = p\<rparr> hub_ready"

definition approval_states :: "json server \<Rightarrow> (string \<times> string) list" where
  "approval_states s = map (\<lambda>q. (aq_id q, aq_state q)) (approval_rows (hd_store (sv_db s)))"

text \<open>An observer claims an approval of another session, and cancels one of her own session.\<close>

lemma claim_crosses_sessions:
  "approval_states (hub_command ''eve'' ''observer'' (WsApprovalClaim ''s'' ''other'' ''eve'')) =
     [(''ap'', ''Pending''), (''other'', ''Claimed'')]"
  by code_simp

lemma observer_cancels:
  "approval_states (hub_command ''eve'' ''observer'' (WsApprovalCancel ''s'' ''ap'' None)) =
     [(''ap'', ''Expired''), (''other'', ''Pending'')]"
  by code_simp

text \<open>A transfer to an actor without a membership leaves no owner; one that does not start at the owner, two.\<close>

lemma transfer_without_owner:
  "map snd (members_of ''s'' (snd (on_store (transfer_ownership_in_tx ''s'' ''ann'' ''zed'') hub_pg hub_tables_all))) =
     [''collaborator'', ''collaborator'', ''observer'']"
  by code_simp

lemma transfer_two_owners:
  "map snd (members_of ''s'' (snd (on_store (transfer_ownership_in_tx ''s'' ''bob'' ''eve'') hub_pg hub_tables_all))) =
     [''owner'', ''collaborator'', ''owner'']"
  by code_simp

text \<open>
  A request that names a decided approval: its row stays decided, and the snapshot lists it as pending.
\<close>

definition hub_decided :: "json server" where
  "hub_decided =
     (hub_server (Some \<lparr>lv_seq = 0, lv_state = hub_start\<lparr>sn_pending_approvals := []\<rparr>\<rparr>))
       \<lparr>sv_db := hub_tables_all
         \<lparr>hd_store := hub_tables\<lparr>approval_rows := [(hub_approval ''ap'' ''s'')\<lparr>aq_state := ''Denied''\<rparr>]\<rparr>\<rparr>\<rparr>"

definition hub_rerequested :: "json server" where
  "hub_rerequested =
     snd (commit_with hub_world 0 ''s'' ''bot'' (current_live 0 hub_decided)
       (on_store (insert_approval ''ap'' ''s'' ''bot'' ''shell'' JNull None))
       (make_event hub_world hub_decided (WsApprovalRequested (head_now hub_world ''s'' ''bot'' hub_decided)
          ''ap'' ''shell'' ''x'' ''bot'' None JNull)) hub_decided)"

definition pending_ids :: "json live option \<Rightarrow> string list" where
  "pending_ids l = (case l of None \<Rightarrow> [] | Some x \<Rightarrow> map pa_approval_id (sn_pending_approvals (lv_state x)))"

lemma decided_approval_reappears:
  "approval_states hub_rerequested = [(''ap'', ''Denied'')]"
  "pending_ids (current_live 0 hub_rerequested) = [''ap'']"
  by (code_simp, code_simp)

text \<open>
  The delivery of another replica's event to a cold hub applies it to a snapshot that holds it already.
\<close>

definition hub_note :: "json ws_message" where
  "hub_note =
     \<lparr>wm_id = ''n'', wm_payload = WsContextEntryAdded
        \<lparr>ws_session = ''s'', ws_actor = ''bob'', ws_timestamp = 0, ws_seq = 1\<rparr> ''e'' Fact ''ship'' None\<rparr>"

definition hub_behind :: "json server" where
  "hub_behind =
     (hub_server None)\<lparr>sv_db := hub_tables_all
       \<lparr>hd_events := [\<lparr>er_session = ''s'', er_actor = ''bob'', er_type = ''context.entry.added'',
                       er_payload = Message_row hub_note, er_seq = 1\<rparr>],
        hd_snapshots := hd_snapshots hub_tables_all @
          [\<lparr>ss_session = ''s'', ss_seq = 1, ss_state = Snapshot_json (apply_event hub_start hub_note),
            ss_dirty = False, ss_stale_since = None\<rparr>]\<rparr>\<rparr>"

lemma redelivery_duplicates:
  "map_option (\<lambda>l. map ce_id (sn_context (lv_state l))) (current_live 0 (deliver hub_world 0 ''s'' 1 hub_behind)) =
     Some [''e'', ''e'']"
  by code_simp

text \<open>An approval that expires while no hub is registered stays pending in the snapshot.\<close>

definition hub_absent :: "json server" where
  "hub_absent =
     (hub_server None)\<lparr>sv_hubs := Map.empty, sv_db := hub_tables_all
       \<lparr>hd_store := hub_tables\<lparr>approval_rows := [(hub_approval ''ap'' ''s'')\<lparr>aq_timeout := Some (- 1)\<rparr>]\<rparr>\<rparr>\<rparr>"

lemma expiry_without_hub:
  "approval_states (sweep_expired_approvals hub_world hub_absent) = [(''ap'', ''Expired'')]"
   "pending_ids (fst (load_live hub_world ''s'' (sweep_expired_approvals hub_world hub_absent))) = [''ap'']"
  by (code_simp, code_simp)

text \<open>Events that keep the number they came with.\<close>

lemma unstamped_events:
  "stamp_payload sq (WsSessionRenamed h a b) = WsSessionRenamed h a b"
  "stamp_payload sq (WsEpochAdvanced h e) = WsEpochAdvanced h e"
  "stamp_payload sq (WsFileWriteAttested h w) = WsFileWriteAttested h w"
  "stamp_payload sq (WsProposalCommitted h i k f x y) = WsProposalCommitted h i k f x y"
  by (simp_all add: stamp_payload_def)

end
