(* ===== verification/Spec2Isabelle.thy ===== *)
theory Spec2Isabelle
  imports Protocol_Properties Session_Properties Snapshot_Properties Capability_Properties Broker_Sample
    Approval_Properties Saga_Properties Bundle_Properties Runtime_Properties Lease_Properties
    Reflector_Properties Rate_Limit_Properties Import_Properties Intent_Properties Hub_Sample
begin

text \<open>
  Verification of Solarplex, a server on which people and agents work in shared sessions: they vote
  on approvals, delegate capabilities, invoke tools under them, exchange bundles between sessions and
  run multi-step sagas. This header maps the program to the theories. Paths are relative to
  \<open>crates/\<close>.

  \<^bold>\<open>The program.\<close> Each session is an actor (\<open>server/src/session_task.rs\<close>): a mailbox of 256
  messages, a control state, a working memory, armed timers and a connection to the event journal. An
  iteration receives one \<open>InboundEvent\<close>, hands it to the pure function \<open>transition\<close>
  (\<open>session/src/transition.rs\<close>) and performs the effects it returns. \<open>transition\<close> has two halves:
  \<open>apply_live\<close> reads the memory and answers a request with effects, and \<open>apply_logged\<close> folds an
  event of the journal into the memory. An effect \<open>Persist\<close> appends to the journal and then folds
  the event; so what a session knows is what its journal says, and a restart replays it. Bundles for
  other sessions go through the reflector (\<open>server/src/reflector.rs\<close>), which keeps them in a log,
  serialises conflicting work with leases (\<open>server/src/lease.rs\<close>) and forwards to the replica that
  owns the target session. Clients are connected to the hub of the session (\<open>server/src/ws.rs\<close>): it
  holds a snapshot, commits each command as an event together with the snapshot behind it, feeds the
  session's task, and broadcasts the event to the connections whose role may see it.

  Beside the session actors stands the broker: HTTP handlers over database tables that mint, delegate
  and revoke capabilities, admit a tool invocation against a capability, the standing policies and a
  quota, and issue receipts that a tool server consumes once. Its capabilities can also come from
  text in the authority language, and some of the user's commands are recognised in plain text.

  \<^bold>\<open>Data and tools.\<close>
  \<^item> \<open>Prelude\<close>: failures and results, host calls, generic lemmas, and the locales
    \<open>invariant_machine\<close> and \<open>monotone_machine\<close> (invariants and one-way changes of a machine that
    may fail). \<open>Btree\<close>: \<open>BTreeMap\<close> as a list in key order, the locale \<open>ordered_map\<close> of its laws.
  \<^item> \<open>Protocol_Types\<close>: \<open>protocol/src/types.rs\<close>. \<open>Events\<close>: \<open>session/src/events.rs\<close>, every
    variant of \<open>SessionEvent\<close> with its algebra masks. \<open>Effects\<close>: \<open>effects.rs\<close>, \<open>state.rs\<close> and
    \<open>inbound.rs\<close> of \<open>session/src\<close>. \<open>Memory\<close>: \<open>session/src/memory.rs\<close>.
  \<^item> \<open>Sample\<close>: the concrete parameters on which properties with hypotheses are exercised.

  \<^bold>\<open>The session machine.\<close>
  \<^item> \<open>Saga\<close>: the reducers of \<open>session/src/saga.rs\<close>; the trait \<open>SagaProtocol\<close> is the locale
    \<open>saga_protocol\<close>, interpreted for the approval, the transfer and the dispatched protocol.
  \<^item> \<open>Logged\<close>: \<open>apply_logged\<close>, one definition per arm. \<open>Live\<close>: the handlers of \<open>apply_live\<close>
    that concern one session. \<open>Coordination\<close>: sagas and bundles between sessions. \<open>Transition\<close>:
    timers, the dispatch and \<open>transition\<close>.
  \<^item> \<open>Frames\<close> and \<open>Durable\<close>: what each half may write and what a live event leaves alone.
    \<open>Well_Formed\<close>: the invariant of the memory. \<open>Authority\<close>: who may cause a record that carries
    authority.
  \<^item> \<open>Session_Broadcast\<close>: \<open>to_ws_payload\<close> of \<open>server/src/session_broadcast.rs\<close>.

  \<^bold>\<open>The runtime.\<close>
  \<^item> \<open>Runtime\<close>: \<open>session_task.rs\<close>; a task is a record, \<open>serve\<close> is one iteration, \<open>task_step\<close> the
    relation between tasks (an iteration, a client's message, a timer that fires) and \<open>reachable\<close> its
    closure. The database, the hub and the clock are the record \<open>'j runtime\<close> of parameters.
  \<^item> \<open>Runtime_Invariants\<close>: the locales \<open>task_invariant\<close> and \<open>loop_invariant\<close>, which lift a property
    of the elementary operations to the interpreter and to every reachable task. \<open>Served\<close>: from the
    effects of one transition to the memory after the iteration.
  \<^item> \<open>Lease\<close>, \<open>Reflector\<close> (with the locale \<open>catch_up_log\<close>) and \<open>Rate_Limit\<close>:
    \<open>server/src/lease.rs\<close>, \<open>server/src/reflector.rs\<close>, and \<open>session/src/rate_limit.rs\<close> with
    \<open>server/src/rate_limit.rs\<close>.

  \<^bold>\<open>The broker.\<close>
  \<^item> \<open>Cap_Store\<close>: the capability and epoch tables (\<open>db/src/tokens.rs\<close>, \<open>db/src/epochs.rs\<close>) as lists
    of rows, each SQL statement a function on them, the two recursive queries included.
    \<open>Broker_Store\<close>: methods, receipts, approval requests, descriptors and the sequence numbers of
    the event log. A statement is atomic and requests run one after another; the record \<open>'j pg\<close>
    holds what the database and the host decide (whether a statement fails, the clock, fresh
    identifiers, JSON).
  \<^item> \<open>Authority_Arena\<close>: \<open>db/src/authority_arena.rs\<close> and the transfer of ownership.
    \<open>Tool_Policy\<close>: standing policies of the server and of the shim. \<open>Invoke\<close>: the routes \<open>invoke\<close>,
    \<open>epoch\<close> and \<open>agent_caps\<close>.
  \<^item> \<open>Cap_Refinement\<close>, \<open>Cap_Operations\<close>, \<open>Cap_Trees\<close>: the table refines an abstract forest of
    capabilities. \<open>Broker_Runs\<close>: sequences of requests, with the locale \<open>table_invariant\<close>.
    \<open>Broker_Sample\<close>: a concrete database on which the properties are exercised.

  \<^bold>\<open>The authority language.\<close> \<open>Splx\<close>: the reader \<open>splx-ir/src\<close>, over a record \<open>'v sexp\<close> of the calls it
  makes on the values of \<open>lexpr\<close>. \<open>Splx_Wire\<close>: the Lisp serializer \<open>../sp-dsl/src/serializer.lisp\<close>
  and what is read back of its output. \<open>Authority_Import\<close>: \<open>db/src/authority_import.rs\<close> and its route.

  \<^bold>\<open>Commands.\<close> \<open>Grammar\<close>: vocabulary, compiler and matcher of \<open>intent/src\<close>, over a record \<open>'f rustfst\<close>
  of the calls on the automaton library; \<open>Grammar_Correct\<close>: the compiled automaton accepts the
  language of its expression. \<open>Intent\<close>: tokens, slots, intents and the resolution of names.

  \<^bold>\<open>The hub.\<close>
  \<^item> \<open>Ws_Messages\<close>: \<open>protocol/src/messages.rs\<close> and \<open>server/src/event_visibility.rs\<close>. \<open>Projection\<close>:
    \<open>apply_event\<close> and \<open>stamp_seq\<close> of \<open>server/src/ws.rs\<close>. \<open>Hub_Store\<close>: the tables of events,
    snapshots, sessions, artifacts and delegations beside those of the broker, writing an event with
    its snapshot, loading and rebuilding a snapshot. \<open>Hub\<close>: the record \<open>'j server\<close> of hubs (objects
    that connections refer to), tasks and limits; broadcasts and commits. \<open>Hub_Commands\<close>: the
    handlers of \<open>dispatch\<close>, the writers outside a connection, the sweeps and
    \<open>server/src/notifier.rs\<close>. A handler runs without interruption here.
  \<^item> \<open>Projection_Laws\<close>: the locale \<open>log_projection\<close> (a fold of a log seen through a view that every
    row respects: catching up from a stale state), interpreted for the snapshot, the snapshot without
    attachment and roles, and the context entries. \<open>Hub_Runs\<close>: the hub as a machine whose steps
    interleave (\<open>hub_step\<close>: reads, commits on stale bases, late stores, events of other replicas
    delivered in order, presence, rows of the session machine, burned numbers) and its invariant. It
    has no step for a notification out of order, for a commit without a snapshot and for the dirty row
    of a revocation; \<open>redelivery_duplicates\<close> and \<open>cold_hub_forgets\<close> show what those do. \<open>Hub_Once\<close>:
    what it means to commit at most one event and do nothing else (\<open>once\<close>), and the runs of the
    machine that follow from it (\<open>performs\<close>). \<open>Hub_Refinement\<close>: each handler does that.
    \<open>Hub_Sample\<close>: a concrete hub.

  \<^bold>\<open>What is shown.\<close> The theories named \<open>_Properties\<close> hold the properties, each with its claim
  number. \<open>Approval_Properties\<close>: votes, timeouts and disconnects end to end, the quorum rules and the
  agreement of their three implementations. \<open>Saga_Properties\<close>: an ack moves a saga, a saga
  completes, a rejection compensates in reverse, timeouts, delegation. \<open>Capability_Properties\<close>:
  revocation, fencing, the subtree traversal. \<open>Bundle_Properties\<close>: gates, grants, deferral, cold
  start. \<open>Runtime_Properties\<close>: the memory mirrors the journal, the memory is well formed, only the
  log moves the control state. \<open>Session_Properties\<close> and \<open>Snapshot_Properties\<close>: event sourcing, the
  cached snapshot, eligible approvers. \<open>Lease_Properties\<close>, \<open>Reflector_Properties\<close>,
  \<open>Rate_Limit_Properties\<close>, \<open>Protocol_Properties\<close>: exclusion and fencing tokens, delivery, quotas,
  entity handles. \<open>Authority_Properties\<close>: attenuation, revocation of subtrees, transfer.
  \<open>Invoke_Properties\<close> and \<open>Broker_Properties\<close>: what an admitted invocation had to show, receipts,
  epochs, and the refinement of whole runs of requests. \<open>Splx_Properties\<close>, \<open>Import_Properties\<close>: the
  reader inverts the serializer; what an import mints. \<open>Intent_Properties\<close>: recognition, slots,
  names. \<open>Hub_Properties\<close>: snapshots are projections of the log, votes, visibility, rebuilding, cold
  hubs. Lemmas that show a defect of the code stand beside them.

  \<^bold>\<open>Conventions.\<close> The model is the release build: integers wrap and \<open>debug_assert!\<close> is absent. An
  operation that can panic or run for ever returns a result whose \<open>Inl\<close> says so. Loops that need not
  end (the capability traversals) are \<open>partial_function (option)\<close>. JSON values, dates and hash maps
  are parameters with the operations the code calls on them. The effect interpreter is recursive; the
  model gives it depth 2, and \<open>depth_irrelevant\<close> shows that no greater depth changes an answer.

  \<^bold>\<open>Limits.\<close> An iteration of the task and an operation of the lease manager or the limiter is atomic
  here; in the program a lease draws its token before it locks its entry. A transaction of the broker
  is atomic. \<open>Authority::transfer\<close> is modelled although no handler calls it.

  \<^bold>\<open>Not modelled.\<close> Serialisation by serde; the routes and queries other than those above, which
  list and edit rows; sign-in; the connection loop of a WebSocket (tickets, attaching, close codes);
  deletion of old capability and snapshot rows; the reflector's Postgres listener and placement heartbeat; the side effects of a persisted
  event on other sessions; the arena of the task (its contents never reach a result); and the command
  line client, the sidecar proxy, the guardian sandbox, the tracing part of the shim and the secret
  store, which drive processes and terminals.
\<close>

end
